(* ===== verification/Go_Base.thy ===== *)
theory Go_Base
  imports Main "HOL-Library.AList" "HOL-Library.Word" "HOL-Library.List_Lexorder" "HOL-Library.Char_ord"
    "HOL-Library.Product_Lexorder"
begin

section \<open>What the Go sources use of the language and its standard library\<close>

text \<open>
  Shared by every component theory:
  \<^item> Go strings are byte strings (\<^typ>\<open>string\<close>). The \<^verbatim>\<open>strings\<close> functions are modelled on
    ASCII, where Go takes its ASCII fast path: \<open>trim_space\<close> (the six ASCII space bytes), \<open>to_lower\<close>,
    \<open>to_upper\<close> and \<open>equal_fold\<close> (the letters A-Z/a-z). Code points beyond ASCII are left unchanged,
    so statements about case folding are about ASCII text.
  \<^item> \<^verbatim>\<open>error\<close> values (\<open>go_error\<close>) with the sentinels of the sources, \<^verbatim>\<open>fmt.Errorf\<close> with and without
    \<^verbatim>\<open>%w\<close>, \<^verbatim>\<open>errors.Is\<close> (\<open>errors_is\<close>) and results \<open>go_error + 'a\<close>.
  \<^item> Go maps are association lists with distinct keys; the order of the list is the order in which
    a \<^verbatim>\<open>range\<close> loop visits the entries, which Go leaves open, so statements hold for every order.
  \<^item> \<^verbatim>\<open>time.Time\<close> is the number of nanoseconds since Go's zero time: \<^verbatim>\<open>IsZero\<close> is \<open>t = 0\<close>,
    \<^verbatim>\<open>UTC()\<close> keeps the instant. \<^verbatim>\<open>int\<close> is \<^typ>\<open>int\<close>, with \<open>wrap64\<close> where an addition can overflow.
\<close>

named_theorems norm_simps \<open>normal forms of trimmed and lower-cased strings\<close>
named_theorems result_simps \<open>results that are or are not errors\<close>
named_theorems map_simps \<open>lookups after updates of Go maps\<close>

type_synonym time = int

definition zero_time :: time where
  "zero_time = 0"

definition wrap64 :: "int \<Rightarrow> int" where
  "wrap64 i = (i + 2 ^ 63) mod 2 ^ 64 - 2 ^ 63"

subsection \<open>Strings\<close>

definition is_space :: "char \<Rightarrow> bool" where
  "is_space c = (c \<in> set [CHR 0x20, CHR 0x09, CHR 0x0A, CHR 0x0B, CHR 0x0C, CHR 0x0D])"

definition trim_space :: "string \<Rightarrow> string" where
  "trim_space s = rev (dropWhile is_space (rev (dropWhile is_space s)))"

definition lower_table :: "(char \<times> char) list" where
  "lower_table = zip ''ABCDEFGHIJKLMNOPQRSTUVWXYZ'' ''abcdefghijklmnopqrstuvwxyz''"

definition upper_table :: "(char \<times> char) list" where
  "upper_table = zip ''abcdefghijklmnopqrstuvwxyz'' ''ABCDEFGHIJKLMNOPQRSTUVWXYZ''"

definition lower_char :: "char \<Rightarrow> char" where
  "lower_char c = (case map_of lower_table c of None \<Rightarrow> c | Some d \<Rightarrow> d)"

definition upper_char :: "char \<Rightarrow> char" where
  "upper_char c = (case map_of upper_table c of None \<Rightarrow> c | Some d \<Rightarrow> d)"

definition to_lower :: "string \<Rightarrow> string" where
  "to_lower s = map lower_char s"

definition to_upper :: "string \<Rightarrow> string" where
  "to_upper s = map upper_char s"

definition equal_fold :: "string \<Rightarrow> string \<Rightarrow> bool" where
  "equal_fold s t = (to_lower s = to_lower t)"

text \<open>The combination \<^verbatim>\<open>strings.ToLower(strings.TrimSpace(s))\<close>, used for every identifier.\<close>

definition norm_key :: "string \<Rightarrow> string" where
  "norm_key s = to_lower (trim_space s)"

fun has_prefix :: "string \<Rightarrow> string \<Rightarrow> bool" where
  "has_prefix s [] = True"
| "has_prefix [] (c # p) = False"
| "has_prefix (d # s) (c # p) = (d = c \<and> has_prefix s p)"

fun contains_string :: "string \<Rightarrow> string \<Rightarrow> bool" where
  "contains_string [] p = (p = [])"
| "contains_string (c # s) p = (has_prefix (c # s) p \<or> contains_string s p)"

fun join_strings :: "string \<Rightarrow> string list \<Rightarrow> string" where
  "join_strings sep [] = []"
| "join_strings sep [s] = s"
| "join_strings sep (s # t # ts) = s @ sep @ join_strings sep (t # ts)"

text \<open>Decimal output (\<^verbatim>\<open>%d\<close>, \<^verbatim>\<open>strconv.Itoa\<close>) and quoting (\<^verbatim>\<open>%q\<close>).\<close>

definition digit_char :: "nat \<Rightarrow> char" where
  "digit_char d = (''0123456789'' ! (d mod 10))"

fun nat_string :: "nat \<Rightarrow> string" where
  "nat_string n = (if n < 10 then [digit_char n] else nat_string (n div 10) @ [digit_char (n mod 10)])"

declare nat_string.simps [simp del]

definition int_string :: "int \<Rightarrow> string" where
  "int_string i = (if i < 0 then CHR ''-'' # nat_string (nat (- i)) else nat_string (nat i))"

definition hex_char :: "nat \<Rightarrow> char" where
  "hex_char d = (''0123456789abcdef'' ! (d mod 16))"

definition quote_char :: "char \<Rightarrow> string" where
  "quote_char c =
    (if c = CHR 0x22 then [CHR 0x5C, CHR 0x22]
     else if c = CHR 0x5C then [CHR 0x5C, CHR 0x5C]
     else if c = CHR 0x07 then [CHR 0x5C, CHR ''a'']
     else if c = CHR 0x08 then [CHR 0x5C, CHR ''b'']
     else if c = CHR 0x0C then [CHR 0x5C, CHR ''f'']
     else if c = CHR 0x0A then [CHR 0x5C, CHR ''n'']
     else if c = CHR 0x0D then [CHR 0x5C, CHR ''r'']
     else if c = CHR 0x09 then [CHR 0x5C, CHR ''t'']
     else if c = CHR 0x0B then [CHR 0x5C, CHR ''v'']
     else if of_char c < (32::nat) \<or> of_char c = (127::nat) then
       [CHR 0x5C, CHR ''x'', hex_char (of_char c div 16), hex_char (of_char c mod 16)]
     else [c])"

definition quote_string :: "string \<Rightarrow> string" where
  "quote_string s = [CHR 0x22] @ concat (map quote_char s) @ [CHR 0x22]"

subsection \<open>Errors and results\<close>

datatype sentinel =
    ErrNotFound | ErrScopeRequired | ErrConflict
  | ErrQueueLimitReached | ErrPendingScanExists
  | ErrInvalidAuthzPolicyVersionBundle
  | ErrUnsupportedConnectorType | ErrInvalidConnector | ErrInvalidLifecycleTransition
  | ErrScanInProgress | ErrInvalidScanRequest | ErrScanQueueFull | ErrScanReplayUnavailable
  | ErrInvalidGitHubConnectionRequest
  | ErrAlreadyRunning | ErrContextCanceled | ErrContextDeadlineExceeded

fun sentinel_text :: "sentinel \<Rightarrow> string" where
  "sentinel_text ErrNotFound = ''record not found''"
| "sentinel_text ErrScopeRequired = ''scope is required''"
| "sentinel_text ErrConflict = ''record conflict''"
| "sentinel_text ErrQueueLimitReached = ''queue limit reached''"
| "sentinel_text ErrPendingScanExists = ''pending scan already exists''"
| "sentinel_text ErrInvalidAuthzPolicyVersionBundle = ''invalid authz policy version bundle''"
| "sentinel_text ErrUnsupportedConnectorType = ''unsupported connector type''"
| "sentinel_text ErrInvalidConnector = ''invalid connector''"
| "sentinel_text ErrInvalidLifecycleTransition = ''invalid connector lifecycle transition''"
| "sentinel_text ErrScanInProgress = ''scan already in progress''"
| "sentinel_text ErrInvalidScanRequest = ''invalid scan request''"
| "sentinel_text ErrScanQueueFull = ''scan queue is full''"
| "sentinel_text ErrScanReplayUnavailable = ''scan replay is unavailable''"
| "sentinel_text ErrInvalidGitHubConnectionRequest = ''invalid github connection request''"
| "sentinel_text ErrAlreadyRunning = ''scan already running''"
| "sentinel_text ErrContextCanceled = ''context canceled''"
| "sentinel_text ErrContextDeadlineExceeded = ''context deadline exceeded''"

text \<open>
  \<open>Wrapped pre e post\<close> is \<^verbatim>\<open>fmt.Errorf\<close> with one \<^verbatim>\<open>%w\<close>: the text before it, the wrapped error
  and the text after it.
\<close>

datatype go_error =
    Sentinel sentinel
  | ErrorText string
  | Wrapped string go_error string

fun error_text :: "go_error \<Rightarrow> string" where
  "error_text (Sentinel s) = sentinel_text s"
| "error_text (ErrorText m) = m"
| "error_text (Wrapped pre e post) = pre @ error_text e @ post"

fun errors_is :: "go_error \<Rightarrow> sentinel \<Rightarrow> bool" where
  "errors_is (Sentinel s) t = (s = t)"
| "errors_is (ErrorText m) t = False"
| "errors_is (Wrapped pre e post) t = errors_is e t"

type_synonym 'a result = "go_error + 'a"

fun rbind :: "'a result \<Rightarrow> ('a \<Rightarrow> 'b result) \<Rightarrow> 'b result" where
  "rbind (Inl e) f = Inl e"
| "rbind (Inr x) f = f x"

definition wrap_err :: "string \<Rightarrow> 'a result \<Rightarrow> 'a result" where
  "wrap_err pre r = (case r of Inl e \<Rightarrow> Inl (Wrapped (pre @ '': '') e '''') | Inr x \<Rightarrow> Inr x)"

fun is_ok :: "'a result \<Rightarrow> bool" where
  "is_ok (Inl e) = False"
| "is_ok (Inr x) = True"

subsection \<open>Maps, sets and slices\<close>

type_synonym ('k, 'v) gomap = "('k \<times> 'v) list"

definition map_put :: "'k \<Rightarrow> 'v \<Rightarrow> ('k, 'v) gomap \<Rightarrow> ('k, 'v) gomap" where
  "map_put k v m = AList.update k v m"

definition map_del :: "'k \<Rightarrow> ('k, 'v) gomap \<Rightarrow> ('k, 'v) gomap" where
  "map_del k m = AList.delete k m"

definition has_key :: "('k, 'v) gomap \<Rightarrow> 'k \<Rightarrow> bool" where
  "has_key m k = (case map_of m k of None \<Rightarrow> False | Some _ \<Rightarrow> True)"

text \<open>\<^verbatim>\<open>m[k]\<close> on a map of strings: the zero value for a missing key.\<close>

definition map_string :: "('k, string) gomap \<Rightarrow> 'k \<Rightarrow> string" where
  "map_string m k = (case map_of m k of None \<Rightarrow> '''' | Some v \<Rightarrow> v)"

text \<open>Adding to a set kept as a slice without duplicates.\<close>

definition add_unique :: "'a \<Rightarrow> 'a list \<Rightarrow> 'a list" where
  "add_unique x xs = (if x \<in> set xs then xs else xs @ [x])"

text \<open>
  The loop \<^verbatim>\<open>for _, v := range vs { item := f(v); if skip {continue}; if seen[item] {continue}; ... append }\<close>:
  \<open>f\<close> gives \<^const>\<open>None\<close> for a skipped value.
\<close>

fun collect_unique :: "('a \<Rightarrow> 'b option) \<Rightarrow> 'b list \<Rightarrow> 'a list \<Rightarrow> 'b list" where
  "collect_unique f acc [] = acc"
| "collect_unique f acc (x # xs) =
    (case f x of
       None \<Rightarrow> collect_unique f acc xs
     | Some y \<Rightarrow> collect_unique f (add_unique y acc) xs)"

definition nonempty :: "string \<Rightarrow> string option" where
  "nonempty s = (if s = '''' then None else Some s)"

definition limit_list :: "int \<Rightarrow> 'a list \<Rightarrow> 'a list" where
  "limit_list limit xs = (if 0 < limit \<and> limit < int (length xs) then take (nat limit) xs else xs)"

subsection \<open>Strings: laws\<close>

lemma trim_space_Nil [simp]: "trim_space [] = []"
  by (simp add: trim_space_def)

lemma to_lower_Nil [simp]: "to_lower [] = []"
  by (simp add: to_lower_def)

lemma to_lower_eq_Nil [simp]: "to_lower s = [] \<longleftrightarrow> s = []"
  by (simp add: to_lower_def)

lemma length_to_lower [simp]: "length (to_lower s) = length s"
  by (simp add: to_lower_def)

lemma to_upper_eq_Nil [simp]: "to_upper s = [] \<longleftrightarrow> s = []"
  by (simp add: to_upper_def)

lemma map_of_some_values: "map_of xs k = Some v \<Longrightarrow> v \<in> snd ` set xs"
  by (induction xs) (auto split: if_splits)

lemma lower_table_check:
  "list_all (\<lambda>p. map_of lower_table (snd p) = None \<and> \<not> is_space (fst p) \<and> \<not> is_space (snd p)) lower_table"
  by code_simp

lemma lower_table_disjoint: "v \<in> snd ` set lower_table \<Longrightarrow> map_of lower_table v = None"
  using lower_table_check by (auto simp: list_all_iff)

lemma lower_table_no_space:
  "p \<in> set lower_table \<Longrightarrow> \<not> is_space (fst p) \<and> \<not> is_space (snd p)"
  using lower_table_check by (auto simp: list_all_iff)

text \<open>The case tables on the bits of a character, for evaluation.\<close>

definition letter_bits :: "bool \<Rightarrow> bool \<Rightarrow> bool \<Rightarrow> bool \<Rightarrow> bool \<Rightarrow> bool" where
  "letter_bits b0 b1 b2 b3 b4 = ((b0 \<or> b1 \<or> b2 \<or> b3 \<or> b4) \<and> \<not> (b4 \<and> b3 \<and> (b2 \<or> (b1 \<and> b0))))"

lemma lower_char_code [code]:
  "lower_char (Char b0 b1 b2 b3 b4 b5 b6 b7) =
    (if \<not> b7 \<and> b6 \<and> \<not> b5 \<and> letter_bits b0 b1 b2 b3 b4 then Char b0 b1 b2 b3 b4 True b6 b7
     else Char b0 b1 b2 b3 b4 b5 b6 b7)"
  by (cases b0; cases b1; cases b2; cases b3; cases b4; cases b5; cases b6; cases b7)
    (simp_all add: lower_char_def lower_table_def letter_bits_def)

lemma upper_char_code [code]:
  "upper_char (Char b0 b1 b2 b3 b4 b5 b6 b7) =
    (if \<not> b7 \<and> b6 \<and> b5 \<and> letter_bits b0 b1 b2 b3 b4 then Char b0 b1 b2 b3 b4 False b6 b7
     else Char b0 b1 b2 b3 b4 b5 b6 b7)"
  by (cases b0; cases b1; cases b2; cases b3; cases b4; cases b5; cases b6; cases b7)
    (simp_all add: upper_char_def upper_table_def letter_bits_def)

lemma lower_char_idem [simp]: "lower_char (lower_char c) = lower_char c"
  by (auto simp: lower_char_def lower_table_disjoint [OF map_of_some_values] split: option.splits)

lemma is_space_lower [simp]: "is_space (lower_char c) = is_space c"
proof (cases "map_of lower_table c")
  case None
  then show ?thesis by (simp add: lower_char_def)
next
  case (Some d)
  then have "(c, d) \<in> set lower_table" by (rule map_of_SomeD)
  from lower_table_no_space [OF this] Some show ?thesis by (simp add: lower_char_def)
qed

lemma to_lower_idem [norm_simps, simp]: "to_lower (to_lower s) = to_lower s"
  by (simp add: to_lower_def)

lemma dropWhile_map_lower: "dropWhile is_space (map lower_char s) = map lower_char (dropWhile is_space s)"
  by (induction s) auto

lemma trim_space_to_lower [norm_simps]: "trim_space (to_lower s) = to_lower (trim_space s)"
  by (simp add: trim_space_def to_lower_def dropWhile_map_lower rev_map)

lemma dropWhile_fixed: "xs = [] \<or> \<not> P (hd xs) \<Longrightarrow> dropWhile P xs = xs"
  by (cases xs) auto

lemma hd_dropWhile_not: "dropWhile P xs = [] \<or> \<not> P (hd (dropWhile P xs))"
  using hd_dropWhile [of P xs] by blast

lemma trim_left_after_right:
  assumes "xs = [] \<or> \<not> P (hd xs)"
  shows "rev (dropWhile P (rev xs)) = [] \<or> \<not> P (hd (rev (dropWhile P (rev xs))))"
proof -
  have "rev xs = takeWhile P (rev xs) @ dropWhile P (rev xs)" by simp
  then have "xs = rev (dropWhile P (rev xs)) @ rev (takeWhile P (rev xs))"
    by (metis rev_append rev_rev_ident)
  then show ?thesis using assms by (metis Nil_is_append_conv hd_append2)
qed

lemma trim_space_idem [norm_simps, simp]: "trim_space (trim_space s) = trim_space s"
proof -
  let ?l = "dropWhile is_space s"
  let ?t = "dropWhile is_space (rev ?l)"
  have "rev ?t = [] \<or> \<not> is_space (hd (rev ?t))"
    by (rule trim_left_after_right [OF hd_dropWhile_not])
  then have left: "dropWhile is_space (rev ?t) = rev ?t" by (rule dropWhile_fixed)
  have right: "dropWhile is_space ?t = ?t"
    by (rule dropWhile_fixed) (rule hd_dropWhile_not)
  show ?thesis by (simp add: trim_space_def left right)
qed

lemma norm_key_Nil [simp]: "norm_key [] = []"
  by (simp add: norm_key_def)

lemma norm_key_idem [norm_simps, simp]: "norm_key (norm_key s) = norm_key s"
  by (simp add: norm_key_def norm_simps)

lemma trim_space_norm_key [norm_simps, simp]: "trim_space (norm_key s) = norm_key s"
  by (simp add: norm_key_def norm_simps)

lemma to_lower_norm_key [norm_simps, simp]: "to_lower (norm_key s) = norm_key s"
  by (simp add: norm_key_def)

lemma norm_key_trim_space [norm_simps, simp]: "norm_key (trim_space s) = norm_key s"
  by (simp add: norm_key_def)

lemma norm_key_eq_Nil: "norm_key s = [] \<longleftrightarrow> trim_space s = []"
  by (simp add: norm_key_def)

subsection \<open>Results: laws\<close>

lemma rbind_Inr_iff [result_simps]: "rbind r f = Inr y \<longleftrightarrow> (\<exists>x. r = Inr x \<and> f x = Inr y)"
  by (cases r) auto

lemma rbind_Inl_iff [result_simps]:
  "rbind r f = Inl e \<longleftrightarrow> r = Inl e \<or> (\<exists>x. r = Inr x \<and> f x = Inl e)"
  by (cases r) auto

lemma wrap_err_Inr_iff [result_simps, simp]: "wrap_err pre r = Inr y \<longleftrightarrow> r = Inr y"
  by (cases r) (auto simp: wrap_err_def)

lemma is_ok_iff [result_simps]: "is_ok r \<longleftrightarrow> (\<exists>x. r = Inr x)"
  by (cases r) auto

subsection \<open>Maps and slices: laws\<close>

lemma map_of_put [map_simps, simp]: "map_of (map_put k v m) = (map_of m)(k \<mapsto> v)"
  by (simp add: map_put_def update_conv')

lemma map_of_del [map_simps, simp]: "map_of (map_del k m) = (map_of m)(k := None)"
  by (simp add: map_del_def delete_conv')

lemma has_key_put [map_simps, simp]: "has_key (map_put k v m) j \<longleftrightarrow> j = k \<or> has_key m j"
  by (auto simp: has_key_def split: option.splits)

lemma has_key_iff: "has_key m k \<longleftrightarrow> (\<exists>v. map_of m k = Some v)"
  by (auto simp: has_key_def split: option.splits)

lemma has_key_dom: "has_key m k \<longleftrightarrow> k \<in> fst ` set m"
  by (simp add: has_key_def map_of_eq_None_iff split: option.split) (metis map_of_eq_None_iff option.distinct(1))

lemma map_put_fresh: "\<not> has_key m k \<Longrightarrow> map_put k v m = m @ [(k, v)]"
  by (induction m) (auto simp: has_key_iff map_put_def split: if_splits)

lemma map_put_put: "map_put k v (map_put k w m) = map_put k v m"
  by (induction m) (auto simp: map_put_def)

lemma distinct_put: "distinct (map fst m) \<Longrightarrow> distinct (map fst (map_put k v m))"
  by (simp add: map_put_def distinct_update)

lemma distinct_del: "distinct (map fst m) \<Longrightarrow> distinct (map fst (map_del k m))"
  by (simp add: map_del_def distinct_delete)

lemma set_add_unique [simp]: "set (add_unique x xs) = insert x (set xs)"
  by (auto simp: add_unique_def)

lemma distinct_add_unique: "distinct xs \<Longrightarrow> distinct (add_unique x xs)"
  by (simp add: add_unique_def)

lemma set_collect_unique:
  "set (collect_unique f acc xs) = set acc \<union> {y. \<exists>x\<in>set xs. f x = Some y}"
  by (induction f acc xs rule: collect_unique.induct) (auto split: option.splits)

lemma distinct_collect_unique: "distinct acc \<Longrightarrow> distinct (collect_unique f acc xs)"
  by (induction f acc xs rule: collect_unique.induct)
    (auto simp: distinct_add_unique split: option.splits)

lemma set_limit_list: "set (limit_list n xs) \<subseteq> set xs"
  by (auto simp: limit_list_def dest: in_set_takeD)

lemma limit_list_nonempty: "limit_list n xs = [] \<longleftrightarrow> xs = []"
  by (auto simp: limit_list_def)

lemma limit_list_id: "n \<le> 0 \<or> int (length xs) \<le> n \<Longrightarrow> limit_list n xs = xs"
  by (auto simp: limit_list_def)

subsection \<open>Decimal numbers: laws\<close>

definition digit_value :: "char \<Rightarrow> nat" where
  "digit_value c = of_char c - 48"

definition decimal_value :: "string \<Rightarrow> nat" where
  "decimal_value s = foldl (\<lambda>n c. n * 10 + digit_value c) 0 s"

lemma digit_value_char: "d < 10 \<Longrightarrow> digit_value (digit_char d) = d"
proof -
  have "list_all (\<lambda>d. digit_value (digit_char d) = d) [0..<10]" by code_simp
  then show "d < 10 \<Longrightarrow> digit_value (digit_char d) = d" by (simp add: list_all_iff)
qed

lemma decimal_value_nat_string: "decimal_value (nat_string n) = n"
proof (induction n rule: less_induct)
  case (less n)
  show ?case
  proof (cases "n < 10")
    case True
    then show ?thesis by (simp add: nat_string.simps [of n] decimal_value_def digit_value_char)
  next
    case False
    with less [of "n div 10"] show ?thesis
      by (subst nat_string.simps) (simp add: decimal_value_def digit_value_char)
  qed
qed

lemma int_string_inj:
  assumes "0 < i" "0 < j" "int_string i = int_string j"
  shows "i = j"
proof -
  from assms have "nat_string (nat i) = nat_string (nat j)" by (simp only: int_string_def) simp
  then have "decimal_value (nat_string (nat i)) = decimal_value (nat_string (nat j))" by (rule arg_cong)
  then have "nat i = nat j" by (simp only: decimal_value_nat_string)
  with assms(1,2) show ?thesis by simp
qed

end
