(* ===== verification/Scope.thy ===== *)
theory Scope
  imports Go_Base
begin

section \<open>Tenant and workspace scope (internal/db/scope.go)\<close>

text \<open>
  The tenant/workspace boundary of a request and the request context that carries it. A context is
  \<^const>\<open>None\<close> for Go's nil context and otherwise the values stored in it. Every store operation
  reads its scope with \<open>RequireScope\<close>; \<open>MatchScope\<close> and \<open>ResolveScopedWorkspaceID\<close> are the two
  tests that keep a record inside the active scope.
\<close>

record Scope =
  sc_TenantID :: string
  sc_WorkspaceID :: string

record ContextValues =
  cv_Scope :: "Scope option"
  cv_SubjectSource :: string
  cv_SubjectIssuer :: string
  cv_TraceParent :: string
  cv_TraceState :: string

type_synonym Context = "ContextValues option"

definition Background :: ContextValues where
  "Background = \<lparr>cv_Scope = None, cv_SubjectSource = '''', cv_SubjectIssuer = '''',
     cv_TraceParent = '''', cv_TraceState = ''''\<rparr>"

definition DefaultTenantID :: string where
  "DefaultTenantID = ''default''"

definition DefaultWorkspaceID :: string where
  "DefaultWorkspaceID = ''default''"

definition Normalize_Scope :: "Scope \<Rightarrow> Scope" where
  "Normalize_Scope s =
    (let tenantID = trim_space (sc_TenantID s);
         tenantID = (if tenantID = '''' then DefaultTenantID else tenantID);
         workspaceID = trim_space (sc_WorkspaceID s);
         workspaceID = (if workspaceID = '''' then DefaultWorkspaceID else workspaceID)
     in \<lparr>sc_TenantID = tenantID, sc_WorkspaceID = workspaceID\<rparr>)"

definition context_values :: "Context \<Rightarrow> ContextValues" where
  "context_values ctx = (case ctx of None \<Rightarrow> Background | Some v \<Rightarrow> v)"

definition WithScope :: "Context \<Rightarrow> Scope \<Rightarrow> Context" where
  "WithScope ctx scope = Some ((context_values ctx)\<lparr>cv_Scope := Some (Normalize_Scope scope)\<rparr>)"

definition LookupScope :: "Context \<Rightarrow> Scope option" where
  "LookupScope ctx =
    (case ctx of
       None \<Rightarrow> None
     | Some v \<Rightarrow> (case cv_Scope v of None \<Rightarrow> None | Some scope \<Rightarrow> Some (Normalize_Scope scope)))"

definition ScopeFromContext :: "Context \<Rightarrow> Scope" where
  "ScopeFromContext ctx =
    (case LookupScope ctx of
       Some scope \<Rightarrow> scope
     | None \<Rightarrow> Normalize_Scope \<lparr>sc_TenantID = '''', sc_WorkspaceID = ''''\<rparr>)"

definition RequireScope :: "Context \<Rightarrow> Scope result" where
  "RequireScope ctx =
    (case LookupScope ctx of
       None \<Rightarrow> Inl (Sentinel ErrScopeRequired)
     | Some scope \<Rightarrow> Inr (Normalize_Scope scope))"

definition WithDefaultScope :: "Context \<Rightarrow> Scope \<Rightarrow> Context" where
  "WithDefaultScope ctx fallback =
    (case LookupScope ctx of Some _ \<Rightarrow> ctx | None \<Rightarrow> WithScope ctx fallback)"

definition MatchScope :: "Scope \<Rightarrow> string \<Rightarrow> string \<Rightarrow> bool" where
  "MatchScope scope tenantID workspaceID =
    (let normalized = Normalize_Scope scope
     in trim_space tenantID = sc_TenantID normalized
      \<and> trim_space workspaceID = sc_WorkspaceID normalized)"

definition ResolveScopedWorkspaceID :: "Scope \<Rightarrow> string \<Rightarrow> string result" where
  "ResolveScopedWorkspaceID scope workspaceID =
    (let normalizedScope = Normalize_Scope scope;
         resolved = trim_space workspaceID;
         resolved = (if resolved = '''' then sc_WorkspaceID normalizedScope else resolved)
     in if resolved \<noteq> sc_WorkspaceID normalizedScope then Inl (Sentinel ErrNotFound)
        else Inr resolved)"

text \<open>Values the session layer and the queue put into a context.\<close>

definition SubjectSource :: "Context \<Rightarrow> string" where
  "SubjectSource ctx = (case ctx of None \<Rightarrow> '''' | Some v \<Rightarrow> norm_key (cv_SubjectSource v))"

definition SubjectIssuer :: "Context \<Rightarrow> string" where
  "SubjectIssuer ctx = (case ctx of None \<Rightarrow> '''' | Some v \<Rightarrow> trim_space (cv_SubjectIssuer v))"

definition WithQueueTraceContext :: "Context \<Rightarrow> string \<Rightarrow> string \<Rightarrow> Context" where
  "WithQueueTraceContext ctx traceParent traceState =
    Some ((context_values ctx)\<lparr>cv_TraceParent := trim_space traceParent,
                               cv_TraceState := trim_space traceState\<rparr>)"

definition QueueTraceContextFromContext :: "Context \<Rightarrow> string \<times> string" where
  "QueueTraceContextFromContext ctx =
    (case ctx of
       None \<Rightarrow> ('''', '''')
     | Some v \<Rightarrow> (trim_space (cv_TraceParent v), trim_space (cv_TraceState v)))"

subsection \<open>Laws\<close>

lemma default_ids [simp]:
  "trim_space DefaultTenantID = DefaultTenantID" "DefaultTenantID \<noteq> []"
  "trim_space DefaultWorkspaceID = DefaultWorkspaceID" "DefaultWorkspaceID \<noteq> []"
  by (code_simp, simp add: DefaultTenantID_def, code_simp, simp add: DefaultWorkspaceID_def)

lemma Normalize_Scope_idem [simp]: "Normalize_Scope (Normalize_Scope s) = Normalize_Scope s"
  by (simp add: Normalize_Scope_def Let_def)

lemma Normalize_Scope_nonempty [simp]:
  "sc_TenantID (Normalize_Scope s) \<noteq> []" "sc_WorkspaceID (Normalize_Scope s) \<noteq> []"
  by (simp_all add: Normalize_Scope_def Let_def)

lemma Normalize_Scope_trimmed [simp]:
  "trim_space (sc_TenantID (Normalize_Scope s)) = sc_TenantID (Normalize_Scope s)"
  "trim_space (sc_WorkspaceID (Normalize_Scope s)) = sc_WorkspaceID (Normalize_Scope s)"
  by (simp_all add: Normalize_Scope_def Let_def)

lemma RequireScope_normal: "RequireScope ctx = Inr s \<Longrightarrow> Normalize_Scope s = s"
  by (auto simp: RequireScope_def split: option.splits)

lemma RequireScope_nonempty:
  assumes "RequireScope ctx = Inr s"
  shows "sc_TenantID s \<noteq> []" "sc_WorkspaceID s \<noteq> []"
  using RequireScope_normal [OF assms] Normalize_Scope_nonempty [of s] by auto

lemma ScopeFromContext_normal [simp]: "Normalize_Scope (ScopeFromContext ctx) = ScopeFromContext ctx"
  by (auto simp: ScopeFromContext_def LookupScope_def split: option.splits)

lemma ScopeFromContext_nonempty [simp]:
  "sc_TenantID (ScopeFromContext ctx) \<noteq> []" "sc_WorkspaceID (ScopeFromContext ctx) \<noteq> []"
  using Normalize_Scope_nonempty [of "ScopeFromContext ctx"] by auto

lemma ScopeFromContext_trimmed [simp]:
  "trim_space (sc_TenantID (ScopeFromContext ctx)) = sc_TenantID (ScopeFromContext ctx)"
  "trim_space (sc_WorkspaceID (ScopeFromContext ctx)) = sc_WorkspaceID (ScopeFromContext ctx)"
  using Normalize_Scope_trimmed [of "ScopeFromContext ctx"] by auto

lemma LookupScope_WithScope [simp]: "LookupScope (WithScope ctx s) = Some (Normalize_Scope s)"
  by (simp add: LookupScope_def WithScope_def)

lemma RequireScope_WithScope [simp]: "RequireScope (WithScope ctx s) = Inr (Normalize_Scope s)"
  by (simp add: RequireScope_def)

lemma ScopeFromContext_WithScope [simp]: "ScopeFromContext (WithScope ctx s) = Normalize_Scope s"
  by (simp add: ScopeFromContext_def)

lemma MatchScope_self [simp]:
  "Normalize_Scope s = s \<Longrightarrow> MatchScope s (sc_TenantID s) (sc_WorkspaceID s)"
  using Normalize_Scope_trimmed [of s] by (simp add: MatchScope_def)

lemma MatchScope_normal:
  "Normalize_Scope s = s \<Longrightarrow>
    MatchScope s t w \<longleftrightarrow> trim_space t = sc_TenantID s \<and> trim_space w = sc_WorkspaceID s"
  by (simp add: MatchScope_def)

lemma ResolveScopedWorkspaceID_Inr_iff:
  "ResolveScopedWorkspaceID s w = Inr r \<longleftrightarrow>
    r = sc_WorkspaceID (Normalize_Scope s) \<and> (trim_space w = [] \<or> trim_space w = r)"
  by (auto simp: ResolveScopedWorkspaceID_def Let_def)

end
