(* ===== verification/Policy_Engine.thy ===== *)
theory Policy_Engine
  imports Scope
begin

section \<open>The staged policy engine (internal/api/authz_policy.go)\<close>

text \<open>
  Every authorization decision of the API runs through one engine with four evaluators, consulted
  in the order tenant isolation, RBAC, ABAC, ReBAC; the first one with an opinion decides, and a
  request that none grants is denied. An evaluator is a function of the policy input; a nil
  evaluator or engine is \<^const>\<open>None\<close>. \<open>PolicyOutcome\<close> is an open string type in Go, so it is a
  string here and an outcome outside the known ones is an error of the engine.
  The locale \<open>policy_evaluator\<close> is the contract of an evaluator: it answers with no opinion, allow
  or deny only.
\<close>

datatype PolicyStage =
    PolicyStageTenantIsolation | PolicyStageRBAC | PolicyStageABAC | PolicyStageReBAC
  | PolicyStageDefaultDeny

fun stage_string :: "PolicyStage \<Rightarrow> string" where
  "stage_string PolicyStageTenantIsolation = ''tenant_isolation''"
| "stage_string PolicyStageRBAC = ''rbac''"
| "stage_string PolicyStageABAC = ''abac''"
| "stage_string PolicyStageReBAC = ''rebac''"
| "stage_string PolicyStageDefaultDeny = ''default_deny''"

type_synonym PolicyOutcome = string

abbreviation PolicyOutcomeNoOpinion :: PolicyOutcome where
  "PolicyOutcomeNoOpinion \<equiv> ''no_op''"

abbreviation PolicyOutcomeAllow :: PolicyOutcome where
  "PolicyOutcomeAllow \<equiv> ''allow''"

abbreviation PolicyOutcomeDeny :: PolicyOutcome where
  "PolicyOutcomeDeny \<equiv> ''deny''"

abbreviation PolicyOutcomeSkipped :: PolicyOutcome where
  "PolicyOutcomeSkipped \<equiv> ''skipped''"

record PolicySubject =
  sub_Type :: string
  sub_ID :: string
  sub_TenantID :: string
  sub_WorkspaceID :: string
  sub_Groups :: "string list"
  sub_Roles :: "string list"
  sub_Attributes :: "(string, string) gomap"

record PolicyResource =
  res_Type :: string
  res_ID :: string
  res_TenantID :: string
  res_WorkspaceID :: string
  res_Attributes :: "(string, string) gomap"

record PolicyContext =
  pc_RequestPath :: string
  pc_RequestMethod :: string
  pc_Now :: time
  pc_Attributes :: "(string, string) gomap"

record PolicyInput =
  in_Subject :: PolicySubject
  in_Action :: string
  in_Resource :: PolicyResource
  in_Context :: PolicyContext

record PolicyDecision =
  pd_Allowed :: bool
  pd_Stage :: PolicyStage
  pd_Reason :: string

record PolicyTraceStep =
  ts_Stage :: PolicyStage
  ts_Outcome :: PolicyOutcome
  ts_Reason :: string

type_synonym PolicyEvaluator = "PolicyInput \<Rightarrow> (PolicyOutcome \<times> string) result"

record PolicyEngine =
  TenantIsolationEvaluator :: "PolicyEvaluator option"
  RBACEvaluator :: "PolicyEvaluator option"
  ABACEvaluator :: "PolicyEvaluator option"
  ReBACEvaluator :: "PolicyEvaluator option"

definition NewPolicyEngine ::
  "PolicyEvaluator option \<Rightarrow> PolicyEvaluator option \<Rightarrow> PolicyEvaluator option \<Rightarrow> PolicyEvaluator option
    \<Rightarrow> PolicyEngine" where
  "NewPolicyEngine tenantIsolation rbac abac rebac =
    \<lparr>TenantIsolationEvaluator = tenantIsolation, RBACEvaluator = rbac, ABACEvaluator = abac,
     ReBACEvaluator = rebac\<rparr>"

definition denyDecision :: "PolicyStage \<Rightarrow> string \<Rightarrow> PolicyDecision" where
  "denyDecision stage reason =
    (let message = trim_space reason;
         message = (if message = '''' then ''access denied'' else message)
     in \<lparr>pd_Allowed = False, pd_Stage = stage, pd_Reason = message\<rparr>)"

definition trace_step :: "PolicyStage \<Rightarrow> PolicyOutcome \<Rightarrow> string \<Rightarrow> PolicyTraceStep" where
  "trace_step stage outcome reason = \<lparr>ts_Stage = stage, ts_Outcome = outcome, ts_Reason = reason\<rparr>"

text \<open>The reason recorded for an outcome that came without one (lines 160-170).\<close>

definition default_reason :: "PolicyOutcome \<Rightarrow> string \<Rightarrow> string" where
  "default_reason outcome reason =
    (let reason = trim_space reason
     in if reason \<noteq> '''' then reason
        else if outcome = PolicyOutcomeNoOpinion then ''no policy opinion''
        else if outcome = PolicyOutcomeAllow then ''policy grants action''
        else if outcome = PolicyOutcomeDeny then ''policy denies action''
        else reason)"

text \<open>The steps appended after a terminal decision (lines 179-190 and 194-205).\<close>

definition skipped_steps :: "PolicyStage \<Rightarrow> PolicyStage list \<Rightarrow> PolicyTraceStep list" where
  "skipped_steps stage remaining =
    map (\<lambda>s. trace_step s PolicyOutcomeSkipped (''skipped after terminal decision at '' @ stage_string stage))
        (remaining @ [PolicyStageDefaultDeny])"

text \<open>
  The loop over the stages. The error carries the trace so far, as the Go function returns it.
\<close>

fun decide_stages ::
  "PolicyInput \<Rightarrow> (PolicyStage \<times> PolicyEvaluator option) list \<Rightarrow> PolicyTraceStep list
    \<Rightarrow> (PolicyTraceStep list \<times> go_error) + (PolicyDecision \<times> PolicyTraceStep list)" where
  "decide_stages input [] trace =
    (let decision = denyDecision PolicyStageDefaultDeny ''no policy granted access''
     in Inr (decision, trace @ [trace_step PolicyStageDefaultDeny PolicyOutcomeDeny (pd_Reason decision)]))"
| "decide_stages input ((stage, None) # rest) trace =
    decide_stages input rest
      (trace @ [trace_step stage PolicyOutcomeNoOpinion ''stage evaluator is not configured''])"
| "decide_stages input ((stage, Some evaluate) # rest) trace =
    (case evaluate input of
       Inl err \<Rightarrow> Inl (trace, Wrapped (''evaluate '' @ stage_string stage @ '' policy: '') err '''')
     | Inr (outcome, reason) \<Rightarrow>
        (let reason = default_reason outcome reason;
             trace = trace @ [trace_step stage outcome reason]
         in if outcome = PolicyOutcomeAllow then
              Inr (\<lparr>pd_Allowed = True, pd_Stage = stage, pd_Reason = reason\<rparr>,
                   trace @ skipped_steps stage (map fst rest))
            else if outcome = PolicyOutcomeDeny then
              Inr (denyDecision stage reason, trace @ skipped_steps stage (map fst rest))
            else if outcome = PolicyOutcomeNoOpinion then decide_stages input rest trace
            else Inl (trace, ErrorText (''evaluate '' @ stage_string stage @ '' policy: invalid outcome ''
                                        @ quote_string outcome))))"

definition engine_stages :: "PolicyEngine \<Rightarrow> (PolicyStage \<times> PolicyEvaluator option) list" where
  "engine_stages p =
    [(PolicyStageTenantIsolation, TenantIsolationEvaluator p), (PolicyStageRBAC, RBACEvaluator p),
     (PolicyStageABAC, ABACEvaluator p), (PolicyStageReBAC, ReBACEvaluator p)]"

definition DecideWithTrace ::
  "PolicyEngine option \<Rightarrow> PolicyInput
    \<Rightarrow> (PolicyTraceStep list \<times> go_error) + (PolicyDecision \<times> PolicyTraceStep list)" where
  "DecideWithTrace p input =
    (case p of
       None \<Rightarrow>
        (let trace = map (\<lambda>s. trace_step s PolicyOutcomeSkipped ''policy engine is not configured'')
               [PolicyStageTenantIsolation, PolicyStageRBAC, PolicyStageABAC, PolicyStageReBAC];
             decision = denyDecision PolicyStageDefaultDeny ''authorization policy engine is not configured''
         in Inr (decision, trace @ [trace_step PolicyStageDefaultDeny PolicyOutcomeDeny (pd_Reason decision)]))
     | Some engine \<Rightarrow> decide_stages input (engine_stages engine) [])"

definition Decide :: "PolicyEngine option \<Rightarrow> PolicyInput \<Rightarrow> PolicyDecision result" where
  "Decide p input =
    (case DecideWithTrace p input of Inl (_, err) \<Rightarrow> Inl err | Inr (decision, _) \<Rightarrow> Inr decision)"

subsection \<open>The abstract specification\<close>

text \<open>
  What the engine promises: the verdict of the first stage with an opinion, \<open>None\<close> when no stage has one.
  A nil evaluator has no opinion.
\<close>

definition stage_verdict :: "PolicyInput \<Rightarrow> PolicyEvaluator option \<Rightarrow> bool option" where
  "stage_verdict input e =
    (case e of
       None \<Rightarrow> None
     | Some evaluate \<Rightarrow>
        (case evaluate input of
           Inl _ \<Rightarrow> None
         | Inr (outcome, _) \<Rightarrow>
            (if outcome = PolicyOutcomeAllow then Some True
             else if outcome = PolicyOutcomeDeny then Some False else None)))"

fun first_opinion ::
  "PolicyInput \<Rightarrow> (PolicyStage \<times> PolicyEvaluator option) list \<Rightarrow> (PolicyStage \<times> bool) option" where
  "first_opinion input [] = None"
| "first_opinion input ((stage, e) # rest) =
    (case stage_verdict input e of
       None \<Rightarrow> first_opinion input rest
     | Some v \<Rightarrow> Some (stage, v))"

text \<open>An evaluator that answers with one of the three opinions and never fails on an input.\<close>

definition opines_on :: "PolicyInput \<Rightarrow> PolicyEvaluator option \<Rightarrow> bool" where
  "opines_on input e =
    (case e of
       None \<Rightarrow> True
     | Some evaluate \<Rightarrow>
        (case evaluate input of
           Inl _ \<Rightarrow> False
         | Inr (outcome, _) \<Rightarrow> outcome \<in> {PolicyOutcomeNoOpinion, PolicyOutcomeAllow, PolicyOutcomeDeny}))"

subsection \<open>The contract of an evaluator\<close>

locale policy_evaluator =
  fixes evaluate :: "PolicyInput \<Rightarrow> (PolicyOutcome \<times> string) result"
  assumes known_outcome:
    "evaluate input = Inr (outcome, reason) \<Longrightarrow>
      outcome = PolicyOutcomeNoOpinion \<or> outcome = PolicyOutcomeAllow \<or> outcome = PolicyOutcomeDeny"
begin

lemma total_unless_error: "evaluate input = Inr r \<Longrightarrow> opines_on input (Some evaluate)"
  using known_outcome by (cases r) (auto simp: opines_on_def)

end

subsection \<open>Laws\<close>

lemma denyDecision_simps [simp]:
  "pd_Allowed (denyDecision stage reason) = False" "pd_Stage (denyDecision stage reason) = stage"
  by (simp_all add: denyDecision_def Let_def)

lemma map_stage_skipped [simp]:
  "map ts_Stage (skipped_steps stage remaining) = remaining @ [PolicyStageDefaultDeny]"
  by (simp add: skipped_steps_def trace_step_def comp_def)

lemma ts_Stage_trace_step [simp]: "ts_Stage (trace_step s oc r) = s"
  by (simp add: trace_step_def)

lemma decide_stages_trace:
  "decide_stages input stages trace = Inr (d, tr) \<Longrightarrow>
    map ts_Stage tr = map ts_Stage trace @ map fst stages @ [PolicyStageDefaultDeny]"
  by (induction input stages trace arbitrary: d tr rule: decide_stages.induct)
    (auto simp: Let_def split: sum.splits prod.splits if_splits)

lemma decide_stages_spec:
  "decide_stages input stages trace = Inr (d, tr) \<Longrightarrow>
    (pd_Stage d, pd_Allowed d) =
      (case first_opinion input stages of None \<Rightarrow> (PolicyStageDefaultDeny, False) | Some r \<Rightarrow> r)"
  by (induction input stages trace arbitrary: d tr rule: decide_stages.induct)
    (auto simp: Let_def stage_verdict_def split: sum.splits prod.splits if_splits)

lemma decide_stages_total:
  "(\<And>s e. (s, e) \<in> set stages \<Longrightarrow> opines_on input e) \<Longrightarrow> \<exists>r. decide_stages input stages trace = Inr r"
proof (induction stages arbitrary: trace)
  case (Cons x rest)
  obtain stage e where x: "x = (stage, e)" by (cases x)
  have IH: "\<exists>r. decide_stages input rest tr = Inr r" for tr
    by (rule Cons.IH) (use Cons.prems in auto)
  show ?case
  proof (cases e)
    case None
    with IH x show ?thesis by simp
  next
    case (Some evaluate)
    with Cons.prems [of stage e] x IH show ?thesis
      by (auto simp: opines_on_def Let_def split: sum.splits)
  qed
qed (simp add: Let_def)

lemma first_opinion_Some:
  "first_opinion input stages = Some (s, v) \<Longrightarrow>
    \<exists>before e rest. stages = before @ (s, e) # rest \<and> stage_verdict input e = Some v
      \<and> (\<forall>x\<in>set before. stage_verdict input (snd x) = None)"
proof (induction input stages rule: first_opinion.induct)
  case (2 input stage e rest)
  show ?case
  proof (cases "stage_verdict input e")
    case None
    with "2.prems" have "first_opinion input rest = Some (s, v)" by simp
    from "2.IH" [OF None this] obtain before e' rest'
      where *: "rest = before @ (s, e') # rest'" "stage_verdict input e' = Some v"
        "\<forall>x\<in>set before. stage_verdict input (snd x) = None" by blast
    have "(stage, e) # rest = ((stage, e) # before) @ (s, e') # rest'" using * by simp
    with * None show ?thesis by (metis set_ConsD snd_conv)
  next
    case (Some w)
    with "2.prems" show ?thesis by fastforce
  qed
qed simp

lemma Decide_Inr_iff:
  "Decide p input = Inr d \<longleftrightarrow> (\<exists>tr. DecideWithTrace p input = Inr (d, tr))"
  by (auto simp: Decide_def split: sum.splits prod.splits)

lemma Decide_allowed:
  assumes "Decide (Some p) input = Inr d" "pd_Allowed d"
  shows "first_opinion input (engine_stages p) = Some (pd_Stage d, True)"
  using assms decide_stages_spec [of input "engine_stages p" "[]" d]
  by (auto simp: Decide_Inr_iff DecideWithTrace_def split: option.splits)

lemma stage_verdict_Some:
  "stage_verdict input (Some evaluate) = Some True \<longleftrightarrow> (\<exists>r. evaluate input = Inr (PolicyOutcomeAllow, r))"
  "stage_verdict input (Some evaluate) = Some False \<longleftrightarrow> (\<exists>r. evaluate input = Inr (PolicyOutcomeDeny, r))"
  by (auto simp: stage_verdict_def split: sum.splits prod.splits if_splits)

lemma decide_stages_error:
  "isl (decide_stages input stages trace) \<longleftrightarrow>
    (\<exists>before s e rest. stages = before @ (s, e) # rest \<and> \<not> opines_on input e
       \<and> (\<forall>x\<in>set before. opines_on input (snd x) \<and> stage_verdict input (snd x) = None))"
  (is "?L stages trace \<longleftrightarrow> ?R stages")
proof (induction stages arbitrary: trace)
  case Nil
  then show ?case by (simp add: Let_def)
next
  case (Cons x rest)
  obtain stage e where x: "x = (stage, e)" by (cases x)
  have split: "?R (x # rest) \<longleftrightarrow>
      \<not> opines_on input e \<or> (opines_on input e \<and> stage_verdict input e = None \<and> ?R rest)"
  proof
    assume "?R (x # rest)"
    then obtain before s e' rest' where *: "x # rest = before @ (s, e') # rest'" "\<not> opines_on input e'"
      "\<forall>y\<in>set before. opines_on input (snd y) \<and> stage_verdict input (snd y) = None" by blast
    then show "\<not> opines_on input e \<or> (opines_on input e \<and> stage_verdict input e = None \<and> ?R rest)"
      by (cases before) (auto simp: x)
  next
    assume "\<not> opines_on input e \<or> (opines_on input e \<and> stage_verdict input e = None \<and> ?R rest)"
    then show "?R (x # rest)"
    proof
      assume "\<not> opines_on input e"
      then show ?thesis by (intro exI [of _ "[]"]) (simp add: x)
    next
      assume "opines_on input e \<and> stage_verdict input e = None \<and> ?R rest"
      then obtain before s e' rest' where "rest = before @ (s, e') # rest'" "\<not> opines_on input e'"
        "\<forall>y\<in>set (x # before). opines_on input (snd y) \<and> stage_verdict input (snd y) = None"
        by (auto simp: x)
      then show ?thesis by (intro exI [of _ "x # before"]) auto
    qed
  qed
  obtain P where P: "\<And>tr. isl (decide_stages input rest tr) \<longleftrightarrow> P" and R: "?R rest \<longleftrightarrow> P"
    using Cons.IH by blast
  have "isl (decide_stages input (x # rest) trace) \<longleftrightarrow>
      \<not> opines_on input e \<or> (opines_on input e \<and> stage_verdict input e = None \<and> P)"
  proof (cases e)
    case None
    then show ?thesis by (simp add: x P opines_on_def stage_verdict_def)
  next
    case (Some evaluate)
    then show ?thesis
      by (cases "evaluate input") (auto simp: x P opines_on_def stage_verdict_def Let_def split: if_splits)
  qed
  with split R show ?case by blast
qed

subsection \<open>Properties\<close>

text \<open>A request input used by the witnesses of this and the later theories.\<close>

definition sample_input :: PolicyInput where
  "sample_input =
    \<lparr>in_Subject = \<lparr>sub_Type = ''user'', sub_ID = ''alice'', sub_TenantID = ''acme'', sub_WorkspaceID = ''prod'',
       sub_Groups = [], sub_Roles = [''Editor''], sub_Attributes = [(''owner_team'', ''core'')]\<rparr>,
     in_Action = ''findings.read'',
     in_Resource = \<lparr>res_Type = ''finding'', res_ID = ''f1'', res_TenantID = ''acme'', res_WorkspaceID = ''prod'',
       res_Attributes = [(''owner_team'', ''core'')]\<rparr>,
     in_Context = \<lparr>pc_RequestPath = ''/v1/findings'', pc_RequestMethod = ''GET'', pc_Now = 0,
       pc_Attributes = []\<rparr>\<rparr>"

text \<open>
  C8: refinement of the engine. When every configured evaluator answers with one of the three
  opinions, the engine returns a decision; it is the verdict of the first stage with an opinion
  (a deny at the default-deny stage when there is none), and the trace lists tenant isolation, RBAC,
  ABAC, ReBAC and default deny exactly once each, in that order.
\<close>

theorem DecideWithTrace_refines_first_opinion:
  assumes "\<forall>s e. (s, e) \<in> set (engine_stages p) \<longrightarrow> opines_on input e"
  shows "\<exists>d tr. DecideWithTrace (Some p) input = Inr (d, tr)
    \<and> (pd_Stage d, pd_Allowed d) =
        (case first_opinion input (engine_stages p) of None \<Rightarrow> (PolicyStageDefaultDeny, False) | Some r \<Rightarrow> r)
    \<and> map ts_Stage tr = [PolicyStageTenantIsolation, PolicyStageRBAC, PolicyStageABAC, PolicyStageReBAC,
        PolicyStageDefaultDeny]"
proof -
  obtain d tr where r: "decide_stages input (engine_stages p) [] = Inr (d, tr)"
    using decide_stages_total [of "engine_stages p" input "[]"] assms by (metis prod.exhaust)
  from decide_stages_spec [OF r] decide_stages_trace [OF r] r show ?thesis
    by (simp add: DecideWithTrace_def engine_stages_def)
qed

definition sample_engine :: PolicyEngine where
  "sample_engine = NewPolicyEngine None (Some (\<lambda>i. Inr (PolicyOutcomeNoOpinion, '''')))
     (Some (\<lambda>i. Inr (PolicyOutcomeAllow, ''ok''))) (Some (\<lambda>i. Inr (PolicyOutcomeDeny, '''')))"

lemma sample_engine_opines: "\<forall>s e. (s, e) \<in> set (engine_stages sample_engine) \<longrightarrow> opines_on sample_input e"
  by (auto simp: engine_stages_def sample_engine_def NewPolicyEngine_def opines_on_def)

theorem DecideWithTrace_refines_first_opinion_witness:
  "\<exists>d tr. DecideWithTrace (Some sample_engine) sample_input = Inr (d, tr)
    \<and> (pd_Stage d, pd_Allowed d) = (PolicyStageABAC, True) \<and> length tr = 5"
proof -
  have fo: "first_opinion sample_input (engine_stages sample_engine) = Some (PolicyStageABAC, True)"
    by code_simp
  obtain d tr where d: "DecideWithTrace (Some sample_engine) sample_input = Inr (d, tr)"
      "(pd_Stage d, pd_Allowed d) = (PolicyStageABAC, True)"
    and tr: "map ts_Stage tr = [PolicyStageTenantIsolation, PolicyStageRBAC, PolicyStageABAC, PolicyStageReBAC,
         PolicyStageDefaultDeny]"
    using DecideWithTrace_refines_first_opinion [OF sample_engine_opines, unfolded fo option.case]
    by (elim exE conjE) (rule that)
  from arg_cong [OF tr, of length] have "length tr = 5" by simp
  with d show ?thesis by (intro exI conjI)
qed

text \<open>
  The engine fails closed. It returns an error exactly when some stage fails or answers with an
  unknown outcome before any stage has an opinion; an evaluator behind a terminal decision is never
  consulted, and an error never comes with a decision.
\<close>

theorem Decide_error_iff:
  "(\<exists>err. Decide (Some p) input = Inl err) \<longleftrightarrow>
    (\<exists>before s e rest. engine_stages p = before @ (s, e) # rest \<and> \<not> opines_on input e
       \<and> (\<forall>x\<in>set before. opines_on input (snd x) \<and> stage_verdict input (snd x) = None))"
proof -
  have "(\<exists>err. Decide (Some p) input = Inl err) \<longleftrightarrow> isl (decide_stages input (engine_stages p) [])"
    by (auto simp: Decide_def DecideWithTrace_def split: sum.splits)
  then show ?thesis by (simp only: decide_stages_error)
qed

definition failing_engine :: PolicyEngine where
  "failing_engine = NewPolicyEngine None (Some (\<lambda>i. Inl (Sentinel ErrNotFound))) None None"

theorem Decide_error_iff_witness: "\<exists>err. Decide (Some failing_engine) sample_input = Inl err"
  unfolding Decide_error_iff
  by (intro exI [of _ "[(PolicyStageTenantIsolation, None)]"] exI [of _ PolicyStageRBAC]
      exI [of _ "Some (\<lambda>i. Inl (Sentinel ErrNotFound))"] exI [of _ "[(PolicyStageABAC, None), (PolicyStageReBAC, None)]"])
    (simp add: failing_engine_def NewPolicyEngine_def engine_stages_def opines_on_def stage_verdict_def)

end
