(* ===== verification/Authz_Records.thy ===== *)
theory Authz_Records
  imports Scope
begin

section \<open>Authorization records and their normalization (internal/db/store.go)\<close>

text \<open>
  The persisted authorization records - trusted entity attributes, ReBAC tuples, policy sets,
  immutable policy versions, rollout pointers, policy events - and the \<^verbatim>\<open>Normalize...ForWrite\<close>
  functions every adapter applies before a write. What the functions take from outside the program
  is a parameter: \<open>Env\<close> holds the clock's reading, \<^verbatim>\<open>json.Valid\<close>, the SHA-256 hex digest and the
  next random UUID of one call.
  Each normalizer is idempotent on what it accepts, and what it accepts satisfies the record's
  well-formedness predicate (\<open>wf_\<dots>\<close>).
\<close>

record Env =
  env_Now :: time
  env_JsonValid :: "string \<Rightarrow> bool"
  env_Sha256Hex :: "string \<Rightarrow> string"
  env_NewUUID :: string

abbreviation AuthzRelationshipOwns :: string where
  "AuthzRelationshipOwns \<equiv> ''owns''"

abbreviation AuthzRelationshipManages :: string where
  "AuthzRelationshipManages \<equiv> ''manages''"

abbreviation AuthzRelationshipDelegatedAdmin :: string where
  "AuthzRelationshipDelegatedAdmin \<equiv> ''delegated_admin''"

abbreviation AuthzRelationshipMemberOf :: string where
  "AuthzRelationshipMemberOf \<equiv> ''member_of''"

abbreviation AuthzPolicyRolloutModeDisabled :: string where
  "AuthzPolicyRolloutModeDisabled \<equiv> ''disabled''"

abbreviation AuthzPolicyRolloutModeShadow :: string where
  "AuthzPolicyRolloutModeShadow \<equiv> ''shadow''"

abbreviation AuthzPolicyRolloutModeEnforce :: string where
  "AuthzPolicyRolloutModeEnforce \<equiv> ''enforce''"

definition validAuthzEntityKinds :: "string list" where
  "validAuthzEntityKinds = [''subject'', ''resource'']"

definition validAuthzEnvironments :: "string list" where
  "validAuthzEnvironments = [''prod'', ''staging'', ''dev'', ''test'', ''sandbox'']"

definition validAuthzRiskTiers :: "string list" where
  "validAuthzRiskTiers = [''low'', ''medium'', ''high'', ''critical'']"

definition validAuthzClassifications :: "string list" where
  "validAuthzClassifications = [''public'', ''internal'', ''confidential'', ''restricted'']"

definition validAuthzRelationships :: "string list" where
  "validAuthzRelationships =
    [AuthzRelationshipOwns, AuthzRelationshipManages, AuthzRelationshipDelegatedAdmin,
     AuthzRelationshipMemberOf]"

definition validAuthzPolicyRolloutModes :: "string list" where
  "validAuthzPolicyRolloutModes =
    [AuthzPolicyRolloutModeDisabled, AuthzPolicyRolloutModeShadow, AuthzPolicyRolloutModeEnforce]"

text \<open>The regular expression \<^verbatim>\<open>^[a-z0-9][a-z0-9._-]{0,63}$\<close>.\<close>

definition alnum_chars :: string where
  "alnum_chars = ''abcdefghijklmnopqrstuvwxyz0123456789''"

definition authzOwnerTeamPattern :: "string \<Rightarrow> bool" where
  "authzOwnerTeamPattern s =
    (case s of
       [] \<Rightarrow> False
     | c # cs \<Rightarrow> c \<in> set alnum_chars \<and> list_all (\<lambda>d. d \<in> set (alnum_chars @ ''._-'')) cs
                 \<and> length cs \<le> 63)"

record AuthzEntityAttributes =
  ea_TenantID :: string
  ea_WorkspaceID :: string
  ea_EntityKind :: string
  ea_EntityType :: string
  ea_EntityID :: string
  ea_OwnerTeam :: string
  ea_Environment :: string
  ea_RiskTier :: string
  ea_Classification :: string
  ea_UpdatedAt :: time

record AuthzRelationship =
  rel_TenantID :: string
  rel_WorkspaceID :: string
  rel_SubjectType :: string
  rel_SubjectID :: string
  rel_Relation :: string
  rel_ObjectType :: string
  rel_ObjectID :: string
  rel_Source :: string
  rel_ExpiresAt :: "time option"
  rel_CreatedAt :: time
  rel_UpdatedAt :: time

record AuthzRelationshipFilter =
  rf_SubjectType :: string
  rf_SubjectID :: string
  rf_Relation :: string
  rf_ObjectType :: string
  rf_ObjectID :: string
  rf_IncludeExpired :: bool

record AuthzPolicySet =
  set_TenantID :: string
  set_WorkspaceID :: string
  set_PolicySetID :: string
  set_DisplayName :: string
  set_Description :: string
  set_CreatedBy :: string
  set_CreatedAt :: time
  set_UpdatedAt :: time

record AuthzPolicyVersion =
  pv_TenantID :: string
  pv_WorkspaceID :: string
  pv_PolicySetID :: string
  pv_Version :: int
  pv_Bundle :: string
  pv_Checksum :: string
  pv_CreatedBy :: string
  pv_CreatedAt :: time

record AuthzPolicyRollout =
  ro_TenantID :: string
  ro_WorkspaceID :: string
  ro_PolicySetID :: string
  ro_ActiveVersion :: "int option"
  ro_CandidateVersion :: "int option"
  ro_Mode :: string
  ro_TenantAllowlist :: "string list"
  ro_WorkspaceAllowlist :: "string list"
  ro_CanaryPercentage :: int
  ro_ValidatedVersions :: "int list"
  ro_UpdatedBy :: string
  ro_UpdatedAt :: time

record AuthzPolicyEvent =
  pe_ID :: string
  pe_TenantID :: string
  pe_WorkspaceID :: string
  pe_PolicySetID :: string
  pe_EventType :: string
  pe_FromVersion :: "int option"
  pe_ToVersion :: "int option"
  pe_Actor :: string
  pe_Message :: string
  pe_Metadata :: "(string, int option) gomap"
  pe_CreatedAt :: time

definition NormalizeAuthzEntityAttributesForWrite ::
  "Env \<Rightarrow> AuthzEntityAttributes \<Rightarrow> AuthzEntityAttributes result" where
  "NormalizeAuthzEntityAttributesForWrite env attrs =
    (let entityKind = norm_key (ea_EntityKind attrs);
         entityType = norm_key (ea_EntityType attrs);
         entityID = trim_space (ea_EntityID attrs);
         ownerTeam = norm_key (ea_OwnerTeam attrs);
         environment = norm_key (ea_Environment attrs);
         riskTier = norm_key (ea_RiskTier attrs);
         classification = norm_key (ea_Classification attrs)
     in if entityKind \<notin> set validAuthzEntityKinds then Inl (ErrorText ''invalid authz entity kind'')
        else if entityType = '''' then Inl (ErrorText ''entity type is required'')
        else if entityID = '''' then Inl (ErrorText ''entity id is required'')
        else if ownerTeam \<noteq> '''' \<and> \<not> authzOwnerTeamPattern ownerTeam then
          Inl (ErrorText ''invalid owner_team format'')
        else if environment \<noteq> '''' \<and> environment \<notin> set validAuthzEnvironments then
          Inl (ErrorText ''invalid env value'')
        else if riskTier \<noteq> '''' \<and> riskTier \<notin> set validAuthzRiskTiers then
          Inl (ErrorText ''invalid risk_tier value'')
        else if classification \<noteq> '''' \<and> classification \<notin> set validAuthzClassifications then
          Inl (ErrorText ''invalid classification value'')
        else Inr (attrs\<lparr>ea_EntityKind := entityKind, ea_EntityType := entityType,
               ea_EntityID := entityID, ea_OwnerTeam := ownerTeam, ea_Environment := environment,
               ea_RiskTier := riskTier, ea_Classification := classification,
               ea_UpdatedAt := (if ea_UpdatedAt attrs = zero_time then env_Now env
                                else ea_UpdatedAt attrs)\<rparr>))"

definition NormalizeAuthzRelationshipForWrite ::
  "Env \<Rightarrow> AuthzRelationship \<Rightarrow> AuthzRelationship result" where
  "NormalizeAuthzRelationshipForWrite env relationship =
    (let subjectType = norm_key (rel_SubjectType relationship);
         subjectID = trim_space (rel_SubjectID relationship);
         relation = norm_key (rel_Relation relationship);
         objectType = norm_key (rel_ObjectType relationship);
         objectID = trim_space (rel_ObjectID relationship);
         source = norm_key (rel_Source relationship);
         createdAt = (if rel_CreatedAt relationship = zero_time then env_Now env
                      else rel_CreatedAt relationship)
     in if subjectType = '''' then Inl (ErrorText ''subject type is required'')
        else if subjectID = '''' then Inl (ErrorText ''subject id is required'')
        else if relation \<notin> set validAuthzRelationships then Inl (ErrorText ''invalid relation value'')
        else if objectType = '''' then Inl (ErrorText ''object type is required'')
        else if objectID = '''' then Inl (ErrorText ''object id is required'')
        else Inr (relationship\<lparr>rel_SubjectType := subjectType, rel_SubjectID := subjectID,
               rel_Relation := relation, rel_ObjectType := objectType, rel_ObjectID := objectID,
               rel_Source := (if source = '''' then ''manual'' else source),
               rel_CreatedAt := createdAt,
               rel_UpdatedAt := (if rel_UpdatedAt relationship = zero_time then createdAt
                                 else rel_UpdatedAt relationship)\<rparr>))"

definition normalizeAuthzPolicySetID :: "string \<Rightarrow> string result" where
  "normalizeAuthzPolicySetID value =
    (let normalized = norm_key value
     in if normalized = '''' then Inl (ErrorText ''policy set id is required'')
        else if \<not> authzOwnerTeamPattern normalized then Inl (ErrorText ''invalid policy set id format'')
        else Inr normalized)"

definition NormalizeAuthzPolicySetForWrite :: "Env \<Rightarrow> AuthzPolicySet \<Rightarrow> AuthzPolicySet result" where
  "NormalizeAuthzPolicySetForWrite env policySet =
    rbind (normalizeAuthzPolicySetID (set_PolicySetID policySet)) (\<lambda>policySetID.
      let displayName = trim_space (set_DisplayName policySet);
          createdAt = (if set_CreatedAt policySet = zero_time then env_Now env
                       else set_CreatedAt policySet)
      in if displayName = '''' then Inl (ErrorText ''display name is required'')
         else Inr (policySet\<lparr>set_PolicySetID := policySetID, set_DisplayName := displayName,
                set_Description := trim_space (set_Description policySet),
                set_CreatedBy := trim_space (set_CreatedBy policySet),
                set_CreatedAt := createdAt,
                set_UpdatedAt := (if set_UpdatedAt policySet = zero_time then createdAt
                                  else set_UpdatedAt policySet)\<rparr>))"

definition NormalizeAuthzPolicyVersionForWrite ::
  "Env \<Rightarrow> AuthzPolicyVersion \<Rightarrow> AuthzPolicyVersion result" where
  "NormalizeAuthzPolicyVersionForWrite env version =
    rbind (normalizeAuthzPolicySetID (pv_PolicySetID version)) (\<lambda>policySetID.
      let bundle = trim_space (pv_Bundle version);
          checksum = norm_key (pv_Checksum version)
      in if pv_Version version \<le> 0 then Inl (ErrorText ''version must be greater than zero'')
         else if bundle = '''' then Inl (ErrorText ''policy bundle is required'')
         else if \<not> env_JsonValid env bundle then Inl (ErrorText ''policy bundle must be valid json'')
         else Inr (version\<lparr>pv_PolicySetID := policySetID, pv_Bundle := bundle,
                pv_Checksum := (if checksum = '''' then env_Sha256Hex env bundle else checksum),
                pv_CreatedBy := trim_space (pv_CreatedBy version),
                pv_CreatedAt := (if pv_CreatedAt version = zero_time then env_Now env
                                 else pv_CreatedAt version)\<rparr>))"

definition normalizeAuthzRolloutAllowlist :: "string list \<Rightarrow> string list" where
  "normalizeAuthzRolloutAllowlist values =
    sort (collect_unique (\<lambda>value. nonempty (trim_space value)) [] values)"

fun collect_versions :: "int list \<Rightarrow> int list \<Rightarrow> int list result" where
  "collect_versions normalized [] = Inr normalized"
| "collect_versions normalized (version # versions) =
    (if version \<le> 0 then Inl (ErrorText ''validated versions must be greater than zero'')
     else collect_versions (add_unique version normalized) versions)"

definition normalizeAuthzRolloutValidatedVersions :: "int list \<Rightarrow> int list result" where
  "normalizeAuthzRolloutValidatedVersions versions =
    rbind (collect_versions [] versions) (\<lambda>normalized. Inr (sort normalized))"

definition containsInt :: "int list \<Rightarrow> int \<Rightarrow> bool" where
  "containsInt values value = (value \<in> set values)"

definition NormalizeAuthzPolicyRolloutForWrite ::
  "Env \<Rightarrow> AuthzPolicyRollout \<Rightarrow> AuthzPolicyRollout result" where
  "NormalizeAuthzPolicyRolloutForWrite env rollout =
    rbind (normalizeAuthzPolicySetID (ro_PolicySetID rollout)) (\<lambda>policySetID.
      let mode = norm_key (ro_Mode rollout);
          mode = (if mode = '''' then AuthzPolicyRolloutModeDisabled else mode);
          canary = (if ro_CanaryPercentage rollout = 0 then 100 else ro_CanaryPercentage rollout)
      in if (case ro_ActiveVersion rollout of None \<Rightarrow> False | Some v \<Rightarrow> v \<le> 0) then
           Inl (ErrorText ''active version must be greater than zero'')
         else if (case ro_CandidateVersion rollout of None \<Rightarrow> False | Some v \<Rightarrow> v \<le> 0) then
           Inl (ErrorText ''candidate version must be greater than zero'')
         else if mode \<notin> set validAuthzPolicyRolloutModes then Inl (ErrorText ''invalid rollout mode'')
         else if canary < 0 \<or> 100 < canary then
           Inl (ErrorText ''canary percentage must be between 0 and 100'')
         else rbind (normalizeAuthzRolloutValidatedVersions (ro_ValidatedVersions rollout)) (\<lambda>validated.
           if mode = AuthzPolicyRolloutModeEnforce
              \<and> (case ro_ActiveVersion rollout of None \<Rightarrow> False | Some v \<Rightarrow> \<not> containsInt validated v) then
             Inl (ErrorText ''active version must exist in validated_versions when mode is enforce'')
           else if mode = AuthzPolicyRolloutModeEnforce
              \<and> (case ro_CandidateVersion rollout of None \<Rightarrow> False | Some v \<Rightarrow> \<not> containsInt validated v) then
             Inl (ErrorText ''candidate version must exist in validated_versions when mode is enforce'')
           else Inr (rollout\<lparr>ro_PolicySetID := policySetID, ro_Mode := mode,
                  ro_TenantAllowlist := normalizeAuthzRolloutAllowlist (ro_TenantAllowlist rollout),
                  ro_WorkspaceAllowlist := normalizeAuthzRolloutAllowlist (ro_WorkspaceAllowlist rollout),
                  ro_CanaryPercentage := canary, ro_ValidatedVersions := validated,
                  ro_UpdatedBy := trim_space (ro_UpdatedBy rollout),
                  ro_UpdatedAt := (if ro_UpdatedAt rollout = zero_time then env_Now env
                                   else ro_UpdatedAt rollout)\<rparr>)))"

definition NormalizeAuthzPolicyEventForWrite ::
  "Env \<Rightarrow> AuthzPolicyEvent \<Rightarrow> AuthzPolicyEvent result" where
  "NormalizeAuthzPolicyEventForWrite env event =
    rbind (normalizeAuthzPolicySetID (pe_PolicySetID event)) (\<lambda>policySetID.
      let eventType = norm_key (pe_EventType event)
      in if eventType = '''' then Inl (ErrorText ''event type is required'')
         else if (case pe_FromVersion event of None \<Rightarrow> False | Some v \<Rightarrow> v \<le> 0) then
           Inl (ErrorText ''from version must be greater than zero'')
         else if (case pe_ToVersion event of None \<Rightarrow> False | Some v \<Rightarrow> v \<le> 0) then
           Inl (ErrorText ''to version must be greater than zero'')
         else Inr (event\<lparr>pe_ID := trim_space (pe_ID event), pe_PolicySetID := policySetID,
                pe_EventType := eventType, pe_Actor := trim_space (pe_Actor event),
                pe_Message := trim_space (pe_Message event),
                pe_CreatedAt := (if pe_CreatedAt event = zero_time then env_Now env
                                 else pe_CreatedAt event)\<rparr>))"

subsection \<open>Well-formed records\<close>

definition wf_attributes :: "AuthzEntityAttributes \<Rightarrow> bool" where
  "wf_attributes a \<longleftrightarrow>
    ea_EntityKind a \<in> set validAuthzEntityKinds \<and> ea_EntityType a \<noteq> '''' \<and> ea_EntityID a \<noteq> ''''
    \<and> (ea_OwnerTeam a = '''' \<or> authzOwnerTeamPattern (ea_OwnerTeam a))
    \<and> (ea_Environment a = '''' \<or> ea_Environment a \<in> set validAuthzEnvironments)
    \<and> (ea_RiskTier a = '''' \<or> ea_RiskTier a \<in> set validAuthzRiskTiers)
    \<and> (ea_Classification a = '''' \<or> ea_Classification a \<in> set validAuthzClassifications)"

definition wf_relationship :: "AuthzRelationship \<Rightarrow> bool" where
  "wf_relationship r \<longleftrightarrow>
    norm_key (rel_SubjectType r) = rel_SubjectType r \<and> rel_SubjectType r \<noteq> ''''
    \<and> trim_space (rel_SubjectID r) = rel_SubjectID r \<and> rel_SubjectID r \<noteq> ''''
    \<and> rel_Relation r \<in> set validAuthzRelationships
    \<and> norm_key (rel_ObjectType r) = rel_ObjectType r \<and> rel_ObjectType r \<noteq> ''''
    \<and> trim_space (rel_ObjectID r) = rel_ObjectID r \<and> rel_ObjectID r \<noteq> ''''"

definition wf_version :: "AuthzPolicyVersion \<Rightarrow> bool" where
  "wf_version v \<longleftrightarrow>
    authzOwnerTeamPattern (pv_PolicySetID v) \<and> 0 < pv_Version v \<and> pv_Bundle v \<noteq> ''''"

definition wf_rollout :: "AuthzPolicyRollout \<Rightarrow> bool" where
  "wf_rollout r \<longleftrightarrow>
    authzOwnerTeamPattern (ro_PolicySetID r) \<and> ro_Mode r \<in> set validAuthzPolicyRolloutModes
    \<and> 0 < ro_CanaryPercentage r \<and> ro_CanaryPercentage r \<le> 100
    \<and> sorted (ro_ValidatedVersions r) \<and> distinct (ro_ValidatedVersions r)
    \<and> (\<forall>v\<in>set (ro_ValidatedVersions r). 0 < v)
    \<and> (\<forall>v. ro_ActiveVersion r = Some v \<longrightarrow> 0 < v) \<and> (\<forall>v. ro_CandidateVersion r = Some v \<longrightarrow> 0 < v)
    \<and> (ro_Mode r = AuthzPolicyRolloutModeEnforce \<longrightarrow>
         set_option (ro_ActiveVersion r) \<union> set_option (ro_CandidateVersion r)
           \<subseteq> set (ro_ValidatedVersions r))"

subsection \<open>Laws\<close>

lemma normalizeAuthzPolicySetID_Inr [simp]:
  "normalizeAuthzPolicySetID s = Inr k \<longleftrightarrow> k = norm_key s \<and> authzOwnerTeamPattern k"
  by (auto simp: normalizeAuthzPolicySetID_def Let_def authzOwnerTeamPattern_def)

lemma collect_versions_Inr:
  "collect_versions acc vs = Inr xs \<Longrightarrow> distinct acc \<Longrightarrow> (\<forall>v\<in>set acc. 0 < v) \<Longrightarrow>
    set xs = set acc \<union> set vs \<and> distinct xs \<and> (\<forall>v\<in>set xs. 0 < v)"
  by (induction acc vs arbitrary: xs rule: collect_versions.induct)
    (auto simp: distinct_add_unique split: if_splits)

lemma validated_versions_Inr:
  assumes "normalizeAuthzRolloutValidatedVersions vs = Inr xs"
  shows "set xs = set vs" "distinct xs" "sorted xs" "\<forall>v\<in>set xs. 0 < v"
  using assms collect_versions_Inr [of "[]" vs]
  by (auto simp: normalizeAuthzRolloutValidatedVersions_def rbind_Inr_iff)

lemma norm_key_valid_relation: "r \<in> set validAuthzRelationships \<Longrightarrow> norm_key r = r"
  unfolding validAuthzRelationships_def by (auto, code_simp+)

lemma NormalizeAuthzEntityAttributesForWrite_wf:
  "NormalizeAuthzEntityAttributesForWrite env a = Inr b \<Longrightarrow> wf_attributes b"
  by (auto simp: NormalizeAuthzEntityAttributesForWrite_def Let_def wf_attributes_def split: if_splits)

lemma NormalizeAuthzRelationshipForWrite_wf:
  "NormalizeAuthzRelationshipForWrite env r = Inr b \<Longrightarrow> wf_relationship b"
  by (auto simp: NormalizeAuthzRelationshipForWrite_def Let_def wf_relationship_def split: if_splits)

lemma NormalizeAuthzPolicyVersionForWrite_wf:
  "NormalizeAuthzPolicyVersionForWrite env v = Inr b \<Longrightarrow> wf_version b"
  by (auto simp: NormalizeAuthzPolicyVersionForWrite_def Let_def wf_version_def rbind_Inr_iff split: if_splits)

lemma NormalizeAuthzPolicyRolloutForWrite_Inr:
  assumes "NormalizeAuthzPolicyRolloutForWrite env r = Inr b"
  shows "\<exists>validated. authzOwnerTeamPattern (norm_key (ro_PolicySetID r))
    \<and> (\<forall>v. ro_ActiveVersion r = Some v \<longrightarrow> 0 < v) \<and> (\<forall>v. ro_CandidateVersion r = Some v \<longrightarrow> 0 < v)
    \<and> ro_Mode b \<in> set validAuthzPolicyRolloutModes
    \<and> 0 < ro_CanaryPercentage b \<and> ro_CanaryPercentage b \<le> 100
    \<and> normalizeAuthzRolloutValidatedVersions (ro_ValidatedVersions r) = Inr validated
    \<and> (ro_Mode b = AuthzPolicyRolloutModeEnforce \<longrightarrow>
         (\<forall>v. ro_ActiveVersion r = Some v \<or> ro_CandidateVersion r = Some v \<longrightarrow> v \<in> set validated))
    \<and> b = r\<lparr>ro_PolicySetID := norm_key (ro_PolicySetID r), ro_Mode := ro_Mode b,
           ro_TenantAllowlist := normalizeAuthzRolloutAllowlist (ro_TenantAllowlist r),
           ro_WorkspaceAllowlist := normalizeAuthzRolloutAllowlist (ro_WorkspaceAllowlist r),
           ro_CanaryPercentage := ro_CanaryPercentage b, ro_ValidatedVersions := validated,
           ro_UpdatedBy := trim_space (ro_UpdatedBy r),
           ro_UpdatedAt := (if ro_UpdatedAt r = zero_time then env_Now env else ro_UpdatedAt r)\<rparr>"
  using assms
  apply (simp only: NormalizeAuthzPolicyRolloutForWrite_def Let_def rbind_Inr_iff normalizeAuthzPolicySetID_Inr)
  apply (cases "ro_ActiveVersion r"; cases "ro_CandidateVersion r")
  apply (simp_all add: rbind_Inr_iff containsInt_def split: if_split_asm)
  apply auto
  done

lemma NormalizeAuthzPolicyRolloutForWrite_wf:
  assumes "NormalizeAuthzPolicyRolloutForWrite env r = Inr b"
  shows "wf_rollout b"
proof -
  from NormalizeAuthzPolicyRolloutForWrite_Inr [OF assms] obtain validated where
    v: "normalizeAuthzRolloutValidatedVersions (ro_ValidatedVersions r) = Inr validated"
    and bits: "authzOwnerTeamPattern (norm_key (ro_PolicySetID r))"
      "\<forall>v. ro_ActiveVersion r = Some v \<longrightarrow> 0 < v" "\<forall>v. ro_CandidateVersion r = Some v \<longrightarrow> 0 < v"
      "ro_Mode b \<in> set validAuthzPolicyRolloutModes"
      "0 < ro_CanaryPercentage b" "ro_CanaryPercentage b \<le> 100"
      "ro_Mode b = AuthzPolicyRolloutModeEnforce \<longrightarrow>
         (\<forall>v. ro_ActiveVersion r = Some v \<or> ro_CandidateVersion r = Some v \<longrightarrow> v \<in> set validated)"
    and b: "b = r\<lparr>ro_PolicySetID := norm_key (ro_PolicySetID r), ro_Mode := ro_Mode b,
           ro_TenantAllowlist := normalizeAuthzRolloutAllowlist (ro_TenantAllowlist r),
           ro_WorkspaceAllowlist := normalizeAuthzRolloutAllowlist (ro_WorkspaceAllowlist r),
           ro_CanaryPercentage := ro_CanaryPercentage b, ro_ValidatedVersions := validated,
           ro_UpdatedBy := trim_space (ro_UpdatedBy r),
           ro_UpdatedAt := (if ro_UpdatedAt r = zero_time then env_Now env else ro_UpdatedAt r)\<rparr>"
    by blast
  have sel: "ro_PolicySetID b = norm_key (ro_PolicySetID r)" "ro_ValidatedVersions b = validated"
    "ro_ActiveVersion b = ro_ActiveVersion r" "ro_CandidateVersion b = ro_CandidateVersion r"
    by (subst b, simp)+
  from bits(7) have "ro_Mode b = AuthzPolicyRolloutModeEnforce \<longrightarrow>
      set_option (ro_ActiveVersion r) \<union> set_option (ro_CandidateVersion r) \<subseteq> set validated"
    by (cases "ro_ActiveVersion r"; cases "ro_CandidateVersion r") auto
  with bits sel validated_versions_Inr [OF v] show ?thesis
    unfolding wf_rollout_def by (simp only: sel)
qed

end
