(* ===== verification/Policy_Evaluators.thy ===== *)
theory Policy_Evaluators
  imports Policy_Engine Authz_Records
begin

section \<open>The four policy evaluators (internal/api/authz_evaluators.go)\<close>

text \<open>
  Tenant isolation denies on a scope mismatch; the two RBAC evaluators compare the subject's roles
  with the roles granted for an action; ABAC evaluates clauses of attribute predicates; ReBAC walks
  relation paths through the tuples of the store. A Go set \<^verbatim>\<open>map[string]struct{}\<close> is a list without
  duplicates; a nil receiver behaves like one with an empty map, which is how it is modelled.
  The store the ReBAC evaluator reads is the interface \<open>relationship_store\<close>: the listing function
  of a store, the tuples that are live in the caller's scope, and the laws that relate the two.
\<close>

subsection \<open>Tenant isolation\<close>

abbreviation policyContextTenantIDKey :: string where
  "policyContextTenantIDKey \<equiv> ''tenant_id''"

abbreviation policyContextWorkspaceIDKey :: string where
  "policyContextWorkspaceIDKey \<equiv> ''workspace_id''"

definition target_scope_id :: "string \<Rightarrow> (string, string) gomap \<Rightarrow> string \<Rightarrow> string" where
  "target_scope_id resourceID attributes key =
    (let target = trim_space resourceID
     in if target = '''' then trim_space (map_string attributes key) else target)"

definition tenantIsolation_Evaluate :: PolicyEvaluator where
  "tenantIsolation_Evaluate input =
    (let subjectTenant = trim_space (sub_TenantID (in_Subject input));
         subjectWorkspace = trim_space (sub_WorkspaceID (in_Subject input));
         targetTenant = target_scope_id (res_TenantID (in_Resource input))
           (pc_Attributes (in_Context input)) policyContextTenantIDKey;
         targetWorkspace = target_scope_id (res_WorkspaceID (in_Resource input))
           (pc_Attributes (in_Context input)) policyContextWorkspaceIDKey
     in if subjectTenant \<noteq> '''' \<and> targetTenant \<noteq> '''' \<and> subjectTenant \<noteq> targetTenant then
          Inr (PolicyOutcomeDeny, ''tenant scope mismatch: subject='' @ quote_string subjectTenant
                 @ '' target='' @ quote_string targetTenant)
        else if subjectWorkspace \<noteq> '''' \<and> targetWorkspace \<noteq> '''' \<and> subjectWorkspace \<noteq> targetWorkspace then
          Inr (PolicyOutcomeDeny, ''workspace scope mismatch: subject='' @ quote_string subjectWorkspace
                 @ '' target='' @ quote_string targetWorkspace)
        else Inr (PolicyOutcomeNoOpinion, ''''))"

subsection \<open>RBAC\<close>

type_synonym ActionRoles = "(string, string list) gomap"

definition role_set :: "string list \<Rightarrow> string list" where
  "role_set roles = collect_unique (\<lambda>role. nonempty (norm_key role)) [] roles"

fun add_action_roles :: "(string, string list) gomap \<Rightarrow> ActionRoles \<Rightarrow> ActionRoles" where
  "add_action_roles [] actionRoles = actionRoles"
| "add_action_roles ((action, roles) # grants) actionRoles =
    (let normalizedAction = norm_key action; roleSet = role_set roles
     in if normalizedAction = '''' then add_action_roles grants actionRoles
        else if roleSet = [] then add_action_roles grants actionRoles
        else add_action_roles grants (map_put normalizedAction roleSet actionRoles))"

definition normalizeActionRoleGrants :: "(string, string list) gomap \<Rightarrow> ActionRoles" where
  "normalizeActionRoleGrants grants = add_action_roles grants []"

definition subjectHasAnyRole :: "string list \<Rightarrow> string list \<Rightarrow> bool" where
  "subjectHasAnyRole roles allowedRoles =
    list_ex (\<lambda>role. let normalizedRole = norm_key role
                    in normalizedRole \<noteq> '''' \<and> normalizedRole \<in> set allowedRoles) roles"

definition rbacPolicy_Evaluate :: "ActionRoles \<Rightarrow> PolicyEvaluator" where
  "rbacPolicy_Evaluate actionRoles input =
    (let action = norm_key (in_Action input)
     in if actionRoles = [] \<or> action = '''' then Inr (PolicyOutcomeNoOpinion, '''')
        else case map_of actionRoles action of
          None \<Rightarrow> Inr (PolicyOutcomeNoOpinion, '''')
        | Some allowedRoles \<Rightarrow>
            (if subjectHasAnyRole (sub_Roles (in_Subject input)) allowedRoles then
               Inr (PolicyOutcomeAllow, ''rbac role grants action'')
             else Inr (PolicyOutcomeNoOpinion, '''')))"

definition rbacRequirement_Evaluate :: "ActionRoles \<Rightarrow> PolicyEvaluator" where
  "rbacRequirement_Evaluate actionRoles input =
    (let action = norm_key (in_Action input)
     in if actionRoles = [] \<or> action = '''' then Inr (PolicyOutcomeNoOpinion, '''')
        else case map_of actionRoles action of
          None \<Rightarrow> Inr (PolicyOutcomeNoOpinion, '''')
        | Some allowedRoles \<Rightarrow>
            (if subjectHasAnyRole (sub_Roles (in_Subject input)) allowedRoles then
               Inr (PolicyOutcomeNoOpinion, '''')
             else Inr (PolicyOutcomeDeny, ''rbac role does not grant action'')))"

definition newRBACPolicyEvaluator :: "(string, string list) gomap \<Rightarrow> PolicyEvaluator" where
  "newRBACPolicyEvaluator grants = rbacPolicy_Evaluate (normalizeActionRoleGrants grants)"

definition newRBACRequirementEvaluator :: "(string, string list) gomap \<Rightarrow> PolicyEvaluator" where
  "newRBACRequirementEvaluator grants = rbacRequirement_Evaluate (normalizeActionRoleGrants grants)"

subsection \<open>ABAC\<close>

record abacPredicate =
  ap_Source :: string
  ap_Key :: string
  ap_Operator :: string
  ap_Value :: string
  ap_Values :: "string list"
  ap_CompareSource :: string
  ap_CompareKey :: string

record abacClause =
  ac_AllOf :: "abacPredicate list"

record abacActionPolicy =
  aa_AnyOf :: "abacClause list"
  aa_OnNoMatch :: PolicyOutcome

definition normalizeABACPredicate :: "abacPredicate \<Rightarrow> abacPredicate" where
  "normalizeABACPredicate predicate =
    (let operator = norm_key (ap_Operator predicate)
     in predicate\<lparr>ap_Source := norm_key (ap_Source predicate), ap_Key := norm_key (ap_Key predicate),
          ap_Operator := (if operator = '''' then ''equals'' else operator),
          ap_Value := trim_space (ap_Value predicate),
          ap_CompareSource := norm_key (ap_CompareSource predicate),
          ap_CompareKey := norm_key (ap_CompareKey predicate),
          ap_Values := collect_unique (\<lambda>value. nonempty (trim_space value)) [] (ap_Values predicate)\<rparr>)"

definition normalizeABACPolicy :: "abacActionPolicy \<Rightarrow> abacActionPolicy" where
  "normalizeABACPolicy policy =
    (let onNoMatch = norm_key (aa_OnNoMatch policy)
     in \<lparr>aa_AnyOf = map (\<lambda>clause. \<lparr>ac_AllOf = map normalizeABACPredicate (ac_AllOf clause)\<rparr>)
            (aa_AnyOf policy),
         aa_OnNoMatch = (if onNoMatch = PolicyOutcomeNoOpinion then PolicyOutcomeNoOpinion
            else if onNoMatch = PolicyOutcomeAllow then PolicyOutcomeAllow
            else PolicyOutcomeDeny)\<rparr>)"

fun add_abac_policies ::
  "(string, abacActionPolicy) gomap \<Rightarrow> (string, abacActionPolicy) gomap \<Rightarrow> (string, abacActionPolicy) gomap" where
  "add_abac_policies [] normalized = normalized"
| "add_abac_policies ((action, policy) # policies) normalized =
    (let normalizedAction = norm_key action
     in if normalizedAction = '''' then add_abac_policies policies normalized
        else add_abac_policies policies (map_put normalizedAction (normalizeABACPolicy policy) normalized))"

definition normalizeABACPolicies :: "(string, abacActionPolicy) gomap \<Rightarrow> (string, abacActionPolicy) gomap" where
  "normalizeABACPolicies policies = add_abac_policies policies []"

definition lookupPolicyAttribute :: "(string, string) gomap \<Rightarrow> string \<Rightarrow> string option" where
  "lookupPolicyAttribute attributes key =
    (case map_of attributes key of
       Some value \<Rightarrow> nonempty (trim_space value)
     | None \<Rightarrow>
        (case find (\<lambda>(existingKey, value). equal_fold existingKey key) attributes of
           Some (_, value) \<Rightarrow> nonempty (trim_space value)
         | None \<Rightarrow> None))"

definition resolveABACValue :: "PolicyInput \<Rightarrow> string \<Rightarrow> string \<Rightarrow> string option" where
  "resolveABACValue input source key =
    (let normalizedKey = norm_key key; subject = in_Subject input; resource = in_Resource input;
         ctx = in_Context input
     in if normalizedKey = '''' then None
        else if source = ''subject'' then
          (if normalizedKey = ''type'' then nonempty (trim_space (sub_Type subject))
           else if normalizedKey = ''id'' then nonempty (trim_space (sub_ID subject))
           else if normalizedKey = ''tenant_id'' then nonempty (trim_space (sub_TenantID subject))
           else if normalizedKey = ''workspace_id'' then nonempty (trim_space (sub_WorkspaceID subject))
           else lookupPolicyAttribute (sub_Attributes subject) normalizedKey)
        else if source = ''resource'' then
          (if normalizedKey = ''type'' then nonempty (trim_space (res_Type resource))
           else if normalizedKey = ''id'' then nonempty (trim_space (res_ID resource))
           else if normalizedKey = ''tenant_id'' then nonempty (trim_space (res_TenantID resource))
           else if normalizedKey = ''workspace_id'' then nonempty (trim_space (res_WorkspaceID resource))
           else lookupPolicyAttribute (res_Attributes resource) normalizedKey)
        else if source = ''context'' then
          (if normalizedKey = ''request_path'' then nonempty (trim_space (pc_RequestPath ctx))
           else if normalizedKey = ''request_method'' then nonempty (trim_space (pc_RequestMethod ctx))
           else lookupPolicyAttribute (pc_Attributes ctx) normalizedKey)
        else None)"

definition evaluateABACPredicate :: "PolicyInput \<Rightarrow> abacPredicate \<Rightarrow> bool \<times> string" where
  "evaluateABACPredicate input predicate =
    (let source = ap_Source predicate; key = ap_Key predicate
     in case resolveABACValue input source key of
          None \<Rightarrow> (False, ''abac missing '' @ source @ ''.'' @ key)
        | Some left \<Rightarrow>
            (if ap_Operator predicate = ''equals'' then
               (if left = ap_Value predicate then (True, '''')
                else (False, ''abac mismatch '' @ source @ ''.'' @ key))
             else if ap_Operator predicate = ''one_of'' then
               (if left \<in> set (ap_Values predicate) then (True, '''')
                else (False, ''abac value not allowed for '' @ source @ ''.'' @ key))
             else if ap_Operator predicate = ''equals_attribute'' then
               (case resolveABACValue input (ap_CompareSource predicate) (ap_CompareKey predicate) of
                  None \<Rightarrow> (False, ''abac missing '' @ ap_CompareSource predicate @ ''.'' @ ap_CompareKey predicate)
                | Some right \<Rightarrow>
                    (if left = right then (True, '''')
                     else (False, ''abac mismatch '' @ source @ ''.'' @ key @ '' vs ''
                            @ ap_CompareSource predicate @ ''.'' @ ap_CompareKey predicate)))
             else (False, ''abac unsupported operator'')))"

text \<open>The inner loop over a clause: whether it matched, and the deny reason afterwards.\<close>

fun eval_clause :: "PolicyInput \<Rightarrow> abacPredicate list \<Rightarrow> string \<Rightarrow> bool \<times> string" where
  "eval_clause input [] denyReason = (True, denyReason)"
| "eval_clause input (predicate # predicates) denyReason =
    (case evaluateABACPredicate input predicate of
       (True, _) \<Rightarrow> eval_clause input predicates denyReason
     | (False, reason) \<Rightarrow> (False, if trim_space reason \<noteq> '''' then reason else denyReason))"

fun eval_clauses :: "PolicyInput \<Rightarrow> abacClause list \<Rightarrow> string \<Rightarrow> bool \<times> string" where
  "eval_clauses input [] denyReason = (False, denyReason)"
| "eval_clauses input (clause # clauses) denyReason =
    (case eval_clause input (ac_AllOf clause) denyReason of
       (True, reason) \<Rightarrow> (True, reason)
     | (False, reason) \<Rightarrow> eval_clauses input clauses reason)"

definition abacPolicy_Evaluate :: "(string, abacActionPolicy) gomap \<Rightarrow> PolicyEvaluator" where
  "abacPolicy_Evaluate actionPolicies input =
    (let action = norm_key (in_Action input)
     in if actionPolicies = [] \<or> action = '''' then Inr (PolicyOutcomeNoOpinion, '''')
        else case map_of actionPolicies action of
          None \<Rightarrow> Inr (PolicyOutcomeNoOpinion, '''')
        | Some policy \<Rightarrow>
            (if aa_AnyOf policy = [] then Inr (PolicyOutcomeAllow, ''abac policy grants action'')
             else case eval_clauses input (aa_AnyOf policy) ''abac conditions not satisfied'' of
               (True, _) \<Rightarrow> Inr (PolicyOutcomeAllow, ''abac policy grants action'')
             | (False, denyReason) \<Rightarrow>
                 (if aa_OnNoMatch policy = PolicyOutcomeNoOpinion then Inr (PolicyOutcomeNoOpinion, '''')
                  else if aa_OnNoMatch policy = PolicyOutcomeAllow then
                    Inr (PolicyOutcomeAllow, ''abac policy grants action'')
                  else Inr (PolicyOutcomeDeny, denyReason))))"

definition newABACPolicyEvaluator :: "(string, abacActionPolicy) gomap \<Rightarrow> PolicyEvaluator" where
  "newABACPolicyEvaluator policies = abacPolicy_Evaluate (normalizeABACPolicies policies)"

subsection \<open>ReBAC\<close>

record rebacRelationPath =
  rp_Relations :: "string list"
  rp_AllOf :: "abacPredicate list"

record rebacActionPolicy =
  ra_AnyOf :: "rebacRelationPath list"

record rebacNode =
  rn_SubjectType :: string
  rn_SubjectID :: string

type_synonym ListRelationships = "AuthzRelationshipFilter \<Rightarrow> int \<Rightarrow> AuthzRelationship list result"

definition rebacDefaultLookupLimit :: int where
  "rebacDefaultLookupLimit = 200"

definition isSupportedReBACRelation :: "string \<Rightarrow> bool" where
  "isSupportedReBACRelation relation =
    (norm_key relation \<in> {AuthzRelationshipOwns, AuthzRelationshipManages,
       AuthzRelationshipDelegatedAdmin, AuthzRelationshipMemberOf})"

definition normalizeReBACPath :: "rebacRelationPath \<Rightarrow> rebacRelationPath" where
  "normalizeReBACPath path =
    (let relations = map norm_key (rp_Relations path)
     in if list_all isSupportedReBACRelation relations then
          \<lparr>rp_Relations = relations, rp_AllOf = map normalizeABACPredicate (rp_AllOf path)\<rparr>
        else \<lparr>rp_Relations = [], rp_AllOf = []\<rparr>)"

fun add_rebac_policies ::
  "(string, rebacActionPolicy) gomap \<Rightarrow> (string, rebacActionPolicy) gomap \<Rightarrow> (string, rebacActionPolicy) gomap" where
  "add_rebac_policies [] normalized = normalized"
| "add_rebac_policies ((action, policy) # policies) normalized =
    (let normalizedAction = norm_key action;
         anyOf = filter (\<lambda>path. rp_Relations path \<noteq> []) (map normalizeReBACPath (ra_AnyOf policy))
     in if normalizedAction = '''' then add_rebac_policies policies normalized
        else if anyOf = [] then add_rebac_policies policies normalized
        else add_rebac_policies policies (map_put normalizedAction \<lparr>ra_AnyOf = anyOf\<rparr> normalized))"

definition normalizeReBACPolicies :: "(string, rebacActionPolicy) gomap \<Rightarrow> (string, rebacActionPolicy) gomap" where
  "normalizeReBACPolicies policies = add_rebac_policies policies []"

definition evaluateReBACPathConditions :: "PolicyInput \<Rightarrow> abacPredicate list \<Rightarrow> bool \<times> string" where
  "evaluateReBACPathConditions input conditions =
    (case find (\<lambda>condition. \<not> fst (evaluateABACPredicate input condition)) conditions of
       None \<Rightarrow> (True, '''')
     | Some condition \<Rightarrow>
         (let reason = snd (evaluateABACPredicate input condition)
          in if trim_space reason = '''' then (False, ''rebac condition failed'')
             else (False, ''rebac condition failed: '' @ reason)))"

definition hop_filter :: "rebacNode \<Rightarrow> string \<Rightarrow> AuthzRelationshipFilter" where
  "hop_filter node relation =
    \<lparr>rf_SubjectType = rn_SubjectType node, rf_SubjectID = rn_SubjectID node, rf_Relation = relation,
     rf_ObjectType = '''', rf_ObjectID = '''', rf_IncludeExpired = False\<rparr>"

definition last_filter :: "rebacNode \<Rightarrow> string \<Rightarrow> string \<Rightarrow> string \<Rightarrow> AuthzRelationshipFilter" where
  "last_filter node relation objectType objectID =
    \<lparr>rf_SubjectType = rn_SubjectType node, rf_SubjectID = rn_SubjectID node, rf_Relation = relation,
     rf_ObjectType = objectType, rf_ObjectID = objectID, rf_IncludeExpired = False\<rparr>"

text \<open>The last hop (lines 532-549): some node has a tuple of the relation to the object.\<close>

fun last_hop ::
  "ListRelationships \<Rightarrow> int \<Rightarrow> string \<Rightarrow> string \<Rightarrow> string \<Rightarrow> rebacNode list \<Rightarrow> bool result" where
  "last_hop list_rels limit relation objectType objectID [] = Inr False"
| "last_hop list_rels limit relation objectType objectID (node # nodes) =
    (case list_rels (last_filter node relation objectType objectID) limit of
       Inl err \<Rightarrow> Inl (Wrapped ''list rebac relationships: '' err '''')
     | Inr tuples \<Rightarrow>
        (if tuples \<noteq> [] then Inr True
         else last_hop list_rels limit relation objectType objectID nodes))"

definition tuple_node :: "AuthzRelationship \<Rightarrow> rebacNode" where
  "tuple_node tuple =
    \<lparr>rn_SubjectType = norm_key (rel_ObjectType tuple), rn_SubjectID = trim_space (rel_ObjectID tuple)\<rparr>"

definition node_key :: "rebacNode \<Rightarrow> string" where
  "node_key node = rn_SubjectType node @ ''|'' @ rn_SubjectID node"

fun add_tuple_nodes ::
  "AuthzRelationship list \<Rightarrow> (string, rebacNode) gomap \<Rightarrow> (string, rebacNode) gomap" where
  "add_tuple_nodes [] nextNodes = nextNodes"
| "add_tuple_nodes (tuple # tuples) nextNodes =
    (let node = tuple_node tuple
     in if rn_SubjectType node = '''' \<or> rn_SubjectID node = '''' then add_tuple_nodes tuples nextNodes
        else add_tuple_nodes tuples (map_put (node_key node) node nextNodes))"

fun next_nodes ::
  "ListRelationships \<Rightarrow> int \<Rightarrow> string \<Rightarrow> rebacNode list \<Rightarrow> (string, rebacNode) gomap
    \<Rightarrow> (string, rebacNode) gomap result" where
  "next_nodes list_rels limit relation [] nextNodes = Inr nextNodes"
| "next_nodes list_rels limit relation (node # nodes) nextNodes =
    (case list_rels (hop_filter node relation) limit of
       Inl err \<Rightarrow> Inl (Wrapped ''list rebac relationships: '' err '''')
     | Inr tuples \<Rightarrow> next_nodes list_rels limit relation nodes (add_tuple_nodes tuples nextNodes))"

fun rebac_hops ::
  "ListRelationships \<Rightarrow> int \<Rightarrow> string \<Rightarrow> string \<Rightarrow> rebacNode list \<Rightarrow> string list \<Rightarrow> bool result" where
  "rebac_hops list_rels limit objectType objectID nodes [] = Inr False"
| "rebac_hops list_rels limit objectType objectID nodes [relation] =
    last_hop list_rels limit relation objectType objectID nodes"
| "rebac_hops list_rels limit objectType objectID nodes (relation # relation' # relations) =
    (case next_nodes list_rels limit relation nodes [] of
       Inl err \<Rightarrow> Inl err
     | Inr nextNodes \<Rightarrow>
        (if nextNodes = [] then Inr False
         else rebac_hops list_rels limit objectType objectID (map snd nextNodes) (relation' # relations)))"

definition evaluateReBACPath ::
  "ListRelationships \<Rightarrow> int \<Rightarrow> rebacNode \<Rightarrow> string \<Rightarrow> string \<Rightarrow> rebacRelationPath \<Rightarrow> bool result" where
  "evaluateReBACPath list_rels limit start objectType objectID path =
    rebac_hops list_rels limit objectType objectID [start] (rp_Relations path)"

fun eval_paths ::
  "ListRelationships \<Rightarrow> int \<Rightarrow> PolicyInput \<Rightarrow> rebacNode \<Rightarrow> string \<Rightarrow> string \<Rightarrow> rebacRelationPath list \<Rightarrow> string
    \<Rightarrow> (PolicyOutcome \<times> string) result" where
  "eval_paths list_rels limit input start objectType objectID [] denyReason =
    Inr (PolicyOutcomeDeny, denyReason)"
| "eval_paths list_rels limit input start objectType objectID (path # paths) denyReason =
    (case evaluateReBACPathConditions input (rp_AllOf path) of
       (False, reason) \<Rightarrow>
         eval_paths list_rels limit input start objectType objectID paths
           (if trim_space reason \<noteq> '''' then reason else denyReason)
     | (True, _) \<Rightarrow>
        (case evaluateReBACPath list_rels limit start objectType objectID path of
           Inl err \<Rightarrow> Inl err
         | Inr True \<Rightarrow> Inr (PolicyOutcomeAllow, ''rebac relationship grants action'')
         | Inr False \<Rightarrow> eval_paths list_rels limit input start objectType objectID paths
             ''rebac relationship does not grant action''))"

definition rebacPolicy_Evaluate ::
  "ListRelationships option \<Rightarrow> (string, rebacActionPolicy) gomap \<Rightarrow> int \<Rightarrow> PolicyEvaluator" where
  "rebacPolicy_Evaluate store actionPolicies lookupLimit input =
    (case store of
       None \<Rightarrow> Inr (PolicyOutcomeNoOpinion, '''')
     | Some list_rels \<Rightarrow>
        (let action = norm_key (in_Action input)
         in if actionPolicies = [] \<or> action = '''' then Inr (PolicyOutcomeNoOpinion, '''')
            else case map_of actionPolicies action of
              None \<Rightarrow> Inr (PolicyOutcomeNoOpinion, '''')
            | Some policy \<Rightarrow>
                (if ra_AnyOf policy = [] then Inr (PolicyOutcomeNoOpinion, '''')
                 else
                   (let subjectType = norm_key (sub_Type (in_Subject input));
                        subjectID = trim_space (sub_ID (in_Subject input));
                        objectType = norm_key (res_Type (in_Resource input));
                        objectID = trim_space (res_ID (in_Resource input))
                    in if subjectType = '''' \<or> subjectID = '''' \<or> objectType = '''' \<or> objectID = '''' then
                         Inr (PolicyOutcomeDeny, ''rebac subject or resource identity is missing'')
                       else eval_paths list_rels lookupLimit input
                              \<lparr>rn_SubjectType = subjectType, rn_SubjectID = subjectID\<rparr> objectType objectID
                              (ra_AnyOf policy) ''rebac relationship does not grant action''))))"

definition newReBACPolicyEvaluator ::
  "ListRelationships option \<Rightarrow> (string, rebacActionPolicy) gomap \<Rightarrow> PolicyEvaluator" where
  "newReBACPolicyEvaluator store policies =
    rebacPolicy_Evaluate store (normalizeReBACPolicies policies) rebacDefaultLookupLimit"

subsection \<open>Specifications\<close>

text \<open>Two scope identifiers agree unless both are given and differ.\<close>

definition scope_agrees :: "string \<Rightarrow> string \<Rightarrow> bool" where
  "scope_agrees s t \<longleftrightarrow> s = '''' \<or> t = '''' \<or> s = t"

definition tenant_isolated :: "PolicyInput \<Rightarrow> bool" where
  "tenant_isolated input \<longleftrightarrow>
    scope_agrees (trim_space (sub_TenantID (in_Subject input)))
      (target_scope_id (res_TenantID (in_Resource input)) (pc_Attributes (in_Context input)) policyContextTenantIDKey)
    \<and> scope_agrees (trim_space (sub_WorkspaceID (in_Subject input)))
      (target_scope_id (res_WorkspaceID (in_Resource input)) (pc_Attributes (in_Context input)) policyContextWorkspaceIDKey)"

definition predicate_holds :: "PolicyInput \<Rightarrow> abacPredicate \<Rightarrow> bool" where
  "predicate_holds input p = fst (evaluateABACPredicate input p)"

text \<open>
  A path of relations through a set of tuples, from a node to the object: what the ReBAC evaluator
  is meant to decide.
\<close>

definition edge_from :: "rebacNode \<Rightarrow> string \<Rightarrow> AuthzRelationship \<Rightarrow> bool" where
  "edge_from n relation t \<longleftrightarrow>
    rel_SubjectType t = rn_SubjectType n \<and> rel_SubjectID t = rn_SubjectID n \<and> rel_Relation t = relation"

definition named_node :: "rebacNode \<Rightarrow> bool" where
  "named_node n \<longleftrightarrow> rn_SubjectType n \<noteq> '''' \<and> rn_SubjectID n \<noteq> ''''"

inductive rebac_chain :: "AuthzRelationship set \<Rightarrow> string \<Rightarrow> string \<Rightarrow> rebacNode \<Rightarrow> string list \<Rightarrow> bool"
  for tuples :: "AuthzRelationship set" and objectType :: string and objectID :: string where
  chain_last: "t \<in> tuples \<Longrightarrow> edge_from n r t \<Longrightarrow> rel_ObjectType t = objectType \<Longrightarrow> rel_ObjectID t = objectID
    \<Longrightarrow> rebac_chain tuples objectType objectID n [r]"
| chain_hop: "t \<in> tuples \<Longrightarrow> edge_from n r t \<Longrightarrow> named_node (tuple_node t)
    \<Longrightarrow> rebac_chain tuples objectType objectID (tuple_node t) (r' # rs)
    \<Longrightarrow> rebac_chain tuples objectType objectID n (r # r' # rs)"

inductive_simps rebac_chain_Nil: "rebac_chain tuples objectType objectID n []"
inductive_simps rebac_chain_single: "rebac_chain tuples objectType objectID n [r]"
inductive_simps rebac_chain_Cons: "rebac_chain tuples objectType objectID n (r # r' # rs)"

text \<open>What a listing filter selects, expiry and scope apart (see \<open>ListAuthzRelationships\<close>).\<close>

definition filter_matches :: "AuthzRelationshipFilter \<Rightarrow> AuthzRelationship \<Rightarrow> bool" where
  "filter_matches f t \<longleftrightarrow>
    (norm_key (rf_SubjectType f) \<noteq> '''' \<longrightarrow> rel_SubjectType t = norm_key (rf_SubjectType f))
    \<and> (trim_space (rf_SubjectID f) \<noteq> '''' \<longrightarrow> rel_SubjectID t = trim_space (rf_SubjectID f))
    \<and> (norm_key (rf_Relation f) \<noteq> '''' \<longrightarrow> rel_Relation t = norm_key (rf_Relation f))
    \<and> (norm_key (rf_ObjectType f) \<noteq> '''' \<longrightarrow> rel_ObjectType t = norm_key (rf_ObjectType f))
    \<and> (trim_space (rf_ObjectID f) \<noteq> '''' \<longrightarrow> rel_ObjectID t = trim_space (rf_ObjectID f))"

definition normal_node :: "rebacNode \<Rightarrow> bool" where
  "normal_node n \<longleftrightarrow> named_node n \<and> norm_key (rn_SubjectType n) = rn_SubjectType n
    \<and> trim_space (rn_SubjectID n) = rn_SubjectID n"

definition normal_object :: "string \<Rightarrow> string \<Rightarrow> bool" where
  "normal_object objectType objectID \<longleftrightarrow>
    objectType \<noteq> '''' \<and> objectID \<noteq> '''' \<and> norm_key objectType = objectType \<and> trim_space objectID = objectID"

text \<open>
  The evaluator grants only what the tuples grant: a path of the action's policy whose conditions
  hold and whose relations lead from the subject to the resource.
\<close>

definition subject_node :: "PolicyInput \<Rightarrow> rebacNode" where
  "subject_node input =
    \<lparr>rn_SubjectType = norm_key (sub_Type (in_Subject input)), rn_SubjectID = trim_space (sub_ID (in_Subject input))\<rparr>"

definition rebac_grants :: "AuthzRelationship set \<Rightarrow> rebacActionPolicy \<Rightarrow> PolicyInput \<Rightarrow> bool" where
  "rebac_grants tuples policy input \<longleftrightarrow>
    (\<exists>path\<in>set (ra_AnyOf policy). (\<forall>p\<in>set (rp_AllOf path). predicate_holds input p)
       \<and> rebac_chain tuples (norm_key (res_Type (in_Resource input))) (trim_space (res_ID (in_Resource input)))
           (subject_node input) (rp_Relations path))"

subsection \<open>The evaluators meet their contract\<close>

interpretation tenant_eval: policy_evaluator tenantIsolation_Evaluate
  by unfold_locales (auto simp: tenantIsolation_Evaluate_def Let_def split: if_splits)

interpretation rbac_eval: policy_evaluator "rbacPolicy_Evaluate actionRoles" for actionRoles
  by unfold_locales (auto simp: rbacPolicy_Evaluate_def Let_def split: if_splits option.splits)

interpretation rbac_req_eval: policy_evaluator "rbacRequirement_Evaluate actionRoles" for actionRoles
  by unfold_locales (auto simp: rbacRequirement_Evaluate_def Let_def split: if_splits option.splits)

interpretation abac_eval: policy_evaluator "abacPolicy_Evaluate policies" for policies
  by unfold_locales (auto simp: abacPolicy_Evaluate_def Let_def split: if_splits option.splits prod.splits bool.splits)

lemma eval_paths_outcome:
  "eval_paths list_rels limit input start ot oid paths reason = Inr (outcome, r) \<Longrightarrow>
    outcome = PolicyOutcomeAllow \<or> outcome = PolicyOutcomeDeny"
  by (induction paths arbitrary: reason) (auto split: prod.splits bool.splits sum.splits)

interpretation rebac_eval: policy_evaluator "rebacPolicy_Evaluate store policies limit" for store policies limit
  by unfold_locales
    (auto simp: rebacPolicy_Evaluate_def Let_def dest: eval_paths_outcome split: if_splits option.splits)

subsection \<open>Tenant isolation and RBAC: laws\<close>

lemma tenantIsolation_opinion:
  "stage_verdict input (Some tenantIsolation_Evaluate) = (if tenant_isolated input then None else Some False)"
  by (auto simp: stage_verdict_def tenantIsolation_Evaluate_def tenant_isolated_def scope_agrees_def Let_def)

lemma subjectHasAnyRole_iff:
  "subjectHasAnyRole roles allowed \<longleftrightarrow> (\<exists>r\<in>set roles. norm_key r \<noteq> '''' \<and> norm_key r \<in> set allowed)"
  by (auto simp: subjectHasAnyRole_def list_ex_iff Let_def)

lemma set_role_set: "set (role_set roles) = {norm_key r |r. r \<in> set roles \<and> norm_key r \<noteq> ''''}"
  by (auto simp: role_set_def set_collect_unique nonempty_def)

lemma add_action_roles_lookup:
  "map_of (add_action_roles grants acc) a = Some rs \<Longrightarrow>
    map_of acc a = Some rs \<or> (\<exists>action roles. (action, roles) \<in> set grants \<and> norm_key action = a
      \<and> a \<noteq> '''' \<and> rs = role_set roles \<and> rs \<noteq> [])"
proof (induction grants arbitrary: acc)
  case (Cons g grants)
  obtain action roles where g: "g = (action, roles)" by (cases g)
  show ?case
  proof (cases "norm_key action = '''' \<or> role_set roles = []")
    case True
    with Cons.prems g have "map_of (add_action_roles grants acc) a = Some rs"
      by (auto simp: Let_def split: if_splits)
    from Cons.IH [OF this] show ?thesis by (auto simp: g)
  next
    case False
    with Cons.prems g
    have "map_of (add_action_roles grants (map_put (norm_key action) (role_set roles) acc)) a = Some rs"
      by (simp add: Let_def)
    from Cons.IH [OF this] False show ?thesis by (auto simp: g split: if_splits)
  qed
qed simp

lemma add_action_roles_keeps: "map_of acc a \<noteq> None \<Longrightarrow> map_of (add_action_roles grants acc) a \<noteq> None"
proof (induction grants arbitrary: acc)
  case (Cons g grants)
  obtain action roles where g: "g = (action, roles)" by (cases g)
  have "map_of (map_put (norm_key action) (role_set roles) acc) a \<noteq> None" using Cons.prems by simp
  from Cons.IH [OF Cons.prems] Cons.IH [OF this] show ?case by (simp add: g Let_def)
qed simp

lemma add_action_roles_total:
  "(action, roles) \<in> set grants \<Longrightarrow> norm_key action \<noteq> '''' \<Longrightarrow> role_set roles \<noteq> [] \<Longrightarrow>
    map_of (add_action_roles grants acc) (norm_key action) \<noteq> None"
proof (induction grants arbitrary: acc)
  case (Cons g grants)
  obtain action' roles' where g: "g = (action', roles')" by (cases g)
  show ?case
  proof (cases "(action, roles) = g")
    case True
    with Cons.prems g add_action_roles_keeps [of "map_put (norm_key action) (role_set roles) acc" "norm_key action" grants]
    show ?thesis by (simp add: Let_def)
  next
    case False
    with Cons.prems have "(action, roles) \<in> set grants" by simp
    from Cons.IH [OF this Cons.prems(2,3)] show ?thesis by (simp add: g Let_def)
  qed
qed simp

lemma normalizeActionRoleGrants_Some:
  "map_of (normalizeActionRoleGrants grants) a = Some rs \<Longrightarrow>
    \<exists>action roles. (action, roles) \<in> set grants \<and> norm_key action = a \<and> a \<noteq> ''''
      \<and> rs = role_set roles \<and> rs \<noteq> []"
  using add_action_roles_lookup [of grants "[]"] by (auto simp: normalizeActionRoleGrants_def)

text \<open>The role requirement of an action: some grant for the action names one of the subject's roles.\<close>

definition role_granted :: "(string, string list) gomap \<Rightarrow> PolicyInput \<Rightarrow> bool" where
  "role_granted grants input \<longleftrightarrow>
    (\<exists>action roles r g. (action, roles) \<in> set grants \<and> norm_key action = norm_key (in_Action input)
       \<and> r \<in> set (sub_Roles (in_Subject input)) \<and> g \<in> set roles \<and> norm_key g = norm_key r \<and> norm_key r \<noteq> '''')"

lemma rbacRequirement_pass:
  assumes "stage_verdict input (Some (newRBACRequirementEvaluator grants)) \<noteq> Some False"
    and "(action, roles) \<in> set grants" "norm_key action = norm_key (in_Action input)"
    and "norm_key action \<noteq> ''''" "role_set roles \<noteq> []"
  shows "role_granted grants input"
proof -
  let ?m = "normalizeActionRoleGrants grants"
  obtain rs where rs: "map_of ?m (norm_key (in_Action input)) = Some rs"
    using add_action_roles_total [OF assms(2,4,5), of "[]"] assms(3)
    by (auto simp: normalizeActionRoleGrants_def)
  with assms(1,3,4) have "subjectHasAnyRole (sub_Roles (in_Subject input)) rs"
    by (auto simp: stage_verdict_def newRBACRequirementEvaluator_def rbacRequirement_Evaluate_def Let_def
        split: if_splits)
  with normalizeActionRoleGrants_Some [OF rs] show ?thesis
    unfolding role_granted_def subjectHasAnyRole_iff by (fastforce simp: set_role_set)
qed

lemma newRBACRequirement_never_allows:
  "stage_verdict input (Some (newRBACRequirementEvaluator grants)) \<noteq> Some True"
  by (auto simp: stage_verdict_def newRBACRequirementEvaluator_def rbacRequirement_Evaluate_def Let_def
      split: option.splits)

subsection \<open>ABAC: laws\<close>

lemma eval_clause_iff: "fst (eval_clause input ps reason) \<longleftrightarrow> (\<forall>p\<in>set ps. predicate_holds input p)"
  by (induction ps) (auto simp: predicate_holds_def split: prod.splits bool.splits)

lemma eval_clauses_iff:
  "fst (eval_clauses input cs reason) \<longleftrightarrow> (\<exists>c\<in>set cs. \<forall>p\<in>set (ac_AllOf c). predicate_holds input p)"
proof (induction cs arbitrary: reason)
  case (Cons c cs)
  show ?case using Cons.IH eval_clause_iff [of input "ac_AllOf c" reason]
    by (auto split: prod.splits bool.splits)
qed simp

text \<open>When an ABAC policy grants: no clause at all, a clause all of whose predicates hold, or the
  policy's own default.\<close>

definition abac_grants :: "abacActionPolicy \<Rightarrow> PolicyInput \<Rightarrow> bool" where
  "abac_grants policy input \<longleftrightarrow>
    aa_AnyOf policy = [] \<or> (\<exists>c\<in>set (aa_AnyOf policy). \<forall>p\<in>set (ac_AllOf c). predicate_holds input p)
    \<or> aa_OnNoMatch policy = PolicyOutcomeAllow"

lemma abac_verdict:
  assumes "norm_key (in_Action input) \<noteq> ''''"
  shows "stage_verdict input (Some (abacPolicy_Evaluate policies)) =
    (case map_of policies (norm_key (in_Action input)) of
       None \<Rightarrow> None
     | Some policy \<Rightarrow>
         if abac_grants policy input then Some True
         else if aa_OnNoMatch policy = PolicyOutcomeNoOpinion then None else Some False)"
proof (cases "map_of policies (norm_key (in_Action input))")
  case None
  then show ?thesis by (simp add: stage_verdict_def abacPolicy_Evaluate_def Let_def)
next
  case (Some policy)
  then have "policies \<noteq> []" by auto
  with Some assms eval_clauses_iff [of input "aa_AnyOf policy" "''abac conditions not satisfied''"]
  show ?thesis
    by (auto simp: stage_verdict_def abacPolicy_Evaluate_def Let_def abac_grants_def
        split: prod.splits bool.splits)
qed

subsection \<open>ReBAC: the store interface and the path search\<close>

lemma path_conditions_iff:
  "fst (evaluateReBACPathConditions input ps) \<longleftrightarrow> (\<forall>p\<in>set ps. predicate_holds input p)"
  by (auto simp: evaluateReBACPathConditions_def predicate_holds_def Let_def find_Some_iff find_None_iff
      split: option.splits)

lemma eval_paths_allow:
  assumes "eval_paths list_rels limit input start ot oid paths reason = Inr (PolicyOutcomeAllow, r)"
  shows "\<exists>path\<in>set paths. (\<forall>p\<in>set (rp_AllOf path). predicate_holds input p)
    \<and> evaluateReBACPath list_rels limit start ot oid path = Inr True"
  using assms
proof (induction paths arbitrary: reason)
  case (Cons path paths)
  show ?case
  proof (cases "evaluateReBACPathConditions input (rp_AllOf path)")
    case (Pair ok why)
    with path_conditions_iff [of input "rp_AllOf path"]
    have ok: "ok \<longleftrightarrow> (\<forall>p\<in>set (rp_AllOf path). predicate_holds input p)" by simp
    show ?thesis
    proof (cases "ok \<and> evaluateReBACPath list_rels limit start ot oid path = Inr True")
      case True
      with ok show ?thesis by auto
    next
      case False
      with Cons.prems Pair obtain reason'
        where "eval_paths list_rels limit input start ot oid paths reason' = Inr (PolicyOutcomeAllow, r)"
        by (auto split: bool.splits sum.splits)
      from Cons.IH [OF this] show ?thesis by auto
    qed
  qed
qed simp

lemma eval_paths_grants:
  assumes "eval_paths list_rels limit input start ot oid paths reason = Inr (outcome, r)"
    and "path \<in> set paths" "\<forall>p\<in>set (rp_AllOf path). predicate_holds input p"
    and "\<And>b. evaluateReBACPath list_rels limit start ot oid path = Inr b \<Longrightarrow> b"
  shows "outcome = PolicyOutcomeAllow"
  using assms(1,2)
proof (induction paths arbitrary: reason)
  case (Cons q paths)
  show ?case
  proof (cases "q = path")
    case True
    with path_conditions_iff [of input "rp_AllOf path"] assms(3) Cons.prems(1) assms(4) show ?thesis
      by (auto split: prod.splits bool.splits sum.splits)
  next
    case False
    with Cons.prems(2) have mem: "path \<in> set paths" by simp
    from Cons.prems(1) have "outcome = PolicyOutcomeAllow
        \<or> (\<exists>reason'. eval_paths list_rels limit input start ot oid paths reason' = Inr (outcome, r))"
      by (auto split: prod.splits bool.splits sum.splits)
    with Cons.IH [OF _ mem] show ?thesis by blast
  qed
qed simp

lemma lower_char_bar: "lower_char c = CHR ''|'' \<longleftrightarrow> c = CHR ''|''"
proof (cases "map_of lower_table c")
  case None
  then show ?thesis by (simp add: lower_char_def)
next
  case (Some d)
  then have "(c, d) \<in> set lower_table" by (rule map_of_SomeD)
  moreover have "list_all (\<lambda>p. fst p \<noteq> CHR ''|'' \<and> snd p \<noteq> CHR ''|'') lower_table" by code_simp
  ultimately show ?thesis using Some by (auto simp: lower_char_def list_all_iff)
qed

lemma set_trim_space: "set (trim_space s) \<subseteq> set s"
  by (auto simp: trim_space_def dest!: set_dropWhileD)

lemma bar_free_norm_key: "CHR ''|'' \<notin> set s \<Longrightarrow> CHR ''|'' \<notin> set (norm_key s)"
proof
  assume bar: "CHR ''|'' \<notin> set s" and "CHR ''|'' \<in> set (norm_key s)"
  then obtain c where "c \<in> set (trim_space s)" "lower_char c = CHR ''|''"
    by (auto simp: norm_key_def to_lower_def)
  with set_trim_space [of s] bar show False by (auto simp: lower_char_bar)
qed

lemma bar_split:
  assumes "a @ ''|'' @ b = c @ ''|'' @ d" "CHR ''|'' \<notin> set a" "CHR ''|'' \<notin> set c"
  shows "a = c \<and> b = d"
  using assms
proof (induction a arbitrary: c)
  case Nil
  then show ?case by (cases c) auto
next
  case (Cons x a)
  then show ?case by (cases c) auto
qed

lemma node_key_inj:
  "node_key m = node_key n \<Longrightarrow> CHR ''|'' \<notin> set (rn_SubjectType m) \<Longrightarrow> CHR ''|'' \<notin> set (rn_SubjectType n)
    \<Longrightarrow> m = n"
  using bar_split [of "rn_SubjectType m" "rn_SubjectID m" "rn_SubjectType n" "rn_SubjectID n"]
  by (auto simp: node_key_def)

lemma normal_tuple_node [simp]: "named_node (tuple_node t) \<Longrightarrow> normal_node (tuple_node t)"
  by (auto simp: normal_node_def tuple_node_def)

lemma filter_matches_hop:
  "normal_node n \<Longrightarrow> r \<in> set validAuthzRelationships \<Longrightarrow> filter_matches (hop_filter n r) t \<longleftrightarrow> edge_from n r t"
  by (auto simp: filter_matches_def hop_filter_def edge_from_def normal_node_def named_node_def
      norm_key_valid_relation validAuthzRelationships_def)

lemma filter_matches_last:
  "normal_node n \<Longrightarrow> r \<in> set validAuthzRelationships \<Longrightarrow> normal_object ot oid \<Longrightarrow>
    filter_matches (last_filter n r ot oid) t \<longleftrightarrow>
      edge_from n r t \<and> rel_ObjectType t = ot \<and> rel_ObjectID t = oid"
  by (auto simp: filter_matches_def last_filter_def edge_from_def normal_node_def named_node_def
      norm_key_valid_relation validAuthzRelationships_def normal_object_def)

lemma add_tuple_nodes_sound:
  "map_of (add_tuple_nodes ts m) k = Some n \<Longrightarrow>
    map_of m k = Some n \<or> (\<exists>t\<in>set ts. n = tuple_node t \<and> named_node n \<and> k = node_key n)"
  by (induction ts m rule: add_tuple_nodes.induct)
    (auto simp: Let_def named_node_def split: if_splits)

lemma add_tuple_nodes_keeps: "map_of m k \<noteq> None \<Longrightarrow> map_of (add_tuple_nodes ts m) k \<noteq> None"
  by (induction ts m rule: add_tuple_nodes.induct) (auto simp: Let_def split: if_splits)

lemma add_tuple_nodes_total:
  "t \<in> set ts \<Longrightarrow> named_node (tuple_node t) \<Longrightarrow> map_of (add_tuple_nodes ts m) (node_key (tuple_node t)) \<noteq> None"
proof (induction ts m rule: add_tuple_nodes.induct)
  case (2 u ts m)
  then show ?case
    using add_tuple_nodes_keeps [of "map_put (node_key (tuple_node u)) (tuple_node u) m" "node_key (tuple_node t)" ts]
    by (auto simp: Let_def named_node_def split: if_splits)
qed simp

lemma distinct_add_tuple_nodes: "distinct (map fst m) \<Longrightarrow> distinct (map fst (add_tuple_nodes ts m))"
  by (induction ts m rule: add_tuple_nodes.induct) (auto simp: Let_def distinct_put)

lemma distinct_next_nodes:
  "next_nodes list_rels limit r ns m = Inr m' \<Longrightarrow> distinct (map fst m) \<Longrightarrow> distinct (map fst m')"
proof (induction ns arbitrary: m)
  case (Cons n ns)
  from Cons.prems(1) obtain ts where "next_nodes list_rels limit r ns (add_tuple_nodes ts m) = Inr m'"
    by (auto split: sum.splits)
  then show ?case by (rule Cons.IH) (rule distinct_add_tuple_nodes [OF Cons.prems(2)])
qed simp

lemma add_tuple_nodes_keyed:
  "(\<And>key x. map_of m key = Some x \<Longrightarrow> key = node_key x) \<Longrightarrow> map_of (add_tuple_nodes ts m) key = Some x
    \<Longrightarrow> key = node_key x"
  using add_tuple_nodes_sound [of ts m key x] by auto

lemma next_nodes_keyed:
  assumes "next_nodes list_rels limit r ns m = Inr m'" "\<And>key x. map_of m key = Some x \<Longrightarrow> key = node_key x"
    and "map_of m' key = Some x"
  shows "key = node_key x"
  using assms(1,2)
proof (induction ns arbitrary: m)
  case Nil
  with assms(3) show ?case by simp
next
  case (Cons n ns)
  from Cons.prems(1) obtain ts where "next_nodes list_rels limit r ns (add_tuple_nodes ts m) = Inr m'"
    by (auto split: sum.splits)
  then show ?case by (rule Cons.IH) (rule add_tuple_nodes_keyed [OF Cons.prems(2)])
qed

locale relationship_store =
  fixes list_rels :: "AuthzRelationshipFilter \<Rightarrow> int \<Rightarrow> AuthzRelationship list result"
    and tuples :: "AuthzRelationship set"
  assumes list_unlimited:
    "list_rels f 0 = Inr all \<Longrightarrow> \<not> rf_IncludeExpired f \<Longrightarrow> set all = {t \<in> tuples. filter_matches f t}"
    and list_limited:
    "list_rels f k = Inr ts \<Longrightarrow> \<exists>all. list_rels f 0 = Inr all \<and> ts = limit_list k all"
begin

lemma list_sound:
  assumes "list_rels f k = Inr ts" "\<not> rf_IncludeExpired f" "t \<in> set ts"
  shows "t \<in> tuples \<and> filter_matches f t"
proof -
  from list_limited [OF assms(1)] obtain all where all: "list_rels f 0 = Inr all" "ts = limit_list k all"
    by blast
  with assms(3) set_limit_list [of k all] have "t \<in> set all" by auto
  with list_unlimited [OF all(1) assms(2)] show ?thesis by simp
qed

lemma list_nonempty:
  assumes "list_rels f k = Inr ts" "\<not> rf_IncludeExpired f"
  shows "ts \<noteq> [] \<longleftrightarrow> (\<exists>t\<in>tuples. filter_matches f t)"
proof -
  from list_limited [OF assms(1)] obtain all where all: "list_rels f 0 = Inr all" "ts = limit_list k all"
    by blast
  then have "ts \<noteq> [] \<longleftrightarrow> set all \<noteq> {}" by (simp add: limit_list_nonempty)
  with list_unlimited [OF all(1) assms(2)] show ?thesis by auto
qed

lemma last_hop_iff:
  assumes "last_hop list_rels k r ot oid ns = Inr b" "\<forall>n\<in>set ns. normal_node n"
    and "r \<in> set validAuthzRelationships" "normal_object ot oid"
  shows "b \<longleftrightarrow> (\<exists>n\<in>set ns. rebac_chain tuples ot oid n [r])"
  using assms(1,2)
proof (induction ns)
  case (Cons n ns)
  from Cons.prems obtain ts where ts: "list_rels (last_filter n r ot oid) k = Inr ts"
    by (auto split: sum.splits)
  have "ts \<noteq> [] \<longleftrightarrow> rebac_chain tuples ot oid n [r]"
    using list_nonempty [OF ts] Cons.prems(2) filter_matches_last [OF _ assms(3,4)]
    by (auto simp: rebac_chain_single last_filter_def)
  with Cons ts show ?case by (auto split: if_splits)
qed simp

lemma next_nodes_sound:
  assumes "next_nodes list_rels k r ns m = Inr m'" "\<forall>n\<in>set ns. normal_node n"
    and "r \<in> set validAuthzRelationships" "map_of m' key = Some x"
  shows "map_of m key = Some x \<or> (\<exists>n\<in>set ns. \<exists>t\<in>tuples. edge_from n r t \<and> x = tuple_node t \<and> named_node x)"
  using assms(1,2)
proof (induction ns arbitrary: m)
  case Nil
  with assms(4) show ?case by simp
next
  case (Cons n ns)
  from Cons.prems obtain ts where ts: "list_rels (hop_filter n r) k = Inr ts"
    and rest: "next_nodes list_rels k r ns (add_tuple_nodes ts m) = Inr m'"
    by (auto split: sum.splits)
  have edge: "t \<in> tuples \<and> edge_from n r t" if "t \<in> set ts" for t
    using list_sound [OF ts _ that] Cons.prems(2) filter_matches_hop [OF _ assms(3)]
    by (auto simp: hop_filter_def)
  from Cons.IH [OF rest] Cons.prems(2)
  consider "map_of (add_tuple_nodes ts m) key = Some x"
    | "\<exists>n\<in>set ns. \<exists>t\<in>tuples. edge_from n r t \<and> x = tuple_node t \<and> named_node x" by auto
  then show ?case
  proof cases
    case 1
    then show ?thesis using add_tuple_nodes_sound [OF 1] edge by auto
  qed auto
qed

lemma next_nodes_keeps:
  "next_nodes list_rels k r ns m = Inr m' \<Longrightarrow> map_of m key \<noteq> None \<Longrightarrow> map_of m' key \<noteq> None"
proof (induction ns arbitrary: m)
  case (Cons n ns)
  from Cons.prems(1) obtain ts where "next_nodes list_rels k r ns (add_tuple_nodes ts m) = Inr m'"
    by (auto split: sum.splits)
  then show ?case by (rule Cons.IH) (rule add_tuple_nodes_keeps [OF Cons.prems(2)])
qed simp

lemma next_nodes_total:
  assumes "next_nodes list_rels k r ns m = Inr m'" "\<forall>n\<in>set ns. normal_node n"
    and "r \<in> set validAuthzRelationships" "n \<in> set ns" "t \<in> tuples" "edge_from n r t"
    and "named_node (tuple_node t)"
    and within: "\<And>n all. n \<in> set ns \<Longrightarrow> list_rels (hop_filter n r) 0 = Inr all \<Longrightarrow> k \<le> 0 \<or> int (length all) \<le> k"
  shows "map_of m' (node_key (tuple_node t)) \<noteq> None"
  using assms(1,2,4) within
proof (induction ns arbitrary: m)
  case (Cons n' ns)
  from Cons.prems obtain ts where ts: "list_rels (hop_filter n' r) k = Inr ts"
    and rest: "next_nodes list_rels k r ns (add_tuple_nodes ts m) = Inr m'"
    by (auto split: sum.splits)
  from list_limited [OF ts] obtain all where all: "list_rels (hop_filter n' r) 0 = Inr all"
    "ts = limit_list k all" by blast
  show ?case
  proof (cases "n = n'")
    case True
    have "ts = all" using Cons.prems(4) [OF _ all(1)] all(2) by (simp add: limit_list_id)
    then have "t \<in> set ts"
      using list_unlimited [OF all(1)] assms(5,6) True Cons.prems(2) filter_matches_hop [OF _ assms(3)]
      by (auto simp: hop_filter_def)
    then show ?thesis using next_nodes_keeps [OF rest] add_tuple_nodes_total [OF _ assms(7)] by blast
  next
    case False
    show ?thesis by (rule Cons.IH [OF rest]) (use Cons.prems False in auto)
  qed
qed simp

lemma hops_sound:
  assumes "rebac_hops list_rels k ot oid ns rs = Inr True" "\<forall>n\<in>set ns. normal_node n"
    and "set rs \<subseteq> set validAuthzRelationships" "normal_object ot oid"
  shows "\<exists>n\<in>set ns. rebac_chain tuples ot oid n rs"
  using assms(1-3)
proof (induction rs arbitrary: ns rule: induct_list012)
  case (2 r)
  then show ?case using last_hop_iff [OF _ _ _ assms(4), of k r ns True] by simp
next
  case (3 r r' rs)
  from "3.prems"(1) obtain m where m: "next_nodes list_rels k r ns [] = Inr m"
    and rest: "rebac_hops list_rels k ot oid (map snd m) (r' # rs) = Inr True"
    by (auto split: sum.splits if_splits)
  have vals: "\<exists>n\<in>set ns. \<exists>t\<in>tuples. edge_from n r t \<and> x = tuple_node t \<and> named_node x"
    if "x \<in> set (map snd m)" for x
  proof -
    from that obtain key where "map_of m key = Some x"
      using distinct_next_nodes [OF m] by (auto dest: map_of_is_SomeI)
    from next_nodes_sound [OF m "3.prems"(2) _ this] "3.prems"(3) show ?thesis by auto
  qed
  then have "\<forall>n\<in>set (map snd m). normal_node n" by fastforce
  from "3.IH"(2) [OF rest this] "3.prems"(3) obtain x
    where "x \<in> set (map snd m)" "rebac_chain tuples ot oid x (r' # rs)" by auto
  with vals [of x] show ?case unfolding rebac_chain_Cons by blast
qed simp

lemma hops_complete:
  assumes "rebac_hops list_rels k ot oid ns rs = Inr b" "\<forall>n\<in>set ns. normal_node n"
    and "set rs \<subseteq> set validAuthzRelationships" "normal_object ot oid"
    and "n \<in> set ns" "rebac_chain tuples ot oid n rs"
    and bar: "\<And>t. t \<in> tuples \<Longrightarrow> CHR ''|'' \<notin> set (rel_ObjectType t)"
    and within: "\<And>n r all. list_rels (hop_filter n r) 0 = Inr all \<Longrightarrow> k \<le> 0 \<or> int (length all) \<le> k"
  shows b
  using assms(1-3,5,6)
proof (induction rs arbitrary: ns n rule: induct_list012)
  case 1
  then show ?case by (simp add: rebac_chain_Nil)
next
  case (2 r)
  then show ?case using last_hop_iff [OF _ _ _ assms(4), of k r ns b] by auto
next
  case (3 r r' rs)
  from "3.prems"(5) obtain t where t: "t \<in> tuples" "edge_from n r t" "named_node (tuple_node t)"
    and chain: "rebac_chain tuples ot oid (tuple_node t) (r' # rs)" by (auto simp: rebac_chain_Cons)
  from "3.prems"(1) obtain m where m: "next_nodes list_rels k r ns [] = Inr m"
    by (auto split: sum.splits)
  have valid: "r \<in> set validAuthzRelationships" using "3.prems"(3) by simp
  have vals: "\<exists>u\<in>tuples. x = tuple_node u \<and> named_node x" if "map_of m key = Some x" for x key
    using next_nodes_sound [OF m "3.prems"(2) valid that] by auto
  obtain x where x: "map_of m (node_key (tuple_node t)) = Some x"
    using next_nodes_total [OF m "3.prems"(2) valid "3.prems"(4) t] within by blast
  have keys: "key = node_key x" if "map_of m key = Some x" for key x
    using next_nodes_keyed [OF m _ that] by simp
  from vals [OF x] keys [OF x] obtain u where u: "u \<in> tuples" "x = tuple_node u"
    and same: "node_key (tuple_node t) = node_key x" by auto
  have "tuple_node t = x"
    using node_key_inj [OF same] bar [OF t(1)] bar [OF u(1)] bar_free_norm_key u(2) by (simp add: tuple_node_def)
  with x have mem: "tuple_node t \<in> set (map snd m)" by (force dest: map_of_SomeD)
  have "\<forall>n\<in>set (map snd m). normal_node n"
    using vals distinct_next_nodes [OF m] by (fastforce dest: map_of_is_SomeI)
  moreover from mem "3.prems"(1) m have "rebac_hops list_rels k ot oid (map snd m) (r' # rs) = Inr b"
    by (auto split: if_splits)
  ultimately show ?case
    using "3.IH"(2) [of "map snd m" "tuple_node t"] "3.prems"(3) mem chain by simp
qed


lemma evaluate_allow_cases:
  assumes "rebacPolicy_Evaluate (Some list_rels) policies k input = Inr (PolicyOutcomeAllow, r)"
  shows "\<exists>policy reason. map_of policies (norm_key (in_Action input)) = Some policy
    \<and> normal_node (subject_node input)
    \<and> normal_object (norm_key (res_Type (in_Resource input))) (trim_space (res_ID (in_Resource input)))
    \<and> eval_paths list_rels k input (subject_node input) (norm_key (res_Type (in_Resource input)))
        (trim_space (res_ID (in_Resource input))) (ra_AnyOf policy) reason = Inr (PolicyOutcomeAllow, r)"
  using assms
  by (auto simp: rebacPolicy_Evaluate_def Let_def subject_node_def normal_node_def named_node_def normal_object_def
      split: option.splits if_splits)

lemma evaluate_sound:
  assumes "rebacPolicy_Evaluate (Some list_rels) policies k input = Inr (PolicyOutcomeAllow, r)"
    and valid: "\<And>policy path. map_of policies (norm_key (in_Action input)) = Some policy \<Longrightarrow>
      path \<in> set (ra_AnyOf policy) \<Longrightarrow> set (rp_Relations path) \<subseteq> set validAuthzRelationships"
  shows "\<exists>policy. map_of policies (norm_key (in_Action input)) = Some policy \<and> rebac_grants tuples policy input"
proof -
  from evaluate_allow_cases [OF assms(1)] obtain policy reason where
    policy: "map_of policies (norm_key (in_Action input)) = Some policy"
    and norm: "normal_node (subject_node input)"
      "normal_object (norm_key (res_Type (in_Resource input))) (trim_space (res_ID (in_Resource input)))"
    and ev: "eval_paths list_rels k input (subject_node input) (norm_key (res_Type (in_Resource input)))
        (trim_space (res_ID (in_Resource input))) (ra_AnyOf policy) reason = Inr (PolicyOutcomeAllow, r)"
    by blast
  from eval_paths_allow [OF ev] obtain path where path: "path \<in> set (ra_AnyOf policy)"
    "\<forall>p\<in>set (rp_AllOf path). predicate_holds input p"
    and run: "rebac_hops list_rels k (norm_key (res_Type (in_Resource input)))
      (trim_space (res_ID (in_Resource input))) [subject_node input] (rp_Relations path) = Inr True"
    by (auto simp: evaluateReBACPath_def)
  from hops_sound [OF run _ valid [OF policy path(1)] norm(2)] norm(1) path policy show ?thesis
    unfolding rebac_grants_def by auto
qed

lemma evaluate_complete:
  assumes "rebacPolicy_Evaluate (Some list_rels) policies k input = Inr (outcome, r)"
    and policy: "map_of policies (norm_key (in_Action input)) = Some policy" "norm_key (in_Action input) \<noteq> ''''"
    and norm: "normal_node (subject_node input)"
      "normal_object (norm_key (res_Type (in_Resource input))) (trim_space (res_ID (in_Resource input)))"
    and grants: "rebac_grants tuples policy input"
    and valid: "\<And>path. path \<in> set (ra_AnyOf policy) \<Longrightarrow> set (rp_Relations path) \<subseteq> set validAuthzRelationships"
    and bar: "\<And>t. t \<in> tuples \<Longrightarrow> CHR ''|'' \<notin> set (rel_ObjectType t)"
    and within: "\<And>n r all. list_rels (hop_filter n r) 0 = Inr all \<Longrightarrow> k \<le> 0 \<or> int (length all) \<le> k"
  shows "outcome = PolicyOutcomeAllow"
proof -
  let ?ot = "norm_key (res_Type (in_Resource input))" and ?oid = "trim_space (res_ID (in_Resource input))"
  from grants obtain path where path: "path \<in> set (ra_AnyOf policy)"
    "\<forall>p\<in>set (rp_AllOf path). predicate_holds input p"
    and chain: "rebac_chain tuples ?ot ?oid (subject_node input) (rp_Relations path)"
    unfolding rebac_grants_def by blast
  from policy have "policies \<noteq> []" by auto
  with assms(1) policy path(1) norm
  have ev: "eval_paths list_rels k input (subject_node input) ?ot ?oid (ra_AnyOf policy)
      ''rebac relationship does not grant action'' = Inr (outcome, r)"
    by (auto simp: rebacPolicy_Evaluate_def Let_def subject_node_def normal_node_def named_node_def normal_object_def
        split: if_splits)
  show ?thesis
  proof (rule eval_paths_grants [OF ev path])
    fix b
    assume "evaluateReBACPath list_rels k (subject_node input) ?ot ?oid path = Inr b"
    then have "rebac_hops list_rels k ?ot ?oid [subject_node input] (rp_Relations path) = Inr b"
      by (simp add: evaluateReBACPath_def)
    from hops_complete [OF this _ valid [OF path(1)] norm(2) _ chain bar within] norm(1) show b by simp
  qed
qed

end

lemma add_rebac_policies_valid:
  assumes "map_of (add_rebac_policies policies acc) a = Some policy" "path \<in> set (ra_AnyOf policy)"
    and "\<And>a policy path. map_of acc a = Some policy \<Longrightarrow> path \<in> set (ra_AnyOf policy)
      \<Longrightarrow> set (rp_Relations path) \<subseteq> set validAuthzRelationships"
  shows "set (rp_Relations path) \<subseteq> set validAuthzRelationships"
  using assms(1,3)
proof (induction policies arbitrary: acc)
  case Nil
  then show ?case using assms(2) by (metis add_rebac_policies.simps(1))
next
  case (Cons e policies)
  obtain action pol where e: "e = (action, pol)" by (cases e)
  let ?anyOf = "filter (\<lambda>path. rp_Relations path \<noteq> []) (map normalizeReBACPath (ra_AnyOf pol))"
  have ok: "set (rp_Relations q) \<subseteq> set validAuthzRelationships" if "q \<in> set ?anyOf" for q
    using that by (auto simp: normalizeReBACPath_def Let_def isSupportedReBACRelation_def validAuthzRelationships_def
        list_all_iff split: if_splits)
  show ?case
  proof (cases "norm_key action = '''' \<or> ?anyOf = []")
    case True
    with Cons.prems(1) e have "map_of (add_rebac_policies policies acc) a = Some policy"
      by (auto simp: Let_def split: if_splits)
    then show ?thesis by (rule Cons.IH) (rule Cons.prems(2))
  next
    case False
    with Cons.prems(1) e have
      "map_of (add_rebac_policies policies (map_put (norm_key action) \<lparr>ra_AnyOf = ?anyOf\<rparr> acc)) a = Some policy"
      by (simp add: Let_def)
    then show ?thesis
    proof (rule Cons.IH)
      fix b q p
      assume "map_of (map_put (norm_key action) \<lparr>ra_AnyOf = ?anyOf\<rparr> acc) b = Some q" "p \<in> set (ra_AnyOf q)"
      then show "set (rp_Relations p) \<subseteq> set validAuthzRelationships"
        using Cons.prems(2) [of b q p] ok [of p] by (cases "b = norm_key action") auto
    qed
  qed
qed

lemma normalizeReBACPolicies_valid:
  "map_of (normalizeReBACPolicies policies) a = Some policy \<Longrightarrow> path \<in> set (ra_AnyOf policy)
    \<Longrightarrow> set (rp_Relations path) \<subseteq> set validAuthzRelationships"
  unfolding normalizeReBACPolicies_def by (rule add_rebac_policies_valid) auto

subsection \<open>Properties\<close>

text \<open>
  C29: tenant isolation dominates. A subject whose tenant or workspace differs from the target's is
  denied at the tenant-isolation stage, whatever the RBAC, ABAC and ReBAC evaluators would answer,
  failing or missing ones included.
\<close>

theorem tenant_mismatch_always_denied:
  assumes "\<not> tenant_isolated input"
  shows "\<exists>reason. Decide (Some (NewPolicyEngine (Some tenantIsolation_Evaluate) rbac abac rebac)) input
    = Inr \<lparr>pd_Allowed = False, pd_Stage = PolicyStageTenantIsolation, pd_Reason = reason\<rparr>"
proof -
  from assms have "stage_verdict input (Some tenantIsolation_Evaluate) = Some False"
    by (simp add: tenantIsolation_opinion)
  then obtain r where "tenantIsolation_Evaluate input = Inr (PolicyOutcomeDeny, r)"
    by (auto simp: stage_verdict_Some)
  then show ?thesis
    by (simp add: Decide_def DecideWithTrace_def engine_stages_def NewPolicyEngine_def Let_def denyDecision_def)
qed

definition foreign_input :: PolicyInput where
  "foreign_input = sample_input\<lparr>in_Resource := (in_Resource sample_input)\<lparr>res_TenantID := ''globex''\<rparr>\<rparr>"

theorem tenant_mismatch_always_denied_witness:
  "\<exists>reason. Decide (Some (NewPolicyEngine (Some tenantIsolation_Evaluate)
      (Some (newRBACPolicyEvaluator [(''findings.read'', [''editor''])])) None None)) foreign_input
    = Inr \<lparr>pd_Allowed = False, pd_Stage = PolicyStageTenantIsolation, pd_Reason = reason\<rparr>"
proof -
  have "\<not> tenant_isolated foreign_input" by code_simp
  from tenant_mismatch_always_denied [OF this] show ?thesis .
qed

text \<open>
  The ABAC evaluator decides its policy. For an action with a policy it allows exactly when the
  policy has no clauses, some clause has all its predicates satisfied, or the policy's default is
  allow; otherwise it abstains when the default is no opinion and denies when it is not. For an
  action without a policy it abstains.
\<close>

theorem abacPolicy_decides:
  assumes "norm_key (in_Action input) \<noteq> ''''"
  shows "stage_verdict input (Some (abacPolicy_Evaluate policies)) =
    (case map_of policies (norm_key (in_Action input)) of
       None \<Rightarrow> None
     | Some policy \<Rightarrow>
         if abac_grants policy input then Some True
         else if aa_OnNoMatch policy = PolicyOutcomeNoOpinion then None else Some False)"
  using assms by (rule abac_verdict)

definition team_policy :: abacActionPolicy where
  "team_policy =
    \<lparr>aa_AnyOf = [\<lparr>ac_AllOf = [\<lparr>ap_Source = ''resource'', ap_Key = ''owner_team'', ap_Operator = ''equals_attribute'',
        ap_Value = '''', ap_Values = [], ap_CompareSource = ''subject'', ap_CompareKey = ''owner_team''\<rparr>]\<rparr>],
     aa_OnNoMatch = PolicyOutcomeNoOpinion\<rparr>"

lemma team_policy_grants: "abac_grants team_policy sample_input"
  by code_simp

theorem abacPolicy_decides_witness:
  "stage_verdict sample_input (Some (abacPolicy_Evaluate [(''findings.read'', team_policy)])) = Some True"
proof -
  have act: "norm_key (in_Action sample_input) = ''findings.read''" by code_simp
  then have "norm_key (in_Action sample_input) \<noteq> ''''" by simp
  from abacPolicy_decides [OF this, of "[(''findings.read'', team_policy)]"] team_policy_grants show ?thesis
    by (simp add: act)
qed

end
