(* ===== verification/Authz_Store.thy ===== *)
theory Authz_Store
  imports Policy_Evaluators
begin

section \<open>The authorization tables of the in-memory store (internal/db/memory.go)\<close>

text \<open>
  The maps of \<^verbatim>\<open>MemoryStore\<close> that hold authorization data and the operations on them, as functions
  from a state to a result and, for a write, the new state: an error leaves the state as it was, as
  in the code, where every guard precedes the only assignment. Each operation holds the store's
  mutex for its whole critical section, so operations are atomic steps.
  The tables are keyed by strings that join the scope and the record's identifiers with a bar.
  \<open>wf_store\<close> is the tables' invariant: every record is well formed, normalized and stored under its
  own key, versions and rollouts belong to a stored policy set, and a rollout points to stored
  versions. Listing sorts with \<^verbatim>\<open>sort.Slice\<close>, which is not stable; the model uses a stable sort by
  the same key, and no statement depends on the order of records that compare equal.
\<close>

record MemoryStore =
  st_authzAttrs :: "(string, AuthzEntityAttributes) gomap"
  st_authzRels :: "(string, AuthzRelationship) gomap"
  st_authzSets :: "(string, AuthzPolicySet) gomap"
  st_authzVersions :: "(string, AuthzPolicyVersion) gomap"
  st_authzRollouts :: "(string, AuthzPolicyRollout) gomap"
  st_authzEvents :: "(string, AuthzPolicyEvent list) gomap"
  st_authzEventIDs :: "string list"

definition NewMemoryStore :: MemoryStore where
  "NewMemoryStore = \<lparr>st_authzAttrs = [], st_authzRels = [], st_authzSets = [], st_authzVersions = [],
     st_authzRollouts = [], st_authzEvents = [], st_authzEventIDs = []\<rparr>"

subsection \<open>Keys\<close>

definition authzEntityScopeKey :: "Scope \<Rightarrow> string \<Rightarrow> string \<Rightarrow> string \<Rightarrow> string" where
  "authzEntityScopeKey scope entityKind entityType entityID =
    (let normalized = Normalize_Scope scope
     in sc_TenantID normalized @ ''|'' @ sc_WorkspaceID normalized @ ''|'' @ norm_key entityKind @ ''|''
        @ norm_key entityType @ ''|'' @ trim_space entityID)"

definition authzRelationshipScopeKey ::
  "Scope \<Rightarrow> string \<Rightarrow> string \<Rightarrow> string \<Rightarrow> string \<Rightarrow> string \<Rightarrow> string" where
  "authzRelationshipScopeKey scope subjectType subjectID relation objectType objectID =
    (let normalized = Normalize_Scope scope
     in sc_TenantID normalized @ ''|'' @ sc_WorkspaceID normalized @ ''|'' @ norm_key subjectType @ ''|''
        @ trim_space subjectID @ ''|'' @ norm_key relation @ ''|'' @ norm_key objectType @ ''|''
        @ trim_space objectID)"

definition authzPolicySetScopeKey :: "Scope \<Rightarrow> string \<Rightarrow> string" where
  "authzPolicySetScopeKey scope policySetID =
    (let normalized = Normalize_Scope scope
     in sc_TenantID normalized @ ''|'' @ sc_WorkspaceID normalized @ ''|'' @ norm_key policySetID)"

definition authzPolicyVersionScopeKey :: "Scope \<Rightarrow> string \<Rightarrow> int \<Rightarrow> string" where
  "authzPolicyVersionScopeKey scope policySetID version =
    authzPolicySetScopeKey scope policySetID @ ''|'' @ int_string version"

definition authzPolicyEventsScopeKey :: "Scope \<Rightarrow> string \<Rightarrow> string" where
  "authzPolicyEventsScopeKey scope policySetID = authzPolicySetScopeKey scope policySetID"

subsection \<open>Entity attributes\<close>

definition UpsertAuthzEntityAttributes ::
  "Env \<Rightarrow> Context \<Rightarrow> AuthzEntityAttributes \<Rightarrow> MemoryStore \<Rightarrow> MemoryStore result" where
  "UpsertAuthzEntityAttributes env ctx attributes m =
    rbind (NormalizeAuthzEntityAttributesForWrite env attributes) (\<lambda>normalized.
    rbind (RequireScope ctx) (\<lambda>scope.
      let scoped = Normalize_Scope scope;
          normalized = normalized\<lparr>ea_TenantID := sc_TenantID scoped, ea_WorkspaceID := sc_WorkspaceID scoped\<rparr>;
          key = authzEntityScopeKey scoped (ea_EntityKind normalized) (ea_EntityType normalized)
                  (ea_EntityID normalized)
      in Inr (m\<lparr>st_authzAttrs := map_put key normalized (st_authzAttrs m)\<rparr>)))"

definition entity_lookup :: "string \<Rightarrow> string \<Rightarrow> string \<Rightarrow> AuthzEntityAttributes" where
  "entity_lookup entityKind entityType entityID =
    \<lparr>ea_TenantID = '''', ea_WorkspaceID = '''', ea_EntityKind = entityKind, ea_EntityType = entityType,
     ea_EntityID = entityID, ea_OwnerTeam = '''', ea_Environment = '''', ea_RiskTier = '''',
     ea_Classification = '''', ea_UpdatedAt = zero_time\<rparr>"

definition GetAuthzEntityAttributes ::
  "Env \<Rightarrow> Context \<Rightarrow> string \<Rightarrow> string \<Rightarrow> string \<Rightarrow> MemoryStore \<Rightarrow> AuthzEntityAttributes result" where
  "GetAuthzEntityAttributes env ctx entityKind entityType entityID m =
    rbind (RequireScope ctx) (\<lambda>scope.
    rbind (NormalizeAuthzEntityAttributesForWrite env (entity_lookup entityKind entityType entityID)) (\<lambda>lookup.
      let scoped = Normalize_Scope scope
      in case map_of (st_authzAttrs m)
               (authzEntityScopeKey scoped (ea_EntityKind lookup) (ea_EntityType lookup) (ea_EntityID lookup)) of
           None \<Rightarrow> Inl (Sentinel ErrNotFound)
         | Some record \<Rightarrow> Inr record))"

subsection \<open>Relationships\<close>

definition relationship_key :: "Scope \<Rightarrow> AuthzRelationship \<Rightarrow> string" where
  "relationship_key scope r =
    authzRelationshipScopeKey scope (rel_SubjectType r) (rel_SubjectID r) (rel_Relation r) (rel_ObjectType r)
      (rel_ObjectID r)"

definition UpsertAuthzRelationship ::
  "Env \<Rightarrow> Context \<Rightarrow> AuthzRelationship \<Rightarrow> MemoryStore \<Rightarrow> MemoryStore result" where
  "UpsertAuthzRelationship env ctx relationship m =
    rbind (NormalizeAuthzRelationshipForWrite env relationship) (\<lambda>normalized.
    rbind (RequireScope ctx) (\<lambda>scope.
      let scoped = Normalize_Scope scope;
          normalized = normalized\<lparr>rel_TenantID := sc_TenantID scoped, rel_WorkspaceID := sc_WorkspaceID scoped\<rparr>;
          key = relationship_key scoped normalized;
          normalized = (case map_of (st_authzRels m) key of
                          None \<Rightarrow> normalized
                        | Some existing \<Rightarrow> normalized\<lparr>rel_CreatedAt := rel_CreatedAt existing\<rparr>)
      in Inr (m\<lparr>st_authzRels := map_put key normalized (st_authzRels m)\<rparr>)))"

definition DeleteAuthzRelationship ::
  "Env \<Rightarrow> Context \<Rightarrow> AuthzRelationship \<Rightarrow> MemoryStore \<Rightarrow> MemoryStore result" where
  "DeleteAuthzRelationship env ctx relationship m =
    rbind (NormalizeAuthzRelationshipForWrite env relationship) (\<lambda>normalized.
    rbind (RequireScope ctx) (\<lambda>scope.
      let key = relationship_key (Normalize_Scope scope) normalized
      in if has_key (st_authzRels m) key then Inr (m\<lparr>st_authzRels := map_del key (st_authzRels m)\<rparr>)
         else Inl (Sentinel ErrNotFound)))"

text \<open>The tests of the listing loop, and \<^verbatim>\<open>ExpiresAt != nil && !ExpiresAt.After(now)\<close>.\<close>

definition expired :: "time \<Rightarrow> AuthzRelationship \<Rightarrow> bool" where
  "expired now r = (case rel_ExpiresAt r of None \<Rightarrow> False | Some expires \<Rightarrow> \<not> now < expires)"

definition relationship_selected :: "Scope \<Rightarrow> time \<Rightarrow> AuthzRelationshipFilter \<Rightarrow> AuthzRelationship \<Rightarrow> bool" where
  "relationship_selected scope now f r =
    (let subjectType = norm_key (rf_SubjectType f);
         subjectID = trim_space (rf_SubjectID f);
         relation = norm_key (rf_Relation f);
         objectType = norm_key (rf_ObjectType f);
         objectID = trim_space (rf_ObjectID f)
     in if \<not> MatchScope scope (rel_TenantID r) (rel_WorkspaceID r) then False
        else if subjectType \<noteq> '''' \<and> rel_SubjectType r \<noteq> subjectType then False
        else if subjectID \<noteq> '''' \<and> rel_SubjectID r \<noteq> subjectID then False
        else if relation \<noteq> '''' \<and> rel_Relation r \<noteq> relation then False
        else if objectType \<noteq> '''' \<and> rel_ObjectType r \<noteq> objectType then False
        else if objectID \<noteq> '''' \<and> rel_ObjectID r \<noteq> objectID then False
        else if \<not> rf_IncludeExpired f \<and> expired now r then False
        else True)"

definition relationship_order :: "AuthzRelationship \<Rightarrow> string \<times> string \<times> string \<times> string \<times> string \<times> int" where
  "relationship_order r =
    (rel_SubjectType r, rel_SubjectID r, rel_Relation r, rel_ObjectType r, rel_ObjectID r, - rel_UpdatedAt r)"

definition ListAuthzRelationships ::
  "Env \<Rightarrow> Context \<Rightarrow> MemoryStore \<Rightarrow> AuthzRelationshipFilter \<Rightarrow> int \<Rightarrow> AuthzRelationship list result" where
  "ListAuthzRelationships env ctx m f limit =
    rbind (RequireScope ctx) (\<lambda>scope.
      let normalizedScope = Normalize_Scope scope; relation = norm_key (rf_Relation f)
      in if relation \<noteq> '''' \<and> relation \<notin> set validAuthzRelationships then
           Inl (ErrorText ''invalid relation value'')
         else
           Inr (limit_list limit (sort_key relationship_order
             (filter (relationship_selected normalizedScope (env_Now env) f) (map snd (st_authzRels m))))))"

subsection \<open>Policy sets and versions\<close>

definition UpsertAuthzPolicySet ::
  "Env \<Rightarrow> Context \<Rightarrow> AuthzPolicySet \<Rightarrow> MemoryStore \<Rightarrow> MemoryStore result" where
  "UpsertAuthzPolicySet env ctx policySet m =
    rbind (NormalizeAuthzPolicySetForWrite env policySet) (\<lambda>normalized.
    rbind (RequireScope ctx) (\<lambda>scope.
      let scoped = Normalize_Scope scope;
          normalized = normalized\<lparr>set_TenantID := sc_TenantID scoped, set_WorkspaceID := sc_WorkspaceID scoped\<rparr>;
          key = authzPolicySetScopeKey scoped (set_PolicySetID normalized);
          normalized = (case map_of (st_authzSets m) key of
                          None \<Rightarrow> normalized
                        | Some existing \<Rightarrow> normalized\<lparr>set_CreatedAt := set_CreatedAt existing,
                            set_CreatedBy := set_CreatedBy existing\<rparr>)
      in Inr (m\<lparr>st_authzSets := map_put key normalized (st_authzSets m)\<rparr>)))"

definition GetAuthzPolicySet :: "Context \<Rightarrow> string \<Rightarrow> MemoryStore \<Rightarrow> AuthzPolicySet result" where
  "GetAuthzPolicySet ctx policySetID m =
    rbind (RequireScope ctx) (\<lambda>scope.
    rbind (normalizeAuthzPolicySetID policySetID) (\<lambda>normalizedPolicySetID.
      case map_of (st_authzSets m) (authzPolicySetScopeKey (Normalize_Scope scope) normalizedPolicySetID) of
        None \<Rightarrow> Inl (Sentinel ErrNotFound)
      | Some record \<Rightarrow> Inr record))"

text \<open>The search for the next version (lines 1528-1540).\<close>

definition version_of_set :: "Scope \<Rightarrow> string \<Rightarrow> AuthzPolicyVersion \<Rightarrow> bool" where
  "version_of_set scope policySetID v =
    (MatchScope scope (pv_TenantID v) (pv_WorkspaceID v) \<and> pv_PolicySetID v = policySetID)"

fun next_version :: "Scope \<Rightarrow> string \<Rightarrow> int \<Rightarrow> AuthzPolicyVersion list \<Rightarrow> int" where
  "next_version scope policySetID nextVersion [] = nextVersion"
| "next_version scope policySetID nextVersion (candidate # candidates) =
    next_version scope policySetID
      (if \<not> version_of_set scope policySetID candidate then nextVersion
       else if nextVersion \<le> pv_Version candidate then wrap64 (pv_Version candidate + 1)
       else nextVersion) candidates"

definition CreateAuthzPolicyVersion ::
  "Env \<Rightarrow> Context \<Rightarrow> AuthzPolicyVersion \<Rightarrow> MemoryStore \<Rightarrow> (AuthzPolicyVersion \<times> MemoryStore) result" where
  "CreateAuthzPolicyVersion env ctx version m =
    rbind (RequireScope ctx) (\<lambda>scope.
      let scoped = Normalize_Scope scope in
      rbind (normalizeAuthzPolicySetID (pv_PolicySetID version)) (\<lambda>policySetID.
        if \<not> has_key (st_authzSets m) (authzPolicySetScopeKey scoped policySetID) then
          Inl (Sentinel ErrNotFound)
        else
          let version = (if pv_Version version \<le> 0 then
                 version\<lparr>pv_Version := next_version scoped policySetID 1 (map snd (st_authzVersions m))\<rparr>
               else version)
          in rbind (NormalizeAuthzPolicyVersionForWrite env version) (\<lambda>normalized.
            let normalized = normalized\<lparr>pv_TenantID := sc_TenantID scoped, pv_WorkspaceID := sc_WorkspaceID scoped\<rparr>;
                key = authzPolicyVersionScopeKey scoped (pv_PolicySetID normalized) (pv_Version normalized)
            in if has_key (st_authzVersions m) key then
                 Inl (ErrorText ''authz policy version already exists'')
               else Inr (normalized, m\<lparr>st_authzVersions := map_put key normalized (st_authzVersions m)\<rparr>))))"

definition GetAuthzPolicyVersion :: "Context \<Rightarrow> string \<Rightarrow> int \<Rightarrow> MemoryStore \<Rightarrow> AuthzPolicyVersion result" where
  "GetAuthzPolicyVersion ctx policySetID version m =
    rbind (RequireScope ctx) (\<lambda>scope.
    rbind (normalizeAuthzPolicySetID policySetID) (\<lambda>normalizedPolicySetID.
      if version \<le> 0 then Inl (ErrorText ''version must be greater than zero'')
      else case map_of (st_authzVersions m)
                  (authzPolicyVersionScopeKey (Normalize_Scope scope) normalizedPolicySetID version) of
        None \<Rightarrow> Inl (Sentinel ErrNotFound)
      | Some record \<Rightarrow> Inr record))"

definition ListAuthzPolicyVersions ::
  "Context \<Rightarrow> string \<Rightarrow> int \<Rightarrow> MemoryStore \<Rightarrow> AuthzPolicyVersion list result" where
  "ListAuthzPolicyVersions ctx policySetID limit m =
    rbind (RequireScope ctx) (\<lambda>scope.
    rbind (normalizeAuthzPolicySetID policySetID) (\<lambda>normalizedPolicySetID.
      Inr (limit_list limit (sort_key (\<lambda>v. (- pv_Version v, - pv_CreatedAt v))
        (filter (version_of_set (Normalize_Scope scope) normalizedPolicySetID)
          (map snd (st_authzVersions m)))))))"

subsection \<open>Rollouts and events\<close>

definition version_stored :: "MemoryStore \<Rightarrow> Scope \<Rightarrow> string \<Rightarrow> int option \<Rightarrow> bool" where
  "version_stored m scope policySetID v =
    (case v of
       None \<Rightarrow> True
     | Some version \<Rightarrow> has_key (st_authzVersions m) (authzPolicyVersionScopeKey scope policySetID version))"

definition UpsertAuthzPolicyRollout ::
  "Env \<Rightarrow> Context \<Rightarrow> AuthzPolicyRollout \<Rightarrow> MemoryStore \<Rightarrow> MemoryStore result" where
  "UpsertAuthzPolicyRollout env ctx rollout m =
    rbind (NormalizeAuthzPolicyRolloutForWrite env rollout) (\<lambda>normalized.
    rbind (RequireScope ctx) (\<lambda>scope.
      let scoped = Normalize_Scope scope; key = authzPolicySetScopeKey scoped (ro_PolicySetID normalized)
      in if \<not> has_key (st_authzSets m) key then Inl (Sentinel ErrNotFound)
         else if \<not> version_stored m scoped (ro_PolicySetID normalized) (ro_ActiveVersion normalized) then
           Inl (Sentinel ErrNotFound)
         else if \<not> version_stored m scoped (ro_PolicySetID normalized) (ro_CandidateVersion normalized) then
           Inl (Sentinel ErrNotFound)
         else
           let normalized = normalized\<lparr>ro_TenantID := sc_TenantID scoped, ro_WorkspaceID := sc_WorkspaceID scoped\<rparr>
           in Inr (m\<lparr>st_authzRollouts := map_put key normalized (st_authzRollouts m)\<rparr>)))"

definition GetAuthzPolicyRollout :: "Context \<Rightarrow> string \<Rightarrow> MemoryStore \<Rightarrow> AuthzPolicyRollout result" where
  "GetAuthzPolicyRollout ctx policySetID m =
    rbind (RequireScope ctx) (\<lambda>scope.
    rbind (normalizeAuthzPolicySetID policySetID) (\<lambda>normalizedPolicySetID.
      case map_of (st_authzRollouts m) (authzPolicySetScopeKey (Normalize_Scope scope) normalizedPolicySetID) of
        None \<Rightarrow> Inl (Sentinel ErrNotFound)
      | Some record \<Rightarrow> Inr record))"

definition events_at :: "MemoryStore \<Rightarrow> string \<Rightarrow> AuthzPolicyEvent list" where
  "events_at m key = (case map_of (st_authzEvents m) key of None \<Rightarrow> [] | Some events \<Rightarrow> events)"

definition AppendAuthzPolicyEvent ::
  "Env \<Rightarrow> Context \<Rightarrow> AuthzPolicyEvent \<Rightarrow> MemoryStore \<Rightarrow> MemoryStore result" where
  "AppendAuthzPolicyEvent env ctx event m =
    rbind (NormalizeAuthzPolicyEventForWrite env event) (\<lambda>normalized.
    rbind (RequireScope ctx) (\<lambda>scope.
      let scoped = Normalize_Scope scope
      in if \<not> has_key (st_authzSets m) (authzPolicySetScopeKey scoped (pe_PolicySetID normalized)) then
           Inl (Sentinel ErrNotFound)
         else
           let normalized = (if pe_ID normalized = '''' then normalized\<lparr>pe_ID := env_NewUUID env\<rparr> else normalized)
           in if pe_ID normalized \<in> set (st_authzEventIDs m) then
                Inl (ErrorText ''authz policy event already exists'')
              else
                let normalized = normalized\<lparr>pe_TenantID := sc_TenantID scoped, pe_WorkspaceID := sc_WorkspaceID scoped\<rparr>;
                    key = authzPolicyEventsScopeKey scoped (pe_PolicySetID normalized)
                in Inr (m\<lparr>st_authzEvents := map_put key (events_at m key @ [normalized]) (st_authzEvents m),
                          st_authzEventIDs := st_authzEventIDs m @ [pe_ID normalized]\<rparr>)))"

definition ListAuthzPolicyEvents ::
  "Context \<Rightarrow> string \<Rightarrow> int \<Rightarrow> MemoryStore \<Rightarrow> AuthzPolicyEvent list result" where
  "ListAuthzPolicyEvents ctx policySetID limit m =
    rbind (RequireScope ctx) (\<lambda>scope.
    rbind (normalizeAuthzPolicySetID policySetID) (\<lambda>normalizedPolicySetID.
      Inr (limit_list limit (sort_key (\<lambda>e. - pe_CreatedAt e)
        (events_at m (authzPolicyEventsScopeKey (Normalize_Scope scope) normalizedPolicySetID))))))"

subsection \<open>Steps and the invariant\<close>

text \<open>One write of the store, in any context and environment.\<close>

inductive store_step :: "MemoryStore \<Rightarrow> MemoryStore \<Rightarrow> bool" where
  step_attributes: "UpsertAuthzEntityAttributes env ctx a m = Inr m' \<Longrightarrow> store_step m m'"
| step_relationship: "UpsertAuthzRelationship env ctx r m = Inr m' \<Longrightarrow> store_step m m'"
| step_delete: "DeleteAuthzRelationship env ctx r m = Inr m' \<Longrightarrow> store_step m m'"
| step_set: "UpsertAuthzPolicySet env ctx s m = Inr m' \<Longrightarrow> store_step m m'"
| step_version: "CreateAuthzPolicyVersion env ctx v m = Inr (v', m') \<Longrightarrow> store_step m m'"
| step_rollout: "UpsertAuthzPolicyRollout env ctx ro m = Inr m' \<Longrightarrow> store_step m m'"
| step_event: "AppendAuthzPolicyEvent env ctx e m = Inr m' \<Longrightarrow> store_step m m'"

definition record_scope :: "string \<Rightarrow> string \<Rightarrow> Scope" where
  "record_scope t w = \<lparr>sc_TenantID = t, sc_WorkspaceID = w\<rparr>"

definition table_ok :: "('k \<Rightarrow> 'v \<Rightarrow> bool) \<Rightarrow> ('k, 'v) gomap \<Rightarrow> bool" where
  "table_ok P m \<longleftrightarrow> distinct (map fst m) \<and> (\<forall>(k, v)\<in>set m. P k v)"

definition attributes_entry :: "string \<Rightarrow> AuthzEntityAttributes \<Rightarrow> bool" where
  "attributes_entry k a \<longleftrightarrow> wf_attributes a
    \<and> Normalize_Scope (record_scope (ea_TenantID a) (ea_WorkspaceID a)) = record_scope (ea_TenantID a) (ea_WorkspaceID a)
    \<and> k = authzEntityScopeKey (record_scope (ea_TenantID a) (ea_WorkspaceID a)) (ea_EntityKind a) (ea_EntityType a)
            (ea_EntityID a)"

definition relationship_entry :: "string \<Rightarrow> AuthzRelationship \<Rightarrow> bool" where
  "relationship_entry k r \<longleftrightarrow> wf_relationship r
    \<and> Normalize_Scope (record_scope (rel_TenantID r) (rel_WorkspaceID r)) = record_scope (rel_TenantID r) (rel_WorkspaceID r)
    \<and> k = relationship_key (record_scope (rel_TenantID r) (rel_WorkspaceID r)) r"

definition set_entry :: "string \<Rightarrow> AuthzPolicySet \<Rightarrow> bool" where
  "set_entry k s \<longleftrightarrow> authzOwnerTeamPattern (set_PolicySetID s) \<and> norm_key (set_PolicySetID s) = set_PolicySetID s
    \<and> Normalize_Scope (record_scope (set_TenantID s) (set_WorkspaceID s)) = record_scope (set_TenantID s) (set_WorkspaceID s)
    \<and> k = authzPolicySetScopeKey (record_scope (set_TenantID s) (set_WorkspaceID s)) (set_PolicySetID s)"

definition version_entry :: "MemoryStore \<Rightarrow> string \<Rightarrow> AuthzPolicyVersion \<Rightarrow> bool" where
  "version_entry m k v \<longleftrightarrow> wf_version v \<and> norm_key (pv_PolicySetID v) = pv_PolicySetID v
    \<and> Normalize_Scope (record_scope (pv_TenantID v) (pv_WorkspaceID v)) = record_scope (pv_TenantID v) (pv_WorkspaceID v)
    \<and> has_key (st_authzSets m) (authzPolicySetScopeKey (record_scope (pv_TenantID v) (pv_WorkspaceID v)) (pv_PolicySetID v))
    \<and> k = authzPolicyVersionScopeKey (record_scope (pv_TenantID v) (pv_WorkspaceID v)) (pv_PolicySetID v) (pv_Version v)"

definition rollout_entry :: "MemoryStore \<Rightarrow> string \<Rightarrow> AuthzPolicyRollout \<Rightarrow> bool" where
  "rollout_entry m k r \<longleftrightarrow> wf_rollout r \<and> norm_key (ro_PolicySetID r) = ro_PolicySetID r
    \<and> Normalize_Scope (record_scope (ro_TenantID r) (ro_WorkspaceID r)) = record_scope (ro_TenantID r) (ro_WorkspaceID r)
    \<and> has_key (st_authzSets m) k
    \<and> k = authzPolicySetScopeKey (record_scope (ro_TenantID r) (ro_WorkspaceID r)) (ro_PolicySetID r)
    \<and> version_stored m (record_scope (ro_TenantID r) (ro_WorkspaceID r)) (ro_PolicySetID r) (ro_ActiveVersion r)
    \<and> version_stored m (record_scope (ro_TenantID r) (ro_WorkspaceID r)) (ro_PolicySetID r) (ro_CandidateVersion r)"

definition events_entry :: "MemoryStore \<Rightarrow> string \<Rightarrow> AuthzPolicyEvent list \<Rightarrow> bool" where
  "events_entry m k es \<longleftrightarrow> has_key (st_authzSets m) k \<and> distinct (map pe_ID es)
    \<and> (\<forall>e\<in>set es. pe_ID e \<in> set (st_authzEventIDs m)
         \<and> k = authzPolicyEventsScopeKey (record_scope (pe_TenantID e) (pe_WorkspaceID e)) (pe_PolicySetID e))"

definition wf_store :: "MemoryStore \<Rightarrow> bool" where
  "wf_store m \<longleftrightarrow>
    table_ok attributes_entry (st_authzAttrs m) \<and> table_ok relationship_entry (st_authzRels m)
    \<and> table_ok set_entry (st_authzSets m) \<and> table_ok (version_entry m) (st_authzVersions m)
    \<and> table_ok (rollout_entry m) (st_authzRollouts m) \<and> table_ok (events_entry m) (st_authzEvents m)
    \<and> distinct (st_authzEventIDs m)"

subsection \<open>Tables: laws\<close>

lemma table_ok_Nil [simp]: "table_ok P []"
  by (simp add: table_ok_def)

lemma set_update_subset: "set (AList.update k v m) \<subseteq> insert (k, v) (set m)"
  by (induction m) auto

lemma table_ok_put [intro]: "table_ok P m \<Longrightarrow> P k v \<Longrightarrow> table_ok P (map_put k v m)"
  using set_update_subset [of k v m] distinct_put [of m k v] by (auto simp: table_ok_def map_put_def)

lemma table_ok_del [intro]: "table_ok P m \<Longrightarrow> table_ok P (map_del k m)"
  using distinct_del [of m k] by (auto simp: table_ok_def map_del_def AList.delete_eq)

lemma table_ok_lookup: "table_ok P m \<Longrightarrow> map_of m k = Some v \<Longrightarrow> P k v"
  by (auto simp: table_ok_def dest: map_of_SomeD)

lemma table_ok_mono: "table_ok P m \<Longrightarrow> (\<And>k v. P k v \<Longrightarrow> Q k v) \<Longrightarrow> table_ok Q m"
  by (auto simp: table_ok_def)

lemma table_lookup_iff: "table_ok P m \<Longrightarrow> (k, v) \<in> set m \<longleftrightarrow> map_of m k = Some v"
  by (auto simp: table_ok_def dest: map_of_SomeD)

lemma record_scope_self [simp]: "record_scope (sc_TenantID s) (sc_WorkspaceID s) = s"
  by (simp add: record_scope_def)

lemma record_scope_sel [simp]: "sc_TenantID (record_scope t w) = t" "sc_WorkspaceID (record_scope t w) = w"
  by (simp_all add: record_scope_def)

lemma scope_key_norm [simp]:
  "authzPolicySetScopeKey (Normalize_Scope sc) p = authzPolicySetScopeKey sc p"
  "authzPolicySetScopeKey sc (norm_key p) = authzPolicySetScopeKey sc p"
  "authzPolicyVersionScopeKey (Normalize_Scope sc) p n = authzPolicyVersionScopeKey sc p n"
  "authzPolicyVersionScopeKey sc (norm_key p) n = authzPolicyVersionScopeKey sc p n"
  "relationship_key (Normalize_Scope sc) r = relationship_key sc r"
  "authzEntityScopeKey (Normalize_Scope sc) k t i = authzEntityScopeKey sc k t i"
  by (simp_all add: authzPolicySetScopeKey_def authzPolicyVersionScopeKey_def relationship_key_def
      authzRelationshipScopeKey_def authzEntityScopeKey_def)

text \<open>The entry predicates only grow with the policy sets, versions and event identifiers.\<close>

definition store_grows :: "MemoryStore \<Rightarrow> MemoryStore \<Rightarrow> bool" where
  "store_grows m m' \<longleftrightarrow>
    (\<forall>k. has_key (st_authzSets m) k \<longrightarrow> has_key (st_authzSets m') k)
    \<and> (\<forall>k v. map_of (st_authzVersions m) k = Some v \<longrightarrow> map_of (st_authzVersions m') k = Some v)
    \<and> set (st_authzEventIDs m) \<subseteq> set (st_authzEventIDs m')"

lemma version_stored_grows: "store_grows m m' \<Longrightarrow> version_stored m s p v \<Longrightarrow> version_stored m' s p v"
  by (auto simp: store_grows_def version_stored_def has_key_iff split: option.splits)

lemma entries_grow:
  assumes "store_grows m m'"
  shows "version_entry m k v \<Longrightarrow> version_entry m' k v" "rollout_entry m k r \<Longrightarrow> rollout_entry m' k r"
    "events_entry m k es \<Longrightarrow> events_entry m' k es"
  using assms version_stored_grows [OF assms]
  by (auto simp: version_entry_def rollout_entry_def events_entry_def store_grows_def)

subsection \<open>Every write keeps the invariant\<close>

lemma normalize_set_Inr:
  "NormalizeAuthzPolicySetForWrite env s = Inr b \<Longrightarrow>
    set_PolicySetID b = norm_key (set_PolicySetID s) \<and> authzOwnerTeamPattern (set_PolicySetID b)"
  by (auto simp: NormalizeAuthzPolicySetForWrite_def Let_def rbind_Inr_iff split: if_splits)

lemma normalize_version_Inr:
  "NormalizeAuthzPolicyVersionForWrite env v = Inr b \<Longrightarrow>
    pv_PolicySetID b = norm_key (pv_PolicySetID v) \<and> pv_Version b = pv_Version v \<and> wf_version b"
  by (auto simp: NormalizeAuthzPolicyVersionForWrite_def Let_def rbind_Inr_iff wf_version_def split: if_splits)

lemma normalize_rollout_Inr:
  assumes "NormalizeAuthzPolicyRolloutForWrite env r = Inr b"
  shows "wf_rollout b" "ro_PolicySetID b = norm_key (ro_PolicySetID r)"
    "ro_ActiveVersion b = ro_ActiveVersion r" "ro_CandidateVersion b = ro_CandidateVersion r"
proof -
  show "wf_rollout b" by (rule NormalizeAuthzPolicyRolloutForWrite_wf [OF assms])
  from NormalizeAuthzPolicyRolloutForWrite_Inr [OF assms] obtain validated where
    b: "b = r\<lparr>ro_PolicySetID := norm_key (ro_PolicySetID r), ro_Mode := ro_Mode b,
           ro_TenantAllowlist := normalizeAuthzRolloutAllowlist (ro_TenantAllowlist r),
           ro_WorkspaceAllowlist := normalizeAuthzRolloutAllowlist (ro_WorkspaceAllowlist r),
           ro_CanaryPercentage := ro_CanaryPercentage b, ro_ValidatedVersions := validated,
           ro_UpdatedBy := trim_space (ro_UpdatedBy r),
           ro_UpdatedAt := (if ro_UpdatedAt r = zero_time then env_Now env else ro_UpdatedAt r)\<rparr>"
    by blast
  show "ro_PolicySetID b = norm_key (ro_PolicySetID r)" by (subst b) simp
  show "ro_ActiveVersion b = ro_ActiveVersion r" by (subst b) simp
  show "ro_CandidateVersion b = ro_CandidateVersion r" by (subst b) simp
qed

lemma Upsert_attributes_cases:
  assumes "UpsertAuthzEntityAttributes env ctx a m = Inr m'"
  obtains k b where "attributes_entry k b" "m' = m\<lparr>st_authzAttrs := map_put k b (st_authzAttrs m)\<rparr>"
proof -
  from assms obtain n sc where n: "NormalizeAuthzEntityAttributesForWrite env a = Inr n" and
    sc: "RequireScope ctx = Inr sc" and m': "m' = m\<lparr>st_authzAttrs := map_put
        (authzEntityScopeKey sc (ea_EntityKind n) (ea_EntityType n) (ea_EntityID n))
        (n\<lparr>ea_TenantID := sc_TenantID sc, ea_WorkspaceID := sc_WorkspaceID sc\<rparr>) (st_authzAttrs m)\<rparr>"
    by (auto simp: UpsertAuthzEntityAttributes_def rbind_Inr_iff Let_def RequireScope_normal)
  show thesis
  proof (rule that [OF _ m'])
    show "attributes_entry (authzEntityScopeKey sc (ea_EntityKind n) (ea_EntityType n) (ea_EntityID n))
        (n\<lparr>ea_TenantID := sc_TenantID sc, ea_WorkspaceID := sc_WorkspaceID sc\<rparr>)"
      using NormalizeAuthzEntityAttributesForWrite_wf [OF n] RequireScope_normal [OF sc]
      by (simp add: attributes_entry_def wf_attributes_def)
  qed
qed

lemma Upsert_relationship_cases:
  assumes "UpsertAuthzRelationship env ctx r m = Inr m'"
  obtains k b where "relationship_entry k b" "m' = m\<lparr>st_authzRels := map_put k b (st_authzRels m)\<rparr>"
proof -
  from assms obtain n sc where n: "NormalizeAuthzRelationshipForWrite env r = Inr n" and
    sc: "RequireScope ctx = Inr sc" by (auto simp: UpsertAuthzRelationship_def rbind_Inr_iff Let_def)
  let ?n = "n\<lparr>rel_TenantID := sc_TenantID sc, rel_WorkspaceID := sc_WorkspaceID sc\<rparr>"
  let ?b = "case map_of (st_authzRels m) (relationship_key sc ?n) of None \<Rightarrow> ?n
    | Some existing \<Rightarrow> ?n\<lparr>rel_CreatedAt := rel_CreatedAt existing\<rparr>"
  have m': "m' = m\<lparr>st_authzRels := map_put (relationship_key sc ?n) ?b (st_authzRels m)\<rparr>"
    using assms n sc RequireScope_normal [OF sc]
    by (simp add: UpsertAuthzRelationship_def rbind_Inr_iff Let_def cong: option.case_cong)
  show thesis
  proof (rule that [OF _ m'])
    show "relationship_entry (relationship_key sc ?n) ?b"
      using NormalizeAuthzRelationshipForWrite_wf [OF n] RequireScope_normal [OF sc]
      by (simp add: relationship_entry_def relationship_key_def wf_relationship_def split: option.split)
  qed
qed

lemma Upsert_set_cases:
  assumes "UpsertAuthzPolicySet env ctx s m = Inr m'"
  obtains k b where "set_entry k b" "m' = m\<lparr>st_authzSets := map_put k b (st_authzSets m)\<rparr>"
proof -
  from assms obtain n sc where n: "NormalizeAuthzPolicySetForWrite env s = Inr n" and
    sc: "RequireScope ctx = Inr sc" by (auto simp: UpsertAuthzPolicySet_def rbind_Inr_iff Let_def)
  let ?n = "n\<lparr>set_TenantID := sc_TenantID sc, set_WorkspaceID := sc_WorkspaceID sc\<rparr>"
  let ?b = "case map_of (st_authzSets m) (authzPolicySetScopeKey sc (set_PolicySetID n)) of None \<Rightarrow> ?n
    | Some existing \<Rightarrow> ?n\<lparr>set_CreatedAt := set_CreatedAt existing, set_CreatedBy := set_CreatedBy existing\<rparr>"
  have m': "m' = m\<lparr>st_authzSets := map_put (authzPolicySetScopeKey sc (set_PolicySetID n)) ?b (st_authzSets m)\<rparr>"
    using assms n sc RequireScope_normal [OF sc]
    by (simp add: UpsertAuthzPolicySet_def rbind_Inr_iff Let_def cong: option.case_cong)
  show thesis
  proof (rule that [OF _ m'])
    show "set_entry (authzPolicySetScopeKey sc (set_PolicySetID n)) ?b"
      using normalize_set_Inr [OF n] RequireScope_normal [OF sc]
      by (auto simp: set_entry_def split: option.split)
  qed
qed

lemma Create_version_cases:
  assumes "CreateAuthzPolicyVersion env ctx v m = Inr (b, m')"
  obtains sc where "RequireScope ctx = Inr sc"
    "pv_PolicySetID b = norm_key (pv_PolicySetID v)" "authzOwnerTeamPattern (pv_PolicySetID b)"
    "pv_Version b = (if pv_Version v \<le> 0
       then next_version sc (pv_PolicySetID b) 1 (map snd (st_authzVersions m)) else pv_Version v)"
    "pv_TenantID b = sc_TenantID sc" "pv_WorkspaceID b = sc_WorkspaceID sc" "wf_version b"
    "has_key (st_authzSets m) (authzPolicySetScopeKey sc (pv_PolicySetID b))"
    "\<not> has_key (st_authzVersions m) (authzPolicyVersionScopeKey sc (pv_PolicySetID b) (pv_Version b))"
    "m' = m\<lparr>st_authzVersions := map_put (authzPolicyVersionScopeKey sc (pv_PolicySetID b) (pv_Version b)) b
       (st_authzVersions m)\<rparr>"
proof -
  from assms obtain sc where sc: "RequireScope ctx = Inr sc"
    by (auto simp: CreateAuthzPolicyVersion_def rbind_Inr_iff Let_def)
  let ?v = "if pv_Version v \<le> 0 then v\<lparr>pv_Version := next_version sc (norm_key (pv_PolicySetID v)) 1
    (map snd (st_authzVersions m))\<rparr> else v"
  from assms sc RequireScope_normal [OF sc] obtain n where n: "NormalizeAuthzPolicyVersionForWrite env ?v = Inr n"
    and b: "b = n\<lparr>pv_TenantID := sc_TenantID sc, pv_WorkspaceID := sc_WorkspaceID sc\<rparr>"
    and rest: "has_key (st_authzSets m) (authzPolicySetScopeKey sc (pv_PolicySetID v))"
      "authzOwnerTeamPattern (norm_key (pv_PolicySetID v))"
      "\<not> has_key (st_authzVersions m) (authzPolicyVersionScopeKey sc (pv_PolicySetID n) (pv_Version n))"
      "m' = m\<lparr>st_authzVersions := map_put (authzPolicyVersionScopeKey sc (pv_PolicySetID n) (pv_Version n)) b
       (st_authzVersions m)\<rparr>"
    by (auto simp: CreateAuthzPolicyVersion_def rbind_Inr_iff Let_def split: if_splits)
  from normalize_version_Inr [OF n] rest sc b show thesis
    by (intro that [of sc]) (auto simp: wf_version_def)
qed

lemma Upsert_rollout_cases:
  assumes "UpsertAuthzPolicyRollout env ctx r m = Inr m'"
  obtains k b where "rollout_entry m k b" "m' = m\<lparr>st_authzRollouts := map_put k b (st_authzRollouts m)\<rparr>"
proof -
  from assms obtain n sc where n: "NormalizeAuthzPolicyRolloutForWrite env r = Inr n" and
    sc: "RequireScope ctx = Inr sc" by (auto simp: UpsertAuthzPolicyRollout_def rbind_Inr_iff Let_def)
  let ?b = "n\<lparr>ro_TenantID := sc_TenantID sc, ro_WorkspaceID := sc_WorkspaceID sc\<rparr>"
  from assms n sc RequireScope_normal [OF sc] have
    m': "m' = m\<lparr>st_authzRollouts := map_put (authzPolicySetScopeKey sc (ro_PolicySetID n)) ?b (st_authzRollouts m)\<rparr>"
    and "has_key (st_authzSets m) (authzPolicySetScopeKey sc (ro_PolicySetID n))"
      "version_stored m sc (ro_PolicySetID n) (ro_ActiveVersion n)"
      "version_stored m sc (ro_PolicySetID n) (ro_CandidateVersion n)"
    by (auto simp: UpsertAuthzPolicyRollout_def rbind_Inr_iff Let_def split: if_splits)
  with normalize_rollout_Inr [OF n] RequireScope_normal [OF sc]
  have "rollout_entry m (authzPolicySetScopeKey sc (ro_PolicySetID n)) ?b"
    by (simp add: rollout_entry_def wf_rollout_def)
  then show thesis by (rule that [OF _ m'])
qed

lemma Append_event_cases:
  assumes "AppendAuthzPolicyEvent env ctx e m = Inr m'"
  obtains sc b where "RequireScope ctx = Inr sc" "pe_TenantID b = sc_TenantID sc" "pe_WorkspaceID b = sc_WorkspaceID sc"
    "pe_PolicySetID b = norm_key (pe_PolicySetID e)" "pe_ID b \<notin> set (st_authzEventIDs m)"
    "has_key (st_authzSets m) (authzPolicySetScopeKey sc (pe_PolicySetID b))"
    "m' = m\<lparr>st_authzEvents := map_put (authzPolicySetScopeKey sc (pe_PolicySetID b))
              (events_at m (authzPolicySetScopeKey sc (pe_PolicySetID b)) @ [b]) (st_authzEvents m),
            st_authzEventIDs := st_authzEventIDs m @ [pe_ID b]\<rparr>"
proof -
  from assms obtain n sc where n: "NormalizeAuthzPolicyEventForWrite env e = Inr n" and
    sc: "RequireScope ctx = Inr sc" by (auto simp: AppendAuthzPolicyEvent_def rbind_Inr_iff Let_def)
  from n have p: "pe_PolicySetID n = norm_key (pe_PolicySetID e)"
    by (auto simp: NormalizeAuthzPolicyEventForWrite_def rbind_Inr_iff Let_def split: if_splits)
  let ?n = "if pe_ID n = '''' then n\<lparr>pe_ID := env_NewUUID env\<rparr> else n"
  let ?b = "?n\<lparr>pe_TenantID := sc_TenantID sc, pe_WorkspaceID := sc_WorkspaceID sc\<rparr>"
  show thesis
    by (rule that [of sc ?b])
      (use assms n sc p RequireScope_normal [OF sc] in
        \<open>auto simp: AppendAuthzPolicyEvent_def rbind_Inr_iff Let_def authzPolicyEventsScopeKey_def split: if_splits\<close>)
qed

lemma store_step_grows: "store_step m m' \<Longrightarrow> store_grows m m'"
proof (induction rule: store_step.induct)
  case (step_version env ctx v m v' m')
  then show ?case
    by (elim Create_version_cases) (auto simp: store_grows_def has_key_iff)
next
  case (step_event env ctx e m m')
  then show ?case by (elim Append_event_cases) (auto simp: store_grows_def)
next
  case (step_delete env ctx r m m')
  then show ?case
    by (auto simp: DeleteAuthzRelationship_def rbind_Inr_iff Let_def store_grows_def split: if_splits)
qed (auto elim!: Upsert_attributes_cases Upsert_relationship_cases Upsert_set_cases Upsert_rollout_cases
    simp: store_grows_def)

lemma events_at_entry: "table_ok (events_entry m) (st_authzEvents m) \<Longrightarrow> has_key (st_authzSets m) k \<Longrightarrow>
    events_entry m k (events_at m k)"
  by (auto simp: events_at_def events_entry_def split: option.splits dest: table_ok_lookup)

lemma wf_store_grow:
  assumes "wf_store m" "store_grows m m'"
  shows "table_ok (version_entry m') (st_authzVersions m)" "table_ok (rollout_entry m') (st_authzRollouts m)"
    "table_ok (events_entry m') (st_authzEvents m)"
  using assms entries_grow [OF assms(2)] by (auto simp: wf_store_def elim!: table_ok_mono)

lemma wf_store_version:
  assumes "wf_store m" "CreateAuthzPolicyVersion env ctx v m = Inr (b, m')"
  shows "wf_store m'"
proof -
  note grow = wf_store_grow [OF assms(1) store_step_grows [OF step_version [OF assms(2)]]]
  from assms(2) obtain sc where sc: "RequireScope ctx = Inr sc" and b: "pv_PolicySetID b = norm_key (pv_PolicySetID v)"
      "pv_TenantID b = sc_TenantID sc" "pv_WorkspaceID b = sc_WorkspaceID sc" "wf_version b"
      "has_key (st_authzSets m) (authzPolicySetScopeKey sc (pv_PolicySetID b))"
    and m': "m' = m\<lparr>st_authzVersions := map_put (authzPolicyVersionScopeKey sc (pv_PolicySetID b) (pv_Version b)) b
       (st_authzVersions m)\<rparr>"
    by (elim Create_version_cases)
  have "version_entry m' (authzPolicyVersionScopeKey sc (pv_PolicySetID b) (pv_Version b)) b"
    using b RequireScope_normal [OF sc] by (simp add: version_entry_def m')
  from table_ok_put [OF grow(1) this] grow(2,3) assms(1) show ?thesis
    by (simp add: wf_store_def m')
qed

lemma wf_store_event:
  assumes "wf_store m" "AppendAuthzPolicyEvent env ctx e m = Inr m'"
  shows "wf_store m'"
proof -
  note grow = wf_store_grow [OF assms(1) store_step_grows [OF step_event [OF assms(2)]]]
  from assms(2) obtain sc b where b: "pe_TenantID b = sc_TenantID sc" "pe_WorkspaceID b = sc_WorkspaceID sc"
      "pe_ID b \<notin> set (st_authzEventIDs m)" "has_key (st_authzSets m) (authzPolicySetScopeKey sc (pe_PolicySetID b))"
    and m': "m' = m\<lparr>st_authzEvents := map_put (authzPolicySetScopeKey sc (pe_PolicySetID b))
              (events_at m (authzPolicySetScopeKey sc (pe_PolicySetID b)) @ [b]) (st_authzEvents m),
            st_authzEventIDs := st_authzEventIDs m @ [pe_ID b]\<rparr>"
    by (elim Append_event_cases)
  let ?k = "authzPolicySetScopeKey sc (pe_PolicySetID b)"
  have "events_entry m ?k (events_at m ?k)"
    using assms(1) b(4) by (auto simp: wf_store_def intro: events_at_entry)
  with b have "events_entry m' ?k (events_at m ?k @ [b])"
    by (auto simp: events_entry_def m' authzPolicyEventsScopeKey_def)
  from table_ok_put [OF grow(3) this] grow(1,2) assms(1) b(3) show ?thesis
    by (simp add: wf_store_def m')
qed

lemma store_step_wf: "store_step m m' \<Longrightarrow> wf_store m \<Longrightarrow> wf_store m'"
proof (induction rule: store_step.induct)
  case (step_attributes env ctx a m m')
  note grow = wf_store_grow [OF step_attributes(2) store_step_grows [OF store_step.step_attributes [OF step_attributes(1)]]]
  from step_attributes grow show ?case by (elim Upsert_attributes_cases) (auto simp: wf_store_def)
next
  case (step_relationship env ctx r m m')
  note grow = wf_store_grow [OF step_relationship(2) store_step_grows [OF store_step.step_relationship [OF step_relationship(1)]]]
  from step_relationship grow show ?case by (elim Upsert_relationship_cases) (auto simp: wf_store_def)
next
  case (step_delete env ctx r m m')
  note grow = wf_store_grow [OF step_delete(2) store_step_grows [OF store_step.step_delete [OF step_delete(1)]]]
  from step_delete grow show ?case
    by (auto simp: DeleteAuthzRelationship_def rbind_Inr_iff Let_def wf_store_def split: if_splits)
next
  case (step_set env ctx s m m')
  note grow = wf_store_grow [OF step_set(2) store_step_grows [OF store_step.step_set [OF step_set(1)]]]
  from step_set grow show ?case by (elim Upsert_set_cases) (auto simp: wf_store_def)
next
  case (step_rollout env ctx ro m m')
  note g = store_step_grows [OF store_step.step_rollout [OF step_rollout(1)]]
  note grow = wf_store_grow [OF step_rollout(2) g] and entry = entries_grow(2) [OF g]
  from step_rollout grow entry show ?case by (elim Upsert_rollout_cases) (auto simp: wf_store_def)
qed (rule wf_store_version wf_store_event; assumption)+

lemma wf_store_new: "wf_store NewMemoryStore"
  by (simp add: wf_store_def NewMemoryStore_def)

lemma reachable_wf: "store_step\<^sup>*\<^sup>* NewMemoryStore m \<Longrightarrow> wf_store m"
  by (induction rule: rtranclp_induct) (auto intro: store_step_wf wf_store_new)

subsection \<open>The interfaces the store provides\<close>

text \<open>
  A store of immutable versions, for the components that read bundles: whatever the store does
  later, a version once read is read again unchanged.
\<close>

locale version_store =
  fixes get_version :: "'st \<Rightarrow> Context \<Rightarrow> string \<Rightarrow> int \<Rightarrow> AuthzPolicyVersion result"
    and step :: "'st \<Rightarrow> 'st \<Rightarrow> bool"
  assumes immutable: "step m m' \<Longrightarrow> get_version m ctx p n = Inr v \<Longrightarrow> get_version m' ctx p n = Inr v"
begin

lemma immutable_forever:
  "step\<^sup>*\<^sup>* m m' \<Longrightarrow> get_version m ctx p n = Inr v \<Longrightarrow> get_version m' ctx p n = Inr v"
  by (induction rule: rtranclp_induct) (auto intro: immutable)

end

lemma GetAuthzPolicyVersion_Inr:
  "GetAuthzPolicyVersion ctx p n m = Inr v \<longleftrightarrow>
    (\<exists>sc. RequireScope ctx = Inr sc \<and> authzOwnerTeamPattern (norm_key p) \<and> 0 < n
      \<and> map_of (st_authzVersions m) (authzPolicyVersionScopeKey sc p n) = Some v)"
  by (auto simp: GetAuthzPolicyVersion_def rbind_Inr_iff split: option.splits)

interpretation mem_versions: version_store "\<lambda>m ctx p n. GetAuthzPolicyVersion ctx p n m" store_step
  by unfold_locales (auto simp: GetAuthzPolicyVersion_Inr store_grows_def dest!: store_step_grows)

definition live_tuples :: "Env \<Rightarrow> Context \<Rightarrow> MemoryStore \<Rightarrow> AuthzRelationship set" where
  "live_tuples env ctx m =
    (case RequireScope ctx of
       Inl _ \<Rightarrow> {}
     | Inr sc \<Rightarrow> {r \<in> snd ` set (st_authzRels m). MatchScope sc (rel_TenantID r) (rel_WorkspaceID r)
                 \<and> \<not> expired (env_Now env) r})"

lemma relationship_selected_iff:
  "relationship_selected sc now f r \<longleftrightarrow> MatchScope sc (rel_TenantID r) (rel_WorkspaceID r)
    \<and> filter_matches f r \<and> (rf_IncludeExpired f \<or> \<not> expired now r)"
  by (simp add: relationship_selected_def filter_matches_def Let_def)

lemma ListAuthzRelationships_Inr:
  "ListAuthzRelationships env ctx m f k = Inr ts \<longleftrightarrow>
    (\<exists>sc. RequireScope ctx = Inr sc \<and> (norm_key (rf_Relation f) = '''' \<or> norm_key (rf_Relation f) \<in> set validAuthzRelationships)
      \<and> ts = limit_list k (sort_key relationship_order
             (filter (relationship_selected sc (env_Now env) f) (map snd (st_authzRels m)))))"
  by (auto simp: ListAuthzRelationships_def rbind_Inr_iff Let_def RequireScope_normal)

interpretation mem_rels: relationship_store "ListAuthzRelationships env ctx m" "live_tuples env ctx m" for env ctx m
proof unfold_locales
  fix f all
  assume "ListAuthzRelationships env ctx m f 0 = Inr all" "\<not> rf_IncludeExpired f"
  then show "set all = {t \<in> live_tuples env ctx m. filter_matches f t}"
    by (auto simp: ListAuthzRelationships_Inr live_tuples_def relationship_selected_iff limit_list_def)
next
  fix f k ts
  assume "ListAuthzRelationships env ctx m f k = Inr ts"
  then show "\<exists>all. ListAuthzRelationships env ctx m f 0 = Inr all \<and> ts = limit_list k all"
    by (auto simp: ListAuthzRelationships_Inr limit_list_def)
qed

subsection \<open>Keys: laws\<close>

definition bar_free :: "string \<Rightarrow> bool" where
  "bar_free s \<longleftrightarrow> CHR ''|'' \<notin> set s"

definition bar_free_scope :: "Scope \<Rightarrow> bool" where
  "bar_free_scope sc \<longleftrightarrow> bar_free (sc_TenantID sc) \<and> bar_free (sc_WorkspaceID sc)"

lemma pattern_bar_free:
  assumes "authzOwnerTeamPattern p"
  shows "bar_free p"
proof -
  define A where "A = set (alnum_chars @ ''._-'')"
  have bar: "CHR ''|'' \<notin> A" unfolding A_def by code_simp
  have "set alnum_chars \<subseteq> A" unfolding A_def set_append by (rule Un_upper1)
  with assms have "set p \<subseteq> A"
    unfolding authzOwnerTeamPattern_def A_def [symmetric] by (cases p) (auto simp: list_all_iff)
  with bar show ?thesis by (auto simp: bar_free_def)
qed

lemma Scope_eqI: "sc_TenantID s = sc_TenantID t \<Longrightarrow> sc_WorkspaceID s = sc_WorkspaceID t \<Longrightarrow> (s :: Scope) = t"
  by simp

lemma scope_prefix_inj:
  assumes "sc_TenantID s @ ''|'' @ sc_WorkspaceID s @ ''|'' @ x = sc_TenantID t @ ''|'' @ sc_WorkspaceID t @ ''|'' @ y"
    and "bar_free_scope s" "bar_free_scope t"
  shows "(s :: Scope) = t \<and> x = y"
  using bar_split [OF assms(1)] bar_split [of "sc_WorkspaceID s" x "sc_WorkspaceID t" y] assms(2,3)
  by (auto simp: bar_free_scope_def bar_free_def)

lemma set_key_inj:
  assumes "authzPolicySetScopeKey s p = authzPolicySetScopeKey t q" "Normalize_Scope s = s" "Normalize_Scope t = t"
    and "bar_free_scope s" "bar_free_scope t"
  shows "s = t \<and> norm_key p = norm_key q"
  using scope_prefix_inj [of s "norm_key p" t "norm_key q"] assms by (auto simp: authzPolicySetScopeKey_def)

lemma version_key_inj:
  assumes "authzPolicyVersionScopeKey s p n = authzPolicyVersionScopeKey t q k"
    and "Normalize_Scope s = s" "Normalize_Scope t = t" "bar_free_scope s" "bar_free_scope t"
    and "bar_free (norm_key p)" "bar_free (norm_key q)" "0 < n" "0 < k"
  shows "s = t \<and> norm_key p = norm_key q \<and> n = k"
proof -
  from assms(1-3) have "sc_TenantID s @ ''|'' @ sc_WorkspaceID s @ ''|'' @ norm_key p @ ''|'' @ int_string n
      = sc_TenantID t @ ''|'' @ sc_WorkspaceID t @ ''|'' @ norm_key q @ ''|'' @ int_string k"
    by (simp add: authzPolicyVersionScopeKey_def authzPolicySetScopeKey_def)
  from scope_prefix_inj [OF this assms(4,5)]
  have st: "s = t" "norm_key p @ ''|'' @ int_string n = norm_key q @ ''|'' @ int_string k" by auto
  from bar_split [OF st(2)] assms(6-9) st(1) int_string_inj show ?thesis by (auto simp: bar_free_def)
qed

subsection \<open>Reads stay in the caller's scope\<close>

text \<open>The scopes of the stored records.\<close>

definition stored_scopes :: "MemoryStore \<Rightarrow> Scope set" where
  "stored_scopes m =
    (\<lambda>(_, a). record_scope (ea_TenantID a) (ea_WorkspaceID a)) ` set (st_authzAttrs m)
    \<union> (\<lambda>(_, s). record_scope (set_TenantID s) (set_WorkspaceID s)) ` set (st_authzSets m)
    \<union> (\<lambda>(_, v). record_scope (pv_TenantID v) (pv_WorkspaceID v)) ` set (st_authzVersions m)
    \<union> (\<lambda>(_, r). record_scope (ro_TenantID r) (ro_WorkspaceID r)) ` set (st_authzRollouts m)"

lemma stored_scopesI:
  "map_of (st_authzAttrs m) k = Some a \<Longrightarrow> record_scope (ea_TenantID a) (ea_WorkspaceID a) \<in> stored_scopes m"
  "map_of (st_authzSets m) k = Some s \<Longrightarrow> record_scope (set_TenantID s) (set_WorkspaceID s) \<in> stored_scopes m"
  "map_of (st_authzVersions m) k = Some v \<Longrightarrow> record_scope (pv_TenantID v) (pv_WorkspaceID v) \<in> stored_scopes m"
  "map_of (st_authzRollouts m) k = Some r \<Longrightarrow> record_scope (ro_TenantID r) (ro_WorkspaceID r) \<in> stored_scopes m"
  by (force simp: stored_scopes_def dest: map_of_SomeD)+

lemma get_set_scope:
  assumes "wf_store m" "\<forall>s\<in>stored_scopes m. bar_free_scope s" "RequireScope ctx = Inr sc" "bar_free_scope sc"
    and "GetAuthzPolicySet ctx p m = Inr r"
  shows "record_scope (set_TenantID r) (set_WorkspaceID r) = sc \<and> set_PolicySetID r = norm_key p"
proof -
  from assms(3,5) have r: "map_of (st_authzSets m) (authzPolicySetScopeKey sc p) = Some r"
    by (auto simp: GetAuthzPolicySet_def rbind_Inr_iff split: option.splits)
  from assms(1) have "table_ok set_entry (st_authzSets m)" by (simp add: wf_store_def)
  from table_ok_lookup [OF this r] have e: "set_entry (authzPolicySetScopeKey sc p) r" .
  with set_key_inj [of "record_scope (set_TenantID r) (set_WorkspaceID r)" "set_PolicySetID r" sc p]
    RequireScope_normal [OF assms(3)] stored_scopesI(2) [OF r] assms(2,4)
  show ?thesis by (auto simp: set_entry_def)
qed

lemma get_version_scope:
  assumes "wf_store m" "\<forall>s\<in>stored_scopes m. bar_free_scope s" "RequireScope ctx = Inr sc" "bar_free_scope sc"
    and "GetAuthzPolicyVersion ctx p n m = Inr v"
  shows "record_scope (pv_TenantID v) (pv_WorkspaceID v) = sc \<and> pv_PolicySetID v = norm_key p \<and> pv_Version v = n"
proof -
  from assms(3,5) have v: "map_of (st_authzVersions m) (authzPolicyVersionScopeKey sc p n) = Some v"
    and p: "authzOwnerTeamPattern (norm_key p)" "0 < n"
    by (auto simp: GetAuthzPolicyVersion_Inr)
  from assms(1) have "table_ok (version_entry m) (st_authzVersions m)" by (simp add: wf_store_def)
  from table_ok_lookup [OF this v] have e: "version_entry m (authzPolicyVersionScopeKey sc p n) v" .
  then have w: "authzOwnerTeamPattern (pv_PolicySetID v)" "0 < pv_Version v" "norm_key (pv_PolicySetID v) = pv_PolicySetID v"
    by (auto simp: version_entry_def wf_version_def)
  from e version_key_inj [of "record_scope (pv_TenantID v) (pv_WorkspaceID v)" "pv_PolicySetID v" "pv_Version v" sc p n]
    RequireScope_normal [OF assms(3)] stored_scopesI(3) [OF v] assms(2,4) w p pattern_bar_free
  show ?thesis by (auto simp: version_entry_def)
qed

lemma get_rollout_scope:
  assumes "wf_store m" "\<forall>s\<in>stored_scopes m. bar_free_scope s" "RequireScope ctx = Inr sc" "bar_free_scope sc"
    and "GetAuthzPolicyRollout ctx p m = Inr r"
  shows "record_scope (ro_TenantID r) (ro_WorkspaceID r) = sc \<and> ro_PolicySetID r = norm_key p"
proof -
  from assms(3,5) have r: "map_of (st_authzRollouts m) (authzPolicySetScopeKey sc p) = Some r"
    by (auto simp: GetAuthzPolicyRollout_def rbind_Inr_iff split: option.splits)
  from assms(1) have "table_ok (rollout_entry m) (st_authzRollouts m)" by (simp add: wf_store_def)
  from table_ok_lookup [OF this r] have e: "rollout_entry m (authzPolicySetScopeKey sc p) r" .
  with set_key_inj [of "record_scope (ro_TenantID r) (ro_WorkspaceID r)" "ro_PolicySetID r" sc p]
    RequireScope_normal [OF assms(3)] stored_scopesI(4) [OF r] assms(2,4)
  show ?thesis by (auto simp: rollout_entry_def)
qed

lemma get_rollout_entry:
  assumes "wf_store m" "GetAuthzPolicyRollout ctx p m = Inr r"
  shows "\<exists>sc. RequireScope ctx = Inr sc \<and> authzOwnerTeamPattern (norm_key p)
    \<and> rollout_entry m (authzPolicySetScopeKey sc p) r"
proof -
  from assms(2) obtain sc where sc: "RequireScope ctx = Inr sc" "authzOwnerTeamPattern (norm_key p)"
    "map_of (st_authzRollouts m) (authzPolicySetScopeKey sc p) = Some r"
    by (auto simp: GetAuthzPolicyRollout_def rbind_Inr_iff split: option.splits)
  from assms(1) have "table_ok (rollout_entry m) (st_authzRollouts m)" by (simp add: wf_store_def)
  from table_ok_lookup [OF this sc(3)] sc show ?thesis by blast
qed

lemma rollout_version_found:
  assumes "wf_store m" "GetAuthzPolicyRollout ctx p m = Inr r"
    and "ro_ActiveVersion r = Some n \<or> ro_CandidateVersion r = Some n"
  shows "\<exists>v. GetAuthzPolicyVersion ctx p n m = Inr v"
proof -
  from get_rollout_entry [OF assms(1,2)] obtain sc where sc: "RequireScope ctx = Inr sc"
    "authzOwnerTeamPattern (norm_key p)" and e: "rollout_entry m (authzPolicySetScopeKey sc p) r" by blast
  let ?rs = "record_scope (ro_TenantID r) (ro_WorkspaceID r)"
  from e have k: "authzPolicySetScopeKey ?rs (ro_PolicySetID r) = authzPolicySetScopeKey sc p"
    and "0 < n" using assms(3) by (auto simp: rollout_entry_def wf_rollout_def)
  moreover from e assms(3) have "has_key (st_authzVersions m) (authzPolicyVersionScopeKey ?rs (ro_PolicySetID r) n)"
    by (auto simp: rollout_entry_def version_stored_def)
  then have "has_key (st_authzVersions m) (authzPolicyVersionScopeKey sc p n)"
    by (simp add: authzPolicyVersionScopeKey_def k)
  ultimately show ?thesis using sc by (auto simp: GetAuthzPolicyVersion_Inr has_key_iff)
qed

subsection \<open>Automatic version numbers\<close>

lemma next_version_ge: "1 \<le> k \<Longrightarrow> \<forall>v\<in>set vs. pv_Version v < 2 ^ 63 - 1 \<Longrightarrow>
    k \<le> next_version sc p k vs \<and> (\<forall>v\<in>set vs. version_of_set sc p v \<longrightarrow> pv_Version v < next_version sc p k vs)"
proof (induction vs arbitrary: k)
  case (Cons v vs)
  define k' where "k' = (if \<not> version_of_set sc p v then k
    else if k \<le> pv_Version v then wrap64 (pv_Version v + 1) else k)"
  have wrap: "wrap64 (pv_Version v + 1) = pv_Version v + 1" if "k \<le> pv_Version v"
    using that Cons.prems by (simp add: wrap64_def)
  then have k': "k \<le> k'" "version_of_set sc p v \<Longrightarrow> pv_Version v < k'"
    by (auto simp: k'_def)
  have "k' \<le> next_version sc p k' vs \<and> (\<forall>v\<in>set vs. version_of_set sc p v \<longrightarrow> pv_Version v < next_version sc p k' vs)"
    using Cons.prems k'(1) by (intro Cons.IH) auto
  with k' show ?case by (auto simp: k'_def [symmetric])
qed simp

lemma create_get:
  assumes "CreateAuthzPolicyVersion env ctx v m = Inr (b, m')"
  shows "GetAuthzPolicyVersion ctx (pv_PolicySetID v) (pv_Version b) m' = Inr b"
proof -
  from assms obtain sc where sc: "RequireScope ctx = Inr sc"
    and b: "pv_PolicySetID b = norm_key (pv_PolicySetID v)" "authzOwnerTeamPattern (pv_PolicySetID b)" "wf_version b"
    and m': "m' = m\<lparr>st_authzVersions := map_put (authzPolicyVersionScopeKey sc (pv_PolicySetID b) (pv_Version b)) b
       (st_authzVersions m)\<rparr>"
    by (elim Create_version_cases)
  then show ?thesis by (auto simp: GetAuthzPolicyVersion_Inr wf_version_def)
qed

lemma create_auto_ok:
  assumes "wf_store m" "\<forall>s\<in>stored_scopes m. bar_free_scope s" "RequireScope ctx = Inr sc" "bar_free_scope sc"
    and set: "GetAuthzPolicySet ctx (pv_PolicySetID v) m = Inr s"
    and v: "pv_Version v \<le> 0" "trim_space (pv_Bundle v) \<noteq> ''''" "env_JsonValid env (trim_space (pv_Bundle v))"
    and bound: "\<forall>w\<in>snd ` set (st_authzVersions m). pv_Version w < 2 ^ 63 - 1"
  shows "\<exists>b m'. CreateAuthzPolicyVersion env ctx v m = Inr (b, m')
    \<and> pv_Version b = next_version sc (norm_key (pv_PolicySetID v)) 1 (map snd (st_authzVersions m))"
proof -
  let ?p = "norm_key (pv_PolicySetID v)"
  let ?n = "next_version sc ?p 1 (map snd (st_authzVersions m))"
  have sc: "Normalize_Scope sc = sc" by (rule RequireScope_normal [OF assms(3)])
  from set assms(3) have p: "authzOwnerTeamPattern ?p"
    and hs: "has_key (st_authzSets m) (authzPolicySetScopeKey sc (pv_PolicySetID v))"
    by (auto simp: GetAuthzPolicySet_def rbind_Inr_iff has_key_iff split: option.splits)
  have ge: "1 \<le> ?n" and gt: "\<And>w. w \<in> set (map snd (st_authzVersions m)) \<Longrightarrow> version_of_set sc ?p w \<Longrightarrow> pv_Version w < ?n"
    using next_version_ge [of 1 "map snd (st_authzVersions m)" sc ?p] bound by auto
  have fresh: "\<not> has_key (st_authzVersions m) (authzPolicyVersionScopeKey sc ?p ?n)"
  proof
    assume "has_key (st_authzVersions m) (authzPolicyVersionScopeKey sc ?p ?n)"
    then obtain w where w: "map_of (st_authzVersions m) (authzPolicyVersionScopeKey sc ?p ?n) = Some w"
      by (auto simp: has_key_iff)
    then have "GetAuthzPolicyVersion ctx ?p ?n m = Inr w"
      using assms(3) p ge by (simp add: GetAuthzPolicyVersion_Inr)
    from get_version_scope [OF assms(1-4) this]
    have eq: "record_scope (pv_TenantID w) (pv_WorkspaceID w) = sc" "pv_PolicySetID w = ?p" "pv_Version w = ?n" by auto
    then have "version_of_set sc ?p w"
      using MatchScope_self [OF sc] by (metis record_scope_sel version_of_set_def)
    moreover from w have "w \<in> set (map snd (st_authzVersions m))" by (force dest: map_of_SomeD)
    ultimately show False using gt [of w] eq(3) by simp
  qed
  let ?v = "v\<lparr>pv_Version := ?n\<rparr>"
  have "normalizeAuthzPolicySetID (pv_PolicySetID v) = Inr ?p" using p by simp
  with v ge obtain n where n: "NormalizeAuthzPolicyVersionForWrite env ?v = Inr n"
    by (simp add: NormalizeAuthzPolicyVersionForWrite_def Let_def)
  from normalize_version_Inr [OF n] fresh n p hs v(1) assms(3) sc show ?thesis
    by (simp add: CreateAuthzPolicyVersion_def rbind_Inr_iff Let_def)
qed

subsection \<open>Properties\<close>

text \<open>Concrete values for the witnesses: a scope, a clock reading and a short history of writes.\<close>

definition sample_env :: Env where
  "sample_env = \<lparr>env_Now = 1000, env_JsonValid = (\<lambda>b. True), env_Sha256Hex = (\<lambda>b. ''00''), env_NewUUID = ''uuid-1''\<rparr>"

definition sample_scope :: Scope where
  "sample_scope = \<lparr>sc_TenantID = ''acme'', sc_WorkspaceID = ''prod''\<rparr>"

definition sample_ctx :: Context where
  "sample_ctx = WithScope None sample_scope"

definition sample_set :: AuthzPolicySet where
  "sample_set = \<lparr>set_TenantID = '''', set_WorkspaceID = '''', set_PolicySetID = ''Core'', set_DisplayName = ''Core'',
     set_Description = '''', set_CreatedBy = ''ops'', set_CreatedAt = 0, set_UpdatedAt = 0\<rparr>"

definition sample_version :: AuthzPolicyVersion where
  "sample_version = \<lparr>pv_TenantID = '''', pv_WorkspaceID = '''', pv_PolicySetID = ''core'', pv_Version = 0,
     pv_Bundle = ''{}'', pv_Checksum = '''', pv_CreatedBy = ''ops'', pv_CreatedAt = 0\<rparr>"

definition sample_rollout :: AuthzPolicyRollout where
  "sample_rollout = \<lparr>ro_TenantID = '''', ro_WorkspaceID = '''', ro_PolicySetID = ''core'', ro_ActiveVersion = Some 1,
     ro_CandidateVersion = None, ro_Mode = ''enforce'', ro_TenantAllowlist = [], ro_WorkspaceAllowlist = [],
     ro_CanaryPercentage = 0, ro_ValidatedVersions = [1], ro_UpdatedBy = ''ops'', ro_UpdatedAt = 0\<rparr>"

definition sample_relationship :: AuthzRelationship where
  "sample_relationship = \<lparr>rel_TenantID = '''', rel_WorkspaceID = '''', rel_SubjectType = ''User'', rel_SubjectID = ''alice'',
     rel_Relation = ''owns'', rel_ObjectType = ''finding'', rel_ObjectID = ''f1'', rel_Source = '''',
     rel_ExpiresAt = None, rel_CreatedAt = 0, rel_UpdatedAt = 0\<rparr>"

definition state_of :: "MemoryStore result \<Rightarrow> MemoryStore" where
  "state_of r = (case r of Inl _ \<Rightarrow> NewMemoryStore | Inr m \<Rightarrow> m)"

definition created :: "(AuthzPolicyVersion \<times> MemoryStore) result \<Rightarrow> MemoryStore" where
  "created r = (case r of Inl _ \<Rightarrow> NewMemoryStore | Inr (_, m) \<Rightarrow> m)"

definition store1 :: MemoryStore where
  "store1 = state_of (UpsertAuthzPolicySet sample_env sample_ctx sample_set NewMemoryStore)"

definition store2 :: MemoryStore where
  "store2 = created (CreateAuthzPolicyVersion sample_env sample_ctx sample_version store1)"

definition store3 :: MemoryStore where
  "store3 = state_of (UpsertAuthzPolicyRollout sample_env sample_ctx sample_rollout store2)"

definition store4 :: MemoryStore where
  "store4 = state_of (UpsertAuthzRelationship sample_env sample_ctx sample_relationship store3)"

lemma state_of_ok: "is_ok r \<Longrightarrow> r = Inr (state_of r)"
  by (cases r) (auto simp: state_of_def)

lemma created_ok: "is_ok r \<Longrightarrow> \<exists>b. r = Inr (b, created r)"
  by (cases r) (auto simp: created_def)

lemma store1_step: "store_step NewMemoryStore store1"
  unfolding store1_def by (rule step_set, rule state_of_ok) code_simp

lemma store2_created: "\<exists>b. CreateAuthzPolicyVersion sample_env sample_ctx sample_version store1 = Inr (b, store2)"
  unfolding store2_def by (rule created_ok) code_simp

lemma store2_step: "store_step store1 store2"
  using store2_created step_version by blast

lemma store3_step: "store_step store2 store3"
  unfolding store3_def by (rule step_rollout, rule state_of_ok) code_simp

lemma store4_step: "store_step store3 store4"
  unfolding store4_def by (rule step_relationship, rule state_of_ok) code_simp

lemmas sample_steps = store1_step store2_step store3_step store4_step

lemma store2_reachable: "store_step\<^sup>*\<^sup>* NewMemoryStore store2"
  by (rule converse_rtranclp_into_rtranclp [OF store1_step r_into_rtranclp [of store_step, OF store2_step]])

lemma store4_from_store2: "store_step\<^sup>*\<^sup>* store2 store4"
  by (rule converse_rtranclp_into_rtranclp [OF store3_step r_into_rtranclp [of store_step, OF store4_step]])

lemma store4_reachable: "store_step\<^sup>*\<^sup>* NewMemoryStore store4"
  by (rule rtranclp_trans [OF store2_reachable store4_from_store2])

lemma sample_scope_required: "RequireScope sample_ctx = Inr sample_scope"
  by code_simp

lemma sample_bar_free: "bar_free_scope sample_scope"
  by (simp add: bar_free_scope_def bar_free_def sample_scope_def)

lemma store4_scopes: "\<forall>s\<in>stored_scopes store4. bar_free_scope s"
  by code_simp





text \<open>
  Create then read. The version that \<^verbatim>\<open>CreateAuthzPolicyVersion\<close> returns is the one that a read
  of the returned number gives, in the same scope and under the policy set identifier as it was
  passed; its bundle is the trimmed one and its number is the requested one unless that is not positive.
\<close>

theorem create_version_roundtrip:
  assumes "CreateAuthzPolicyVersion env ctx v m = Inr (b, m')"
  shows "GetAuthzPolicyVersion ctx (pv_PolicySetID v) (pv_Version b) m' = Inr b
    \<and> pv_Bundle b = trim_space (pv_Bundle v) \<and> (0 < pv_Version v \<longrightarrow> pv_Version b = pv_Version v)"
proof -
  have "0 < pv_Version v \<longrightarrow> pv_Version b = pv_Version v"
    using assms by (elim Create_version_cases) simp
  moreover have "pv_Bundle b = trim_space (pv_Bundle v)"
    using assms by (auto simp: CreateAuthzPolicyVersion_def NormalizeAuthzPolicyVersionForWrite_def
        rbind_Inr_iff Let_def split: if_splits)
  ultimately show ?thesis using create_get [OF assms] by simp
qed

theorem create_version_roundtrip_witness:
  "\<exists>b. CreateAuthzPolicyVersion sample_env sample_ctx sample_version store1 = Inr (b, store2)
     \<and> GetAuthzPolicyVersion sample_ctx ''core'' (pv_Version b) store2 = Inr b"
proof -
  obtain b where b: "CreateAuthzPolicyVersion sample_env sample_ctx sample_version store1 = Inr (b, store2)"
    using store2_created by blast
  have "pv_PolicySetID sample_version = ''core''" by (simp add: sample_version_def)
  with create_version_roundtrip [OF b] b show ?thesis by auto
qed

text \<open>
  Automatic version numbers. When a version is created without a number in an existing policy
  set, with a valid bundle and scope identifiers without a bar, the creation succeeds and the number
  given is greater than every version the set already has (as long as these are below the largest
  64-bit integer).
\<close>

theorem create_auto_version_fresh:
  assumes "store_step\<^sup>*\<^sup>* NewMemoryStore m" "\<forall>s\<in>stored_scopes m. bar_free_scope s"
    and "RequireScope ctx = Inr sc" "bar_free_scope sc" "GetAuthzPolicySet ctx (pv_PolicySetID v) m = Inr s"
    and "pv_Version v \<le> 0" "trim_space (pv_Bundle v) \<noteq> ''''" "env_JsonValid env (trim_space (pv_Bundle v))"
    and "\<forall>w\<in>snd ` set (st_authzVersions m). pv_Version w < 2 ^ 63 - 1"
    and "ListAuthzPolicyVersions ctx (pv_PolicySetID v) 0 m = Inr existing"
  shows "\<exists>b m'. CreateAuthzPolicyVersion env ctx v m = Inr (b, m') \<and> (\<forall>w\<in>set existing. pv_Version w < pv_Version b)"
proof -
  from create_auto_ok [OF reachable_wf [OF assms(1)] assms(2-9)] obtain b m' where
    b: "CreateAuthzPolicyVersion env ctx v m = Inr (b, m')"
      "pv_Version b = next_version sc (norm_key (pv_PolicySetID v)) 1 (map snd (st_authzVersions m))" by blast
  from assms(3,10) have "set existing = {w \<in> set (map snd (st_authzVersions m)). version_of_set sc (norm_key (pv_PolicySetID v)) w}"
    by (force simp: ListAuthzPolicyVersions_def rbind_Inr_iff limit_list_def RequireScope_normal)
  with next_version_ge [of 1 "map snd (st_authzVersions m)" sc "norm_key (pv_PolicySetID v)"] assms(9) b
  show ?thesis by auto
qed

theorem create_auto_version_fresh_witness:
  "\<exists>b m'. CreateAuthzPolicyVersion sample_env sample_ctx sample_version store4 = Inr (b, m') \<and> 1 < pv_Version b"
proof -
  let ?l = "ListAuthzPolicyVersions sample_ctx (pv_PolicySetID sample_version) 0 store4"
  have "case ?l of Inl _ \<Rightarrow> False | Inr ws \<Rightarrow> \<exists>w\<in>set ws. pv_Version w = 1" by code_simp
  then obtain ws where ws: "?l = Inr ws" "\<exists>w\<in>set ws. pv_Version w = 1" by (cases ?l) auto
  have "is_ok (GetAuthzPolicySet sample_ctx (pv_PolicySetID sample_version) store4)" by code_simp
  then obtain s where s: "GetAuthzPolicySet sample_ctx (pv_PolicySetID sample_version) store4 = Inr s"
    by (auto simp: is_ok_iff)
  have facts: "pv_Version sample_version \<le> 0" "trim_space (pv_Bundle sample_version) \<noteq> ''''"
    "env_JsonValid sample_env (trim_space (pv_Bundle sample_version))"
    "\<forall>w\<in>snd ` set (st_authzVersions store4). pv_Version w < 2 ^ 63 - 1"
    by code_simp+
  from create_auto_version_fresh [OF store4_reachable store4_scopes sample_scope_required sample_bar_free s facts ws(1)]
    ws(2) show ?thesis by fastforce
qed

text \<open>
  Rollout pointers resolve. In every reachable state, the active and the candidate version of a
  rollout that can be read can be read as versions of the same policy set.
\<close>

theorem rollout_versions_resolve:
  assumes "store_step\<^sup>*\<^sup>* NewMemoryStore m" "GetAuthzPolicyRollout ctx policySetID m = Inr r"
    and "ro_ActiveVersion r = Some n \<or> ro_CandidateVersion r = Some n"
  shows "\<exists>v. GetAuthzPolicyVersion ctx policySetID n m = Inr v"
  by (rule rollout_version_found [OF reachable_wf [OF assms(1)] assms(2,3)])

theorem rollout_versions_resolve_witness:
  "\<exists>v. GetAuthzPolicyVersion sample_ctx ''core'' 1 store4 = Inr v"
proof -
  let ?g = "GetAuthzPolicyRollout sample_ctx ''core'' store4"
  have "case ?g of Inl _ \<Rightarrow> False | Inr r \<Rightarrow> ro_ActiveVersion r = Some 1" by code_simp
  then obtain r where "?g = Inr r" "ro_ActiveVersion r = Some 1 \<or> ro_CandidateVersion r = Some 1"
    by (cases ?g) auto
  from rollout_versions_resolve [OF store4_reachable this] show ?thesis .
qed

text \<open>
  C36: reads stay in scope. When no stored scope identifier and no identifier of the caller's scope
  contains a bar, every policy set, version and rollout that a read returns belongs to the caller's
  tenant and workspace and to the policy set asked for.
\<close>

theorem reads_stay_in_scope:
  assumes "store_step\<^sup>*\<^sup>* NewMemoryStore m" "\<forall>s\<in>stored_scopes m. bar_free_scope s"
    and "RequireScope ctx = Inr sc" "bar_free_scope sc"
  shows "(\<forall>r. GetAuthzPolicySet ctx p m = Inr r \<longrightarrow>
        record_scope (set_TenantID r) (set_WorkspaceID r) = sc \<and> set_PolicySetID r = norm_key p)
    \<and> (\<forall>n v. GetAuthzPolicyVersion ctx p n m = Inr v \<longrightarrow>
        record_scope (pv_TenantID v) (pv_WorkspaceID v) = sc \<and> pv_PolicySetID v = norm_key p \<and> pv_Version v = n)
    \<and> (\<forall>r. GetAuthzPolicyRollout ctx p m = Inr r \<longrightarrow>
        record_scope (ro_TenantID r) (ro_WorkspaceID r) = sc \<and> ro_PolicySetID r = norm_key p)"
  using get_set_scope [OF reachable_wf [OF assms(1)] assms(2-4)]
    get_version_scope [OF reachable_wf [OF assms(1)] assms(2-4)]
    get_rollout_scope [OF reachable_wf [OF assms(1)] assms(2-4)] by blast

theorem reads_stay_in_scope_witness:
  "\<exists>r. GetAuthzPolicyRollout sample_ctx ''core'' store4 = Inr r \<and> ro_TenantID r = ''acme''"
proof -
  have "is_ok (GetAuthzPolicyRollout sample_ctx ''core'' store4)" by code_simp
  then obtain r where r: "GetAuthzPolicyRollout sample_ctx ''core'' store4 = Inr r" by (auto simp: is_ok_iff)
  from reads_stay_in_scope [OF store4_reachable store4_scopes sample_scope_required sample_bar_free, of "''core''"] r
  have "record_scope (ro_TenantID r) (ro_WorkspaceID r) = sample_scope" by blast
  then have "ro_TenantID r = ''acme''" by (simp add: record_scope_def sample_scope_def)
  with r show ?thesis by blast
qed

definition left_ctx :: Context where
  "left_ctx = WithScope None \<lparr>sc_TenantID = ''a|b'', sc_WorkspaceID = ''c''\<rparr>"

definition right_scope :: Scope where
  "right_scope = \<lparr>sc_TenantID = ''a'', sc_WorkspaceID = ''b|c''\<rparr>"

text \<open>
  The bar matters. The keys of the tables join the tenant, the workspace and the identifier with
  a bar and \<^verbatim>\<open>Scope.Normalize\<close> does not exclude it: a policy set stored by tenant \<^verbatim>\<open>a|b\<close>,
  workspace \<^verbatim>\<open>c\<close> is returned to tenant \<^verbatim>\<open>a\<close>, workspace \<^verbatim>\<open>b|c\<close>, although the record is not in
  that scope.
\<close>

theorem scope_key_collision:
  "\<exists>m r. UpsertAuthzPolicySet sample_env left_ctx sample_set NewMemoryStore = Inr m
     \<and> GetAuthzPolicySet (WithScope None right_scope) ''core'' m = Inr r
     \<and> \<not> MatchScope right_scope (set_TenantID r) (set_WorkspaceID r)"
proof -
  let ?u = "UpsertAuthzPolicySet sample_env left_ctx sample_set NewMemoryStore"
  have "is_ok ?u" by code_simp
  then have u: "?u = Inr (state_of ?u)" by (rule state_of_ok)
  let ?g = "GetAuthzPolicySet (WithScope None right_scope) ''core'' (state_of ?u)"
  have "case ?g of Inl _ \<Rightarrow> False | Inr r \<Rightarrow> \<not> MatchScope right_scope (set_TenantID r) (set_WorkspaceID r)"
    by code_simp
  then obtain r where "?g = Inr r" "\<not> MatchScope right_scope (set_TenantID r) (set_WorkspaceID r)"
    by (cases ?g) auto
  with u show ?thesis by blast
qed

text \<open>A filter for exactly one tuple.\<close>

definition exact_filter :: "AuthzRelationship \<Rightarrow> AuthzRelationshipFilter" where
  "exact_filter r = \<lparr>rf_SubjectType = rel_SubjectType r, rf_SubjectID = rel_SubjectID r, rf_Relation = rel_Relation r,
     rf_ObjectType = rel_ObjectType r, rf_ObjectID = rel_ObjectID r, rf_IncludeExpired = False\<rparr>"

lemma normalize_relationship_Inr:
  assumes "NormalizeAuthzRelationshipForWrite env r = Inr n"
  shows "rel_SubjectType n = norm_key (rel_SubjectType r)" "rel_SubjectID n = trim_space (rel_SubjectID r)"
    "rel_Relation n = norm_key (rel_Relation r)" "rel_ObjectType n = norm_key (rel_ObjectType r)"
    "rel_ObjectID n = trim_space (rel_ObjectID r)" "rel_ExpiresAt n = rel_ExpiresAt r"
    "norm_key (rel_SubjectType r) \<noteq> ''''" "trim_space (rel_SubjectID r) \<noteq> ''''"
    "norm_key (rel_Relation r) \<in> set validAuthzRelationships" "norm_key (rel_ObjectType r) \<noteq> ''''"
    "trim_space (rel_ObjectID r) \<noteq> ''''"
  using assms by (simp_all add: NormalizeAuthzRelationshipForWrite_def Let_def split: if_split_asm) auto

lemma empty_not_relation: "'''' \<notin> set validAuthzRelationships"
  by code_simp

lemma exact_filter_matches:
  assumes "NormalizeAuthzRelationshipForWrite env r = Inr n"
  shows "filter_matches (exact_filter r) t \<longleftrightarrow>
    rel_SubjectType t = rel_SubjectType n \<and> rel_SubjectID t = rel_SubjectID n \<and> rel_Relation t = rel_Relation n
    \<and> rel_ObjectType t = rel_ObjectType n \<and> rel_ObjectID t = rel_ObjectID n"
proof -
  have "norm_key (rel_Relation r) \<noteq> ''''"
    using normalize_relationship_Inr(9) [OF assms] empty_not_relation by auto
  with normalize_relationship_Inr [OF assms] show ?thesis by (simp add: filter_matches_def exact_filter_def)
qed

lemma exact_relation_valid:
  "NormalizeAuthzRelationshipForWrite env r = Inr n \<Longrightarrow> norm_key (rf_Relation (exact_filter r)) \<in> set validAuthzRelationships"
  by (auto simp: NormalizeAuthzRelationshipForWrite_def Let_def exact_filter_def split: if_splits)

lemma list_exact:
  assumes "NormalizeAuthzRelationshipForWrite env r = Inr n" "RequireScope ctx = Inr sc"
  shows "\<exists>ts. ListAuthzRelationships now ctx m (exact_filter r) 0 = Inr ts
    \<and> set ts = {t \<in> live_tuples now ctx m. filter_matches (exact_filter r) t}"
proof -
  obtain ts where ts: "ListAuthzRelationships now ctx m (exact_filter r) 0 = Inr ts"
    using assms(2) exact_relation_valid [OF assms(1)] by (simp add: ListAuthzRelationships_Inr)
  from mem_rels.list_unlimited [OF this] ts show ?thesis by (simp add: exact_filter_def)
qed

lemma upsert_then_listed:
  assumes "UpsertAuthzRelationship env ctx r m = Inr m1" "rel_ExpiresAt r = None"
  shows "\<exists>ts t. ListAuthzRelationships now ctx m1 (exact_filter r) 0 = Inr ts \<and> t \<in> set ts
      \<and> rel_SubjectType t = norm_key (rel_SubjectType r) \<and> rel_SubjectID t = trim_space (rel_SubjectID r)
      \<and> rel_Relation t = norm_key (rel_Relation r) \<and> rel_ObjectType t = norm_key (rel_ObjectType r)
      \<and> rel_ObjectID t = trim_space (rel_ObjectID r)"
proof -
  from assms(1) obtain n sc where n: "NormalizeAuthzRelationshipForWrite env r = Inr n" and
    sc: "RequireScope ctx = Inr sc" by (auto simp: UpsertAuthzRelationship_def rbind_Inr_iff Let_def)
  note normal = RequireScope_normal [OF sc]
  note fields = normalize_relationship_Inr [OF n]
  let ?n = "n\<lparr>rel_TenantID := sc_TenantID sc, rel_WorkspaceID := sc_WorkspaceID sc\<rparr>"
  let ?k = "relationship_key sc ?n"
  let ?b = "case map_of (st_authzRels m) ?k of None \<Rightarrow> ?n
    | Some existing \<Rightarrow> ?n\<lparr>rel_CreatedAt := rel_CreatedAt existing\<rparr>"
  have m1: "m1 = m\<lparr>st_authzRels := map_put ?k ?b (st_authzRels m)\<rparr>"
    using assms(1) n sc normal
    by (simp add: UpsertAuthzRelationship_def rbind_Inr_iff Let_def cong: option.case_cong)
  have "(?k, ?b) \<in> set (st_authzRels m1)"
    by (rule map_of_SomeD) (simp add: m1)
  moreover have "MatchScope sc (rel_TenantID ?b) (rel_WorkspaceID ?b)" "\<not> expired (env_Now now) ?b"
    "filter_matches (exact_filter r) ?b"
    using MatchScope_self [OF normal] assms(2) fields exact_filter_matches [OF n]
    by (simp_all add: expired_def split: option.splits)
  ultimately have "?b \<in> {t \<in> live_tuples now ctx m1. filter_matches (exact_filter r) t}"
    using sc by (force simp: live_tuples_def)
  with list_exact [OF n sc, of now m1] exact_filter_matches [OF n] fields
  show ?thesis by auto
qed

lemma delete_then_unlisted:
  assumes "wf_store m" "DeleteAuthzRelationship env ctx r m = Inr m'"
  shows "ListAuthzRelationships now ctx m' (exact_filter r) 0 = Inr []"
proof -
  from assms(2) obtain sc where sc: "RequireScope ctx = Inr sc"
    by (auto simp: DeleteAuthzRelationship_def rbind_Inr_iff Let_def)
  note normal = RequireScope_normal [OF sc]
  from assms(2) obtain n where n: "NormalizeAuthzRelationshipForWrite env r = Inr n"
    and m': "m' = m\<lparr>st_authzRels := map_del (relationship_key sc n) (st_authzRels m)\<rparr>"
    using sc normal by (auto simp: DeleteAuthzRelationship_def rbind_Inr_iff Let_def split: if_splits)
  have wf2: "table_ok relationship_entry (st_authzRels m')"
    using store_step_wf [OF step_delete [OF assms(2)] assms(1)] by (simp add: wf_store_def)
  have "\<not> filter_matches (exact_filter r) t" if "t \<in> live_tuples now ctx m'" for t
  proof
    assume match: "filter_matches (exact_filter r) t"
    from that sc obtain k where t: "(k, t) \<in> set (st_authzRels m')" "MatchScope sc (rel_TenantID t) (rel_WorkspaceID t)"
      by (auto simp: live_tuples_def)
    with table_lookup_iff [OF wf2] table_ok_lookup [OF wf2] have e: "relationship_entry k t" by blast
    then have "record_scope (rel_TenantID t) (rel_WorkspaceID t) = sc"
      using t(2) normal Normalize_Scope_trimmed [of "record_scope (rel_TenantID t) (rel_WorkspaceID t)"]
      by (simp add: relationship_entry_def MatchScope_normal)
    with e match exact_filter_matches [OF n] have "k = relationship_key sc n"
      by (simp add: relationship_entry_def relationship_key_def)
    with t(1) table_lookup_iff [OF wf2, of k t] show False by (simp add: m')
  qed
  then have none: "{t \<in> live_tuples now ctx m'. filter_matches (exact_filter r) t} = {}" by blast
  from list_exact [OF n sc, of now m'] show ?thesis
    unfolding none by (metis set_empty)
qed

text \<open>
  Relationship round trip. After a tuple is written without an expiry time the caller's exact
  listing contains it with the normalized fields, and after it is deleted the listing is empty, in
  every reachable state and whatever the scope's identifiers are.
\<close>

theorem relationship_roundtrip:
  assumes "store_step\<^sup>*\<^sup>* NewMemoryStore m" "UpsertAuthzRelationship env ctx r m = Inr m1" "rel_ExpiresAt r = None"
    and "DeleteAuthzRelationship env' ctx r m1 = Inr m2"
  shows "(\<exists>ts t. ListAuthzRelationships now ctx m1 (exact_filter r) 0 = Inr ts \<and> t \<in> set ts
      \<and> rel_SubjectType t = norm_key (rel_SubjectType r) \<and> rel_SubjectID t = trim_space (rel_SubjectID r)
      \<and> rel_Relation t = norm_key (rel_Relation r) \<and> rel_ObjectType t = norm_key (rel_ObjectType r)
      \<and> rel_ObjectID t = trim_space (rel_ObjectID r))
    \<and> ListAuthzRelationships now ctx m2 (exact_filter r) 0 = Inr []"
proof
  have "wf_store m1" by (rule store_step_wf [OF step_relationship [OF assms(2)] reachable_wf [OF assms(1)]])
  then show "ListAuthzRelationships now ctx m2 (exact_filter r) 0 = Inr []"
    by (rule delete_then_unlisted [OF _ assms(4)])
qed (rule upsert_then_listed [OF assms(2,3)])

theorem relationship_roundtrip_witness:
  "\<exists>m2. DeleteAuthzRelationship sample_env sample_ctx sample_relationship store4 = Inr m2
     \<and> ListAuthzRelationships sample_env sample_ctx m2 (exact_filter sample_relationship) 0 = Inr []"
proof -
  have up: "UpsertAuthzRelationship sample_env sample_ctx sample_relationship store3 = Inr store4"
    unfolding store4_def by (rule state_of_ok) code_simp
  have "is_ok (DeleteAuthzRelationship sample_env sample_ctx sample_relationship store4)" by code_simp
  then have del: "DeleteAuthzRelationship sample_env sample_ctx sample_relationship store4
    = Inr (state_of (DeleteAuthzRelationship sample_env sample_ctx sample_relationship store4))" by (rule state_of_ok)
  have reach: "store_step\<^sup>*\<^sup>* NewMemoryStore store3"
    by (rule rtranclp.rtrancl_into_rtrancl [OF store2_reachable store3_step])
  have "rel_ExpiresAt sample_relationship = None" by (simp add: sample_relationship_def)
  from relationship_roundtrip [OF reach up this del] del show ?thesis by blast
qed

lemma rebac_store_sound:
  assumes "newReBACPolicyEvaluator (Some (ListAuthzRelationships env ctx m)) policies input = Inr (PolicyOutcomeAllow, reason)"
  shows "\<exists>policy. map_of (normalizeReBACPolicies policies) (norm_key (in_Action input)) = Some policy
    \<and> rebac_grants (live_tuples env ctx m) policy input"
  using assms normalizeReBACPolicies_valid
  unfolding newReBACPolicyEvaluator_def by (intro mem_rels.evaluate_sound)

text \<open>
  C30: the ReBAC evaluator is sound on the store. When it allows an action, the action's normalized
  policy has a path whose conditions hold and whose relations lead, tuple by tuple, from the subject
  to the resource through live tuples of the caller's own tenant and workspace.
\<close>

theorem rebac_sound_on_store:
  assumes "newReBACPolicyEvaluator (Some (ListAuthzRelationships env ctx m)) policies input = Inr (PolicyOutcomeAllow, reason)"
  shows "\<exists>policy. map_of (normalizeReBACPolicies policies) (norm_key (in_Action input)) = Some policy
    \<and> rebac_grants (live_tuples env ctx m) policy input"
  using assms by (rule rebac_store_sound)

definition owner_policies :: "(string, rebacActionPolicy) gomap" where
  "owner_policies = [(''findings.read'', \<lparr>ra_AnyOf = [\<lparr>rp_Relations = [''owns''], rp_AllOf = []\<rparr>]\<rparr>)]"

theorem rebac_sound_on_store_witness:
  "\<exists>policy. map_of (normalizeReBACPolicies owner_policies) (norm_key (in_Action sample_input)) = Some policy
    \<and> rebac_grants (live_tuples sample_env sample_ctx store4) policy sample_input"
proof -
  let ?e = "newReBACPolicyEvaluator (Some (ListAuthzRelationships sample_env sample_ctx store4)) owner_policies sample_input"
  have "case ?e of Inl _ \<Rightarrow> False | Inr (oc, _) \<Rightarrow> oc = PolicyOutcomeAllow" by code_simp
  then obtain reason where "?e = Inr (PolicyOutcomeAllow, reason)" by (cases ?e) auto
  from rebac_sound_on_store [OF this] show ?thesis .
qed

text \<open>
  And complete within its lookup limit. When some path of the action's policy is satisfied, the
  object types carry no bar and no node has more than 200 live tuples of one relation, then whatever
  the evaluator answers without an error is allow.
\<close>

theorem rebac_complete_on_store:
  assumes "newReBACPolicyEvaluator (Some (ListAuthzRelationships env ctx m)) policies input = Inr (outcome, reason)"
    and "map_of (normalizeReBACPolicies policies) (norm_key (in_Action input)) = Some policy" "norm_key (in_Action input) \<noteq> ''''"
    and "rebac_grants (live_tuples env ctx m) policy input"
    and "normal_node (subject_node input)"
    and "normal_object (norm_key (res_Type (in_Resource input))) (trim_space (res_ID (in_Resource input)))"
    and "\<forall>t\<in>live_tuples env ctx m. CHR ''|'' \<notin> set (rel_ObjectType t)"
    and "\<forall>n r all. ListAuthzRelationships env ctx m (hop_filter n r) 0 = Inr all \<longrightarrow> length all \<le> 200"
  shows "outcome = PolicyOutcomeAllow"
proof (rule mem_rels.evaluate_complete)
  show "rebacPolicy_Evaluate (Some (ListAuthzRelationships env ctx m)) (normalizeReBACPolicies policies)
      rebacDefaultLookupLimit input = Inr (outcome, reason)"
    using assms(1) by (simp add: newReBACPolicyEvaluator_def)
  show "rebacDefaultLookupLimit \<le> 0 \<or> int (length all) \<le> rebacDefaultLookupLimit"
    if "ListAuthzRelationships env ctx m (hop_filter n r) 0 = Inr all" for n r all
    using assms(8) that by (fastforce simp: rebacDefaultLookupLimit_def)
  show "set (rp_Relations path) \<subseteq> set validAuthzRelationships" if "path \<in> set (ra_AnyOf policy)" for path
    by (rule normalizeReBACPolicies_valid [OF assms(2) that])
qed (use assms in auto)

theorem rebac_complete_on_store_witness:
  "\<exists>outcome reason. newReBACPolicyEvaluator (Some (ListAuthzRelationships sample_env sample_ctx store4)) owner_policies
      sample_input = Inr (outcome, reason) \<and> outcome = PolicyOutcomeAllow"
proof -
  let ?e = "newReBACPolicyEvaluator (Some (ListAuthzRelationships sample_env sample_ctx store4)) owner_policies sample_input"
  have "case ?e of Inl _ \<Rightarrow> False | Inr (oc, _) \<Rightarrow> oc = PolicyOutcomeAllow" by code_simp
  then obtain oc reason where e: "?e = Inr (oc, reason)" "oc = PolicyOutcomeAllow" by (cases ?e) auto
  from e have "?e = Inr (PolicyOutcomeAllow, reason)" by (simp only:)
  from rebac_store_sound [OF this] obtain policy where
    p: "map_of (normalizeReBACPolicies owner_policies) (norm_key (in_Action sample_input)) = Some policy"
      "rebac_grants (live_tuples sample_env sample_ctx store4) policy sample_input"
    by blast
  have len: "length (st_authzRels store4) = 1" by code_simp
  have few: "\<forall>n r all. ListAuthzRelationships sample_env sample_ctx store4 (hop_filter n r) 0 = Inr all \<longrightarrow> length all \<le> 200"
  proof (intro allI impI)
    fix n r all
    assume "ListAuthzRelationships sample_env sample_ctx store4 (hop_filter n r) 0 = Inr all"
    then have "length all \<le> length (st_authzRels store4)"
      by (auto simp: ListAuthzRelationships_Inr limit_list_def intro: le_trans [OF length_filter_le])
    with len show "length all \<le> 200" by simp
  qed
  have bars: "\<forall>t\<in>live_tuples sample_env sample_ctx store4. CHR ''|'' \<notin> set (rel_ObjectType t)" by code_simp
  have "norm_key (in_Action sample_input) \<noteq> ''''" "normal_node (subject_node sample_input)"
    "normal_object (norm_key (res_Type (in_Resource sample_input))) (trim_space (res_ID (in_Resource sample_input)))"
    by code_simp+
  from rebac_complete_on_store [OF e(1) p(1) this(1) p(2) this(2,3) bars few] e(1) show ?thesis by blast
qed

end
