(* ===== verification/Policy_Bundle.thy ===== *)
theory Policy_Bundle
  imports Authz_Store
begin

section \<open>Policy bundles and their compilation (internal/api/authz_policy_bundle_runtime.go)\<close>

text \<open>
  A policy version carries a JSON bundle: the routes with their actions, the roles per action, the
  ABAC and ReBAC policies. Compilation validates and normalizes it into a route registry and the
  tables the engine is built from. \<^verbatim>\<open>json.Unmarshal\<close> into the bundle type is the parameter
  \<open>unmarshal\<close>. Go ranges over the maps of a bundle in any order; here in the order of the list, which
  only decides which error is reported first when a bundle has several.
  What compiles is well formed (\<open>wf_compiled\<close>): every routed action has roles and an ABAC policy.
\<close>

abbreviation routeAuthorizationPolicyBundleSchemaV1 :: string where
  "routeAuthorizationPolicyBundleSchemaV1 \<equiv> ''identrail.authz.route_policy_bundle.v1''"

abbreviation defaultCentralPolicySetID :: string where
  "defaultCentralPolicySetID \<equiv> ''central_authorization''"

record routePolicyDefinition =
  rd_Method :: string
  rd_Path :: string
  rd_Action :: string
  rd_ResourceType :: string
  rd_ResourceIDParam :: string

record routeAuthorizationPolicyBundle =
  rb_SchemaVersion :: string
  rb_RoutePolicies :: "routePolicyDefinition list"
  rb_RBACActionRole :: "(string, string list) gomap"
  rb_ABACPolicies :: "(string, abacActionPolicy) gomap"
  rb_ReBACPolicies :: "(string, rebacActionPolicy) gomap"

record routePolicy =
  pol_Action :: string
  pol_ResourceType :: string
  pol_ResourceIDParam :: string

type_synonym routePolicyRegistry = "(string, routePolicy) gomap"

record compiledRouteAuthorizationPolicy =
  cp_RouteRegistry :: routePolicyRegistry
  cp_RBACActionRole :: "(string, string list) gomap"
  cp_ABACPolicies :: "(string, abacActionPolicy) gomap"
  cp_ReBACPolicies :: "(string, rebacActionPolicy) gomap"

definition routePolicyKey :: "string \<Rightarrow> string \<Rightarrow> string" where
  "routePolicyKey method fullPath = to_upper (trim_space method) @ '' '' @ trim_space fullPath"

definition lookup_route :: "routePolicyRegistry \<Rightarrow> string \<Rightarrow> string \<Rightarrow> routePolicy option" where
  "lookup_route r method fullPath = map_of r (routePolicyKey method fullPath)"

definition validHTTPMethods :: "string list" where
  "validHTTPMethods = [''GET'', ''HEAD'', ''POST'', ''PUT'', ''PATCH'', ''DELETE'', ''OPTIONS'']"

subsection \<open>Validation\<close>

text \<open>\<^verbatim>\<open>for i, x := range xs { if err := f(i, x); err != nil { return err } }\<close>\<close>

fun each_indexed :: "(nat \<Rightarrow> 'a \<Rightarrow> unit result) \<Rightarrow> nat \<Rightarrow> 'a list \<Rightarrow> unit result" where
  "each_indexed f i [] = Inr ()"
| "each_indexed f i (x # xs) = rbind (f i x) (\<lambda>_. each_indexed f (Suc i) xs)"

definition wrap_at :: "string \<Rightarrow> unit result \<Rightarrow> unit result" where
  "wrap_at place r = (case r of Inl err \<Rightarrow> Inl (Wrapped (place @ '': '') err '''') | Inr _ \<Rightarrow> Inr ())"

definition at_index :: "string \<Rightarrow> string \<Rightarrow> nat \<Rightarrow> string" where
  "at_index path field i = path @ ''.'' @ field @ ''['' @ nat_string i @ '']''"

definition valid_source :: "string \<Rightarrow> bool" where
  "valid_source source = (source = ''subject'' \<or> source = ''resource'' \<or> source = ''context'')"

definition validateABACPredicate :: "abacPredicate \<Rightarrow> unit result" where
  "validateABACPredicate predicate =
    (let source = norm_key (ap_Source predicate);
         operator = norm_key (ap_Operator predicate);
         operator = (if operator = '''' then ''equals'' else operator)
     in if \<not> valid_source source then Inl (ErrorText (''invalid source '' @ quote_string (ap_Source predicate)))
        else if trim_space (ap_Key predicate) = '''' then Inl (ErrorText ''key is required'')
        else if operator = ''equals'' then
          (if trim_space (ap_Value predicate) = '''' then Inl (ErrorText ''equals operator requires value'')
           else Inr ())
        else if operator = ''one_of'' then
          (if list_ex (\<lambda>value. trim_space value \<noteq> '''') (ap_Values predicate) then Inr ()
           else Inl (ErrorText ''one_of operator requires values''))
        else if operator = ''equals_attribute'' then
          (if \<not> valid_source (norm_key (ap_CompareSource predicate)) then
             Inl (ErrorText ''equals_attribute requires valid compare_source'')
           else if trim_space (ap_CompareKey predicate) = '''' then
             Inl (ErrorText ''equals_attribute requires compare_key'')
           else Inr ())
        else Inl (ErrorText (''unsupported operator '' @ quote_string (ap_Operator predicate))))"

definition validateABACActionPolicy :: "abacActionPolicy \<Rightarrow> string \<Rightarrow> unit result" where
  "validateABACActionPolicy policy path =
    rbind (each_indexed (\<lambda>clauseIndex clause.
        each_indexed (\<lambda>predicateIndex predicate.
            wrap_at (at_index (at_index path ''any_of'' clauseIndex) ''all_of'' predicateIndex)
              (validateABACPredicate predicate))
          0 (ac_AllOf clause)) 0 (aa_AnyOf policy)) (\<lambda>_.
      let normalizedOnNoMatch = norm_key (aa_OnNoMatch policy)
      in if normalizedOnNoMatch \<noteq> '''' \<and> normalizedOnNoMatch \<noteq> PolicyOutcomeNoOpinion
            \<and> normalizedOnNoMatch \<noteq> PolicyOutcomeAllow \<and> normalizedOnNoMatch \<noteq> PolicyOutcomeDeny then
           Inl (ErrorText (path @ ''.on_no_match: invalid outcome '' @ quote_string (aa_OnNoMatch policy)))
         else Inr ())"

definition validateReBACActionPolicy :: "rebacActionPolicy \<Rightarrow> string \<Rightarrow> unit result" where
  "validateReBACActionPolicy policy path =
    each_indexed (\<lambda>pathIndex relationPath.
      let place = at_index path ''any_of'' pathIndex in
      if rp_Relations relationPath = [] then Inl (ErrorText (place @ '': relations are required''))
      else
        rbind (each_indexed (\<lambda>relationIndex relation.
            if isSupportedReBACRelation (norm_key relation) then Inr ()
            else Inl (ErrorText (at_index place ''relations'' relationIndex @ '': unsupported relation ''
                   @ quote_string relation))) 0 (rp_Relations relationPath)) (\<lambda>_.
          each_indexed (\<lambda>conditionIndex condition.
              wrap_at (at_index place ''all_of'' conditionIndex) (validateABACPredicate condition))
            0 (rp_AllOf relationPath))) 0 (ra_AnyOf policy)"

subsection \<open>Compilation\<close>

definition normalizeRoutePolicyDefinition :: "routePolicyDefinition \<Rightarrow> routePolicyDefinition result" where
  "normalizeRoutePolicyDefinition def =
    (let method = to_upper (trim_space (rd_Method def));
         path = trim_space (rd_Path def);
         action = norm_key (rd_Action def);
         resourceType = norm_key (rd_ResourceType def);
         resourceIDParam = trim_space (rd_ResourceIDParam def)
     in if method = '''' then Inl (ErrorText ''route policy method is required'')
        else if method \<notin> set validHTTPMethods then
          Inl (ErrorText (''unsupported route policy method '' @ quote_string method))
        else if path = '''' \<or> \<not> has_prefix path ''/'' then Inl (ErrorText ''route policy path must be absolute'')
        else if \<not> has_prefix path ''/v1/'' then Inl (ErrorText ''route policy path must target /v1 routes'')
        else if action = '''' then Inl (ErrorText ''route policy action is required'')
        else if resourceType = '''' then Inl (ErrorText ''route policy resource_type is required'')
        else if resourceIDParam \<noteq> '''' \<and> \<not> contains_string path ('':'' @ resourceIDParam) then
          Inl (ErrorText (''route policy resource_id_param '' @ quote_string resourceIDParam
                 @ '' is not present in path '' @ quote_string path))
        else Inr \<lparr>rd_Method = method, rd_Path = path, rd_Action = action, rd_ResourceType = resourceType,
               rd_ResourceIDParam = resourceIDParam\<rparr>)"

definition route_policy :: "routePolicyDefinition \<Rightarrow> routePolicy" where
  "route_policy n = \<lparr>pol_Action = rd_Action n, pol_ResourceType = rd_ResourceType n,
     pol_ResourceIDParam = rd_ResourceIDParam n\<rparr>"

fun compile_routes ::
  "routePolicyDefinition list \<Rightarrow> routePolicyRegistry \<Rightarrow> string list \<Rightarrow> (routePolicyRegistry \<times> string list) result" where
  "compile_routes [] registry actions = Inr (registry, actions)"
| "compile_routes (def # defs) registry actions =
    (case normalizeRoutePolicyDefinition def of
       Inl err \<Rightarrow> Inl err
     | Inr n \<Rightarrow>
        (let key = routePolicyKey (rd_Method n) (rd_Path n)
         in if has_key registry key then
              Inl (ErrorText (''duplicate route policy for '' @ rd_Method n @ '' '' @ rd_Path n))
            else compile_routes defs (map_put key (route_policy n) registry) (add_unique (rd_Action n) actions)))"

definition compileRoutePolicies ::
  "routePolicyDefinition list \<Rightarrow> (routePolicyRegistry \<times> string list) result" where
  "compileRoutePolicies defs =
    (if defs = [] then Inl (ErrorText ''at least one route policy is required'')
     else compile_routes defs [] [])"

fun compile_grants ::
  "string list \<Rightarrow> (string, string list) gomap \<Rightarrow> (string, string list) gomap \<Rightarrow> (string, string list) gomap result" where
  "compile_grants routeActions [] normalized = Inr normalized"
| "compile_grants routeActions ((action, roles) # grants) normalized =
    (let normalizedAction = norm_key action; roleSet = role_set roles
     in if normalizedAction = '''' then Inl (ErrorText ''rbac action key is required'')
        else if normalizedAction \<notin> set routeActions then
          Inl (ErrorText (''rbac action '' @ quote_string normalizedAction @ '' is not referenced by any route policy''))
        else if roleSet = [] then
          Inl (ErrorText (''rbac action '' @ quote_string normalizedAction @ '' must include at least one role''))
        else compile_grants routeActions grants (map_put normalizedAction (sort roleSet) normalized))"

text \<open>The closing loops over the routed actions: the first one without an entry.\<close>

definition require_actions ::
  "(string \<Rightarrow> string) \<Rightarrow> string list \<Rightarrow> (string, 'v) gomap \<Rightarrow> (string, 'v) gomap result" where
  "require_actions message routeActions normalized =
    (case find (\<lambda>action. \<not> has_key normalized action) routeActions of
       None \<Rightarrow> Inr normalized
     | Some action \<Rightarrow> Inl (ErrorText (message action)))"

definition compileRBACRoleGrants ::
  "(string, string list) gomap \<Rightarrow> string list \<Rightarrow> (string, string list) gomap result" where
  "compileRBACRoleGrants grants routeActions =
    (if grants = [] then Inl (ErrorText ''rbac_action_roles must not be empty'')
     else rbind (compile_grants routeActions grants [])
       (require_actions (\<lambda>action. ''rbac action '' @ quote_string action @ '' is required by route policy but missing'')
          routeActions))"

fun check_abac :: "string list \<Rightarrow> (string, abacActionPolicy) gomap \<Rightarrow> unit result" where
  "check_abac routeActions [] = Inr ()"
| "check_abac routeActions ((action, policy) # policies) =
    (let normalizedAction = norm_key action
     in if normalizedAction = '''' then Inl (ErrorText ''abac policy action key is required'')
        else if normalizedAction \<notin> set routeActions then
          Inl (ErrorText (''abac policy action '' @ quote_string normalizedAction
                 @ '' is not referenced by any route policy''))
        else rbind (validateABACActionPolicy policy (''abac_policies.'' @ normalizedAction))
               (\<lambda>_. check_abac routeActions policies))"

definition compileABACPolicies ::
  "(string, abacActionPolicy) gomap \<Rightarrow> string list \<Rightarrow> (string, abacActionPolicy) gomap result" where
  "compileABACPolicies policies routeActions =
    (if policies = [] then Inl (ErrorText ''abac_policies must not be empty'')
     else rbind (check_abac routeActions policies) (\<lambda>_.
       require_actions (\<lambda>action. ''abac policy for action '' @ quote_string action @ '' is required'')
         routeActions (normalizeABACPolicies policies)))"

fun check_rebac :: "string list \<Rightarrow> (string, rebacActionPolicy) gomap \<Rightarrow> unit result" where
  "check_rebac routeActions [] = Inr ()"
| "check_rebac routeActions ((action, policy) # policies) =
    (let normalizedAction = norm_key action
     in if normalizedAction = '''' then Inl (ErrorText ''rebac policy action key is required'')
        else if normalizedAction \<notin> set routeActions then
          Inl (ErrorText (''rebac policy action '' @ quote_string normalizedAction
                 @ '' is not referenced by any route policy''))
        else rbind (validateReBACActionPolicy policy (''rebac_policies.'' @ normalizedAction))
               (\<lambda>_. check_rebac routeActions policies))"

definition compileReBACPolicies ::
  "(string, rebacActionPolicy) gomap \<Rightarrow> string list \<Rightarrow> (string, rebacActionPolicy) gomap result" where
  "compileReBACPolicies policies routeActions =
    (if policies = [] then Inr []
     else rbind (check_rebac routeActions policies) (\<lambda>_. Inr (normalizeReBACPolicies policies)))"

definition compileRouteAuthorizationPolicyBundle ::
  "routeAuthorizationPolicyBundle \<Rightarrow> compiledRouteAuthorizationPolicy result" where
  "compileRouteAuthorizationPolicyBundle bundle =
    (if trim_space (rb_SchemaVersion bundle) \<noteq> routeAuthorizationPolicyBundleSchemaV1 then
       Inl (ErrorText (''unsupported policy bundle schema version '' @ quote_string (rb_SchemaVersion bundle)))
     else rbind (compileRoutePolicies (rb_RoutePolicies bundle)) (\<lambda>(registry, actions).
       rbind (compileRBACRoleGrants (rb_RBACActionRole bundle) actions) (\<lambda>rbac.
       rbind (compileABACPolicies (rb_ABACPolicies bundle) actions) (\<lambda>abac.
       rbind (compileReBACPolicies (rb_ReBACPolicies bundle) actions) (\<lambda>rebac.
         Inr \<lparr>cp_RouteRegistry = registry, cp_RBACActionRole = rbac, cp_ABACPolicies = abac,
              cp_ReBACPolicies = rebac\<rparr>)))))"

definition compileRouteAuthorizationPolicyBundleJSON ::
  "(string \<Rightarrow> routeAuthorizationPolicyBundle result) \<Rightarrow> string \<Rightarrow> compiledRouteAuthorizationPolicy result" where
  "compileRouteAuthorizationPolicyBundleJSON unmarshal raw =
    (let trimmed = trim_space raw
     in if trimmed = '''' then Inl (ErrorText ''policy bundle is empty'')
        else case unmarshal trimmed of
          Inl err \<Rightarrow> Inl (Wrapped ''decode policy bundle json: '' err '''')
        | Inr bundle \<Rightarrow> compileRouteAuthorizationPolicyBundle bundle)"

definition emptyCompiledRouteAuthorizationPolicy :: compiledRouteAuthorizationPolicy where
  "emptyCompiledRouteAuthorizationPolicy =
    \<lparr>cp_RouteRegistry = [], cp_RBACActionRole = [], cp_ABACPolicies = [], cp_ReBACPolicies = []\<rparr>"

definition newCentralPolicyEngineFromCompiled ::
  "ListRelationships option \<Rightarrow> compiledRouteAuthorizationPolicy \<Rightarrow> PolicyEngine" where
  "newCentralPolicyEngineFromCompiled store compiled =
    NewPolicyEngine (Some tenantIsolation_Evaluate)
      (Some (newRBACRequirementEvaluator (cp_RBACActionRole compiled)))
      (Some (newABACPolicyEvaluator (cp_ABACPolicies compiled)))
      (Some (newReBACPolicyEvaluator store (cp_ReBACPolicies compiled)))"

subsection \<open>Activation checks\<close>

definition hasValidatedVersion :: "int list \<Rightarrow> int \<Rightarrow> bool" where
  "hasValidatedVersion values version = list_ex (\<lambda>candidate. candidate = version) values"

definition validateAuthzPolicyVersionBundle ::
  "(string \<Rightarrow> routeAuthorizationPolicyBundle result) \<Rightarrow> (string \<Rightarrow> int \<Rightarrow> AuthzPolicyVersion result)
    \<Rightarrow> string \<Rightarrow> int \<Rightarrow> unit result" where
  "validateAuthzPolicyVersionBundle unmarshal get_version policySetID version =
    (if version \<le> 0 then Inl (ErrorText ''version must be greater than zero'')
     else rbind (get_version policySetID version) (\<lambda>record.
       case compileRouteAuthorizationPolicyBundleJSON unmarshal (pv_Bundle record) of
         Inl err \<Rightarrow> Inl (Wrapped '''' (Sentinel ErrInvalidAuthzPolicyVersionBundle) ('': '' @ error_text err))
       | Inr _ \<Rightarrow> Inr ()))"

definition validateAuthzPolicyRolloutActivation ::
  "(string \<Rightarrow> routeAuthorizationPolicyBundle result) \<Rightarrow> (string \<Rightarrow> int \<Rightarrow> AuthzPolicyVersion result) option
    \<Rightarrow> string \<Rightarrow> AuthzPolicyRollout \<Rightarrow> unit result" where
  "validateAuthzPolicyRolloutActivation unmarshal store policySetID rollout =
    (case store of
       None \<Rightarrow> Inl (ErrorText ''policy store is required'')
     | Some get_version \<Rightarrow>
        (let normalizedPolicySetID = norm_key policySetID;
             check = (\<lambda>v what. case v of None \<Rightarrow> Inr () | Some version \<Rightarrow>
                wrap_err (what @ '' version validation failed'')
                  (validateAuthzPolicyVersionBundle unmarshal get_version normalizedPolicySetID version));
             unvalidated = (\<lambda>v. case v of None \<Rightarrow> False | Some version \<Rightarrow>
                \<not> hasValidatedVersion (ro_ValidatedVersions rollout) version)
         in if normalizedPolicySetID = '''' then Inl (ErrorText ''policy set id is required'')
            else rbind (check (ro_ActiveVersion rollout) ''active'') (\<lambda>_.
              rbind (check (ro_CandidateVersion rollout) ''candidate'') (\<lambda>_.
                if norm_key (ro_Mode rollout) = AuthzPolicyRolloutModeEnforce \<and> unvalidated (ro_ActiveVersion rollout) then
                  Inl (ErrorText ''active version must exist in validated_versions for enforce mode'')
                else if norm_key (ro_Mode rollout) = AuthzPolicyRolloutModeEnforce \<and> unvalidated (ro_CandidateVersion rollout) then
                  Inl (ErrorText ''candidate version must exist in validated_versions for enforce mode'')
                else Inr ()))))"

subsection \<open>What compiles is well formed\<close>

definition route_entry :: "string \<Rightarrow> routePolicy \<Rightarrow> bool" where
  "route_entry k p \<longleftrightarrow>
    (\<exists>method path. method \<in> set validHTTPMethods \<and> has_prefix path ''/v1/'' \<and> k = routePolicyKey method path
       \<and> (pol_ResourceIDParam p \<noteq> '''' \<longrightarrow> contains_string path ('':'' @ pol_ResourceIDParam p)))
    \<and> pol_Action p \<noteq> '''' \<and> norm_key (pol_Action p) = pol_Action p \<and> pol_ResourceType p \<noteq> ''''"

definition registry_actions :: "routePolicyRegistry \<Rightarrow> string set" where
  "registry_actions r = (\<lambda>(k, p). pol_Action p) ` set r"

definition roles_entry :: "string set \<Rightarrow> string \<Rightarrow> string list \<Rightarrow> bool" where
  "roles_entry actions a roles \<longleftrightarrow> a \<in> actions \<and> roles \<noteq> [] \<and> sorted roles \<and> distinct roles
    \<and> (\<forall>r\<in>set roles. r \<noteq> '''' \<and> norm_key r = r)"

text \<open>A predicate the evaluator can decide: a known source and operator with the operands it needs.\<close>

definition wf_predicate :: "abacPredicate \<Rightarrow> bool" where
  "wf_predicate p \<longleftrightarrow>
    valid_source (ap_Source p) \<and> ap_Key p \<noteq> '''' \<and> norm_key (ap_Key p) = ap_Key p
    \<and> (ap_Operator p = ''equals'' \<and> ap_Value p \<noteq> ''''
       \<or> ap_Operator p = ''one_of'' \<and> ap_Values p \<noteq> []
       \<or> ap_Operator p = ''equals_attribute'' \<and> valid_source (ap_CompareSource p) \<and> ap_CompareKey p \<noteq> '''')"

definition abac_entry :: "string set \<Rightarrow> string \<Rightarrow> abacActionPolicy \<Rightarrow> bool" where
  "abac_entry actions a policy \<longleftrightarrow> a \<in> actions
    \<and> aa_OnNoMatch policy \<in> {PolicyOutcomeNoOpinion, PolicyOutcomeAllow, PolicyOutcomeDeny}
    \<and> (\<forall>c\<in>set (aa_AnyOf policy). \<forall>p\<in>set (ac_AllOf c). wf_predicate p)"

definition rebac_entry :: "string set \<Rightarrow> string \<Rightarrow> rebacActionPolicy \<Rightarrow> bool" where
  "rebac_entry actions a policy \<longleftrightarrow> a \<in> actions \<and> ra_AnyOf policy \<noteq> []
    \<and> (\<forall>path\<in>set (ra_AnyOf policy). rp_Relations path \<noteq> [] \<and> set (rp_Relations path) \<subseteq> set validAuthzRelationships
         \<and> (\<forall>p\<in>set (rp_AllOf path). wf_predicate p))"

definition wf_compiled :: "compiledRouteAuthorizationPolicy \<Rightarrow> bool" where
  "wf_compiled c \<longleftrightarrow>
    cp_RouteRegistry c \<noteq> [] \<and> table_ok route_entry (cp_RouteRegistry c)
    \<and> table_ok (roles_entry (registry_actions (cp_RouteRegistry c))) (cp_RBACActionRole c)
    \<and> table_ok (abac_entry (registry_actions (cp_RouteRegistry c))) (cp_ABACPolicies c)
    \<and> table_ok (rebac_entry (registry_actions (cp_RouteRegistry c))) (cp_ReBACPolicies c)
    \<and> (\<forall>a\<in>registry_actions (cp_RouteRegistry c). has_key (cp_RBACActionRole c) a \<and> has_key (cp_ABACPolicies c) a)"

lemma sort_eq_Nil [simp]: "sort xs = [] \<longleftrightarrow> xs = []"
  by (metis length_0_conv length_sort)

lemma collect_unique_eq_Nil: "collect_unique f [] xs = [] \<longleftrightarrow> (\<forall>x\<in>set xs. f x = None)"
  using set_collect_unique [of f "[]" xs] by (auto simp flip: set_empty)

lemma each_indexed_ok:
  assumes "\<And>i x. f i x = Inr () \<longleftrightarrow> P x"
  shows "each_indexed f k xs = Inr () \<longleftrightarrow> (\<forall>x\<in>set xs. P x)"
  using assms by (induction xs arbitrary: k) (auto simp: rbind_Inr_iff)

lemma wrap_at_ok [simp]: "wrap_at place r = Inr () \<longleftrightarrow> r = Inr ()"
  by (cases r) (auto simp: wrap_at_def)

lemma trim_upper: "trim_space (to_upper s) = to_upper (trim_space s)"
proof -
  have tab: "list_all (\<lambda>p. \<not> is_space (fst p) \<and> \<not> is_space (snd p)) upper_table" by code_simp
  have sp: "is_space (upper_char c) = is_space c" for c
  proof (cases "map_of upper_table c")
    case (Some d)
    then have "(c, d) \<in> set upper_table" by (rule map_of_SomeD)
    with tab Some show ?thesis by (auto simp: upper_char_def list_all_iff)
  qed (simp add: upper_char_def)
  have "dropWhile is_space (map upper_char s) = map upper_char (dropWhile is_space s)" for s
    by (induction s) (auto simp: sp)
  then show ?thesis by (simp add: trim_space_def to_upper_def rev_map)
qed

lemma normalize_route_ok:
  assumes "normalizeRoutePolicyDefinition def = Inr n"
  shows "route_entry (routePolicyKey (rd_Method n) (rd_Path n)) (route_policy n)"
proof -
  from assms have "rd_Method n \<in> set validHTTPMethods" "has_prefix (rd_Path n) ''/v1/''"
    "rd_ResourceIDParam n \<noteq> '''' \<longrightarrow> contains_string (rd_Path n) ('':'' @ rd_ResourceIDParam n)"
    "rd_Action n \<noteq> ''''" "norm_key (rd_Action n) = rd_Action n" "rd_ResourceType n \<noteq> ''''"
    by (auto simp: normalizeRoutePolicyDefinition_def Let_def split: if_splits)
  then show ?thesis unfolding route_entry_def route_policy_def by auto
qed

lemma compile_routes_ok:
  assumes "compile_routes defs reg acts = Inr (reg', acts')" "table_ok route_entry reg" "set acts = registry_actions reg"
  shows "table_ok route_entry reg' \<and> set acts' = registry_actions reg' \<and> length reg' = length reg + length defs"
  using assms
proof (induction defs arbitrary: reg acts)
  case (Cons def defs)
  from Cons.prems(1) obtain n where n: "normalizeRoutePolicyDefinition def = Inr n"
    and fresh: "\<not> has_key reg (routePolicyKey (rd_Method n) (rd_Path n))"
    and rest: "compile_routes defs (map_put (routePolicyKey (rd_Method n) (rd_Path n)) (route_policy n) reg)
      (add_unique (rd_Action n) acts) = Inr (reg', acts')"
    by (auto simp: Let_def split: sum.splits if_splits)
  have "set (add_unique (rd_Action n) acts)
      = registry_actions (map_put (routePolicyKey (rd_Method n) (rd_Path n)) (route_policy n) reg)"
    using Cons.prems(3) by (simp add: map_put_fresh [OF fresh] registry_actions_def route_policy_def)
  from Cons.IH [OF rest table_ok_put [OF Cons.prems(2) normalize_route_ok [OF n]] this]
  show ?case by (simp add: map_put_fresh [OF fresh])
qed simp

lemma compile_grants_ok:
  "compile_grants acts grants acc = Inr rbac \<Longrightarrow> table_ok (roles_entry (set acts)) acc
    \<Longrightarrow> table_ok (roles_entry (set acts)) rbac"
proof (induction grants arbitrary: acc)
  case (Cons g grants)
  obtain action roles where g: "g = (action, roles)" by (cases g)
  from Cons.prems(1) have ok: "norm_key action \<in> set acts" "role_set roles \<noteq> []"
    and rest: "compile_grants acts grants (map_put (norm_key action) (sort (role_set roles)) acc) = Inr rbac"
    by (auto simp: g Let_def split: if_splits)
  have "roles_entry (set acts) (norm_key action) (sort (role_set roles))"
    using ok distinct_collect_unique [of "[]"] by (auto simp: roles_entry_def set_role_set) (simp_all add: role_set_def)
  then show ?case by (intro Cons.IH [OF rest] table_ok_put [OF Cons.prems(2)])
qed simp

lemma require_actions_ok:
  "require_actions msg acts m = Inr r \<longleftrightarrow> r = m \<and> (\<forall>a\<in>set acts. has_key m a)"
  by (auto simp: require_actions_def find_None_iff find_Some_iff split: option.splits)

lemma validate_predicate_ok:
  "validateABACPredicate p = Inr () \<Longrightarrow> wf_predicate (normalizeABACPredicate p)"
  by (auto simp: validateABACPredicate_def Let_def wf_predicate_def normalizeABACPredicate_def norm_key_eq_Nil
      list_ex_iff collect_unique_eq_Nil nonempty_def split: if_splits)

lemma validate_abac_ok:
  assumes "validateABACActionPolicy policy path = Inr ()"
  shows "\<forall>c\<in>set (aa_AnyOf policy). \<forall>p\<in>set (ac_AllOf c). validateABACPredicate p = Inr ()"
proof -
  let ?inner = "\<lambda>i c. each_indexed (\<lambda>j p. wrap_at (at_index (at_index path ''any_of'' i) ''all_of'' j)
      (validateABACPredicate p)) 0 (ac_AllOf c)"
  have inner: "?inner i c = Inr () \<longleftrightarrow> (\<forall>p\<in>set (ac_AllOf c). validateABACPredicate p = Inr ())" for i c
    by (rule each_indexed_ok) simp
  have "each_indexed ?inner 0 (aa_AnyOf policy) = Inr ()"
    using assms by (auto simp: validateABACActionPolicy_def rbind_Inr_iff)
  with each_indexed_ok [of ?inner, OF inner] show ?thesis by blast
qed

lemma validate_rebac_ok:
  assumes "validateReBACActionPolicy policy path = Inr ()" "q \<in> set (ra_AnyOf policy)"
  shows "rp_Relations q \<noteq> [] \<and> (\<forall>r\<in>set (rp_Relations q). isSupportedReBACRelation (norm_key r))
    \<and> (\<forall>p\<in>set (rp_AllOf q). validateABACPredicate p = Inr ())"
proof -
  let ?rel = "\<lambda>place j r. if isSupportedReBACRelation (norm_key r) then Inr ()
      else Inl (ErrorText (at_index place ''relations'' j @ '': unsupported relation '' @ quote_string r))"
  let ?cond = "\<lambda>place j c. wrap_at (at_index place ''all_of'' j) (validateABACPredicate c)"
  let ?f = "\<lambda>i q. let place = at_index path ''any_of'' i in
      if rp_Relations q = [] then Inl (ErrorText (place @ '': relations are required''))
      else rbind (each_indexed (?rel place) 0 (rp_Relations q)) (\<lambda>_. each_indexed (?cond place) 0 (rp_AllOf q))"
  let ?P = "\<lambda>q. rp_Relations q \<noteq> [] \<and> (\<forall>r\<in>set (rp_Relations q). isSupportedReBACRelation (norm_key r))
      \<and> (\<forall>p\<in>set (rp_AllOf q). validateABACPredicate p = Inr ())"
  have rel: "each_indexed (?rel place) k rs = Inr () \<longleftrightarrow> (\<forall>r\<in>set rs. isSupportedReBACRelation (norm_key r))" for place k rs
    by (rule each_indexed_ok) simp
  have cond: "each_indexed (?cond place) k cs = Inr () \<longleftrightarrow> (\<forall>c\<in>set cs. validateABACPredicate c = Inr ())" for place k cs
    by (rule each_indexed_ok) simp
  have "each_indexed ?f 0 (ra_AnyOf policy) = Inr () \<longleftrightarrow> (\<forall>q\<in>set (ra_AnyOf policy). ?P q)"
    by (rule each_indexed_ok) (auto simp: Let_def rbind_Inr_iff rel cond)
  with assms show ?thesis unfolding validateReBACActionPolicy_def by blast
qed

lemma check_abac_ok:
  "check_abac acts policies = Inr () \<Longrightarrow> (a, policy) \<in> set policies \<Longrightarrow>
    norm_key a \<in> set acts \<and> (\<exists>path. validateABACActionPolicy policy path = Inr ())"
proof (induction policies)
  case (Cons e policies)
  obtain a' policy' where e: "e = (a', policy')" by (cases e)
  from Cons.prems(1) have "norm_key a' \<in> set acts" "check_abac acts policies = Inr ()"
    "validateABACActionPolicy policy' (''abac_policies.'' @ norm_key a') = Inr ()"
    by (auto simp: e Let_def rbind_Inr_iff split: if_splits)
  with Cons e show ?case by auto
qed simp

lemma check_rebac_ok:
  "check_rebac acts policies = Inr () \<Longrightarrow> (a, policy) \<in> set policies \<Longrightarrow>
    norm_key a \<in> set acts \<and> (\<exists>path. validateReBACActionPolicy policy path = Inr ())"
proof (induction policies)
  case (Cons e policies)
  obtain a' policy' where e: "e = (a', policy')" by (cases e)
  from Cons.prems(1) have "norm_key a' \<in> set acts" "check_rebac acts policies = Inr ()"
    "validateReBACActionPolicy policy' (''rebac_policies.'' @ norm_key a') = Inr ()"
    by (auto simp: e Let_def rbind_Inr_iff split: if_splits)
  with Cons e show ?case by auto
qed simp

lemma add_abac_policies_table:
  assumes "\<And>a policy. (a, policy) \<in> set policies \<Longrightarrow> norm_key a \<noteq> '''' \<Longrightarrow> P (norm_key a) (normalizeABACPolicy policy)"
    and "table_ok P acc"
  shows "table_ok P (add_abac_policies policies acc)"
  using assms
proof (induction policies arbitrary: acc)
  case (Cons e policies)
  obtain a policy where e: "e = (a, policy)" by (cases e)
  show ?case
  proof (cases "norm_key a = ''''")
    case True
    with Cons e show ?thesis by (simp add: Let_def)
  next
    case False
    have "table_ok P (add_abac_policies policies (map_put (norm_key a) (normalizeABACPolicy policy) acc))"
      by (intro Cons.IH table_ok_put) (use Cons.prems False e in auto)
    with False e show ?thesis by (simp add: Let_def)
  qed
qed simp

lemma add_rebac_policies_table:
  assumes "\<And>a policy anyOf. (a, policy) \<in> set policies \<Longrightarrow>
      anyOf = filter (\<lambda>path. rp_Relations path \<noteq> []) (map normalizeReBACPath (ra_AnyOf policy)) \<Longrightarrow> anyOf \<noteq> []
      \<Longrightarrow> P (norm_key a) \<lparr>ra_AnyOf = anyOf\<rparr>"
    and "table_ok P acc"
  shows "table_ok P (add_rebac_policies policies acc)"
  using assms
proof (induction policies arbitrary: acc)
  case (Cons e policies)
  obtain a policy where e: "e = (a, policy)" by (cases e)
  let ?anyOf = "filter (\<lambda>path. rp_Relations path \<noteq> []) (map normalizeReBACPath (ra_AnyOf policy))"
  show ?case
  proof (cases "norm_key a = '''' \<or> ?anyOf = []")
    case True
    then have "add_rebac_policies (e # policies) acc = add_rebac_policies policies acc"
      by (auto simp: e Let_def)
    moreover have "table_ok P (add_rebac_policies policies acc)"
      by (rule Cons.IH [OF _ Cons.prems(2)], rule Cons.prems(1)) simp_all
    ultimately show ?thesis by simp
  next
    case False
    then have "P (norm_key a) \<lparr>ra_AnyOf = ?anyOf\<rparr>" by (intro Cons.prems(1)) (auto simp: e)
    then have "table_ok P (add_rebac_policies policies (map_put (norm_key a) \<lparr>ra_AnyOf = ?anyOf\<rparr> acc))"
      by (intro Cons.IH table_ok_put) (use Cons.prems in auto)
    with False e show ?thesis by (simp add: Let_def)
  qed
qed simp

lemma normalized_abac_entry:
  assumes "validateABACActionPolicy policy path = Inr ()" "a \<in> acts"
  shows "abac_entry acts a (normalizeABACPolicy policy)"
  using validate_abac_ok [OF assms(1)] assms(2) validate_predicate_ok
  by (auto simp: abac_entry_def normalizeABACPolicy_def Let_def)

lemma normalized_rebac_entry:
  assumes "validateReBACActionPolicy policy path = Inr ()" "a \<in> acts"
    and "anyOf = filter (\<lambda>path. rp_Relations path \<noteq> []) (map normalizeReBACPath (ra_AnyOf policy))" "anyOf \<noteq> []"
  shows "rebac_entry acts a \<lparr>ra_AnyOf = anyOf\<rparr>"
proof -
  have "set (rp_Relations (normalizeReBACPath q)) \<subseteq> set validAuthzRelationships
      \<and> (\<forall>p\<in>set (rp_AllOf (normalizeReBACPath q)). wf_predicate p)" if "q \<in> set (ra_AnyOf policy)" for q
    using validate_rebac_ok [OF assms(1) that] validate_predicate_ok
    by (auto simp: normalizeReBACPath_def Let_def isSupportedReBACRelation_def validAuthzRelationships_def list_all_iff)
  with assms(2-4) show ?thesis by (auto simp: rebac_entry_def)
qed

lemma compile_wf:
  assumes "compileRouteAuthorizationPolicyBundle bundle = Inr c"
  shows "wf_compiled c"
proof -
  from assms obtain acts where
    routes: "compileRoutePolicies (rb_RoutePolicies bundle) = Inr (cp_RouteRegistry c, acts)"
    and rbac: "compileRBACRoleGrants (rb_RBACActionRole bundle) acts = Inr (cp_RBACActionRole c)"
    and abac: "compileABACPolicies (rb_ABACPolicies bundle) acts = Inr (cp_ABACPolicies c)"
    and rebac: "compileReBACPolicies (rb_ReBACPolicies bundle) acts = Inr (cp_ReBACPolicies c)"
    by (auto simp: compileRouteAuthorizationPolicyBundle_def rbind_Inr_iff split: if_splits prod.splits)
  from routes compile_routes_ok [of "rb_RoutePolicies bundle" "[]" "[]" "cp_RouteRegistry c" acts]
  have r: "table_ok route_entry (cp_RouteRegistry c)" "set acts = registry_actions (cp_RouteRegistry c)"
    "cp_RouteRegistry c \<noteq> []"
    by (auto simp: compileRoutePolicies_def registry_actions_def split: if_splits)
  from rbac compile_grants_ok [of acts "rb_RBACActionRole bundle" "[]" "cp_RBACActionRole c"]
  have b: "table_ok (roles_entry (set acts)) (cp_RBACActionRole c)" "\<forall>a\<in>set acts. has_key (cp_RBACActionRole c) a"
    by (auto simp: compileRBACRoleGrants_def rbind_Inr_iff require_actions_ok split: if_splits)
  from abac have chk: "check_abac acts (rb_ABACPolicies bundle) = Inr ()"
    and a: "cp_ABACPolicies c = normalizeABACPolicies (rb_ABACPolicies bundle)" "\<forall>a\<in>set acts. has_key (cp_ABACPolicies c) a"
    by (auto simp: compileABACPolicies_def rbind_Inr_iff require_actions_ok split: if_splits)
  have a': "table_ok (abac_entry (set acts)) (cp_ABACPolicies c)"
    unfolding a(1) normalizeABACPolicies_def
    by (rule add_abac_policies_table) (use check_abac_ok [OF chk] normalized_abac_entry in blast, simp)
  have e: "table_ok (rebac_entry (set acts)) (cp_ReBACPolicies c)"
  proof (cases "rb_ReBACPolicies bundle = []")
    case False
    with rebac have chk: "check_rebac acts (rb_ReBACPolicies bundle) = Inr ()"
      and c: "cp_ReBACPolicies c = normalizeReBACPolicies (rb_ReBACPolicies bundle)"
      by (auto simp: compileReBACPolicies_def rbind_Inr_iff)
    show ?thesis unfolding c normalizeReBACPolicies_def
      by (rule add_rebac_policies_table) (use check_rebac_ok [OF chk] normalized_rebac_entry in blast, simp)
  qed (use rebac in \<open>simp add: compileReBACPolicies_def\<close>)
  show ?thesis using r b a(2) a' e by (simp add: wf_compiled_def)
qed

subsection \<open>The engine of a compiled bundle\<close>

lemma compiled_roles:
  assumes "wf_compiled c" "a \<in> registry_actions (cp_RouteRegistry c)"
  shows "\<exists>roles. (a, roles) \<in> set (cp_RBACActionRole c) \<and> roles_entry (registry_actions (cp_RouteRegistry c)) a roles"
proof -
  from assms obtain roles where "map_of (cp_RBACActionRole c) a = Some roles"
    by (auto simp: wf_compiled_def has_key_iff)
  with assms(1) show ?thesis by (auto simp: wf_compiled_def intro: map_of_SomeD table_ok_lookup)
qed

lemma registry_action_normal:
  assumes "wf_compiled c" "a \<in> registry_actions (cp_RouteRegistry c)"
  shows "a \<noteq> ''''" "norm_key a = a"
  using assms by (auto simp: wf_compiled_def registry_actions_def table_ok_def route_entry_def)

lemma roles_entry_role_set: "roles_entry acts a roles \<Longrightarrow> role_set roles \<noteq> []"
proof -
  assume e: "roles_entry acts a roles"
  then obtain r where "r \<in> set roles" unfolding roles_entry_def by (meson last_in_set)
  with e have "r \<in> set (role_set roles)" unfolding set_role_set roles_entry_def by force
  then show ?thesis by auto
qed

lemma central_engine_cases:
  assumes "wf_compiled c" "norm_key (in_Action input) \<in> registry_actions (cp_RouteRegistry c)"
    and "Decide (Some (newCentralPolicyEngineFromCompiled store c)) input = Inr d" "pd_Allowed d"
  shows "tenant_isolated input \<and> role_granted (cp_RBACActionRole c) input
    \<and> (stage_verdict input (Some (newABACPolicyEvaluator (cp_ABACPolicies c))) = Some True
       \<or> stage_verdict input (Some (newReBACPolicyEvaluator store (cp_ReBACPolicies c))) = Some True)"
proof -
  let ?e = "newCentralPolicyEngineFromCompiled store c"
  let ?rbac = "stage_verdict input (Some (newRBACRequirementEvaluator (cp_RBACActionRole c)))"
  have fo: "first_opinion input (engine_stages ?e) = Some (pd_Stage d, True)"
    by (rule Decide_allowed [OF assms(3,4)])
  then have iso: "tenant_isolated input"
    by (auto simp: newCentralPolicyEngineFromCompiled_def NewPolicyEngine_def engine_stages_def
        tenantIsolation_opinion split: if_splits)
  with fo have rbac: "?rbac \<noteq> Some False"
    and rest: "stage_verdict input (Some (newABACPolicyEvaluator (cp_ABACPolicies c))) = Some True
       \<or> stage_verdict input (Some (newReBACPolicyEvaluator store (cp_ReBACPolicies c))) = Some True"
    using newRBACRequirement_never_allows [of input "cp_RBACActionRole c"]
    by (auto simp: newCentralPolicyEngineFromCompiled_def NewPolicyEngine_def engine_stages_def
        tenantIsolation_opinion split: option.splits)
  obtain roles where roles: "(norm_key (in_Action input), roles) \<in> set (cp_RBACActionRole c)"
    "roles_entry (registry_actions (cp_RouteRegistry c)) (norm_key (in_Action input)) roles"
    using compiled_roles [OF assms(1,2)] by blast
  have "role_granted (cp_RBACActionRole c) input"
    by (rule rbacRequirement_pass [OF rbac roles(1) _ _ roles_entry_role_set [OF roles(2)]])
      (use registry_action_normal [OF assms(1,2)] in simp_all)
  with iso rest show ?thesis by blast
qed

lemma abac_stage_grants:
  assumes "stage_verdict input (Some (newABACPolicyEvaluator policies)) = Some True"
    and "norm_key (in_Action input) \<noteq> ''''"
  shows "\<exists>policy. map_of (normalizeABACPolicies policies) (norm_key (in_Action input)) = Some policy \<and> abac_grants policy input"
  using assms(1) unfolding newABACPolicyEvaluator_def abac_verdict [OF assms(2)]
  by (auto split: option.splits if_splits)

subsection \<open>Properties\<close>

text \<open>
  C37: what compiles is complete. A bundle that compiles yields a non-empty registry of distinct
  \<^verbatim>\<open>/v1/\<close> routes with known methods, normalized actions and identifiers that occur in the path;
  every routed action has a non-empty sorted list of normalized roles and an ABAC policy, no table
  names an action that is not routed, and every predicate and relation path is one the evaluators
  can decide.
\<close>

theorem compiled_bundle_wf:
  assumes "compileRouteAuthorizationPolicyBundle bundle = Inr c"
  shows "wf_compiled c"
  using assms by (rule compile_wf)

definition sample_bundle :: routeAuthorizationPolicyBundle where
  "sample_bundle =
    \<lparr>rb_SchemaVersion = routeAuthorizationPolicyBundleSchemaV1,
     rb_RoutePolicies = [\<lparr>rd_Method = ''get'', rd_Path = ''/v1/findings/:finding_id'', rd_Action = ''findings.read'',
       rd_ResourceType = ''finding'', rd_ResourceIDParam = ''finding_id''\<rparr>],
     rb_RBACActionRole = [(''findings.read'', [''viewer'', ''Editor''])],
     rb_ABACPolicies = [(''findings.read'', team_policy)],
     rb_ReBACPolicies = owner_policies\<rparr>"

definition compiled_of :: "compiledRouteAuthorizationPolicy result \<Rightarrow> compiledRouteAuthorizationPolicy" where
  "compiled_of r = (case r of Inl _ \<Rightarrow> emptyCompiledRouteAuthorizationPolicy | Inr c \<Rightarrow> c)"

definition sample_compiled :: compiledRouteAuthorizationPolicy where
  "sample_compiled = compiled_of (compileRouteAuthorizationPolicyBundle sample_bundle)"

lemma compiled_of_ok: "is_ok r \<Longrightarrow> r = Inr (compiled_of r)"
  by (cases r) (auto simp: compiled_of_def)

lemma sample_compiles: "compileRouteAuthorizationPolicyBundle sample_bundle = Inr sample_compiled"
  unfolding sample_compiled_def by (rule compiled_of_ok) code_simp

theorem compiled_bundle_wf_witness: "wf_compiled sample_compiled \<and> length (cp_RouteRegistry sample_compiled) = 1"
proof -
  have "length (cp_RouteRegistry sample_compiled) = 1" by code_simp
  with compiled_bundle_wf [OF sample_compiles] show ?thesis by simp
qed

text \<open>
  C3: what an allowed request proves. When the engine of a compiled bundle allows a routed action,
  the subject and the target agree on tenant and workspace, one of the subject's roles is granted for
  the action, and the action's ABAC policy grants the request or a ReBAC path leads from the subject
  to the resource through live tuples of the caller's scope.
\<close>

theorem central_engine_allow_sound:
  assumes "compileRouteAuthorizationPolicyBundle bundle = Inr c"
    and "norm_key (in_Action input) \<in> registry_actions (cp_RouteRegistry c)"
    and "Decide (Some (newCentralPolicyEngineFromCompiled (Some (ListAuthzRelationships env ctx m)) c)) input = Inr d"
    and "pd_Allowed d"
  shows "tenant_isolated input \<and> role_granted (cp_RBACActionRole c) input
    \<and> ((\<exists>policy. map_of (normalizeABACPolicies (cp_ABACPolicies c)) (norm_key (in_Action input)) = Some policy
           \<and> abac_grants policy input)
       \<or> (\<exists>policy. map_of (normalizeReBACPolicies (cp_ReBACPolicies c)) (norm_key (in_Action input)) = Some policy
           \<and> rebac_grants (live_tuples env ctx m) policy input))"
proof -
  note cases = central_engine_cases [OF compile_wf [OF assms(1)] assms(2-4)]
  from registry_action_normal(1) [OF compile_wf [OF assms(1)] assms(2)] have "norm_key (in_Action input) \<noteq> ''''" by simp
  then show ?thesis
    using cases abac_stage_grants [of input "cp_ABACPolicies c"] rebac_store_sound
    by (fastforce simp: stage_verdict_Some)
qed

theorem central_engine_allow_sound_witness:
  "tenant_isolated sample_input \<and> role_granted (cp_RBACActionRole sample_compiled) sample_input"
proof -
  let ?d = "Decide (Some (newCentralPolicyEngineFromCompiled (Some (ListAuthzRelationships sample_env sample_ctx store4))
    sample_compiled)) sample_input"
  have "norm_key (in_Action sample_input) \<in> registry_actions (cp_RouteRegistry sample_compiled)" by code_simp
  moreover have "case ?d of Inl _ \<Rightarrow> False | Inr d \<Rightarrow> pd_Allowed d" by code_simp
  then obtain d where "?d = Inr d" "pd_Allowed d" by (cases ?d) auto
  ultimately show ?thesis using central_engine_allow_sound [OF sample_compiles] by blast
qed

end
