(* ===== verification/Policy_Builtin.thy ===== *)
theory Policy_Builtin
  imports Policy_Bundle
begin

section \<open>The built-in policy bundle (internal/api/authz_policy_bundle_runtime.go, authz_middleware.go)\<close>

text \<open>
  The routes, role grants, ABAC and ReBAC policies the API ships with, used when no policy version
  is active, and their compilation. The tables are transcribed entry by entry, in the order of the
  source; a Go map literal is the list of its entries.
\<close>

abbreviation scopeRead :: string where "scopeRead \<equiv> ''read''"
abbreviation scopeWrite :: string where "scopeWrite \<equiv> ''write''"
abbreviation scopeAdmin :: string where "scopeAdmin \<equiv> ''admin''"

abbreviation policyActionFindingsRead :: string where "policyActionFindingsRead \<equiv> ''findings.read''"
abbreviation policyActionFindingsTriage :: string where "policyActionFindingsTriage \<equiv> ''findings.triage''"
abbreviation policyActionGraphRead :: string where "policyActionGraphRead \<equiv> ''graph.read''"
abbreviation policyActionScansRead :: string where "policyActionScansRead \<equiv> ''scans.read''"
abbreviation policyActionScansRun :: string where "policyActionScansRun \<equiv> ''scans.run''"
abbreviation policyActionScansReplay :: string where "policyActionScansReplay \<equiv> ''scans.replay''"
abbreviation policyActionRepoScansRead :: string where "policyActionRepoScansRead \<equiv> ''repo_scans.read''"
abbreviation policyActionRepoScansRun :: string where "policyActionRepoScansRun \<equiv> ''repo_scans.run''"
abbreviation policyActionAuthzSimulate :: string where "policyActionAuthzSimulate \<equiv> ''authz.policies.simulate''"
abbreviation policyActionAuthzRollback :: string where "policyActionAuthzRollback \<equiv> ''authz.policies.rollback''"
abbreviation policyActionMeRead :: string where "policyActionMeRead \<equiv> ''me.read''"
abbreviation policyActionMeWrite :: string where "policyActionMeWrite \<equiv> ''me.write''"
abbreviation policyActionOnboardingRead :: string where "policyActionOnboardingRead \<equiv> ''onboarding.read''"
abbreviation policyActionOnboardingWrite :: string where "policyActionOnboardingWrite \<equiv> ''onboarding.write''"
abbreviation policyActionTenancyRead :: string where "policyActionTenancyRead \<equiv> ''tenancy.read''"
abbreviation policyActionTenancyWrite :: string where "policyActionTenancyWrite \<equiv> ''tenancy.write''"
abbreviation policyActionTenancyOwner :: string where "policyActionTenancyOwner \<equiv> ''tenancy.owner''"
abbreviation policyActionEnterpriseRead :: string where "policyActionEnterpriseRead \<equiv> ''enterprise.read''"
abbreviation policyActionEnterpriseWrite :: string where "policyActionEnterpriseWrite \<equiv> ''enterprise.write''"

abbreviation policyContextABACSubjectAttrsLoadedKey :: string where
  "policyContextABACSubjectAttrsLoadedKey \<equiv> ''abac.subject_attributes_loaded''"

abbreviation policyContextABACResourceAttrsLoadedKey :: string where
  "policyContextABACResourceAttrsLoadedKey \<equiv> ''abac.resource_attributes_loaded''"

abbreviation policyAttributeOwnerTeam :: string where "policyAttributeOwnerTeam \<equiv> ''owner_team''"
abbreviation policyAttributeEnvironment :: string where "policyAttributeEnvironment \<equiv> ''env''"
abbreviation policyAttributeRiskTier :: string where "policyAttributeRiskTier \<equiv> ''risk_tier''"
abbreviation policyAttributeClassification :: string where "policyAttributeClassification \<equiv> ''classification''"

subsection \<open>Routes\<close>

definition route :: "string \<Rightarrow> string \<Rightarrow> string \<Rightarrow> string \<Rightarrow> string \<Rightarrow> routePolicyDefinition" where
  "route method path action resourceType resourceIDParam =
    \<lparr>rd_Method = method, rd_Path = path, rd_Action = action, rd_ResourceType = resourceType,
     rd_ResourceIDParam = resourceIDParam\<rparr>"

definition builtInRoutePolicyDefinitions_1 :: "routePolicyDefinition list" where
  "builtInRoutePolicyDefinitions_1 = [
    route ''GET'' ''/v1/findings'' policyActionFindingsRead ''finding'' '''',
    route ''GET'' ''/v1/findings/:finding_id'' policyActionFindingsRead ''finding'' ''finding_id'',
    route ''GET'' ''/v1/findings/:finding_id/history'' policyActionFindingsRead ''finding_history'' ''finding_id'',
    route ''GET'' ''/v1/findings/:finding_id/exports'' policyActionFindingsRead ''finding_export'' ''finding_id'',
    route ''GET'' ''/v1/findings/baseline/export'' policyActionFindingsRead ''finding_baseline'' '''',
    route ''POST'' ''/v1/findings/baseline/import'' policyActionFindingsTriage ''finding_baseline'' '''',
    route ''GET'' ''/v1/findings/trends'' policyActionFindingsRead ''finding_trend'' '''',
    route ''GET'' ''/v1/repo-findings/trends'' policyActionRepoScansRead ''finding_trend'' '''',
    route ''GET'' ''/v1/findings/summary'' policyActionFindingsRead ''finding_summary'' '''',
    route ''PATCH'' ''/v1/findings/:finding_id/triage'' policyActionFindingsTriage ''finding'' ''finding_id'',
    route ''GET'' ''/v1/identities'' policyActionGraphRead ''identity'' '''',
    route ''GET'' ''/v1/relationships'' policyActionGraphRead ''relationship'' '''',
    route ''GET'' ''/v1/ownership/signals'' policyActionGraphRead ''ownership_signal'' '''',
    route ''GET'' ''/v1/scans'' policyActionScansRead ''scan'' '''',
    route ''GET'' ''/v1/scans/:scan_id'' policyActionScansRead ''scan'' ''scan_id'',
    route ''GET'' ''/v1/scans/:scan_id/diff'' policyActionScansRead ''scan_diff'' ''scan_id'',
    route ''GET'' ''/v1/scans/:scan_id/events'' policyActionScansRead ''scan_event'' ''scan_id'',
    route ''POST'' ''/v1/scans'' policyActionScansRun ''scan'' '''',
    route ''POST'' ''/v1/scans/:scan_id/replay'' policyActionScansReplay ''scan'' ''scan_id'',
    route ''GET'' ''/v1/repo-scans'' policyActionRepoScansRead ''repo_scan'' '''',
    route ''GET'' ''/v1/repo-scans/:repo_scan_id'' policyActionRepoScansRead ''repo_scan'' ''repo_scan_id'',
    route ''DELETE'' ''/v1/repo-scans/:repo_scan_id'' policyActionRepoScansRun ''repo_scan'' ''repo_scan_id'',
    route ''GET'' ''/v1/repo-findings'' policyActionRepoScansRead ''repo_finding'' '''',
    route ''POST'' ''/v1/repo-findings/bulk-delete'' policyActionRepoScansRun ''repo_finding_bulk_delete'' '''',
    route ''DELETE'' ''/v1/repo-findings/:finding_id'' policyActionRepoScansRun ''repo_finding'' ''finding_id'',
    route ''POST'' ''/v1/repo-findings/:finding_id/remediation/preview'' policyActionRepoScansRead ''repo_finding'' ''finding_id'',
    route ''POST'' ''/v1/repo-findings/:finding_id/remediation/publish'' policyActionRepoScansRun ''repo_finding'' ''finding_id'',
    route ''GET'' ''/v1/repo-finding-clusters'' policyActionRepoScansRead ''repo_finding_cluster'' '''',
    route ''GET'' ''/v1/repo-risk-graph'' policyActionRepoScansRead ''repo_risk_graph'' '''',
    route ''POST'' ''/v1/repo-scans'' policyActionRepoScansRun ''repo_scan'' '''',
    route ''POST'' ''/v1/repo-scans/:repo_scan_id/cancel'' policyActionRepoScansRun ''repo_scan'' ''repo_scan_id'',
    route ''POST'' ''/v1/authz/policies/simulate'' policyActionAuthzSimulate ''authz_policy'' '''',
    route ''POST'' ''/v1/authz/policies/rollback'' policyActionAuthzRollback ''authz_policy'' '''',
    route ''GET'' ''/v1/me'' policyActionMeRead ''user'' '''',
    route ''PATCH'' ''/v1/me'' policyActionMeWrite ''user'' '''',
    route ''GET'' ''/v1/me/sessions'' policyActionMeRead ''session'' '''',
    route ''DELETE'' ''/v1/me/sessions/:session_id'' policyActionMeWrite ''session'' ''session_id'',
    route ''POST'' ''/v1/me/sessions/revoke-others'' policyActionMeWrite ''session'' '''',
    route ''POST'' ''/v1/me/deactivate'' policyActionMeWrite ''user'' '''',
    route ''POST'' ''/v1/me/reactivate'' policyActionMeWrite ''user'' '''',
    route ''DELETE'' ''/v1/me'' policyActionMeWrite ''user'' '''',
    route ''POST'' ''/v1/me/cancel-deletion'' policyActionMeWrite ''user'' '''',
    route ''POST'' ''/v1/me/export'' policyActionMeWrite ''user_data_export'' '''',
    route ''GET'' ''/v1/me/export'' policyActionMeRead ''user_data_export'' '''',
    route ''GET'' ''/v1/me/export/:job_id'' policyActionMeRead ''user_data_export'' ''job_id'',
    route ''POST'' ''/v1/onboarding/start'' policyActionOnboardingWrite ''onboarding_state'' '''',
    route ''GET'' ''/v1/onboarding/state'' policyActionOnboardingRead ''onboarding_state'' '''',
    route ''POST'' ''/v1/onboarding/state'' policyActionOnboardingWrite ''onboarding_state'' '''',
    route ''POST'' ''/v1/onboarding/complete'' policyActionOnboardingWrite ''onboarding_state'' '''',
    route ''POST'' ''/v1/invitations'' policyActionEnterpriseWrite ''invitation'' '''',
    route ''GET'' ''/v1/me/invitations'' policyActionMeRead ''invitation'' '''',
    route ''POST'' ''/v1/orgs/:id/domains'' policyActionEnterpriseWrite ''verified_domain'' ''id'',
    route ''POST'' ''/v1/orgs/:id/domains/:domain_id/verify'' policyActionEnterpriseWrite ''verified_domain'' ''domain_id'',
    route ''GET'' ''/v1/orgs/:id/sso'' policyActionEnterpriseRead ''identity_connection'' ''id'',
    route ''POST'' ''/v1/enterprise/identity-connections/saml'' policyActionEnterpriseWrite ''identity_connection'' '''',
    route ''GET'' ''/v1/enterprise/identity-connections/saml'' policyActionEnterpriseRead ''identity_connection'' '''',
    route ''GET'' ''/v1/enterprise/identity-connections/saml/:id'' policyActionEnterpriseRead ''identity_connection'' ''id'',
    route ''PUT'' ''/v1/enterprise/identity-connections/saml/:id'' policyActionEnterpriseWrite ''identity_connection'' ''id'',
    route ''DELETE'' ''/v1/enterprise/identity-connections/saml/:id'' policyActionEnterpriseWrite ''identity_connection'' ''id'',
    route ''POST'' ''/v1/enterprise/identity-connections/saml/from-metadata'' policyActionEnterpriseWrite ''identity_connection'' '''',
    route ''GET'' ''/v1/enterprise/reports/executive'' policyActionEnterpriseRead ''executive_report'' '''',
    route ''GET'' ''/v1/whoami'' policyActionTenancyRead ''workspace_context'' '''',
    route ''GET'' ''/v1/organizations/current'' policyActionTenancyRead ''organization'' '''',
    route ''PUT'' ''/v1/organizations/current'' policyActionTenancyWrite ''organization'' '''',
    route ''GET'' ''/v1/workspaces'' policyActionTenancyRead ''workspace'' '''',
    route ''POST'' ''/v1/workspaces'' policyActionTenancyWrite ''workspace'' '''',
    route ''POST'' ''/v1/workspaces/active'' policyActionTenancyRead ''workspace_context'' '''',
    route ''GET'' ''/v1/workspaces/:workspace_id'' policyActionTenancyRead ''workspace'' ''workspace_id'',
    route ''DELETE'' ''/v1/workspaces/:workspace_id'' policyActionTenancyOwner ''workspace'' ''workspace_id'',
    route ''POST'' ''/v1/workspaces/:workspace_id/suspend'' policyActionTenancyOwner ''workspace'' ''workspace_id'',
    route ''POST'' ''/v1/workspaces/:workspace_id/reactivate'' policyActionTenancyOwner ''workspace'' ''workspace_id'',
    route ''POST'' ''/v1/workspaces/:workspace_id/cancel-deletion'' policyActionTenancyOwner ''workspace'' ''workspace_id'',
    route ''GET'' ''/v1/workspaces/:workspace_id/members'' policyActionTenancyRead ''workspace_member'' ''workspace_id'',
    route ''POST'' ''/v1/workspaces/:workspace_id/members'' policyActionTenancyWrite ''workspace_member'' ''workspace_id'',
    route ''GET'' ''/v1/workspaces/:workspace_id/members/:member_id'' policyActionTenancyRead ''workspace_member'' ''member_id'',
    route ''DELETE'' ''/v1/workspaces/:workspace_id/members/:member_id'' policyActionTenancyWrite ''workspace_member'' ''member_id'',
    route ''GET'' ''/v1/workspaces/:workspace_id/projects'' policyActionTenancyRead ''project'' ''workspace_id'',
    route ''POST'' ''/v1/workspaces/:workspace_id/projects'' policyActionTenancyWrite ''project'' ''workspace_id'',
    route ''GET'' ''/v1/workspaces/:workspace_id/projects/:project_id'' policyActionTenancyRead ''project'' ''project_id'',
    route ''DELETE'' ''/v1/workspaces/:workspace_id/projects/:project_id'' policyActionTenancyWrite ''project'' ''project_id'',
    route ''GET'' ''/v1/workspaces/:workspace_id/projects/:project_id/scan-policies'' policyActionTenancyRead ''scan_policy'' ''project_id'',
    route ''POST'' ''/v1/workspaces/:workspace_id/projects/:project_id/scan-policies'' policyActionTenancyWrite ''scan_policy'' ''project_id'',
    route ''GET'' ''/v1/workspaces/:workspace_id/projects/:project_id/scan-policies/:policy_id'' policyActionTenancyRead ''scan_policy'' ''policy_id'',
    route ''DELETE'' ''/v1/workspaces/:workspace_id/projects/:project_id/scan-policies/:policy_id'' policyActionTenancyWrite ''scan_policy'' ''policy_id'',
    route ''GET'' ''/v1/workspaces/:workspace_id/projects/:project_id/kubernetes/connection'' policyActionTenancyRead ''project'' ''project_id'',
    route ''POST'' ''/v1/workspaces/:workspace_id/projects/:project_id/kubernetes/connection'' policyActionTenancyWrite ''project'' ''project_id'',
    route ''POST'' ''/v1/connectors/aws'' policyActionTenancyWrite ''connector'' '''',
    route ''POST'' ''/v1/connectors/aws/:connector_id/validate'' policyActionTenancyWrite ''connector'' ''connector_id'',
    route ''GET'' ''/v1/connectors/aws/:connector_id/poll'' policyActionTenancyRead ''connector'' ''connector_id'',
    route ''POST'' ''/v1/connectors/aws/:connector_id/disconnect'' policyActionTenancyWrite ''connector'' ''connector_id'',
    route ''POST'' ''/v1/connectors/aws/:connector_id/disable'' policyActionTenancyWrite ''connector'' ''connector_id'',
    route ''POST'' ''/v1/connectors/aws/:connector_id/enable'' policyActionTenancyWrite ''connector'' ''connector_id'',
    route ''POST'' ''/v1/connectors/aws/:connector_id/refresh-policy'' policyActionTenancyWrite ''connector'' ''connector_id'',
    route ''POST'' ''/v1/connectors/github'' policyActionTenancyWrite ''connector'' '''',
    route ''GET'' ''/v1/connectors/github'' policyActionTenancyRead ''connector'' '''']"

definition builtInRoutePolicyDefinitions_2 :: "routePolicyDefinition list" where
  "builtInRoutePolicyDefinitions_2 = [
    route ''POST'' ''/v1/connectors/github/complete'' policyActionTenancyWrite ''connector'' '''',
    route ''POST'' ''/v1/connectors/github/pat'' policyActionTenancyWrite ''connector'' '''',
    route ''GET'' ''/v1/connectors/github/:connector_id/repos'' policyActionTenancyRead ''connector'' ''connector_id'',
    route ''GET'' ''/v1/connectors/github/:connector_id/posture'' policyActionTenancyRead ''connector'' ''connector_id'',
    route ''POST'' ''/v1/connectors/k8s'' policyActionTenancyWrite ''connector'' '''',
    route ''GET'' ''/v1/connectors/k8s'' policyActionTenancyRead ''connector'' '''',
    route ''POST'' ''/v1/connectors/k8s/kubeconfig'' policyActionTenancyWrite ''connector'' '''',
    route ''POST'' ''/v1/connectors/k8s/enroll'' policyActionTenancyWrite ''connector'' '''',
    route ''POST'' ''/v1/connectors/k8s/heartbeat'' policyActionTenancyWrite ''connector'' '''',
    route ''POST'' ''/v1/workspaces/:workspace_id/projects/:project_id/aws/connection'' policyActionTenancyWrite ''project'' ''project_id'',
    route ''GET'' ''/v1/workspaces/:workspace_id/projects/:project_id/aws/connection'' policyActionTenancyRead ''project'' ''project_id'',
    route ''GET'' ''/v1/workspaces/:workspace_id/projects/:project_id/aws/baseline'' policyActionTenancyRead ''project'' ''project_id'',
    route ''GET'' ''/v1/workspaces/:workspace_id/projects/:project_id/aws/dependency-index'' policyActionTenancyRead ''project'' ''project_id'',
    route ''GET'' ''/v1/workspaces/:workspace_id/projects/:project_id/aws/graph-explorer'' policyActionTenancyRead ''project'' ''project_id'',
    route ''GET'' ''/v1/workspaces/:workspace_id/projects/:project_id/aws/validation-harness'' policyActionTenancyRead ''project'' ''project_id'',
    route ''GET'' ''/v1/workspaces/:workspace_id/projects/:project_id/aws/collector-contract'' policyActionTenancyRead ''project'' ''project_id'',
    route ''GET'' ''/v1/workspaces/:workspace_id/projects/:project_id/aws/ec2-instance-profiles'' policyActionTenancyRead ''project'' ''project_id'',
    route ''GET'' ''/v1/workspaces/:workspace_id/projects/:project_id/aws/ecs-task-roles'' policyActionTenancyRead ''project'' ''project_id'',
    route ''GET'' ''/v1/workspaces/:workspace_id/projects/:project_id/aws/lambda-execution-roles'' policyActionTenancyRead ''project'' ''project_id'',
    route ''GET'' ''/v1/workspaces/:workspace_id/projects/:project_id/aws/codebuild-service-roles'' policyActionTenancyRead ''project'' ''project_id'',
    route ''GET'' ''/v1/workspaces/:workspace_id/projects/:project_id/aws/codepipeline-deployment-roles'' policyActionTenancyRead ''project'' ''project_id'',
    route ''GET'' ''/v1/workspaces/:workspace_id/projects/:project_id/aws/stepfunctions-state-machine-roles'' policyActionTenancyRead ''project'' ''project_id'',
    route ''GET'' ''/v1/workspaces/:workspace_id/projects/:project_id/aws/event-driven-roles'' policyActionTenancyRead ''project'' ''project_id'',
    route ''GET'' ''/v1/workspaces/:workspace_id/projects/:project_id/aws/managed-compute-roles'' policyActionTenancyRead ''project'' ''project_id'',
    route ''GET'' ''/v1/workspaces/:workspace_id/projects/:project_id/aws/sagemaker-workload-roles'' policyActionTenancyRead ''project'' ''project_id'',
    route ''GET'' ''/v1/workspaces/:workspace_id/projects/:project_id/aws/ai-agent-identities'' policyActionTenancyRead ''project'' ''project_id'',
    route ''GET'' ''/v1/workspaces/:workspace_id/projects/:project_id/aws/ai-agent-identities/:agent_id'' policyActionTenancyRead ''ai_agent_identity'' ''agent_id'',
    route ''GET'' ''/v1/workspaces/:workspace_id/projects/:project_id/aws/machine-identity-detail'' policyActionTenancyRead ''project'' ''project_id'',
    route ''GET'' ''/v1/workspaces/:workspace_id/projects/:project_id/aws/agent-identity-detail'' policyActionTenancyRead ''project'' ''project_id'',
    route ''GET'' ''/v1/workspaces/:workspace_id/projects/:project_id/aws/remediation-center'' policyActionTenancyRead ''project'' ''project_id'',
    route ''GET'' ''/v1/workspaces/:workspace_id/projects/:project_id/aws/bedrock-agents'' policyActionTenancyRead ''project'' ''project_id'',
    route ''GET'' ''/v1/workspaces/:workspace_id/projects/:project_id/aws/runtime-events'' policyActionTenancyRead ''project'' ''project_id'',
    route ''GET'' ''/v1/workspaces/:workspace_id/projects/:project_id/aws/secrets-kms-runtime-access'' policyActionTenancyRead ''project'' ''project_id'',
    route ''GET'' ''/v1/workspaces/:workspace_id/projects/:project_id/aws/s3-runtime-access'' policyActionTenancyRead ''project'' ''project_id'',
    route ''GET'' ''/v1/workspaces/:workspace_id/projects/:project_id/aws/agent-runtime-access'' policyActionTenancyRead ''project'' ''project_id'',
    route ''GET'' ''/v1/workspaces/:workspace_id/projects/:project_id/aws/ai-agent-risk'' policyActionTenancyRead ''project'' ''project_id'',
    route ''GET'' ''/v1/workspaces/:workspace_id/projects/:project_id/aws/remediation-cases'' policyActionTenancyRead ''project'' ''project_id'',
    route ''GET'' ''/v1/workspaces/:workspace_id/projects/:project_id/aws/iam-policy-diffs'' policyActionTenancyRead ''project'' ''project_id'',
    route ''GET'' ''/v1/workspaces/:workspace_id/projects/:project_id/aws/trust-policy-hardening'' policyActionTenancyRead ''project'' ''project_id'',
    route ''GET'' ''/v1/workspaces/:workspace_id/projects/:project_id/aws/permission-boundary-scp'' policyActionTenancyRead ''project'' ''project_id'',
    route ''GET'' ''/v1/workspaces/:workspace_id/projects/:project_id/aws/permission-boundary-executor'' policyActionTenancyRead ''project'' ''project_id'',
    route ''GET'' ''/v1/workspaces/:workspace_id/projects/:project_id/aws/scp-guardrail-executor'' policyActionTenancyRead ''project'' ''project_id'',
    route ''GET'' ''/v1/workspaces/:workspace_id/projects/:project_id/aws/secret-key-rotation'' policyActionTenancyRead ''project'' ''project_id'',
    route ''GET'' ''/v1/workspaces/:workspace_id/projects/:project_id/aws/access-key-quarantine'' policyActionTenancyRead ''project'' ''project_id'',
    route ''GET'' ''/v1/workspaces/:workspace_id/projects/:project_id/aws/iac-remediation-plans'' policyActionTenancyRead ''project'' ''project_id'',
    route ''GET'' ''/v1/workspaces/:workspace_id/projects/:project_id/aws/remediation-approval-queue'' policyActionTenancyRead ''project'' ''project_id'',
    route ''GET'' ''/v1/workspaces/:workspace_id/projects/:project_id/aws/remediation-dry-run'' policyActionTenancyRead ''project'' ''project_id'',
    route ''GET'' ''/v1/workspaces/:workspace_id/projects/:project_id/aws/low-risk-live-remediation'' policyActionTenancyRead ''project'' ''project_id'',
    route ''GET'' ''/v1/workspaces/:workspace_id/projects/:project_id/aws/trust-policy-hardening-executor'' policyActionTenancyRead ''project'' ''project_id'',
    route ''GET'' ''/v1/workspaces/:workspace_id/projects/:project_id/aws/post-remediation-verification'' policyActionTenancyRead ''project'' ''project_id'',
    route ''GET'' ''/v1/workspaces/:workspace_id/projects/:project_id/aws/advisory-authorization'' policyActionTenancyRead ''project'' ''project_id'',
    route ''GET'' ''/v1/workspaces/:workspace_id/projects/:project_id/aws/limited-enforcement'' policyActionTenancyRead ''project'' ''project_id'',
    route ''GET'' ''/v1/workspaces/:workspace_id/projects/:project_id/aws/limited-enforcement-pilot'' policyActionTenancyRead ''project'' ''project_id'',
    route ''GET'' ''/v1/workspaces/:workspace_id/projects/:project_id/aws/governance-audit-reporting'' policyActionTenancyRead ''project'' ''project_id'',
    route ''GET'' ''/v1/workspaces/:workspace_id/projects/:project_id/aws/executive-outcomes'' policyActionTenancyRead ''project'' ''project_id'',
    route ''GET'' ''/v1/workspaces/:workspace_id/projects/:project_id/aws/platform-observability'' policyActionTenancyRead ''project'' ''project_id'',
    route ''GET'' ''/v1/workspaces/:workspace_id/projects/:project_id/aws/ga-demo-hardening'' policyActionTenancyRead ''project'' ''project_id'',
    route ''GET'' ''/v1/workspaces/:workspace_id/projects/:project_id/aws/session-policy-recommendations'' policyActionTenancyRead ''project'' ''project_id'',
    route ''GET'' ''/v1/workspaces/:workspace_id/projects/:project_id/aws/agentcore-gateway-policy-advisory'' policyActionTenancyRead ''project'' ''project_id'',
    route ''GET'' ''/v1/workspaces/:workspace_id/projects/:project_id/aws/blast-radius'' policyActionTenancyRead ''project'' ''project_id'',
    route ''GET'' ''/v1/workspaces/:workspace_id/projects/:project_id/aws/least-privilege'' policyActionTenancyRead ''project'' ''project_id'',
    route ''GET'' ''/v1/workspaces/:workspace_id/projects/:project_id/aws/unused-dormant-access'' policyActionTenancyRead ''project'' ''project_id'',
    route ''GET'' ''/v1/workspaces/:workspace_id/projects/:project_id/aws/identity-sprawl'' policyActionTenancyRead ''project'' ''project_id'',
    route ''GET'' ''/v1/workspaces/:workspace_id/projects/:project_id/aws/privilege-escalation'' policyActionTenancyRead ''project'' ''project_id'',
    route ''GET'' ''/v1/workspaces/:workspace_id/projects/:project_id/aws/cross-account-trust'' policyActionTenancyRead ''project'' ''project_id'',
    route ''GET'' ''/v1/workspaces/:workspace_id/projects/:project_id/aws/secret-permission-equivalence'' policyActionTenancyRead ''project'' ''project_id'',
    route ''GET'' ''/v1/workspaces/:workspace_id/projects/:project_id/aws/iam-passrole-relationships'' policyActionTenancyRead ''project'' ''project_id'',
    route ''GET'' ''/v1/workspaces/:workspace_id/projects/:project_id/aws/s3-bucket-reachability'' policyActionTenancyRead ''project'' ''project_id'',
    route ''GET'' ''/v1/workspaces/:workspace_id/projects/:project_id/aws/kms-decrypt-reachability'' policyActionTenancyRead ''project'' ''project_id'',
    route ''GET'' ''/v1/workspaces/:workspace_id/projects/:project_id/aws/sqs-sns-reachability'' policyActionTenancyRead ''project'' ''project_id'',
    route ''GET'' ''/v1/workspaces/:workspace_id/projects/:project_id/aws/dynamodb-rds-reachability'' policyActionTenancyRead ''project'' ''project_id'',
    route ''GET'' ''/v1/workspaces/:workspace_id/projects/:project_id/aws/credential-references'' policyActionTenancyRead ''project'' ''project_id'',
    route ''GET'' ''/v1/workspaces/:workspace_id/projects/:project_id/aws/coverage-plan'' policyActionTenancyRead ''project'' ''project_id'',
    route ''GET'' ''/v1/workspaces/:workspace_id/projects/:project_id/aws/account-region-coverage'' policyActionTenancyRead ''project'' ''project_id'',
    route ''GET'' ''/v1/workspaces/:workspace_id/projects/:project_id/aws/fanout-execution'' policyActionTenancyRead ''project'' ''project_id'',
    route ''GET'' ''/v1/workspaces/:workspace_id/projects/:project_id/aws/organizations-topology'' policyActionTenancyRead ''project'' ''project_id'',
    route ''GET'' ''/v1/workspaces/:workspace_id/projects/:project_id/aws/stackset-onboarding'' policyActionTenancyRead ''project'' ''project_id'',
    route ''POST'' ''/v1/workspaces/:workspace_id/projects/:project_id/aws/rollouts'' policyActionTenancyWrite ''project'' ''project_id'',
    route ''GET'' ''/v1/workspaces/:workspace_id/projects/:project_id/aws/rollouts/:rollout_id'' policyActionTenancyRead ''project'' ''project_id'',
    route ''POST'' ''/v1/workspaces/:workspace_id/projects/:project_id/aws/rollouts/:rollout_id/reconcile'' policyActionTenancyWrite ''project'' ''project_id'',
    route ''POST'' ''/v1/workspaces/:workspace_id/projects/:project_id/aws/rollouts/:rollout_id/retry'' policyActionTenancyWrite ''project'' ''project_id'',
    route ''GET'' ''/v1/workspaces/:workspace_id/projects/:project_id/aws/secrets-manager-metadata'' policyActionTenancyRead ''project'' ''project_id'',
    route ''GET'' ''/v1/workspaces/:workspace_id/projects/:project_id/aws/ssm-parameter-metadata'' policyActionTenancyRead ''project'' ''project_id'',
    route ''GET'' ''/v1/workspaces/:workspace_id/projects/:project_id/aws/ecr-repository-metadata'' policyActionTenancyRead ''project'' ''project_id'',
    route ''GET'' ''/v1/workspaces/:workspace_id/projects/:project_id/aws/eks-workload-identities'' policyActionTenancyRead ''project'' ''project_id'',
    route ''POST'' ''/v1/workspaces/:workspace_id/projects/:project_id/aws/baseline'' policyActionScansRun ''project'' ''project_id'',
    route ''POST'' ''/v1/workspaces/:workspace_id/projects/:project_id/github/connect/start'' policyActionTenancyWrite ''project'' ''project_id'',
    route ''POST'' ''/v1/workspaces/:workspace_id/projects/:project_id/github/connect/complete'' policyActionTenancyWrite ''project'' ''project_id'',
    route ''GET'' ''/v1/workspaces/:workspace_id/projects/:project_id/github/connection'' policyActionTenancyRead ''project'' ''project_id'',
    route ''PUT'' ''/v1/workspaces/:workspace_id/projects/:project_id/github/repositories'' policyActionTenancyWrite ''project'' ''project_id'',
    route ''POST'' ''/v1/workspaces/:workspace_id/projects/:project_id/github/secret/rotate'' policyActionTenancyWrite ''project'' ''project_id'']"

definition defaultBuiltInRoutePolicyDefinitions :: "routePolicyDefinition list" where
  "defaultBuiltInRoutePolicyDefinitions = builtInRoutePolicyDefinitions_1 @ builtInRoutePolicyDefinitions_2"

subsection \<open>Role grants, ABAC and ReBAC policies\<close>

definition tenancyReadRoles :: "string list" where
  "tenancyReadRoles = [scopeRead, scopeWrite, scopeAdmin, ''owner'', ''admin'', ''analyst'', ''viewer'']"

definition tenancyWriteRoles :: "string list" where
  "tenancyWriteRoles = [scopeWrite, scopeAdmin, ''owner'', ''admin'']"

definition tenancyOwnerRoles :: "string list" where
  "tenancyOwnerRoles = [''owner'']"

definition enterpriseReadRoles :: "string list" where
  "enterpriseReadRoles = [scopeRead, scopeWrite, scopeAdmin, ''owner'', ''admin'', ''analyst'', ''viewer'']"

definition enterpriseWriteRoles :: "string list" where
  "enterpriseWriteRoles = [scopeWrite, scopeAdmin, ''owner'', ''admin'']"

definition authenticatedRoles :: "string list" where
  "authenticatedRoles =
    [''authenticated'', scopeRead, scopeWrite, scopeAdmin, ''owner'', ''admin'', ''analyst'', ''viewer'']"

definition defaultRouteActionRoleGrants :: "(string, string list) gomap" where
  "defaultRouteActionRoleGrants = [
    (policyActionFindingsRead, tenancyReadRoles),
    (policyActionFindingsTriage, tenancyWriteRoles),
    (policyActionGraphRead, tenancyReadRoles),
    (policyActionScansRead, tenancyReadRoles),
    (policyActionScansRun, tenancyWriteRoles),
    (policyActionScansReplay, tenancyWriteRoles),
    (policyActionRepoScansRead, tenancyReadRoles),
    (policyActionRepoScansRun, tenancyWriteRoles),
    (policyActionAuthzSimulate, [scopeAdmin]),
    (policyActionAuthzRollback, [scopeAdmin]),
    (policyActionMeRead, authenticatedRoles),
    (policyActionMeWrite, authenticatedRoles),
    (policyActionOnboardingRead, authenticatedRoles),
    (policyActionOnboardingWrite, authenticatedRoles),
    (policyActionTenancyRead, tenancyReadRoles),
    (policyActionTenancyWrite, tenancyWriteRoles),
    (policyActionTenancyOwner, tenancyOwnerRoles),
    (policyActionEnterpriseRead, enterpriseReadRoles),
    (policyActionEnterpriseWrite, enterpriseWriteRoles)]"

definition equals_predicate :: "string \<Rightarrow> string \<Rightarrow> string \<Rightarrow> abacPredicate" where
  "equals_predicate source key value =
    \<lparr>ap_Source = source, ap_Key = key, ap_Operator = ''equals'', ap_Value = value, ap_Values = [],
     ap_CompareSource = '''', ap_CompareKey = ''''\<rparr>"

definition one_of_predicate :: "string \<Rightarrow> string \<Rightarrow> string list \<Rightarrow> abacPredicate" where
  "one_of_predicate source key values =
    \<lparr>ap_Source = source, ap_Key = key, ap_Operator = ''one_of'', ap_Value = '''', ap_Values = values,
     ap_CompareSource = '''', ap_CompareKey = ''''\<rparr>"

definition equals_attribute_predicate :: "string \<Rightarrow> string \<Rightarrow> string \<Rightarrow> string \<Rightarrow> abacPredicate" where
  "equals_attribute_predicate source key compareSource compareKey =
    \<lparr>ap_Source = source, ap_Key = key, ap_Operator = ''equals_attribute'', ap_Value = '''', ap_Values = [],
     ap_CompareSource = compareSource, ap_CompareKey = compareKey\<rparr>"

definition passThroughPolicy :: abacActionPolicy where
  "passThroughPolicy = \<lparr>aa_AnyOf = [\<lparr>ac_AllOf = []\<rparr>], aa_OnNoMatch = ''''\<rparr>"

definition triagePolicy :: abacActionPolicy where
  "triagePolicy =
    \<lparr>aa_AnyOf = [
       \<lparr>ac_AllOf = [equals_predicate ''context'' policyContextABACSubjectAttrsLoadedKey ''false'']\<rparr>,
       \<lparr>ac_AllOf = [equals_predicate ''context'' policyContextABACResourceAttrsLoadedKey ''false'']\<rparr>,
       \<lparr>ac_AllOf = [
          equals_attribute_predicate ''subject'' policyAttributeOwnerTeam ''resource'' policyAttributeOwnerTeam,
          one_of_predicate ''resource'' policyAttributeEnvironment [''prod'', ''staging'', ''dev'', ''test'', ''sandbox''],
          one_of_predicate ''resource'' policyAttributeRiskTier [''low'', ''medium'', ''high'', ''critical''],
          one_of_predicate ''resource'' policyAttributeClassification
            [''public'', ''internal'', ''confidential'', ''restricted'']]\<rparr>],
     aa_OnNoMatch = PolicyOutcomeNoOpinion\<rparr>"

definition defaultRouteActionABACPolicies :: "(string, abacActionPolicy) gomap" where
  "defaultRouteActionABACPolicies = [
    (policyActionFindingsRead, passThroughPolicy),
    (policyActionGraphRead, passThroughPolicy),
    (policyActionScansRead, passThroughPolicy),
    (policyActionScansRun, passThroughPolicy),
    (policyActionScansReplay, passThroughPolicy),
    (policyActionRepoScansRead, passThroughPolicy),
    (policyActionRepoScansRun, passThroughPolicy),
    (policyActionAuthzSimulate, passThroughPolicy),
    (policyActionAuthzRollback, passThroughPolicy),
    (policyActionMeRead, passThroughPolicy),
    (policyActionMeWrite, passThroughPolicy),
    (policyActionOnboardingRead, passThroughPolicy),
    (policyActionOnboardingWrite, passThroughPolicy),
    (policyActionTenancyRead, passThroughPolicy),
    (policyActionTenancyWrite, passThroughPolicy),
    (policyActionTenancyOwner, passThroughPolicy),
    (policyActionEnterpriseRead, passThroughPolicy),
    (policyActionEnterpriseWrite, passThroughPolicy),
    (policyActionFindingsTriage, triagePolicy)]"

definition memberDelegationConditions :: "abacPredicate list" where
  "memberDelegationConditions = [
    one_of_predicate ''resource'' policyAttributeEnvironment [''prod'', ''staging''],
    one_of_predicate ''resource'' policyAttributeRiskTier [''high'', ''critical''],
    one_of_predicate ''resource'' policyAttributeClassification [''confidential'', ''restricted'']]"

definition defaultRouteActionReBACPolicies :: "(string, rebacActionPolicy) gomap" where
  "defaultRouteActionReBACPolicies = [
    (policyActionFindingsTriage, \<lparr>ra_AnyOf = [
       \<lparr>rp_Relations = [AuthzRelationshipOwns], rp_AllOf = []\<rparr>,
       \<lparr>rp_Relations = [AuthzRelationshipManages], rp_AllOf = []\<rparr>,
       \<lparr>rp_Relations = [AuthzRelationshipDelegatedAdmin], rp_AllOf = []\<rparr>,
       \<lparr>rp_Relations = [AuthzRelationshipMemberOf, AuthzRelationshipOwns], rp_AllOf = memberDelegationConditions\<rparr>,
       \<lparr>rp_Relations = [AuthzRelationshipMemberOf, AuthzRelationshipManages], rp_AllOf = memberDelegationConditions\<rparr>,
       \<lparr>rp_Relations = [AuthzRelationshipMemberOf, AuthzRelationshipDelegatedAdmin],
        rp_AllOf = memberDelegationConditions\<rparr>]\<rparr>)]"

subsection \<open>The bundle and its compilation\<close>

definition defaultBuiltInRouteAuthorizationPolicyBundle :: routeAuthorizationPolicyBundle where
  "defaultBuiltInRouteAuthorizationPolicyBundle =
    \<lparr>rb_SchemaVersion = routeAuthorizationPolicyBundleSchemaV1,
     rb_RoutePolicies = defaultBuiltInRoutePolicyDefinitions,
     rb_RBACActionRole = defaultRouteActionRoleGrants,
     rb_ABACPolicies = defaultRouteActionABACPolicies,
     rb_ReBACPolicies = defaultRouteActionReBACPolicies\<rparr>"

definition compileBuiltInRouteAuthorizationPolicyBundle :: "compiledRouteAuthorizationPolicy result" where
  "compileBuiltInRouteAuthorizationPolicyBundle =
    compileRouteAuthorizationPolicyBundle defaultBuiltInRouteAuthorizationPolicyBundle"

definition newRoutePolicyRegistry :: routePolicyRegistry where
  "newRoutePolicyRegistry =
    (case compileBuiltInRouteAuthorizationPolicyBundle of Inl _ \<Rightarrow> [] | Inr compiled \<Rightarrow> cp_RouteRegistry compiled)"

definition newCentralPolicyEngine :: "ListRelationships option \<Rightarrow> PolicyEngine" where
  "newCentralPolicyEngine store =
    newCentralPolicyEngineFromCompiled store
      (case compileBuiltInRouteAuthorizationPolicyBundle of
         Inl _ \<Rightarrow> emptyCompiledRouteAuthorizationPolicy
       | Inr compiled \<Rightarrow> compiled)"

text \<open>A checksum of a route's key that tells the routes of the table apart.\<close>

definition route_tag :: "routePolicyDefinition \<Rightarrow> int" where
  "route_tag d = fst (foldl (\<lambda>(a, i) c. (a + i * of_char c, i + 1)) (0, 1) (routePolicyKey (rd_Method d) (rd_Path d)))"

lemma route_tags_1:
  "map route_tag builtInRoutePolicyDefinitions_1 = [
     12919, 39045, 66411, 66481, 52835, 55736, 27147, 40097, 30140, 67581, 16812, 23519, 32510, 8158, 23350, 34862,
     41984, 9349, 44462, 16023, 51181, 60277, 22354, 57429, 63561, 148395, 147814, 43499, 26206, 17697, 78860, 52812,
     52039, 4242, 5877, 18519, 57902, 59339, 24126, 24308, 6834, 36151, 16146, 14560, 30320, 32009, 29376, 31682,
     40177, 21055, 25324, 30228, 91321, 18775, 104681, 100308, 114826, 114867, 128872, 176493, 68482, 9634, 44659, 44700,
     16859, 18604, 34523, 52455, 61827, 86365, 99223, 120900, 81681, 85600, 129812, 144677, 86776, 90822, 142494, 158121,
     225799, 232378, 303665, 326582, 287991, 295447, 26986, 107100, 85137, 117749, 101746, 96866, 137430, 34796, 32365]"
  unfolding builtInRoutePolicyDefinitions_1_def list.map list.inject by (intro conjI refl; code_simp)

lemma route_tags_2:
  "map route_tag builtInRoutePolicyDefinitions_2 = [
     63066, 45494, 103362, 114130, 25810, 23744, 57971, 44881, 54342, 241136, 234429, 218531, 275100, 261873, 292436, 292864,
     309421, 257506, 321485, 329494, 384866, 418974, 290085, 312879, 338985, 295795, 373107, 328573, 312625, 291467, 259264, 263062,
     353829, 277582, 304393, 248512, 282820, 271597, 323700, 332532, 379027, 323166, 298797, 313379, 311755, 357611, 297696, 345324,
     402554, 385244, 329973, 299968, 348204, 357677, 294702, 327869, 277729, 396362, 420262, 245584, 268607, 313276, 270924, 308099,
     300639, 385597, 359285, 317539, 339501, 306283, 346243, 315000, 251707, 329238, 278096, 329965, 300200, 229128, 309332, 401366,
     367822, 336371, 320784, 331443, 331464, 225001, 284096, 307214, 256204, 274000, 283837]"
  unfolding builtInRoutePolicyDefinitions_2_def list.map list.inject by (intro conjI refl; code_simp)

lemma distinct_route_tags: "distinct (map route_tag defaultBuiltInRoutePolicyDefinitions)"
  unfolding defaultBuiltInRoutePolicyDefinitions_def map_append route_tags_1 route_tags_2 by simp

lemma routes_normal_1: "list_all (\<lambda>d. normalizeRoutePolicyDefinition d = Inr d) builtInRoutePolicyDefinitions_1"
  unfolding builtInRoutePolicyDefinitions_1_def list.pred_inject by (intro conjI TrueI; code_simp)

lemma routes_normal_2: "list_all (\<lambda>d. normalizeRoutePolicyDefinition d = Inr d) builtInRoutePolicyDefinitions_2"
  unfolding builtInRoutePolicyDefinitions_2_def list.pred_inject by (intro conjI TrueI; code_simp)

lemma builtin_routes_normal: "d \<in> set defaultBuiltInRoutePolicyDefinitions \<Longrightarrow> normalizeRoutePolicyDefinition d = Inr d"
  using routes_normal_1 routes_normal_2
  unfolding defaultBuiltInRoutePolicyDefinitions_def list_all_iff set_append by blast

definition route_key :: "routePolicyDefinition \<Rightarrow> string" where
  "route_key d = routePolicyKey (rd_Method d) (rd_Path d)"

lemma distinct_route_keys: "distinct (map route_key defaultBuiltInRoutePolicyDefinitions)"
proof -
  let ?h = "\<lambda>k. fst (foldl (\<lambda>(a, i) c. (a + i * of_char c, i + 1)) (0, 1) k) :: int"
  have "route_tag = ?h \<circ> route_key" by (rule ext) (simp add: route_tag_def route_key_def)
  then have "map route_tag defaultBuiltInRoutePolicyDefinitions
      = map ?h (map route_key defaultBuiltInRoutePolicyDefinitions)" by simp
  with distinct_route_tags have "distinct (map ?h (map route_key defaultBuiltInRoutePolicyDefinitions))"
    by (simp only:)
  then show ?thesis unfolding distinct_map [of ?h] by (rule conjunct1)
qed

lemma compile_routes_normal:
  assumes "\<And>d. d \<in> set defs \<Longrightarrow> normalizeRoutePolicyDefinition d = Inr d" "distinct (map fst reg @ map route_key defs)"
  shows "compile_routes defs reg acts =
    Inr (reg @ map (\<lambda>d. (route_key d, route_policy d)) defs, fold add_unique (map rd_Action defs) acts)"
  using assms
proof (induction defs arbitrary: reg acts)
  case (Cons d defs)
  have fresh: "\<not> has_key reg (route_key d)"
    using Cons.prems(2) by (force simp: has_key_iff dest: map_of_SomeD)
  have "compile_routes defs (reg @ [(route_key d, route_policy d)]) (add_unique (rd_Action d) acts)
      = Inr ((reg @ [(route_key d, route_policy d)]) @ map (\<lambda>d. (route_key d, route_policy d)) defs,
          fold add_unique (map rd_Action defs) (add_unique (rd_Action d) acts))"
    by (rule Cons.IH) (use Cons.prems in auto)
  with Cons.prems(1) [of d] fresh show ?case
    by (simp add: Let_def map_put_fresh flip: route_key_def)
qed simp

definition builtin_actions :: "string list" where
  "builtin_actions = fold add_unique (map rd_Action defaultBuiltInRoutePolicyDefinitions) []"

lemma builtin_actions_eq:
  "builtin_actions = [policyActionFindingsRead, policyActionFindingsTriage, policyActionRepoScansRead, policyActionGraphRead, policyActionScansRead, policyActionScansRun, policyActionScansReplay, policyActionRepoScansRun, policyActionAuthzSimulate, policyActionAuthzRollback, policyActionMeRead, policyActionMeWrite, policyActionOnboardingWrite, policyActionOnboardingRead, policyActionEnterpriseWrite, policyActionEnterpriseRead, policyActionTenancyRead, policyActionTenancyWrite, policyActionTenancyOwner]"
  unfolding builtin_actions_def defaultBuiltInRoutePolicyDefinitions_def builtInRoutePolicyDefinitions_1_def
    builtInRoutePolicyDefinitions_2_def append.simps
  by (simp only: list.map route_def routePolicyDefinition.simps) (simp add: add_unique_def)

subsection \<open>The compiled built-in bundle\<close>

definition builtin_compiled :: compiledRouteAuthorizationPolicy where
  "builtin_compiled =
    \<lparr>cp_RouteRegistry = map (\<lambda>d. (route_key d, route_policy d)) defaultBuiltInRoutePolicyDefinitions,
     cp_RBACActionRole = map (\<lambda>(action, roles). (action, sort (role_set roles))) defaultRouteActionRoleGrants,
     cp_ABACPolicies = normalizeABACPolicies defaultRouteActionABACPolicies,
     cp_ReBACPolicies = normalizeReBACPolicies defaultRouteActionReBACPolicies\<rparr>"

lemma builtin_routes: "compileRoutePolicies defaultBuiltInRoutePolicyDefinitions
    = Inr (cp_RouteRegistry builtin_compiled, builtin_actions)"
proof -
  have "defaultBuiltInRoutePolicyDefinitions \<noteq> []"
    by (simp add: defaultBuiltInRoutePolicyDefinitions_def builtInRoutePolicyDefinitions_1_def)
  then show ?thesis
    using compile_routes_normal [of defaultBuiltInRoutePolicyDefinitions "[]" "[]"] builtin_routes_normal distinct_route_keys
    by (simp add: compileRoutePolicies_def builtin_compiled_def builtin_actions_def)
qed

lemma builtin_rbac: "compileRBACRoleGrants defaultRouteActionRoleGrants builtin_actions = Inr (cp_RBACActionRole builtin_compiled)"
proof -
  have "cp_RBACActionRole builtin_compiled
    = map (\<lambda>(action, roles). (action, sort (role_set roles))) defaultRouteActionRoleGrants"
    by (simp add: builtin_compiled_def)
  moreover have "compileRBACRoleGrants defaultRouteActionRoleGrants builtin_actions
    = Inr (map (\<lambda>(action, roles). (action, sort (role_set roles))) defaultRouteActionRoleGrants)"
    unfolding builtin_actions_eq by code_simp
  ultimately show ?thesis by simp
qed

lemma builtin_abac: "compileABACPolicies defaultRouteActionABACPolicies builtin_actions = Inr (cp_ABACPolicies builtin_compiled)"
proof -
  have "is_ok (compileABACPolicies defaultRouteActionABACPolicies builtin_actions)"
    unfolding builtin_actions_eq by code_simp
  then show ?thesis
    by (auto simp: is_ok_iff compileABACPolicies_def rbind_Inr_iff require_actions_ok builtin_compiled_def split: if_splits)
qed

lemma builtin_rebac: "compileReBACPolicies defaultRouteActionReBACPolicies builtin_actions = Inr (cp_ReBACPolicies builtin_compiled)"
proof -
  have "is_ok (compileReBACPolicies defaultRouteActionReBACPolicies builtin_actions)"
    unfolding builtin_actions_eq by code_simp
  then show ?thesis
    by (auto simp: is_ok_iff compileReBACPolicies_def rbind_Inr_iff builtin_compiled_def normalizeReBACPolicies_def
        defaultRouteActionReBACPolicies_def split: if_splits)
qed

lemma builtin_compiles: "compileBuiltInRouteAuthorizationPolicyBundle = Inr builtin_compiled"
proof -
  have "trim_space routeAuthorizationPolicyBundleSchemaV1 = routeAuthorizationPolicyBundleSchemaV1" by code_simp
  then show ?thesis
    by (simp add: compileBuiltInRouteAuthorizationPolicyBundle_def compileRouteAuthorizationPolicyBundle_def
        defaultBuiltInRouteAuthorizationPolicyBundle_def builtin_routes builtin_rbac builtin_abac builtin_rebac)
qed

lemma builtin_wf: "wf_compiled builtin_compiled"
  using builtin_compiles unfolding compileBuiltInRouteAuthorizationPolicyBundle_def by (rule compile_wf)

lemma builtin_route_found:
  assumes "d \<in> set defaultBuiltInRoutePolicyDefinitions"
  shows "lookup_route (cp_RouteRegistry builtin_compiled) (rd_Method d) (rd_Path d) = Some (route_policy d)"
proof -
  from assms have "(route_key d, route_policy d) \<in> set (cp_RouteRegistry builtin_compiled)"
    by (auto simp: builtin_compiled_def)
  moreover have "distinct (map fst (cp_RouteRegistry builtin_compiled))"
    using distinct_route_keys by (simp add: builtin_compiled_def comp_def)
  ultimately show ?thesis by (simp add: lookup_route_def flip: route_key_def)
qed

subsection \<open>Properties\<close>

text \<open>
  The shipped policy is complete. The built-in bundle compiles to a well-formed policy, so the
  resolver's fallback always exists, and every shipped route is found under its method and path with
  its action, resource type and identifier parameter.
\<close>

theorem builtin_bundle_complete:
  "\<exists>c. compileBuiltInRouteAuthorizationPolicyBundle = Inr c \<and> wf_compiled c
    \<and> (\<forall>d\<in>set defaultBuiltInRoutePolicyDefinitions.
         lookup_route (cp_RouteRegistry c) (rd_Method d) (rd_Path d) = Some (route_policy d))"
  using builtin_compiles builtin_wf builtin_route_found by blast

theorem builtin_bundle_complete_witness:
  "\<exists>c. compileBuiltInRouteAuthorizationPolicyBundle = Inr c
    \<and> lookup_route (cp_RouteRegistry c) ''GET'' ''/v1/findings'' = Some \<lparr>pol_Action = policyActionFindingsRead,
        pol_ResourceType = ''finding'', pol_ResourceIDParam = ''''\<rparr>"
proof -
  let ?d = "hd builtInRoutePolicyDefinitions_1"
  have d: "?d = route ''GET'' ''/v1/findings'' policyActionFindingsRead ''finding'' ''''"
    and ne: "builtInRoutePolicyDefinitions_1 \<noteq> []"
    unfolding builtInRoutePolicyDefinitions_1_def list.sel by (rule refl, rule list.distinct)
  from ne have "?d \<in> set defaultBuiltInRoutePolicyDefinitions"
    by (simp add: defaultBuiltInRoutePolicyDefinitions_def)
  moreover obtain c where c: "compileBuiltInRouteAuthorizationPolicyBundle = Inr c"
    "\<forall>d\<in>set defaultBuiltInRoutePolicyDefinitions.
         lookup_route (cp_RouteRegistry c) (rd_Method d) (rd_Path d) = Some (route_policy d)"
    using builtin_bundle_complete by blast
  ultimately have "lookup_route (cp_RouteRegistry c) (rd_Method ?d) (rd_Path ?d) = Some (route_policy ?d)" by blast
  with c(1) show ?thesis unfolding d by (auto simp: route_def route_policy_def)
qed

text \<open>The roles that the shipped grants admit, action by action.\<close>

definition has_role :: "PolicyInput \<Rightarrow> string list \<Rightarrow> bool" where
  "has_role input roles = list_ex (\<lambda>r. norm_key r \<in> set roles) (sub_Roles (in_Subject input))"

definition write_actions :: "string list" where
  "write_actions = [policyActionFindingsTriage, policyActionScansRun, policyActionScansReplay, policyActionRepoScansRun,
     policyActionTenancyWrite, policyActionEnterpriseWrite]"

definition self_actions :: "string list" where
  "self_actions = [policyActionMeRead, policyActionMeWrite, policyActionOnboardingRead, policyActionOnboardingWrite]"

definition least_roles :: "string \<Rightarrow> string list" where
  "least_roles action =
    (if action = policyActionTenancyOwner then [''owner'']
     else if action = policyActionAuthzSimulate \<or> action = policyActionAuthzRollback then [''admin'']
     else if action \<in> set write_actions then [''write'', ''admin'', ''owner'']
     else if action \<in> set self_actions then
       [''authenticated'', ''read'', ''write'', ''admin'', ''owner'', ''analyst'', ''viewer'']
     else [''read'', ''write'', ''admin'', ''owner'', ''analyst'', ''viewer''])"

lemma builtin_grants_check:
  "list_all (\<lambda>(a, roles). norm_key a = a \<and> list_all (\<lambda>g. norm_key g = g \<and> g \<in> set (least_roles a)) roles)
     (map (\<lambda>(action, roles). (action, sort (role_set roles))) defaultRouteActionRoleGrants)"
  by code_simp

lemma builtin_role_granted:
  assumes "role_granted (cp_RBACActionRole builtin_compiled) input"
  shows "has_role input (least_roles (norm_key (in_Action input)))"
proof -
  have rbac: "cp_RBACActionRole builtin_compiled = map (\<lambda>(action, roles). (action, sort (role_set roles))) defaultRouteActionRoleGrants"
    by (simp add: builtin_compiled_def)
  from assms obtain a rs r g where e: "(a, rs) \<in> set (cp_RBACActionRole builtin_compiled)"
    "norm_key a = norm_key (in_Action input)" "r \<in> set (sub_Roles (in_Subject input))" "g \<in> set rs" "norm_key g = norm_key r"
    unfolding role_granted_def by blast
  from builtin_grants_check e(1) have "norm_key a = a" "\<forall>g\<in>set rs. norm_key g = g \<and> g \<in> set (least_roles a)"
    unfolding rbac list_all_iff by blast+
  with e show ?thesis by (auto simp: has_role_def list_ex_iff)
qed

text \<open>
  C34: role floors of the shipped policy. Whatever the store holds, a routed request that the
  built-in engine allows comes from a subject with a role of the action's row: owner only for
  destructive workspace actions, admin for policy simulation and rollback, write, admin or owner for
  every mutating action, any workspace role or scope for reads; a subject that is merely
  authenticated reaches nothing but its own profile and onboarding.
\<close>

theorem builtin_role_floor:
  assumes "norm_key (in_Action input) \<in> registry_actions newRoutePolicyRegistry"
    and "Decide (Some (newCentralPolicyEngine store)) input = Inr d" "pd_Allowed d"
  shows "has_role input (least_roles (norm_key (in_Action input)))"
proof -
  have wf: "wf_compiled builtin_compiled"
    using builtin_compiles compile_wf by (simp add: compileBuiltInRouteAuthorizationPolicyBundle_def)
  have "newRoutePolicyRegistry = cp_RouteRegistry builtin_compiled"
    by (simp add: newRoutePolicyRegistry_def builtin_compiles)
  with assms central_engine_cases [OF wf, of input store d] show ?thesis
    by (auto simp: newCentralPolicyEngine_def builtin_compiles intro: builtin_role_granted)
qed

lemma builtin_engine:
  "newCentralPolicyEngine store = NewPolicyEngine (Some tenantIsolation_Evaluate)
     (Some (newRBACRequirementEvaluator (map (\<lambda>(action, roles). (action, sort (role_set roles))) defaultRouteActionRoleGrants)))
     (Some (newABACPolicyEvaluator (normalizeABACPolicies defaultRouteActionABACPolicies)))
     (Some (newReBACPolicyEvaluator store (normalizeReBACPolicies defaultRouteActionReBACPolicies)))"
  by (simp add: newCentralPolicyEngine_def builtin_compiles newCentralPolicyEngineFromCompiled_def builtin_compiled_def)

lemma builtin_registry_actions:
  "registry_actions newRoutePolicyRegistry = rd_Action ` set defaultBuiltInRoutePolicyDefinitions"
  by (simp add: newRoutePolicyRegistry_def builtin_compiles builtin_compiled_def registry_actions_def route_policy_def
      image_image)

lemma fold_add_unique_set: "set (fold add_unique xs acc) = set acc \<union> set xs"
  by (induction xs arbitrary: acc) auto

lemma builtin_registry_actions_set: "registry_actions newRoutePolicyRegistry = set builtin_actions"
  by (simp add: builtin_registry_actions builtin_actions_def fold_add_unique_set)

definition viewer_input :: PolicyInput where
  "viewer_input = sample_input\<lparr>in_Subject := (in_Subject sample_input)\<lparr>sub_Roles := [''Viewer'']\<rparr>\<rparr>"

theorem builtin_role_floor_witness:
  "has_role viewer_input [''read'', ''write'', ''admin'', ''owner'', ''analyst'', ''viewer'']"
proof -
  let ?d = "Decide (Some (newCentralPolicyEngine None)) viewer_input"
  have act: "norm_key (in_Action viewer_input) = policyActionFindingsRead" by code_simp
  then have "norm_key (in_Action viewer_input) \<in> registry_actions newRoutePolicyRegistry"
    by (simp add: builtin_registry_actions_set builtin_actions_eq)
  moreover have "case ?d of Inl _ \<Rightarrow> False | Inr d \<Rightarrow> pd_Allowed d"
    unfolding builtin_engine by code_simp
  then obtain d where "?d = Inr d" "pd_Allowed d" by (cases ?d) auto
  ultimately have "has_role viewer_input (least_roles (norm_key (in_Action viewer_input)))"
    by (rule builtin_role_floor)
  moreover have "least_roles policyActionFindingsRead = [''read'', ''write'', ''admin'', ''owner'', ''analyst'', ''viewer'']"
    by code_simp
  ultimately show ?thesis by (simp only: act)
qed

lemma builtin_triage_policy:
  "map_of (normalizeABACPolicies (cp_ABACPolicies builtin_compiled)) policyActionFindingsTriage
    = Some triagePolicy"
proof -
  have "cp_ABACPolicies builtin_compiled = normalizeABACPolicies defaultRouteActionABACPolicies"
    by (simp add: builtin_compiled_def)
  moreover have "map_of (normalizeABACPolicies (normalizeABACPolicies defaultRouteActionABACPolicies))
      policyActionFindingsTriage = Some triagePolicy" by code_simp
  ultimately show ?thesis by simp
qed

lemma equals_predicate_holds:
  "predicate_holds input (equals_predicate source key v) \<longleftrightarrow> resolveABACValue input source key = Some v"
  by (auto simp: predicate_holds_def evaluateABACPredicate_def equals_predicate_def Let_def split: option.splits)

lemma equals_attribute_predicate_holds:
  "predicate_holds input (equals_attribute_predicate s k s' k') \<longleftrightarrow>
    (\<exists>v. resolveABACValue input s k = Some v \<and> resolveABACValue input s' k' = Some v)"
  by (auto simp: predicate_holds_def evaluateABACPredicate_def equals_attribute_predicate_def Let_def split: option.splits)

lemma one_of_predicate_holds:
  "predicate_holds input (one_of_predicate s k vs) \<longleftrightarrow> (\<exists>v\<in>set vs. resolveABACValue input s k = Some v)"
  by (auto simp: predicate_holds_def evaluateABACPredicate_def one_of_predicate_def Let_def split: option.splits)

lemma triage_grants:
  assumes "abac_grants triagePolicy input"
    and "resolveABACValue input ''context'' policyContextABACSubjectAttrsLoadedKey \<noteq> Some ''false''"
    and "resolveABACValue input ''context'' policyContextABACResourceAttrsLoadedKey \<noteq> Some ''false''"
  shows "predicate_holds input
      (equals_attribute_predicate ''subject'' policyAttributeOwnerTeam ''resource'' policyAttributeOwnerTeam)"
    "predicate_holds input (one_of_predicate ''resource'' policyAttributeEnvironment validAuthzEnvironments)"
proof -
  have no: "\<not> predicate_holds input (equals_predicate ''context'' policyContextABACSubjectAttrsLoadedKey ''false'')"
    "\<not> predicate_holds input (equals_predicate ''context'' policyContextABACResourceAttrsLoadedKey ''false'')"
    using assms(2,3) by (simp_all only: equals_predicate_holds not_False_eq_True)
  from assms(1) have "\<exists>c\<in>set (aa_AnyOf triagePolicy). \<forall>p\<in>set (ac_AllOf c). predicate_holds input p"
    by (simp add: abac_grants_def triagePolicy_def)
  with no show "predicate_holds input
      (equals_attribute_predicate ''subject'' policyAttributeOwnerTeam ''resource'' policyAttributeOwnerTeam)"
    "predicate_holds input (one_of_predicate ''resource'' policyAttributeEnvironment validAuthzEnvironments)"
    by (simp_all add: triagePolicy_def validAuthzEnvironments_def)
qed

text \<open>
  Triage needs ownership. When the built-in engine allows \<^verbatim>\<open>findings.triage\<close> and the request
  context does not say that the subject's or the resource's trusted attributes are unavailable, the
  subject and the finding have the same owner team and the finding has a known environment, or the
  subject owns, manages or is a delegated admin of the finding through live tuples of the caller's
  scope (directly, or through a group when the finding is sensitive).
\<close>

theorem builtin_triage_needs_ownership:
  assumes "norm_key (in_Action input) = policyActionFindingsTriage"
    and "Decide (Some (newCentralPolicyEngine (Some (ListAuthzRelationships env ctx m)))) input = Inr d" "pd_Allowed d"
    and "resolveABACValue input ''context'' policyContextABACSubjectAttrsLoadedKey \<noteq> Some ''false''"
    and "resolveABACValue input ''context'' policyContextABACResourceAttrsLoadedKey \<noteq> Some ''false''"
  shows "(\<exists>team. resolveABACValue input ''subject'' policyAttributeOwnerTeam = Some team
        \<and> resolveABACValue input ''resource'' policyAttributeOwnerTeam = Some team
        \<and> (\<exists>e\<in>set validAuthzEnvironments. resolveABACValue input ''resource'' policyAttributeEnvironment = Some e))
    \<or> (\<exists>policy. map_of (normalizeReBACPolicies (cp_ReBACPolicies builtin_compiled)) policyActionFindingsTriage = Some policy
        \<and> rebac_grants (live_tuples env ctx m) policy input)"
proof -
  have reg: "norm_key (in_Action input) \<in> registry_actions (cp_RouteRegistry builtin_compiled)"
    using builtin_registry_actions_set
    by (simp add: newRoutePolicyRegistry_def builtin_compiles assms(1) builtin_actions_eq)
  have "Decide (Some (newCentralPolicyEngineFromCompiled (Some (ListAuthzRelationships env ctx m)) builtin_compiled)) input
      = Inr d" using assms(2) by (simp add: newCentralPolicyEngine_def builtin_compiles)
  from central_engine_cases [OF _ reg this assms(3)] compile_wf builtin_compiles
  have "stage_verdict input (Some (newABACPolicyEvaluator (cp_ABACPolicies builtin_compiled))) = Some True
      \<or> stage_verdict input (Some (newReBACPolicyEvaluator (Some (ListAuthzRelationships env ctx m))
          (cp_ReBACPolicies builtin_compiled))) = Some True"
    by (auto simp: compileBuiltInRouteAuthorizationPolicyBundle_def)
  then show ?thesis
  proof
    assume "stage_verdict input (Some (newABACPolicyEvaluator (cp_ABACPolicies builtin_compiled))) = Some True"
    moreover have "norm_key (in_Action input) \<noteq> ''''" unfolding assms(1) by (rule list.distinct)
    ultimately obtain policy where p: "map_of (normalizeABACPolicies (cp_ABACPolicies builtin_compiled))
        (norm_key (in_Action input)) = Some policy" "abac_grants policy input" using abac_stage_grants by blast
    have "policy = triagePolicy" using p(1) unfolding assms(1) builtin_triage_policy by (rule option.inject [THEN iffD1, THEN sym])
    with p(2) have "abac_grants triagePolicy input" by (simp only:)
    from triage_grants [OF this assms(4,5)] show ?thesis
      unfolding equals_attribute_predicate_holds one_of_predicate_holds by blast
  next
    assume "stage_verdict input (Some (newReBACPolicyEvaluator (Some (ListAuthzRelationships env ctx m))
          (cp_ReBACPolicies builtin_compiled))) = Some True"
    then obtain r where "newReBACPolicyEvaluator (Some (ListAuthzRelationships env ctx m))
          (cp_ReBACPolicies builtin_compiled) input = Inr (PolicyOutcomeAllow, r)" by (auto simp only: stage_verdict_Some)
    from rebac_store_sound [OF this] show ?thesis unfolding assms(1) by (rule disjI2)
  qed
qed

definition triage_input :: PolicyInput where
  "triage_input =
    sample_input\<lparr>in_Action := ''findings.triage'',
      in_Subject := (in_Subject sample_input)\<lparr>sub_Roles := [''owner''], sub_Attributes := []\<rparr>\<rparr>"

theorem builtin_triage_needs_ownership_witness:
  "\<exists>policy. map_of (normalizeReBACPolicies (cp_ReBACPolicies builtin_compiled)) policyActionFindingsTriage = Some policy
        \<and> rebac_grants (live_tuples sample_env sample_ctx store4) policy triage_input"
proof -
  let ?d = "Decide (Some (newCentralPolicyEngine (Some (ListAuthzRelationships sample_env sample_ctx store4)))) triage_input"
  have act: "norm_key (in_Action triage_input) = policyActionFindingsTriage" by code_simp
  have "case ?d of Inl _ \<Rightarrow> False | Inr d \<Rightarrow> pd_Allowed d" unfolding builtin_engine by code_simp
  then obtain d where d: "?d = Inr d" "pd_Allowed d" by (cases ?d) auto
  have no: "resolveABACValue triage_input ''subject'' policyAttributeOwnerTeam = None" by code_simp
  have "resolveABACValue triage_input ''context'' policyContextABACSubjectAttrsLoadedKey \<noteq> Some ''false''"
    "resolveABACValue triage_input ''context'' policyContextABACResourceAttrsLoadedKey \<noteq> Some ''false''"
    by code_simp+
  from builtin_triage_needs_ownership [OF act d this] no show ?thesis by simp
qed

end
