(* ===== verification/Request_Context.thy ===== *)
theory Request_Context
  imports Policy_Builtin
begin

section \<open>The request context the middlewares share (gin, internal/api/router.go)\<close>

text \<open>
  What the middlewares read and write of a request: its method, matched route, path, parameters and
  headers, the context of the request with its scope and audit actor, the values handlers attach with
  \<^verbatim>\<open>c.Set\<close> (\<open>gc_Keys\<close>, typed like the Go values the code stores), and the authentication failures
  written to the audit sink. A middleware returns a \<open>Reply\<close>: \<open>Next\<close> for \<^verbatim>\<open>c.Next()\<close>, \<open>Abort\<close> for
  \<^verbatim>\<open>c.AbortWithStatusJSON\<close>. A scope set (\<^verbatim>\<open>map[string]struct{}\<close>) is the list of its members.
\<close>

type_synonym scopeSet = "string list"

record AuditAuthzInputSummary =
  ai_SubjectType :: string
  ai_SubjectIDHash :: string
  ai_Action :: string
  ai_ResourceType :: string
  ai_ResourceIDHash :: string
  ai_TenantID :: string
  ai_WorkspaceID :: string

record AuditAuthzDecision =
  ad_PolicySetID :: string
  ad_PolicyVersion :: "int option"
  ad_PolicySource :: string
  ad_RolloutMode :: string
  ad_Allowed :: bool
  ad_Stage :: string
  ad_Reason :: string
  ad_Input :: AuditAuthzInputSummary

datatype ctx_value =
    StringValue string
  | StringsValue "string list"
  | AnyValues "string option list"
  | ScopeSetValue scopeSet
  | IntValue int
  | DecisionValue AuditAuthzDecision
  | CounterValue
  | SessionValue

record AuthFailure =
  af_Method :: string
  af_Path :: string
  af_APIKeyID :: string

record GinContext =
  gc_Method :: string
  gc_FullPath :: string
  gc_URLPath :: string
  gc_Params :: "(string, string) gomap"
  gc_Headers :: "(string, string) gomap"
  gc_Keys :: "(string, ctx_value) gomap"
  gc_Context :: Context
  gc_Actor :: string
  gc_AuthFailures :: "AuthFailure list"

datatype Reply =
    Next
  | Abort int string
  | AbortWorkspace string "time option" "time option"

definition gin_Get :: "GinContext \<Rightarrow> string \<Rightarrow> ctx_value option" where
  "gin_Get c key = map_of (gc_Keys c) key"

definition gin_Set :: "string \<Rightarrow> ctx_value \<Rightarrow> GinContext \<Rightarrow> GinContext" where
  "gin_Set key v c = c\<lparr>gc_Keys := map_put key v (gc_Keys c)\<rparr>"

definition gin_Param :: "GinContext \<Rightarrow> string \<Rightarrow> string" where
  "gin_Param c name = map_string (gc_Params c) name"

definition gin_Header :: "GinContext \<Rightarrow> string \<Rightarrow> string" where
  "gin_Header c name = map_string (gc_Headers c) name"

subsection \<open>Reading authentication values\<close>

definition authContextString :: "GinContext \<Rightarrow> string \<Rightarrow> string" where
  "authContextString c key =
    (case gin_Get c key of Some (StringValue text) \<Rightarrow> trim_space text | _ \<Rightarrow> '''')"

definition normalizeStringList :: "string list \<Rightarrow> string list" where
  "normalizeStringList values = sort (collect_unique (\<lambda>value. nonempty (trim_space value)) [] values)"

definition authContextStringSlice :: "GinContext \<Rightarrow> string \<Rightarrow> string list" where
  "authContextStringSlice c key =
    (case gin_Get c key of
       Some (StringsValue typed) \<Rightarrow> normalizeStringList typed
     | Some (AnyValues typed) \<Rightarrow> normalizeStringList (List.map_filter (\<lambda>item. item) typed)
     | _ \<Rightarrow> [])"

definition authContextScopes :: "GinContext \<Rightarrow> string list" where
  "authContextScopes c =
    (case gin_Get c ''auth.scope_set'' of
       Some (ScopeSetValue scopes) \<Rightarrow> sort (List.map_filter (\<lambda>scope. nonempty (trim_space scope)) scopes)
     | _ \<Rightarrow> [])"

definition readAPIKey :: "GinContext \<Rightarrow> string" where
  "readAPIKey c = trim_space (gin_Header c ''X-API-Key'')"

definition readBearerToken :: "GinContext \<Rightarrow> string" where
  "readBearerToken c =
    (let authz = trim_space (gin_Header c ''Authorization'')
     in if has_prefix (to_lower authz) ''bearer '' then trim_space (drop 7 authz) else '''')"

definition firstNonEmpty :: "string \<Rightarrow> string \<Rightarrow> string" where
  "firstNonEmpty primary fallback =
    (if trim_space primary \<noteq> '''' then trim_space primary else trim_space fallback)"

definition hasAuthContext :: "GinContext \<Rightarrow> bool" where
  "hasAuthContext c =
    (gin_Get c ''auth.scope_set'' \<noteq> None \<or> authContextString c ''auth.api_key'' \<noteq> ''''
     \<or> authContextString c ''auth.subject'' \<noteq> '''')"

definition inferPrincipalType :: "GinContext \<Rightarrow> string" where
  "inferPrincipalType c =
    (if authContextString c ''auth.subject'' \<noteq> '''' then ''subject''
     else if authContextString c ''auth.api_key'' \<noteq> '''' then ''api_key'' else '''')"

definition inferPrincipalID :: "GinContext \<Rightarrow> string" where
  "inferPrincipalID c =
    (let subject = authContextString c ''auth.subject''; apiKey = authContextString c ''auth.api_key''
     in if subject \<noteq> '''' then subject else if apiKey \<noteq> '''' then apiKey else '''')"

text \<open>
  The actors written to the audit log. \<open>fp_key\<close> and \<open>fp_id\<close> stand for the keyed fingerprints of an
  API key and of an identifier.
\<close>

definition triageActorFromContext :: "(string \<Rightarrow> string) \<Rightarrow> (string \<Rightarrow> string) \<Rightarrow> GinContext \<Rightarrow> string" where
  "triageActorFromContext fp_id fp_key c =
    (let subject = authContextString c ''auth.subject''; apiKey = authContextString c ''auth.api_key''
     in if subject \<noteq> '''' then ''subject:'' @ fp_id subject
        else if apiKey \<noteq> '''' then ''api_key:'' @ fp_key apiKey else ''unknown'')"

definition actionAuditActorFromContext :: "(string \<Rightarrow> string) \<Rightarrow> GinContext \<Rightarrow> string" where
  "actionAuditActorFromContext fp_key c =
    (let subject = authContextString c ''auth.subject''; apiKey = authContextString c ''auth.api_key''
     in if subject \<noteq> '''' then ''subject:'' @ subject
        else if apiKey \<noteq> '''' then ''api_key:'' @ fp_key apiKey else ''unknown'')"

definition setAuditActorOnRequestContext :: "(string \<Rightarrow> string) \<Rightarrow> GinContext \<Rightarrow> GinContext" where
  "setAuditActorOnRequestContext fp_key c =
    (let actor = actionAuditActorFromContext fp_key c
     in if actor = ''unknown'' then c
        else if trim_space actor = '''' then c else c\<lparr>gc_Actor := trim_space actor\<rparr>)"

subsection \<open>Scope sets\<close>

definition newScopeSet :: "string list \<Rightarrow> scopeSet" where
  "newScopeSet scopes = collect_unique (\<lambda>raw. nonempty (norm_key raw)) [] scopes"

definition has_scope :: "scopeSet \<Rightarrow> string \<Rightarrow> bool" where
  "has_scope s required =
    (if s = [] then False
     else if scopeAdmin \<in> set s then True
     else if required = scopeRead \<and> scopeWrite \<in> set s then True
     else required \<in> set s)"

subsection \<open>Laws\<close>

lemma gin_Get_Set [map_simps]: "gin_Get (gin_Set k v c) j = (if j = k then Some v else gin_Get c j)"
  by (simp add: gin_Get_def gin_Set_def map_simps)

lemma gin_Set_sel [simp]:
  "gc_Method (gin_Set k v c) = gc_Method c" "gc_FullPath (gin_Set k v c) = gc_FullPath c"
  "gc_URLPath (gin_Set k v c) = gc_URLPath c" "gc_Params (gin_Set k v c) = gc_Params c"
  "gc_Headers (gin_Set k v c) = gc_Headers c" "gc_Context (gin_Set k v c) = gc_Context c"
  "gc_Actor (gin_Set k v c) = gc_Actor c" "gc_AuthFailures (gin_Set k v c) = gc_AuthFailures c"
  by (simp_all add: gin_Set_def)

lemma gin_Header_Set [simp]: "gin_Header (gin_Set k v c) name = gin_Header c name"
  by (simp add: gin_Header_def)

lemma authContextString_Set [map_simps]:
  "authContextString (gin_Set k v c) j =
    (if j = k then (case v of StringValue s \<Rightarrow> trim_space s | _ \<Rightarrow> '''') else authContextString c j)"
  by (simp add: authContextString_def map_simps)

lemma setActor_sel [simp]:
  "gc_Method (setAuditActorOnRequestContext fp c) = gc_Method c"
  "gc_FullPath (setAuditActorOnRequestContext fp c) = gc_FullPath c"
  "gc_Params (setAuditActorOnRequestContext fp c) = gc_Params c"
  "gc_Headers (setAuditActorOnRequestContext fp c) = gc_Headers c"
  "gc_Keys (setAuditActorOnRequestContext fp c) = gc_Keys c"
  "gc_Context (setAuditActorOnRequestContext fp c) = gc_Context c"
  "gc_AuthFailures (setAuditActorOnRequestContext fp c) = gc_AuthFailures c"
  by (simp_all add: setAuditActorOnRequestContext_def Let_def)

lemma setActor_reads [simp]:
  "gin_Get (setAuditActorOnRequestContext fp c) k = gin_Get c k"
  "gin_Header (setAuditActorOnRequestContext fp c) name = gin_Header c name"
  "authContextString (setAuditActorOnRequestContext fp c) k = authContextString c k"
  by (simp_all add: gin_Get_def gin_Header_def authContextString_def)

lemma trim_authContextString [simp]: "trim_space (authContextString c k) = authContextString c k"
  by (simp add: authContextString_def split: option.split ctx_value.split)

lemma has_scope_iff:
  "has_scope s required \<longleftrightarrow> scopeAdmin \<in> set s \<or> required \<in> set s \<or> (required = scopeRead \<and> scopeWrite \<in> set s)"
  by (auto simp: has_scope_def)

lemma firstNonEmpty_trim [simp]: "trim_space (firstNonEmpty a b) = firstNonEmpty a b"
  by (simp add: firstNonEmpty_def)

end
