(* ===== verification/Authentication.thy ===== *)
theory Authentication
  imports Request_Context
begin

section \<open>Authentication and request scope (internal/api/router.go)\<close>

text \<open>
  The two middlewares in front of the policy: \<open>apiKeyAuthMiddleware\<close> accepts a browser session, a
  scoped or legacy API key or a verified bearer token, and \<open>requestScopeMiddleware\<close> puts the tenant
  and workspace of the request on its context. The token verifier is a parameter (its cryptography is
  not modelled), as is the fingerprint of an API key. Of the audit record of a failed authentication the model keeps
  the method, the path and the key's fingerprint.
\<close>

record VerifiedToken =
  vt_Subject :: string
  vt_Issuer :: string
  vt_Audiences :: "string list"
  vt_TenantID :: string
  vt_WorkspaceID :: string
  vt_Groups :: "string list"
  vt_Roles :: "string list"
  vt_Scopes :: "string list"

type_synonym TokenVerifier = "Context \<Rightarrow> string \<Rightarrow> VerifiedToken result"

record scopedAPIKeyAuthConfig =
  ak_Scopes :: scopeSet
  ak_TenantID :: string
  ak_WorkspaceID :: string

abbreviation apiKeyScopeTenant :: string where "apiKeyScopeTenant \<equiv> ''tenant:''"
abbreviation apiKeyScopeWorkspace :: string where "apiKeyScopeWorkspace \<equiv> ''workspace:''"
abbreviation scopeHeaderTenantID :: string where "scopeHeaderTenantID \<equiv> ''X-Identrail-Tenant-ID''"
abbreviation scopeHeaderWorkspaceID :: string where "scopeHeaderWorkspaceID \<equiv> ''X-Identrail-Workspace-ID''"
abbreviation authAPIKeyTenantID :: string where "authAPIKeyTenantID \<equiv> ''auth.api_key_tenant_id''"
abbreviation authAPIKeyWorkspaceID :: string where "authAPIKeyWorkspaceID \<equiv> ''auth.api_key_workspace_id''"

subsection \<open>Keys, bindings and tokens\<close>

definition secureKeyEquals :: "string \<Rightarrow> string \<Rightarrow> bool" where
  "secureKeyEquals expected candidate =
    (if length expected \<noteq> length candidate then False else list_all2 (=) expected candidate)"

definition keyInList :: "string list \<Rightarrow> string \<Rightarrow> bool" where
  "keyInList keys candidate = list_ex (\<lambda>key. secureKeyEquals key candidate) keys"

fun scopedKeyBindingLookup :: "(string, Scope) gomap \<Rightarrow> string \<Rightarrow> Scope option" where
  "scopedKeyBindingLookup [] candidate = None"
| "scopedKeyBindingLookup ((key, binding) # bindings) candidate =
    (if secureKeyEquals key candidate then Some binding else scopedKeyBindingLookup bindings candidate)"

fun scopedKeyLookup :: "(string, scopedAPIKeyAuthConfig) gomap \<Rightarrow> string \<Rightarrow> scopedAPIKeyAuthConfig option" where
  "scopedKeyLookup [] candidate = None"
| "scopedKeyLookup ((key, config) # scoped) candidate =
    (if secureKeyEquals key candidate then Some config else scopedKeyLookup scoped candidate)"

definition applyScopedKeyBinding :: "GinContext \<Rightarrow> Scope \<Rightarrow> string \<Rightarrow> string \<Rightarrow> bool \<times> GinContext" where
  "applyScopedKeyBinding c binding tenantID workspaceID =
    (let b = Normalize_Scope binding;
         tenant = trim_space (sc_TenantID b);
         workspace = trim_space (sc_WorkspaceID b);
         tenant = (if tenant = '''' then trim_space tenantID else tenant);
         workspace = (if workspace = '''' then trim_space workspaceID else workspace);
         tenantIDHeader = trim_space (gin_Header c scopeHeaderTenantID);
         workspaceIDHeader = trim_space (gin_Header c scopeHeaderWorkspaceID)
     in if tenant = '''' \<or> workspace = '''' then (False, c)
        else if tenantIDHeader \<noteq> '''' \<and> tenantIDHeader \<noteq> tenant then (False, c)
        else if workspaceIDHeader \<noteq> '''' \<and> workspaceIDHeader \<noteq> workspace then (False, c)
        else (True, gin_Set ''auth.workspace_id'' (StringValue workspace)
                     (gin_Set ''auth.tenant_id'' (StringValue tenant)
                       (gin_Set authAPIKeyWorkspaceID (StringValue workspace)
                         (gin_Set authAPIKeyTenantID (StringValue tenant) c)))))"

fun parse_scopes :: "scopedAPIKeyAuthConfig \<Rightarrow> string list \<Rightarrow> scopedAPIKeyAuthConfig" where
  "parse_scopes config [] = config"
| "parse_scopes config (rawScope # scopes) =
    (let trimmed = trim_space rawScope; normalized = to_lower trimmed
     in if trimmed = '''' then parse_scopes config scopes
        else if has_prefix normalized apiKeyScopeTenant then
          parse_scopes (config\<lparr>ak_TenantID := trim_space (drop (length apiKeyScopeTenant) trimmed)\<rparr>) scopes
        else if has_prefix normalized apiKeyScopeWorkspace then
          parse_scopes (config\<lparr>ak_WorkspaceID := trim_space (drop (length apiKeyScopeWorkspace) trimmed)\<rparr>) scopes
        else parse_scopes (config\<lparr>ak_Scopes := add_unique normalized (ak_Scopes config)\<rparr>) scopes)"

definition parseScopedAPIKeyAuthConfig :: "string list \<Rightarrow> scopedAPIKeyAuthConfig" where
  "parseScopedAPIKeyAuthConfig scopes = parse_scopes \<lparr>ak_Scopes = [], ak_TenantID = '''', ak_WorkspaceID = ''''\<rparr> scopes"

definition oidc_scope :: "scopeSet \<Rightarrow> scopeSet \<Rightarrow> string \<Rightarrow> scopeSet" where
  "oidc_scope writeScopeOverrides set0 scope =
    (let normalized = norm_key scope
     in if normalized = '''' then set0
        else let set1 =
               (if normalized = scopeAdmin \<or> normalized = ''identrail.admin'' then
                  add_unique scopeRead (add_unique scopeWrite (add_unique scopeAdmin set0))
                else if normalized = scopeWrite \<or> normalized = ''identrail.write'' then add_unique scopeWrite set0
                else if normalized = scopeRead \<or> normalized = ''identrail.read'' then add_unique scopeRead set0
                else set0)
             in if normalized \<in> set writeScopeOverrides then add_unique scopeWrite set1 else set1)"

definition scopeSetFromOIDCToken :: "VerifiedToken \<Rightarrow> scopeSet \<Rightarrow> scopeSet" where
  "scopeSetFromOIDCToken token writeScopeOverrides = foldl (oidc_scope writeScopeOverrides) [] (vt_Scopes token)"

definition WithSubjectSource :: "Context \<Rightarrow> string \<Rightarrow> Context" where
  "WithSubjectSource ctx source = Some ((context_values ctx)\<lparr>cv_SubjectSource := norm_key source\<rparr>)"

definition WithSubjectIssuer :: "Context \<Rightarrow> string \<Rightarrow> Context" where
  "WithSubjectIssuer ctx issuer = Some ((context_values ctx)\<lparr>cv_SubjectIssuer := trim_space issuer\<rparr>)"

subsection \<open>The authentication middleware\<close>

definition recordAuthenticationFailure :: "(string \<Rightarrow> string) \<Rightarrow> GinContext \<Rightarrow> GinContext" where
  "recordAuthenticationFailure fp_key c =
    (let apiKey = readAPIKey c
     in c\<lparr>gc_AuthFailures := gc_AuthFailures c @
          [\<lparr>af_Method = gc_Method c, af_Path = gc_URLPath c,
            af_APIKeyID = (if apiKey \<noteq> '''' then fp_key apiKey else '''')\<rparr>]\<rparr>)"

definition unauthorized :: "(string \<Rightarrow> string) \<Rightarrow> GinContext \<Rightarrow> Reply \<times> GinContext" where
  "unauthorized fp_key c = (Abort 401 ''unauthorized'', recordAuthenticationFailure fp_key c)"

definition trimmed_entries :: "('v \<Rightarrow> 'w option) \<Rightarrow> (string, 'v) gomap \<Rightarrow> (string, 'w) gomap" where
  "trimmed_entries f m =
    foldl (\<lambda>acc (key, v). let trimmed = trim_space key in
        if trimmed = '''' then acc else case f v of None \<Rightarrow> acc | Some w \<Rightarrow> map_put trimmed w acc) [] m"

text \<open>What the middleware computes once: the scoped keys, their bindings and the legacy keys.\<close>

record AuthKeys =
  au_Scoped :: "(string, scopedAPIKeyAuthConfig) gomap"
  au_Bindings :: "(string, Scope) gomap"
  au_Legacy :: "string list"

definition auth_keys :: "string list \<Rightarrow> (string, string list) gomap \<Rightarrow> (string, Scope) gomap \<Rightarrow> AuthKeys" where
  "auth_keys keys scopedKeys scopedKeyBindings =
    (let scoped = trimmed_entries (\<lambda>scopes. Some (parseScopedAPIKeyAuthConfig scopes)) scopedKeys
     in \<lparr>au_Scoped = scoped,
         au_Bindings = trimmed_entries (\<lambda>scope. let n = Normalize_Scope scope in
            if sc_TenantID n = '''' \<or> sc_WorkspaceID n = '''' then None else Some n) scopedKeyBindings,
         au_Legacy = (if scoped = [] then List.map_filter (\<lambda>key. nonempty (trim_space key)) keys else [])\<rparr>)"

text \<open>The branch for a key found among the scoped keys, up to \<^verbatim>\<open>c.Set("auth.api_key", ...)\<close>.\<close>

definition bind_scoped_key ::
  "(string, Scope) gomap \<Rightarrow> scopedAPIKeyAuthConfig \<Rightarrow> string \<Rightarrow> GinContext \<Rightarrow> bool \<times> GinContext" where
  "bind_scoped_key bindings config candidate c =
    (case scopedKeyBindingLookup bindings candidate of
       Some binding \<Rightarrow> applyScopedKeyBinding c binding (ak_TenantID config) (ak_WorkspaceID config)
     | None \<Rightarrow>
        (if bindings \<noteq> [] then (False, c)
         else if ak_TenantID config \<noteq> '''' \<or> ak_WorkspaceID config \<noteq> '''' then
           applyScopedKeyBinding c \<lparr>sc_TenantID = ak_TenantID config, sc_WorkspaceID = ak_WorkspaceID config\<rparr> '''' ''''
         else (True, c)))"

definition set_token :: "scopeSet \<Rightarrow> VerifiedToken \<Rightarrow> GinContext \<Rightarrow> GinContext" where
  "set_token oidcWriteScopeSet token c =
    (let c = gin_Set ''auth.subject_source'' (StringValue ''oidc'') (gin_Set ''auth.subject'' (StringValue (vt_Subject token)) c);
         c = c\<lparr>gc_Context := WithSubjectIssuer (WithSubjectSource (gc_Context c) ''oidc'') (vt_Issuer token)\<rparr>;
         c = gin_Set ''auth.issuer'' (StringValue (vt_Issuer token)) c;
         c = gin_Set ''auth.audiences'' (StringsValue (vt_Audiences token)) c;
         c = gin_Set ''auth.groups'' (StringsValue (vt_Groups token)) c;
         c = gin_Set ''auth.roles'' (StringsValue (vt_Roles token)) c;
         c = gin_Set ''auth.tenant_id'' (StringValue (vt_TenantID token)) c;
         c = gin_Set ''auth.workspace_id'' (StringValue (vt_WorkspaceID token)) c
     in gin_Set ''auth.scope_set'' (ScopeSetValue (scopeSetFromOIDCToken token oidcWriteScopeSet)) c)"

definition authenticate_bearer ::
  "TokenVerifier option \<Rightarrow> scopeSet \<Rightarrow> (string \<Rightarrow> string) \<Rightarrow> GinContext \<Rightarrow> Reply \<times> GinContext" where
  "authenticate_bearer tokenVerifier oidcWriteScopeSet fp_key c =
    (case tokenVerifier of
       None \<Rightarrow> unauthorized fp_key c
     | Some verify \<Rightarrow>
        (if readBearerToken c = '''' then unauthorized fp_key c
         else case verify (gc_Context c) (readBearerToken c) of
           Inl _ \<Rightarrow> unauthorized fp_key c
         | Inr token \<Rightarrow> (Next, setAuditActorOnRequestContext fp_key (set_token oidcWriteScopeSet token c))))"

definition apiKeyAuthMiddleware ::
  "string list \<Rightarrow> (string, string list) gomap \<Rightarrow> (string, Scope) gomap \<Rightarrow> TokenVerifier option \<Rightarrow> string list
    \<Rightarrow> (string \<Rightarrow> string) \<Rightarrow> bool \<Rightarrow> GinContext \<Rightarrow> Reply \<times> GinContext" where
  "apiKeyAuthMiddleware keys scopedKeys scopedKeyBindings tokenVerifier oidcWriteScopes fp_key requireAuth c =
    (let auth = auth_keys keys scopedKeys scopedKeyBindings;
         candidate = readAPIKey c;
         bearer = authenticate_bearer tokenVerifier (newScopeSet oidcWriteScopes) fp_key c
     in if au_Scoped auth = [] \<and> au_Legacy auth = [] \<and> tokenVerifier = None \<and> \<not> requireAuth then (Next, c)
        else if gin_Get c ''auth.session'' \<noteq> None then (Next, setAuditActorOnRequestContext fp_key c)
        else if candidate = '''' then bearer
        else case scopedKeyLookup (au_Scoped auth) candidate of
          Some config \<Rightarrow>
            (case bind_scoped_key (au_Bindings auth) config candidate c of
               (False, c) \<Rightarrow> unauthorized fp_key c
             | (True, c) \<Rightarrow>
                 (Next, setAuditActorOnRequestContext fp_key
                    (gin_Set ''auth.scope_set'' (ScopeSetValue (ak_Scopes config))
                      (gin_Set ''auth.api_key'' (StringValue candidate) c))))
        | None \<Rightarrow>
            (if keyInList (au_Legacy auth) candidate then
               (Next, setAuditActorOnRequestContext fp_key (gin_Set ''auth.api_key'' (StringValue candidate) c))
             else bearer))"

subsection \<open>The request scope middleware\<close>

definition isScopelessSessionRoute :: "string \<Rightarrow> bool" where
  "isScopelessSessionRoute path =
    (path \<in> set [''/v1/me'', ''/v1/me/sessions'', ''/v1/me/sessions/:session_id'', ''/v1/me/sessions/revoke-others'',
       ''/v1/me/deactivate'', ''/v1/me/reactivate'', ''/v1/me/cancel-deletion'', ''/v1/me/export'',
       ''/v1/me/export/:job_id'', ''/v1/me/export/:job_id/download'', ''/v1/onboarding/start'',
       ''/v1/onboarding/state'', ''/v1/onboarding/complete''])"

text \<open>The tenant or workspace a request asks for: the authenticated one, the key's, or without a key the header's.\<close>

definition request_id :: "bool \<Rightarrow> bool \<Rightarrow> string \<Rightarrow> string \<Rightarrow> string \<Rightarrow> string" where
  "request_id apiKeyAuth bound authenticated boundID header =
    (let x = (if bound \<and> authenticated = '''' then boundID else authenticated)
     in if x = '''' \<and> \<not> apiKeyAuth then header else x)"

definition requestScopeMiddleware :: "string \<Rightarrow> string \<Rightarrow> bool \<Rightarrow> GinContext \<Rightarrow> Reply \<times> GinContext" where
  "requestScopeMiddleware defaultTenantID defaultWorkspaceID explicitScope c =
    (let defaultScope = Normalize_Scope \<lparr>sc_TenantID = defaultTenantID, sc_WorkspaceID = defaultWorkspaceID\<rparr>;
         apiKeyAuth = (authContextString c ''auth.api_key'' \<noteq> '''');
         tenantHeader = trim_space (gin_Header c scopeHeaderTenantID);
         workspaceHeader = trim_space (gin_Header c scopeHeaderWorkspaceID);
         boundTenantID = authContextString c authAPIKeyTenantID;
         boundWorkspaceID = authContextString c authAPIKeyWorkspaceID;
         bound = (apiKeyAuth \<and> (boundTenantID \<noteq> '''' \<or> boundWorkspaceID \<noteq> ''''));
         tenantID = request_id apiKeyAuth bound (authContextString c ''auth.tenant_id'') boundTenantID tenantHeader;
         workspaceID = request_id apiKeyAuth bound (authContextString c ''auth.workspace_id'') boundWorkspaceID workspaceHeader
     in if bound \<and> tenantHeader \<noteq> '''' \<and> (boundTenantID = '''' \<or> tenantHeader \<noteq> boundTenantID) then
          (Abort 403 ''forbidden'', c)
        else if bound \<and> workspaceHeader \<noteq> '''' \<and> (boundWorkspaceID = '''' \<or> workspaceHeader \<noteq> boundWorkspaceID) then
          (Abort 403 ''forbidden'', c)
        else if explicitScope \<and> \<not> isScopelessSessionRoute (gc_FullPath c) \<and> (tenantID = '''' \<or> workspaceID = '''') then
          (Abort 400 ''explicit tenant and workspace scope are required'', c)
        else (Next, c\<lparr>gc_Context := WithScope (gc_Context c)
                \<lparr>sc_TenantID = (if tenantID = '''' then sc_TenantID defaultScope else tenantID),
                 sc_WorkspaceID = (if workspaceID = '''' then sc_WorkspaceID defaultScope else workspaceID)\<rparr>\<rparr>))"

subsection \<open>Laws\<close>

lemma secureKeyEquals_iff [simp]: "secureKeyEquals a b \<longleftrightarrow> a = b"
  by (auto simp: secureKeyEquals_def list_all2_eq [symmetric] list.rel_eq)

lemma keyInList_iff [simp]: "keyInList keys k \<longleftrightarrow> k \<in> set keys"
  by (induction keys) (auto simp: keyInList_def)

lemma scopedKeyBindingLookup_map [simp]: "scopedKeyBindingLookup m k = map_of m k"
  by (induction m) auto

lemma scopedKeyLookup_map [simp]: "scopedKeyLookup m k = map_of m k"
  by (induction m) auto

lemma Normalize_Scope_trim [simp]:
  "trim_space (sc_TenantID (Normalize_Scope s)) = sc_TenantID (Normalize_Scope s)"
  "trim_space (sc_WorkspaceID (Normalize_Scope s)) = sc_WorkspaceID (Normalize_Scope s)"
proof -
  have "trim_space DefaultTenantID = DefaultTenantID" "trim_space DefaultWorkspaceID = DefaultWorkspaceID" by code_simp+
  then show "trim_space (sc_TenantID (Normalize_Scope s)) = sc_TenantID (Normalize_Scope s)"
    "trim_space (sc_WorkspaceID (Normalize_Scope s)) = sc_WorkspaceID (Normalize_Scope s)"
    by (simp_all add: Normalize_Scope_def Let_def)
qed

text \<open>Headers agree with a scope when each is absent or names it.\<close>

definition headers_agree :: "GinContext \<Rightarrow> Scope \<Rightarrow> bool" where
  "headers_agree c s \<longleftrightarrow>
    trim_space (gin_Header c scopeHeaderTenantID) \<in> {'''', sc_TenantID s}
    \<and> trim_space (gin_Header c scopeHeaderWorkspaceID) \<in> {'''', sc_WorkspaceID s}"

text \<open>The four values a bound key leaves on the context.\<close>

definition bind_scope :: "Scope \<Rightarrow> GinContext \<Rightarrow> GinContext" where
  "bind_scope s c =
    gin_Set ''auth.workspace_id'' (StringValue (sc_WorkspaceID s))
     (gin_Set ''auth.tenant_id'' (StringValue (sc_TenantID s))
       (gin_Set authAPIKeyWorkspaceID (StringValue (sc_WorkspaceID s))
         (gin_Set authAPIKeyTenantID (StringValue (sc_TenantID s)) c)))"

lemma applyScopedKeyBinding_spec:
  "applyScopedKeyBinding c b t w =
    (if headers_agree c (Normalize_Scope b) then (True, bind_scope (Normalize_Scope b) c) else (False, c))"
  using Normalize_Scope_nonempty [of b]
  by (auto simp: applyScopedKeyBinding_def Let_def headers_agree_def bind_scope_def)

text \<open>The scope a key is bound to, \<open>None\<close> for a key without one.\<close>

definition key_binding :: "AuthKeys \<Rightarrow> string \<Rightarrow> Scope option" where
  "key_binding auth key =
    (case map_of (au_Scoped auth) key of
       None \<Rightarrow> None
     | Some config \<Rightarrow>
        (case map_of (au_Bindings auth) key of
           Some b \<Rightarrow> Some (Normalize_Scope b)
         | None \<Rightarrow>
            (if ak_TenantID config = '''' \<and> ak_WorkspaceID config = '''' then None
             else Some (Normalize_Scope \<lparr>sc_TenantID = ak_TenantID config, sc_WorkspaceID = ak_WorkspaceID config\<rparr>))))"

text \<open>A key is accepted when it is known, has the binding it needs and no header contradicts it.\<close>

definition key_accepted :: "AuthKeys \<Rightarrow> GinContext \<Rightarrow> bool" where
  "key_accepted auth c \<longleftrightarrow>
    (if map_of (au_Scoped auth) (readAPIKey c) = None then readAPIKey c \<in> set (au_Legacy auth)
     else (au_Bindings auth \<noteq> [] \<longrightarrow> has_key (au_Bindings auth) (readAPIKey c))
       \<and> (case key_binding auth (readAPIKey c) of None \<Rightarrow> True | Some s \<Rightarrow> headers_agree c s))"

definition known_key :: "AuthKeys \<Rightarrow> GinContext \<Rightarrow> bool" where
  "known_key auth c \<longleftrightarrow>
    readAPIKey c \<noteq> '''' \<and> (map_of (au_Scoped auth) (readAPIKey c) \<noteq> None \<or> readAPIKey c \<in> set (au_Legacy auth))"

definition bearer_accepted :: "TokenVerifier option \<Rightarrow> GinContext \<Rightarrow> bool" where
  "bearer_accepted verifier c \<longleftrightarrow>
    readBearerToken c \<noteq> '''' \<and> (case verifier of None \<Rightarrow> False | Some verify \<Rightarrow> is_ok (verify (gc_Context c) (readBearerToken c)))"

definition auth_disabled :: "AuthKeys \<Rightarrow> TokenVerifier option \<Rightarrow> bool \<Rightarrow> bool" where
  "auth_disabled auth verifier requireAuth \<longleftrightarrow>
    au_Scoped auth = [] \<and> au_Legacy auth = [] \<and> verifier = None \<and> \<not> requireAuth"

definition authenticated :: "AuthKeys \<Rightarrow> TokenVerifier option \<Rightarrow> bool \<Rightarrow> GinContext \<Rightarrow> bool" where
  "authenticated auth verifier requireAuth c \<longleftrightarrow>
    auth_disabled auth verifier requireAuth \<or> gin_Get c ''auth.session'' \<noteq> None
    \<or> (if known_key auth c then key_accepted auth c else bearer_accepted verifier c)"

lemma bind_scoped_key_spec:
  assumes "map_of (au_Scoped auth) key = Some config"
  shows "bind_scoped_key (au_Bindings auth) config key c =
    (if au_Bindings auth \<noteq> [] \<and> \<not> has_key (au_Bindings auth) key then (False, c)
     else case key_binding auth key of
       None \<Rightarrow> (True, c)
     | Some s \<Rightarrow> (if headers_agree c s then (True, bind_scope s c) else (False, c)))"
  using assms by (auto simp: bind_scoped_key_def key_binding_def applyScopedKeyBinding_spec has_key_iff split: option.splits)

lemma bearer_spec:
  "fst (authenticate_bearer verifier ws fp c) = Next \<longleftrightarrow> bearer_accepted verifier c"
  "\<not> bearer_accepted verifier c \<Longrightarrow> authenticate_bearer verifier ws fp c = unauthorized fp c"
  by (auto simp: authenticate_bearer_def bearer_accepted_def unauthorized_def split: option.splits sum.splits)

lemma middleware_key:
  assumes "\<not> auth_disabled (auth_keys keys sk skb) verifier ra" "gin_Get c ''auth.session'' = None"
    and "known_key (auth_keys keys sk skb) c"
  shows "apiKeyAuthMiddleware keys sk skb verifier ows fp ra c =
    (if key_accepted (auth_keys keys sk skb) c then
       (Next, setAuditActorOnRequestContext fp
          (let c' = gin_Set ''auth.api_key'' (StringValue (readAPIKey c))
                 (case key_binding (auth_keys keys sk skb) (readAPIKey c) of None \<Rightarrow> c | Some s \<Rightarrow> bind_scope s c)
           in case map_of (au_Scoped (auth_keys keys sk skb)) (readAPIKey c) of
                Some config \<Rightarrow> gin_Set ''auth.scope_set'' (ScopeSetValue (ak_Scopes config)) c' | None \<Rightarrow> c'))
     else unauthorized fp c)"
proof (cases "map_of (au_Scoped (auth_keys keys sk skb)) (readAPIKey c)")
  case None
  with assms show ?thesis
    by (auto simp: apiKeyAuthMiddleware_def Let_def auth_disabled_def known_key_def key_accepted_def key_binding_def)
next
  case (Some config)
  note bind = bind_scoped_key_spec [OF Some, of c]
  from assms Some have "apiKeyAuthMiddleware keys sk skb verifier ows fp ra c =
    (case bind_scoped_key (au_Bindings (auth_keys keys sk skb)) config (readAPIKey c) c of
       (False, c) \<Rightarrow> unauthorized fp c
     | (True, c') \<Rightarrow> (Next, setAuditActorOnRequestContext fp
          (gin_Set ''auth.scope_set'' (ScopeSetValue (ak_Scopes config))
            (gin_Set ''auth.api_key'' (StringValue (readAPIKey c)) c'))))"
    by (auto simp: apiKeyAuthMiddleware_def Let_def auth_disabled_def known_key_def)
  with Some show ?thesis
    by (auto simp: bind key_accepted_def Let_def split: option.splits)
qed

lemma middleware_no_key:
  assumes "\<not> auth_disabled (auth_keys keys sk skb) verifier ra" "gin_Get c ''auth.session'' = None"
    and "\<not> known_key (auth_keys keys sk skb) c"
  shows "apiKeyAuthMiddleware keys sk skb verifier ows fp ra c = authenticate_bearer verifier (newScopeSet ows) fp c"
  using assms by (auto simp: apiKeyAuthMiddleware_def Let_def auth_disabled_def known_key_def split: option.splits)

lemma scope_set_laws:
  "scopeWrite \<in> set (oidc_scope ov s x) \<longleftrightarrow> scopeWrite \<in> set s
     \<or> norm_key x \<in> {scopeAdmin, ''identrail.admin'', scopeWrite, ''identrail.write''} \<or> (norm_key x \<noteq> '''' \<and> norm_key x \<in> set ov)"
  "scopeAdmin \<in> set (oidc_scope ov s x) \<longleftrightarrow> scopeAdmin \<in> set s \<or> norm_key x \<in> {scopeAdmin, ''identrail.admin''}"
  "scopeRead \<in> set (oidc_scope ov s x) \<longleftrightarrow> scopeRead \<in> set s
     \<or> norm_key x \<in> {scopeAdmin, ''identrail.admin'', scopeRead, ''identrail.read''}"
  "set s \<subseteq> {scopeAdmin, scopeWrite, scopeRead} \<Longrightarrow> set (oidc_scope ov s x) \<subseteq> {scopeAdmin, scopeWrite, scopeRead}"
  by (auto simp: oidc_scope_def Let_def add_unique_def)

lemma oidc_scopes_fold:
  "scopeWrite \<in> set (foldl (oidc_scope ov) s xs) \<longleftrightarrow> scopeWrite \<in> set s
     \<or> (\<exists>x\<in>set xs. norm_key x \<in> {scopeAdmin, ''identrail.admin'', scopeWrite, ''identrail.write''} \<or> (norm_key x \<noteq> '''' \<and> norm_key x \<in> set ov))"
  "scopeAdmin \<in> set (foldl (oidc_scope ov) s xs) \<longleftrightarrow> scopeAdmin \<in> set s
     \<or> (\<exists>x\<in>set xs. norm_key x \<in> {scopeAdmin, ''identrail.admin''})"
  "scopeRead \<in> set (foldl (oidc_scope ov) s xs) \<longleftrightarrow> scopeRead \<in> set s
     \<or> (\<exists>x\<in>set xs. norm_key x \<in> {scopeAdmin, ''identrail.admin'', scopeRead, ''identrail.read''})"
  "set s \<subseteq> {scopeAdmin, scopeWrite, scopeRead} \<Longrightarrow> set (foldl (oidc_scope ov) s xs) \<subseteq> {scopeAdmin, scopeWrite, scopeRead}"
  by (induction xs arbitrary: s) (auto simp: scope_set_laws simp del: insert_iff dest!: scope_set_laws(4))

lemma scope_eta [simp]: "\<lparr>sc_TenantID = sc_TenantID s, sc_WorkspaceID = sc_WorkspaceID s\<rparr> = s"
  by simp

lemma authContextString_empty: "gc_Keys c = [] \<Longrightarrow> authContextString c k = ''''"
  by (simp add: authContextString_def gin_Get_def)

lemma bind_scope_reads:
  assumes "gc_Keys c = []"
  shows "authContextString (bind_scope s c) ''auth.tenant_id'' = trim_space (sc_TenantID s)"
    "authContextString (bind_scope s c) ''auth.workspace_id'' = trim_space (sc_WorkspaceID s)"
    "authContextString (bind_scope s c) authAPIKeyTenantID = trim_space (sc_TenantID s)"
    "authContextString (bind_scope s c) authAPIKeyWorkspaceID = trim_space (sc_WorkspaceID s)"
  by (simp_all add: bind_scope_def map_simps)

lemma bind_scope_sel [simp]:
  "gc_Context (bind_scope s c) = gc_Context c" "gin_Header (bind_scope s c) h = gin_Header c h"
  "gc_FullPath (bind_scope s c) = gc_FullPath c"
  by (simp_all add: bind_scope_def)

lemma key_binding_normal: "key_binding auth k = Some s \<Longrightarrow> \<exists>b. s = Normalize_Scope b"
  by (auto simp: key_binding_def split: option.splits if_splits)

text \<open>What the scope middleware does with an API key whose four binding values agree with \<open>s\<close>.\<close>

lemma request_id_auth: "a \<in> {'''', request_id k b a boundID header}"
  by (simp add: request_id_def)

lemma request_scope_bound:
  assumes "authContextString c ''auth.api_key'' \<noteq> ''''" "s = Normalize_Scope b"
    and "authContextString c ''auth.tenant_id'' = sc_TenantID s" "authContextString c ''auth.workspace_id'' = sc_WorkspaceID s"
    and "authContextString c authAPIKeyTenantID = sc_TenantID s" "authContextString c authAPIKeyWorkspaceID = sc_WorkspaceID s"
    and "requestScopeMiddleware dt dw ex c = (Next, c')"
  shows "RequireScope (gc_Context c') = Inr s"
  using assms Normalize_Scope_nonempty [of b]
  by (auto simp: requestScopeMiddleware_def request_id_def Let_def split: if_splits)

lemma request_scope_unbound:
  assumes "authContextString c ''auth.api_key'' \<noteq> ''''"
    and "authContextString c ''auth.tenant_id'' = ''''" "authContextString c ''auth.workspace_id'' = ''''"
    and "authContextString c authAPIKeyTenantID = ''''" "authContextString c authAPIKeyWorkspaceID = ''''"
    and "requestScopeMiddleware dt dw ex c = (Next, c')"
  shows "RequireScope (gc_Context c') = Inr (Normalize_Scope \<lparr>sc_TenantID = dt, sc_WorkspaceID = dw\<rparr>)"
  using assms by (auto simp: requestScopeMiddleware_def request_id_def Let_def split: if_splits)

lemma readAPIKey_trim [simp]: "trim_space (readAPIKey c) = readAPIKey c"
  by (simp add: readAPIKey_def)

lemma known_key_enabled: "known_key auth c \<Longrightarrow> \<not> auth_disabled auth verifier ra"
  by (auto simp: known_key_def auth_disabled_def)

lemma key_scope_pinned:
  assumes "gc_Keys c = []" "known_key (auth_keys keys scopedKeys bindings) c"
    and "apiKeyAuthMiddleware keys scopedKeys bindings verifier writeScopes fp requireAuth c = (Next, c1)"
    and "requestScopeMiddleware defaultTenant defaultWorkspace explicitScope c1 = (Next, c2)"
  shows "RequireScope (gc_Context c2) = Inr (case key_binding (auth_keys keys scopedKeys bindings) (readAPIKey c) of
             Some s \<Rightarrow> s
           | None \<Rightarrow> Normalize_Scope \<lparr>sc_TenantID = defaultTenant, sc_WorkspaceID = defaultWorkspace\<rparr>)
    \<and> (case key_binding (auth_keys keys scopedKeys bindings) (readAPIKey c) of
         Some s \<Rightarrow> headers_agree c s | None \<Rightarrow> True)"
proof -
  let ?auth = "auth_keys keys scopedKeys bindings" and ?k = "readAPIKey c"
  have none: "gin_Get c ''auth.session'' = None" using assms(1) by (simp add: gin_Get_def)
  note key = middleware_key [OF known_key_enabled [OF assms(2)] none assms(2)]
  have k: "?k \<noteq> ''''" using assms(2) by (simp add: known_key_def)
  from assms(3) have acc: "key_accepted ?auth c" by (auto simp: key unauthorized_def split: if_splits)
  have c1: "c1 = setAuditActorOnRequestContext fp
          (let c' = gin_Set ''auth.api_key'' (StringValue ?k)
                 (case key_binding ?auth ?k of None \<Rightarrow> c | Some s \<Rightarrow> bind_scope s c)
           in case map_of (au_Scoped ?auth) ?k of
                Some config \<Rightarrow> gin_Set ''auth.scope_set'' (ScopeSetValue (ak_Scopes config)) c' | None \<Rightarrow> c')"
    using assms(3) acc by (simp add: key)
  have api: "authContextString c1 ''auth.api_key'' \<noteq> ''''"
    using k by (simp add: c1 Let_def map_simps split: option.split)
  show ?thesis
  proof (cases "key_binding ?auth ?k")
    case None
    then have "authContextString c1 j = ''''" if "j \<noteq> ''auth.api_key''" "j \<noteq> ''auth.scope_set''" for j
      using that by (simp add: c1 Let_def map_simps authContextString_empty [OF assms(1)] split: option.split)
    with request_scope_unbound [OF api _ _ _ _ assms(4)] None show ?thesis by simp
  next
    case (Some s)
    with key_binding_normal obtain b where b: "s = Normalize_Scope b" by blast
    have reads: "authContextString c1 j = authContextString (bind_scope s c) j"
      if "j \<noteq> ''auth.api_key''" "j \<noteq> ''auth.scope_set''" for j
      using that Some by (simp add: c1 Let_def map_simps split: option.split)
    have "RequireScope (gc_Context c2) = Inr s"
      by (rule request_scope_bound [OF api b _ _ _ _ assms(4)])
        (simp_all add: reads bind_scope_reads [OF assms(1)], simp_all add: b)
    moreover from acc Some have "headers_agree c s" by (auto simp: key_accepted_def key_binding_def split: option.splits if_splits)
    ultimately show ?thesis using Some by simp
  qed
qed

subsection \<open>Properties\<close>

text \<open>
  C33: who gets through. With authentication configured, a request passes exactly when it has a
  session, an accepted API key or (with no known key) a bearer token the verifier accepts; otherwise
  it is answered 401, nothing is put on its context and one failure is recorded.
\<close>

theorem authentication_decides:
  "if authenticated (auth_keys keys scopedKeys bindings) verifier requireAuth c
   then fst (apiKeyAuthMiddleware keys scopedKeys bindings verifier writeScopes fp requireAuth c) = Next
   else apiKeyAuthMiddleware keys scopedKeys bindings verifier writeScopes fp requireAuth c
          = (Abort 401 ''unauthorized'', recordAuthenticationFailure fp c)"
proof (cases "auth_disabled (auth_keys keys scopedKeys bindings) verifier requireAuth \<or> gin_Get c ''auth.session'' \<noteq> None")
  case True
  then show ?thesis
    by (auto simp: authenticated_def apiKeyAuthMiddleware_def Let_def auth_disabled_def)
next
  case False
  then have open_: "\<not> auth_disabled (auth_keys keys scopedKeys bindings) verifier requireAuth" "gin_Get c ''auth.session'' = None"
    by auto
  show ?thesis
  proof (cases "known_key (auth_keys keys scopedKeys bindings) c")
    case True
    with False show ?thesis
      by (simp add: middleware_key [OF open_ True] authenticated_def unauthorized_def)
  next
    case False
    with open_ bearer_spec(1) [of verifier "newScopeSet writeScopes" fp c]
      bearer_spec(2) [of verifier c "newScopeSet writeScopes" fp] show ?thesis
      by (auto simp: middleware_no_key [OF open_ False] authenticated_def unauthorized_def)
  qed
qed

text \<open>
  C4: an API key decides the scope. When a request with a known API key passes both middlewares, its
  scope is the key's binding (or the server default for a key without one), and no scope header named
  another tenant or workspace: headers never widen a key.
\<close>

theorem api_key_pins_scope:
  assumes "gc_Keys c = []" "known_key (auth_keys keys scopedKeys bindings) c"
    and "apiKeyAuthMiddleware keys scopedKeys bindings verifier writeScopes fp requireAuth c = (Next, c1)"
    and "requestScopeMiddleware defaultTenant defaultWorkspace explicitScope c1 = (Next, c2)"
  shows "RequireScope (gc_Context c2) = Inr (case key_binding (auth_keys keys scopedKeys bindings) (readAPIKey c) of
             Some s \<Rightarrow> s
           | None \<Rightarrow> Normalize_Scope \<lparr>sc_TenantID = defaultTenant, sc_WorkspaceID = defaultWorkspace\<rparr>)
    \<and> (case key_binding (auth_keys keys scopedKeys bindings) (readAPIKey c) of
         Some s \<Rightarrow> headers_agree c s | None \<Rightarrow> True)"
  using assms by (rule key_scope_pinned)

definition key_request :: "string \<Rightarrow> string \<Rightarrow> GinContext" where
  "key_request key tenant =
    \<lparr>gc_Method = ''GET'', gc_FullPath = ''/v1/findings'', gc_URLPath = ''/v1/findings'', gc_Params = [],
     gc_Headers = [(''X-API-Key'', key), (scopeHeaderTenantID, tenant)], gc_Keys = [], gc_Context = None,
     gc_Actor = '''', gc_AuthFailures = []\<rparr>"

definition sample_scoped_keys :: "(string, string list) gomap" where
  "sample_scoped_keys = [(''k1'', [''read'', ''Tenant:acme'', ''workspace:prod''])]"

theorem api_key_pins_scope_witness:
  "\<exists>c1 c2. apiKeyAuthMiddleware [] sample_scoped_keys [] None [] (\<lambda>s. s) True (key_request ''k1'' ''acme'') = (Next, c1)
    \<and> requestScopeMiddleware ''main'' ''main'' True c1 = (Next, c2)
    \<and> RequireScope (gc_Context c2) = Inr \<lparr>sc_TenantID = ''acme'', sc_WorkspaceID = ''prod''\<rparr>"
proof -
  let ?r1 = "apiKeyAuthMiddleware [] sample_scoped_keys [] None [] (\<lambda>s. s) True (key_request ''k1'' ''acme'')"
  let ?r2 = "requestScopeMiddleware ''main'' ''main'' True (snd ?r1)"
  have "fst ?r1 = Next" "fst ?r2 = Next" by code_simp+
  then have runs: "?r1 = (Next, snd ?r1)" "?r2 = (Next, snd ?r2)" by (metis prod.collapse)+
  have known: "known_key (auth_keys [] sample_scoped_keys []) (key_request ''k1'' ''acme'')" by code_simp
  have binding: "key_binding (auth_keys [] sample_scoped_keys []) (readAPIKey (key_request ''k1'' ''acme''))
    = Some \<lparr>sc_TenantID = ''acme'', sc_WorkspaceID = ''prod''\<rparr>" by code_simp
  have "gc_Keys (key_request ''k1'' ''acme'') = []" by (simp add: key_request_def)
  from api_key_pins_scope [OF this known runs] runs show ?thesis by (auto simp: binding)
qed

text \<open>
  The scopes a bearer token gives. Only read, write and admin are ever set; admin needs an admin
  scope of the token and brings the two others, write also comes from the configured override scopes.
\<close>

theorem oidc_token_scopes:
  "let s = scopeSetFromOIDCToken token overrides; claimed = norm_key ` set (vt_Scopes token) in
    set s \<subseteq> {scopeAdmin, scopeWrite, scopeRead}
    \<and> (has_scope s scopeAdmin \<longleftrightarrow> claimed \<inter> {scopeAdmin, ''identrail.admin''} \<noteq> {})
    \<and> (has_scope s scopeWrite \<longleftrightarrow>
         claimed \<inter> ({scopeAdmin, ''identrail.admin'', scopeWrite, ''identrail.write''} \<union> (set overrides - {''''})) \<noteq> {})
    \<and> (has_scope s scopeRead \<longleftrightarrow>
         claimed \<inter> ({scopeAdmin, ''identrail.admin'', scopeWrite, ''identrail.write''} \<union> (set overrides - {''''})
           \<union> {scopeRead, ''identrail.read''}) \<noteq> {})"
proof -
  have hit: "norm_key ` X \<inter> A \<noteq> {} \<longleftrightarrow> (\<exists>x\<in>X. norm_key x \<in> A)" for X A by blast
  have "set (scopeSetFromOIDCToken token overrides) \<subseteq> {scopeAdmin, scopeWrite, scopeRead}"
    unfolding scopeSetFromOIDCToken_def by (rule oidc_scopes_fold(4)) simp
  then show ?thesis
    unfolding Let_def hit has_scope_iff scopeSetFromOIDCToken_def oidc_scopes_fold by auto
qed

text \<open>
  An incomplete binding is completed with the default identifiers, never rejected. The tenant and
  workspace written in the key's own scopes do not take part once the key has a binding, and a key
  scoped to a workspace alone is bound to that workspace of the default tenant.
\<close>

theorem incomplete_binding_is_defaulted:
  "applyScopedKeyBinding c binding tenantID workspaceID = applyScopedKeyBinding c binding '''' ''''
   \<and> snd (applyScopedKeyBinding (key_request ''k1'' '''') \<lparr>sc_TenantID = '''', sc_WorkspaceID = ''prod''\<rparr> ''acme'' '''')
     = bind_scope \<lparr>sc_TenantID = DefaultTenantID, sc_WorkspaceID = ''prod''\<rparr> (key_request ''k1'' '''')"
proof
  show "applyScopedKeyBinding c binding tenantID workspaceID = applyScopedKeyBinding c binding '''' ''''"
    by (simp add: applyScopedKeyBinding_spec)
  show "snd (applyScopedKeyBinding (key_request ''k1'' '''') \<lparr>sc_TenantID = '''', sc_WorkspaceID = ''prod''\<rparr> ''acme'' '''')
     = bind_scope \<lparr>sc_TenantID = DefaultTenantID, sc_WorkspaceID = ''prod''\<rparr> (key_request ''k1'' '''')" by code_simp
qed

end
