(* ===== verification/Rate_Limit.thy ===== *)
theory Rate_Limit
  imports Authentication
begin

section \<open>The per-client rate limiter (internal/api/router.go)\<close>

text \<open>
  One limiter per client key, with a bound on how many are remembered. The token bucket itself
  (golang.org/x/time/rate) is a parameter: \<open>new_limiter interval burst\<close> makes one and \<open>allow_one\<close> asks
  it; the model adds nothing about its answers. The state is the map of entries and the call counter,
  a \<^verbatim>\<open>uint64\<close> that wraps; the mutex makes \<open>allow\<close> one step. Two entries last seen at the same instant
  are evicted in the order in which the map is visited, so the statements hold for every order.
\<close>

record 'l ipLimiterEntry =
  le_limiter :: 'l
  le_lastSeen :: time

record 'l ipRateLimiter =
  rl_limiters :: "(string, 'l ipLimiterEntry) gomap"
  rl_interval :: int
  rl_burst :: int
  rl_entryTTL :: int
  rl_maxEntries :: int
  rl_cleanupEvery :: "64 word"
  rl_allowCount :: "64 word"

definition rateLimiterEntryTTL :: int where "rateLimiterEntryTTL = 15 * 60 * 1000000000"
definition rateLimiterMaxEntries :: int where "rateLimiterMaxEntries = 10000"
definition rateLimiterCleanupTick :: "64 word" where "rateLimiterCleanupTick = 256"

definition newIPRateLimiterWithClock :: "int \<Rightarrow> int \<Rightarrow> int \<Rightarrow> int \<Rightarrow> 64 word \<Rightarrow> 'l ipRateLimiter" where
  "newIPRateLimiterWithClock rpm burst entryTTL maxEntries cleanupEvery =
    (let rpm = (if rpm \<le> 0 then 120 else rpm)
     in \<lparr>rl_limiters = [], rl_interval = 60000000000 div rpm, rl_burst = (if burst \<le> 0 then 20 else burst),
         rl_entryTTL = (if entryTTL \<le> 0 then rateLimiterEntryTTL else entryTTL),
         rl_maxEntries = (if maxEntries \<le> 0 then rateLimiterMaxEntries else maxEntries),
         rl_cleanupEvery = (if cleanupEvery = 0 then rateLimiterCleanupTick else cleanupEvery), rl_allowCount = 0\<rparr>)"

definition newIPRateLimiter :: "int \<Rightarrow> int \<Rightarrow> 'l ipRateLimiter" where
  "newIPRateLimiter rpm burst =
    newIPRateLimiterWithClock rpm burst rateLimiterEntryTTL rateLimiterMaxEntries rateLimiterCleanupTick"

definition evictExpiredLocked :: "time \<Rightarrow> 'l ipRateLimiter \<Rightarrow> 'l ipRateLimiter" where
  "evictExpiredLocked now l =
    l\<lparr>rl_limiters := filter (\<lambda>(ip, entry). \<not> le_lastSeen entry < now - rl_entryTTL l) (rl_limiters l)\<rparr>"

fun oldest :: "string \<Rightarrow> time \<Rightarrow> (string, 'l ipLimiterEntry) gomap \<Rightarrow> string" where
  "oldest oldestIP oldestTime [] = oldestIP"
| "oldest oldestIP oldestTime ((ip, entry) # entries) =
    (if oldestIP = '''' \<or> le_lastSeen entry < oldestTime then oldest ip (le_lastSeen entry) entries
     else oldest oldestIP oldestTime entries)"

definition evictOldestLocked :: "'l ipRateLimiter \<Rightarrow> 'l ipRateLimiter" where
  "evictOldestLocked l =
    (let oldestIP = oldest '''' zero_time (rl_limiters l)
     in if oldestIP \<noteq> '''' then l\<lparr>rl_limiters := map_del oldestIP (rl_limiters l)\<rparr> else l)"

definition cleanup_tick :: "time \<Rightarrow> 'l ipRateLimiter \<Rightarrow> 'l ipRateLimiter" where
  "cleanup_tick now l =
    (let l = l\<lparr>rl_allowCount := rl_allowCount l + 1\<rparr>
     in if 0 < rl_cleanupEvery l \<and> rl_allowCount l mod rl_cleanupEvery l = 0 then evictExpiredLocked now l else l)"

definition limiter_full :: "'l ipRateLimiter \<Rightarrow> bool" where
  "limiter_full l = (rl_maxEntries l \<le> int (length (rl_limiters l)))"

definition make_room :: "time \<Rightarrow> 'l ipRateLimiter \<Rightarrow> 'l ipRateLimiter" where
  "make_room now l =
    (let l = (if limiter_full l then evictExpiredLocked now l else l)
     in if limiter_full l then evictOldestLocked l else l)"

definition put_entry :: "string \<Rightarrow> 'l \<Rightarrow> time \<Rightarrow> 'l ipRateLimiter \<Rightarrow> 'l ipRateLimiter" where
  "put_entry ip limiter now l =
    l\<lparr>rl_limiters := map_put ip \<lparr>le_limiter = limiter, le_lastSeen = now\<rparr> (rl_limiters l)\<rparr>"

definition allow ::
  "(int \<Rightarrow> int \<Rightarrow> 'l) \<Rightarrow> ('l \<Rightarrow> time \<Rightarrow> bool \<times> 'l) \<Rightarrow> time \<Rightarrow> string \<Rightarrow> 'l ipRateLimiter \<Rightarrow> bool \<times> 'l ipRateLimiter" where
  "allow new_limiter allow_one now ip l =
    (let l = cleanup_tick now l
     in case map_of (rl_limiters l) ip of
          None \<Rightarrow>
           (let l = make_room now l;
                (allowed, limiter) = allow_one (new_limiter (rl_interval l) (rl_burst l)) now
            in (allowed, put_entry ip limiter now l))
        | Some entry \<Rightarrow>
           (let (allowed, limiter) = allow_one (le_limiter entry) now
            in (allowed, put_entry ip limiter now l)))"

subsection \<open>The client key and the middleware\<close>

definition isKubernetesAgentHeartbeatRequest :: "GinContext \<Rightarrow> bool" where
  "isKubernetesAgentHeartbeatRequest c =
    (if gc_Method c \<noteq> ''POST'' then False
     else gc_FullPath c = ''/v1/connectors/k8s/heartbeat'' \<or> gc_URLPath c = ''/v1/connectors/k8s/heartbeat'')"

definition rateLimitKey :: "(string \<Rightarrow> string) \<Rightarrow> string \<Rightarrow> GinContext \<Rightarrow> string" where
  "rateLimitKey sha256_prefix clientIP c =
    (let ip = (if trim_space clientIP \<noteq> '''' then trim_space clientIP else ''unknown'')
     in if readAPIKey c \<noteq> '''' then ip @ ''|api''
        else if readBearerToken c \<noteq> '''' then
          (if isKubernetesAgentHeartbeatRequest c then
             ip @ ''|k8s-heartbeat|'' @ sha256_prefix (trim_space (readBearerToken c))
           else ip @ ''|bearer'')
        else ip @ ''|anon'')"

definition rateLimitMiddleware ::
  "(int \<Rightarrow> int \<Rightarrow> 'l) \<Rightarrow> ('l \<Rightarrow> time \<Rightarrow> bool \<times> 'l) \<Rightarrow> (string \<Rightarrow> string) \<Rightarrow> time \<Rightarrow> string \<Rightarrow> GinContext
    \<Rightarrow> 'l ipRateLimiter \<Rightarrow> Reply \<times> 'l ipRateLimiter" where
  "rateLimitMiddleware new_limiter allow_one sha256_prefix now clientIP c limiter =
    (case allow new_limiter allow_one now (rateLimitKey sha256_prefix clientIP c) limiter of
       (False, limiter) \<Rightarrow> (Abort 429 ''rate limit exceeded'', limiter)
     | (True, limiter) \<Rightarrow> (Next, limiter))"

subsection \<open>The invariant\<close>

definition limiter_ok :: "'l ipRateLimiter \<Rightarrow> bool" where
  "limiter_ok l \<longleftrightarrow> 1 \<le> rl_maxEntries l \<and> int (length (rl_limiters l)) \<le> rl_maxEntries l
    \<and> distinct (map fst (rl_limiters l)) \<and> '''' \<notin> fst ` set (rl_limiters l)"

lemma new_limiter_ok: "limiter_ok (newIPRateLimiterWithClock rpm burst ttl n tick)"
  by (simp add: limiter_ok_def newIPRateLimiterWithClock_def Let_def rateLimiterMaxEntries_def)

lemma oldest_in: "oldest a t m \<in> insert a (fst ` set m)"
  by (induction a t m rule: oldest.induct) auto

lemma oldest_found:
  assumes "m \<noteq> []" "'''' \<notin> fst ` set m"
  shows "oldest '''' t m \<in> fst ` set m"
  using assms oldest_in by (cases m) (force, force)

lemma map_del_length:
  assumes "k \<in> fst ` set m"
  shows "length (map_del k m) < length m"
  using assms length_filter_less [of _ m "\<lambda>(k', v). k \<noteq> k'"] by (force simp: map_del_def AList.delete_eq)

lemma map_put_length: "length (map_put k v m) = (if has_key m k then length m else length m + 1)"
  by (induction m) (auto simp: map_put_def has_key_def)

lemma map_of_filter_entries:
  "distinct (map fst m) \<Longrightarrow> map_of (filter P m) k = (case map_of m k of None \<Rightarrow> None | Some v \<Rightarrow> if P (k, v) then Some v else None)"
  by (induction m) (auto split: option.splits simp: map_of_eq_None_iff image_iff)

lemma distinct_filter_keys: "distinct (map fst m) \<Longrightarrow> distinct (map fst (filter P m))"
  by (induction m) auto

text \<open>Whatever the cleanups remove was expired or the table was full.\<close>

definition kept :: "time \<Rightarrow> bool \<Rightarrow> 'l ipRateLimiter \<Rightarrow> 'l ipRateLimiter \<Rightarrow> bool" where
  "kept now full l l' \<longleftrightarrow>
    (\<forall>ip e. map_of (rl_limiters l) ip = Some e \<longrightarrow>
       map_of (rl_limiters l') ip = Some e \<or> le_lastSeen e < now - rl_entryTTL l \<or> full)"

definition same_limits :: "'l ipRateLimiter \<Rightarrow> 'l ipRateLimiter \<Rightarrow> bool" where
  "same_limits l l' \<longleftrightarrow> rl_maxEntries l' = rl_maxEntries l \<and> rl_entryTTL l' = rl_entryTTL l
    \<and> rl_cleanupEvery l' = rl_cleanupEvery l \<and> rl_interval l' = rl_interval l \<and> rl_burst l' = rl_burst l"

lemma evictExpired_ok:
  assumes "limiter_ok l"
  shows "limiter_ok (evictExpiredLocked now l)" "kept now False l (evictExpiredLocked now l)"
    "same_limits l (evictExpiredLocked now l)" "rl_allowCount (evictExpiredLocked now l) = rl_allowCount l"
proof -
  let ?P = "\<lambda>(ip, entry). \<not> le_lastSeen entry < now - rl_entryTTL l"
  have "length (filter ?P (rl_limiters l)) \<le> length (rl_limiters l)" by (rule length_filter_le)
  then have "int (length (filter ?P (rl_limiters l))) \<le> rl_maxEntries l"
    using assms unfolding limiter_ok_def by linarith
  moreover have "'''' \<notin> fst ` set (filter ?P (rl_limiters l))" using assms by (auto simp: limiter_ok_def)
  ultimately show "limiter_ok (evictExpiredLocked now l)"
    using assms distinct_filter_keys [of "rl_limiters l" ?P] by (auto simp: limiter_ok_def evictExpiredLocked_def)
  show "kept now False l (evictExpiredLocked now l)"
    using assms map_of_filter_entries [of "rl_limiters l" ?P]
    by (auto simp: limiter_ok_def evictExpiredLocked_def kept_def)
qed (simp_all add: evictExpiredLocked_def same_limits_def)

lemma evictOldest_ok:
  assumes "limiter_ok l" "rl_limiters l \<noteq> []"
  shows "limiter_ok (evictOldestLocked l)" "same_limits l (evictOldestLocked l)"
    "rl_allowCount (evictOldestLocked l) = rl_allowCount l"
    "length (rl_limiters (evictOldestLocked l)) < length (rl_limiters l)"
proof -
  from assms(1) have k: "'''' \<notin> fst ` set (rl_limiters l)" by (simp add: limiter_ok_def)
  let ?o = "oldest '''' zero_time (rl_limiters l)"
  from oldest_found [OF assms(2) k] have o: "?o \<in> fst ` set (rl_limiters l)" .
  with k have ne: "?o \<noteq> ''''" by (metis (no_types, lifting))
  have less: "length (map_del ?o (rl_limiters l)) < length (rl_limiters l)" by (rule map_del_length [OF o])
  have sub: "fst ` set (map_del ?o (rl_limiters l)) \<subseteq> fst ` set (rl_limiters l)"
    by (auto simp: map_del_def AList.delete_eq)
  show "length (rl_limiters (evictOldestLocked l)) < length (rl_limiters l)"
    using ne less by (simp add: evictOldestLocked_def Let_def)
  show "limiter_ok (evictOldestLocked l)"
    using assms(1) k less ne sub by (auto simp: limiter_ok_def evictOldestLocked_def Let_def distinct_del)
qed (simp_all add: evictOldestLocked_def Let_def same_limits_def)

lemma limiter_put_ok:
  assumes "limiter_ok l" "ip \<noteq> ''''" "has_key (rl_limiters l) ip \<or> int (length (rl_limiters l)) < rl_maxEntries l"
  shows "limiter_ok (l\<lparr>rl_limiters := map_put ip e (rl_limiters l)\<rparr>)"
proof -
  have "fst ` set (map_put ip e (rl_limiters l)) = insert ip (fst ` set (rl_limiters l))"
    by (simp add: map_put_def dom_update)
  moreover have "distinct (map fst (map_put ip e (rl_limiters l)))"
    using assms(1) by (simp add: limiter_ok_def distinct_put)
  moreover have "int (length (map_put ip e (rl_limiters l))) \<le> rl_maxEntries l"
    using assms(1,3) by (auto simp: limiter_ok_def map_put_length)
  ultimately show ?thesis using assms(1,2) by (simp add: limiter_ok_def)
qed


lemma same_limits_trans: "same_limits a b \<Longrightarrow> same_limits b c \<Longrightarrow> same_limits a c"
  by (simp add: same_limits_def)

lemma kept_trans: "kept now f a b \<Longrightarrow> kept now g b c \<Longrightarrow> same_limits a b \<Longrightarrow> kept now (f \<or> g) a c"
  unfolding kept_def same_limits_def by metis

lemma cleanup_tick_ok:
  assumes "limiter_ok l"
  shows "limiter_ok (cleanup_tick now l)" "kept now False l (cleanup_tick now l)" "same_limits l (cleanup_tick now l)"
    "rl_allowCount (cleanup_tick now l) = rl_allowCount l + 1"
    "length (rl_limiters (cleanup_tick now l)) \<le> length (rl_limiters l)"
proof -
  let ?l = "l\<lparr>rl_allowCount := rl_allowCount l + 1\<rparr>"
  have ok: "limiter_ok ?l" using assms by (simp add: limiter_ok_def)
  have len: "length (rl_limiters (evictExpiredLocked now ?l)) \<le> length (rl_limiters l)"
    by (simp add: evictExpiredLocked_def)
  from evictExpired_ok [OF ok, of now] ok len
  show "limiter_ok (cleanup_tick now l)" "kept now False l (cleanup_tick now l)" "same_limits l (cleanup_tick now l)"
    "rl_allowCount (cleanup_tick now l) = rl_allowCount l + 1"
    "length (rl_limiters (cleanup_tick now l)) \<le> length (rl_limiters l)"
    by (simp_all add: cleanup_tick_def Let_def kept_def same_limits_def)
qed

lemma make_room_ok:
  assumes "limiter_ok l"
  shows "limiter_ok (make_room now l)" "kept now (limiter_full l) l (make_room now l)" "same_limits l (make_room now l)"
    "rl_allowCount (make_room now l) = rl_allowCount l" "\<not> limiter_full (make_room now l)"
proof -
  let ?l = "if limiter_full l then evictExpiredLocked now l else l"
  have ok: "limiter_ok ?l" "kept now False l ?l" "same_limits l ?l" "rl_allowCount ?l = rl_allowCount l"
    using assms evictExpired_ok [OF assms, of now] by (simp_all add: kept_def same_limits_def)
  have ne: "limiter_full ?l \<Longrightarrow> rl_limiters ?l \<noteq> []"
    using ok(1) by (auto simp: limiter_full_def limiter_ok_def)
  have full: "limiter_full ?l \<Longrightarrow> limiter_full l" by (simp split: if_splits)
  have room: "make_room now l = (if limiter_full ?l then evictOldestLocked ?l else ?l)"
    by (simp only: make_room_def Let_def)
  show "limiter_ok (make_room now l)" "same_limits l (make_room now l)" "rl_allowCount (make_room now l) = rl_allowCount l"
    unfolding room using ok evictOldest_ok [OF ok(1) ne] same_limits_trans [OF ok(3)]
    by (simp_all del: if_True)
  show "kept now (limiter_full l) l (make_room now l)"
    unfolding room using ok(2) full by (auto simp: kept_def)
  show "\<not> limiter_full (make_room now l)"
    unfolding room using evictOldest_ok [OF ok(1) ne] ok(1)
    by (auto simp: limiter_full_def limiter_ok_def same_limits_def)
qed

text \<open>One call, from any well-formed table.\<close>

definition call_ok :: "time \<Rightarrow> string \<Rightarrow> 'l ipRateLimiter \<Rightarrow> 'l ipRateLimiter \<Rightarrow> bool" where
  "call_ok now ip l l' \<longleftrightarrow>
    limiter_ok l' \<and> same_limits l l' \<and> rl_allowCount l' = rl_allowCount l + 1
    \<and> (\<exists>e. map_of (rl_limiters l') ip = Some e \<and> le_lastSeen e = now)
    \<and> (\<forall>other e. other \<noteq> ip \<longrightarrow> map_of (rl_limiters l) other = Some e \<longrightarrow>
         map_of (rl_limiters l') other = Some e \<or> le_lastSeen e < now - rl_entryTTL l \<or> limiter_full l)"

lemma put_entry_ok:
  assumes "limiter_ok l1" "ip \<noteq> ''''" "has_key (rl_limiters l1) ip \<or> \<not> limiter_full l1"
    and "same_limits l l1" "rl_allowCount l1 = rl_allowCount l + 1" "kept now (limiter_full l) l l1"
  shows "call_ok now ip l (put_entry ip lim now l1)"
  using limiter_put_ok [OF assms(1,2)] assms(3-6)
  by (auto simp: call_ok_def put_entry_def limiter_full_def same_limits_def kept_def)

lemma allow_step:
  assumes "limiter_ok l" "ip \<noteq> ''''"
  shows "call_ok now ip l (snd (allow nl ao now ip l))"
proof -
  note c = cleanup_tick_ok [OF assms(1), of now]
  let ?c = "cleanup_tick now l"
  have full: "limiter_full ?c \<Longrightarrow> limiter_full l"
    using c(3,5) by (simp add: limiter_full_def same_limits_def)
  show ?thesis
  proof (cases "map_of (rl_limiters ?c) ip")
    case (Some entry)
    obtain a lim where "ao (le_limiter entry) now = (a, lim)" by fastforce
    with Some have "snd (allow nl ao now ip l) = put_entry ip lim now ?c" by (simp add: allow_def Let_def)
    moreover have "kept now (limiter_full l) l ?c" using c(2) by (auto simp: kept_def)
    ultimately show ?thesis
      using put_entry_ok [OF c(1) assms(2) disjI1 c(3,4)] Some by (simp add: has_key_def)
  next
    case None
    note m = make_room_ok [OF c(1), of now]
    let ?m = "make_room now ?c"
    obtain a lim where "ao (nl (rl_interval ?m) (rl_burst ?m)) now = (a, lim)" by fastforce
    with None have "snd (allow nl ao now ip l) = put_entry ip lim now ?m" by (simp add: allow_def Let_def)
    moreover have "kept now (limiter_full l) l ?m"
      using kept_trans [OF c(2) m(2) c(3)] full by (auto simp: kept_def)
    ultimately show ?thesis
      using put_entry_ok [OF m(1) assms(2) disjI2 [OF m(5)] same_limits_trans [OF c(3) m(3)]] c(4) m(4) by simp
  qed
qed


lemma rateLimitKey_nonempty: "rateLimitKey sha clientIP c \<noteq> ''''"
  by (auto simp: rateLimitKey_def Let_def)

lemma rateLimitMiddleware_state:
  "snd (rateLimitMiddleware nl ao sha now clientIP c l) = snd (allow nl ao now (rateLimitKey sha clientIP c) l)"
  by (simp add: rateLimitMiddleware_def split: prod.split bool.split)

text \<open>The limiter after a sequence of requests, each with its arrival time and client address.\<close>

definition limiter_after ::
  "(int \<Rightarrow> int \<Rightarrow> 'l) \<Rightarrow> ('l \<Rightarrow> time \<Rightarrow> bool \<times> 'l) \<Rightarrow> (string \<Rightarrow> string) \<Rightarrow> 'l ipRateLimiter
    \<Rightarrow> (time \<times> string \<times> GinContext) list \<Rightarrow> 'l ipRateLimiter" where
  "limiter_after nl ao sha l requests =
    foldl (\<lambda>l (now, clientIP, c). snd (rateLimitMiddleware nl ao sha now clientIP c l)) l requests"

lemma limiter_after_ok:
  assumes "limiter_ok l"
  shows "limiter_ok (limiter_after nl ao sha l requests) \<and> same_limits l (limiter_after nl ao sha l requests)
    \<and> rl_allowCount (limiter_after nl ao sha l requests) = rl_allowCount l + of_nat (length requests)"
  using assms
proof (induction requests arbitrary: l)
  case Nil
  then show ?case by (simp add: limiter_after_def same_limits_def)
next
  case (Cons q requests)
  obtain now clientIP c where q: "q = (now, clientIP, c)" by (cases q) auto
  let ?l = "snd (rateLimitMiddleware nl ao sha now clientIP c l)"
  have step: "call_ok now (rateLimitKey sha clientIP c) l ?l"
    unfolding rateLimitMiddleware_state by (rule allow_step [OF Cons.prems rateLimitKey_nonempty])
  then have ok: "limiter_ok ?l" by (simp add: call_ok_def)
  have "limiter_after nl ao sha l (q # requests) = limiter_after nl ao sha ?l requests"
    by (simp add: limiter_after_def q)
  with Cons.IH [OF ok] step show ?case by (auto simp: call_ok_def intro: same_limits_trans)
qed

text \<open>
  C35: the limiter's memory is bounded and forgets nobody early. After any requests it holds at most
  its maximum of entries, one per key, the call counter has counted them modulo 2^64, and the next
  request leaves its client's entry in the table and changes another client's entry only by removing
  one that was idle longer than the entry lifetime, unless the table was full.
\<close>

theorem rate_limiter_bounded:
  fixes nl :: "int \<Rightarrow> int \<Rightarrow> 'l"
  shows "let l = limiter_after nl ao sha (newIPRateLimiterWithClock rpm burst ttl n tick) requests in
    int (length (rl_limiters l)) \<le> (if n \<le> 0 then 10000 else n) \<and> distinct (map fst (rl_limiters l))
    \<and> rl_allowCount l = of_nat (length requests)
    \<and> call_ok now (rateLimitKey sha clientIP c) l (snd (rateLimitMiddleware nl ao sha now clientIP c l))"
proof -
  let ?new = "newIPRateLimiterWithClock rpm burst ttl n tick :: 'l ipRateLimiter"
  let ?l = "limiter_after nl ao sha ?new requests"
  from limiter_after_ok [OF new_limiter_ok, of nl ao sha rpm burst ttl n tick requests]
  have ok: "limiter_ok ?l" "same_limits ?new ?l" "rl_allowCount ?l = rl_allowCount ?new + of_nat (length requests)"
    by blast+
  have "call_ok now (rateLimitKey sha clientIP c) ?l (snd (rateLimitMiddleware nl ao sha now clientIP c ?l))"
    unfolding rateLimitMiddleware_state by (rule allow_step [OF ok(1) rateLimitKey_nonempty])
  moreover have "rl_maxEntries ?l = (if n \<le> 0 then 10000 else n)"
    using ok(2) by (simp add: same_limits_def newIPRateLimiterWithClock_def Let_def rateLimiterMaxEntries_def)
  ultimately show ?thesis
    using ok(1,3) by (simp add: Let_def limiter_ok_def newIPRateLimiterWithClock_def)
qed

lemma rate_limiter_example:
  "length (rl_limiters (limiter_after (\<lambda>_ _. ()) (\<lambda>u _. (True, u)) (\<lambda>s. s) (newIPRateLimiterWithClock 60 5 0 2 0)
     [(1, ''10.0.0.1'', key_request ''k1'' ''''), (2, ''10.0.0.2'', key_request ''k1'' ''''), (3, ''10.0.0.3'', key_request ''k1'' '''')])) = 2"
  by code_simp

end
