(* ===== verification/Tenancy_Records.thy ===== *)
theory Tenancy_Records
  imports Authz_Records
begin

section \<open>Tenancy and account records and their normalization (internal/db/store.go)\<close>

text \<open>
  Organizations, workspaces, workspace members, accounts, provider identities and browser sessions,
  with the \<^verbatim>\<open>Normalize...ForWrite\<close> functions the adapters apply before a write and the keys of the
  in-memory maps (internal/db/memory_tenancy.go, memory_auth.go). \<open>AccountEnv\<close> adds to \<open>Env\<close> the one
  thing these functions take from a library outside the repository: whether \<^verbatim>\<open>uuid.Parse\<close> accepts a
  text. A byte slice is the list of its bytes. \<^verbatim>\<open>tenancyCompositeKey\<close> writes the length of every part
  before it, and is injective: rows of different workspaces never share a key.
\<close>

record AccountEnv = Env +
  env_UuidParses :: "string \<Rightarrow> bool"

record TenancyOrganization =
  og_TenantID :: string
  og_DisplayName :: string
  og_Slug :: string
  og_CreatedAt :: time
  og_UpdatedAt :: time

record TenancyWorkspace =
  ws_TenantID :: string
  ws_WorkspaceID :: string
  ws_DisplayName :: string
  ws_Slug :: string
  ws_Status :: string
  ws_SuspendedAt :: "time option"
  ws_DeletedAt :: "time option"
  ws_CreatedAt :: time
  ws_UpdatedAt :: time

record TenancyWorkspaceMember =
  mb_TenantID :: string
  mb_WorkspaceID :: string
  mb_MemberID :: string
  mb_UserID :: string
  mb_UserUUID :: string
  mb_Email :: string
  mb_Role :: string
  mb_Status :: string
  mb_JoinedAt :: time
  mb_UpdatedAt :: time

record User =
  us_ID :: string
  us_PrimaryEmail :: string
  us_DisplayName :: string
  us_AvatarURL :: string
  us_Status :: string
  us_CreatedAt :: time
  us_UpdatedAt :: time
  us_DeletedAt :: "time option"

record UserIdentity =
  ui_ID :: string
  ui_UserID :: string
  ui_Provider :: string
  ui_Subject :: string
  ui_Email :: string
  ui_EmailVerified :: bool
  ui_RawClaims :: string
  ui_LastAuthenticatedAt :: time
  ui_CreatedAt :: time

record Session =
  ss_ID :: string
  ss_UserID :: string
  ss_CurrentOrgID :: string
  ss_CurrentWorkspaceID :: string
  ss_CurrentProjectID :: string
  ss_AuthMethod :: string
  ss_IP :: string
  ss_UserAgent :: string
  ss_IdleExpiresAt :: time
  ss_AbsoluteExpiresAt :: time
  ss_LastSeenAt :: time
  ss_RevokedAt :: "time option"
  ss_CreatedAt :: time
  ss_User :: "User option"

abbreviation WorkspaceStatusActive :: string where
  "WorkspaceStatusActive \<equiv> ''active''"

abbreviation WorkspaceStatusSuspended :: string where
  "WorkspaceStatusSuspended \<equiv> ''suspended''"

abbreviation WorkspaceStatusDeleted :: string where
  "WorkspaceStatusDeleted \<equiv> ''deleted''"

definition validTenancyMemberRoles :: "string list" where
  "validTenancyMemberRoles = [''owner'', ''admin'', ''analyst'', ''viewer'']"

definition validTenancyMemberStatuses :: "string list" where
  "validTenancyMemberStatuses = [''invited'', ''active'', ''suspended'', ''removed'']"

definition validUserStatuses :: "string list" where
  "validUserStatuses = [''active'', ''deactivated'', ''deleted'']"

definition validSessionAuthMethods :: "string list" where
  "validSessionAuthMethods = [''workos'', ''oidc'', ''manual'', ''saml'']"

text \<open>\<^verbatim>\<open>24 * time.Hour\<close> and \<^verbatim>\<open>30 * 24 * time.Hour\<close> in nanoseconds.\<close>

definition SessionIdleTimeout :: time where
  "SessionIdleTimeout = 24 * 3600 * 1000000000"

definition UserDeletionGracePeriod :: time where
  "UserDeletionGracePeriod = 30 * 24 * 3600 * 1000000000"

definition WorkspaceDeletionGracePeriod :: time where
  "WorkspaceDeletionGracePeriod = 30 * 24 * 3600 * 1000000000"

text \<open>A workspace and an account of the given status, for the samples of the theories.\<close>

definition plain_workspace :: "string \<Rightarrow> string \<Rightarrow> string \<Rightarrow> TenancyWorkspace" where
  "plain_workspace tenantID workspaceID status =
    \<lparr>ws_TenantID = tenantID, ws_WorkspaceID = workspaceID, ws_DisplayName = workspaceID, ws_Slug = ''workspace'',
     ws_Status = status, ws_SuspendedAt = None, ws_DeletedAt = None, ws_CreatedAt = 1, ws_UpdatedAt = 1\<rparr>"

definition plain_user :: "string \<Rightarrow> string \<Rightarrow> string \<Rightarrow> User" where
  "plain_user userID email status =
    \<lparr>us_ID = userID, us_PrimaryEmail = email, us_DisplayName = '''', us_AvatarURL = '''', us_Status = status,
     us_CreatedAt = 1, us_UpdatedAt = 1, us_DeletedAt = None\<rparr>"

subsection \<open>Tombstones\<close>

definition HardDeletedWorkspaceMarker :: "string \<Rightarrow> string" where
  "HardDeletedWorkspaceMarker workspaceID = ''deleted-workspace:'' @ trim_space workspaceID"

definition IsHardDeletedWorkspaceMarker :: "string \<Rightarrow> bool" where
  "IsHardDeletedWorkspaceMarker identifier = has_prefix (trim_space identifier) ''deleted-workspace:''"

definition HardDeletedTombstoneEmail :: "string \<Rightarrow> string" where
  "HardDeletedTombstoneEmail userID = ''deleted-user+'' @ norm_key userID @ ''@accounts.invalid''"

definition IsHardDeletedTombstoneEmailForUser :: "string \<Rightarrow> string \<Rightarrow> bool" where
  "IsHardDeletedTombstoneEmailForUser email userID =
    equal_fold (trim_space email) (HardDeletedTombstoneEmail userID)"

subsection \<open>Normalization\<close>

text \<open>The pattern \<^verbatim>\<open>^[a-z0-9]+(-[a-z0-9]+)*$\<close>; the flag says that the last character was a letter or digit.\<close>

definition slug_char :: "char \<Rightarrow> bool" where
  "slug_char c = (c \<in> set ''abcdefghijklmnopqrstuvwxyz0123456789'')"

fun slug_from :: "bool \<Rightarrow> string \<Rightarrow> bool" where
  "slug_from closed [] = closed"
| "slug_from closed (c # s) = (if slug_char c then slug_from True s else closed \<and> c = CHR ''-'' \<and> slug_from False s)"

definition validateTenancySlug :: "string \<Rightarrow> string \<Rightarrow> unit result" where
  "validateTenancySlug value field =
    (if 63 < length value then Inl (ErrorText (field @ '' must be 63 characters or fewer''))
     else if \<not> slug_from False value then Inl (ErrorText (field @ '' must match ^[a-z0-9]+(-[a-z0-9]+)*$''))
     else Inr ())"

definition NormalizeTenancyOrganizationForWrite ::
  "AccountEnv \<Rightarrow> TenancyOrganization \<Rightarrow> TenancyOrganization result" where
  "NormalizeTenancyOrganizationForWrite env organization =
    (let tenantID = trim_space (og_TenantID organization);
         displayName = trim_space (og_DisplayName organization);
         slug = norm_key (og_Slug organization)
     in if tenantID = '''' then Inl (ErrorText ''tenant id is required'')
        else if displayName = '''' then Inl (ErrorText ''display name is required'')
        else if slug = '''' then Inl (ErrorText ''slug is required'')
        else rbind (validateTenancySlug slug ''slug'') (\<lambda>_.
          let createdAt = (if og_CreatedAt organization = zero_time then env_Now env else og_CreatedAt organization)
          in Inr (organization\<lparr>og_TenantID := tenantID, og_DisplayName := displayName, og_Slug := slug,
               og_CreatedAt := createdAt,
               og_UpdatedAt := (if og_UpdatedAt organization = zero_time then createdAt else og_UpdatedAt organization)\<rparr>)))"

definition NormalizeTenancyWorkspaceForWrite ::
  "AccountEnv \<Rightarrow> TenancyWorkspace \<Rightarrow> TenancyWorkspace result" where
  "NormalizeTenancyWorkspaceForWrite env workspace =
    (let tenantID = trim_space (ws_TenantID workspace);
         workspaceID = trim_space (ws_WorkspaceID workspace);
         displayName = trim_space (ws_DisplayName workspace);
         slug = norm_key (ws_Slug workspace)
     in if tenantID = '''' then Inl (ErrorText ''tenant id is required'')
        else if workspaceID = '''' then Inl (ErrorText ''workspace id is required'')
        else if displayName = '''' then Inl (ErrorText ''display name is required'')
        else if slug = '''' then Inl (ErrorText ''slug is required'')
        else rbind (validateTenancySlug slug ''slug'') (\<lambda>_.
          let status = trim_space (ws_Status workspace);
              status = (if status = '''' then WorkspaceStatusActive else status);
              createdAt = (if ws_CreatedAt workspace = zero_time then env_Now env else ws_CreatedAt workspace)
          in if status \<notin> set [WorkspaceStatusActive, WorkspaceStatusSuspended, WorkspaceStatusDeleted] then
               Inl (ErrorText (''workspace status '' @ quote_string status @ '' is invalid''))
             else Inr (workspace\<lparr>ws_TenantID := tenantID, ws_WorkspaceID := workspaceID, ws_DisplayName := displayName,
               ws_Slug := slug, ws_Status := status, ws_CreatedAt := createdAt,
               ws_UpdatedAt := (if ws_UpdatedAt workspace = zero_time then createdAt else ws_UpdatedAt workspace)\<rparr>)))"

definition NormalizeTenancyWorkspaceMemberForWrite ::
  "AccountEnv \<Rightarrow> TenancyWorkspaceMember \<Rightarrow> TenancyWorkspaceMember result" where
  "NormalizeTenancyWorkspaceMemberForWrite env member =
    (let tenantID = trim_space (mb_TenantID member);
         workspaceID = trim_space (mb_WorkspaceID member);
         memberID = trim_space (mb_MemberID member);
         userID = trim_space (mb_UserID member);
         role = norm_key (mb_Role member);
         status = norm_key (mb_Status member);
         status = (if status = '''' then ''invited'' else status);
         joinedAt = (if mb_JoinedAt member = zero_time then env_Now env else mb_JoinedAt member)
     in if tenantID = '''' then Inl (ErrorText ''tenant id is required'')
        else if workspaceID = '''' then Inl (ErrorText ''workspace id is required'')
        else if memberID = '''' then Inl (ErrorText ''member id is required'')
        else if userID = '''' then Inl (ErrorText ''user id is required'')
        else if role \<notin> set validTenancyMemberRoles then Inl (ErrorText ''invalid member role'')
        else if status \<notin> set validTenancyMemberStatuses then Inl (ErrorText ''invalid member status'')
        else Inr (member\<lparr>mb_TenantID := tenantID, mb_WorkspaceID := workspaceID, mb_MemberID := memberID,
          mb_UserID := userID, mb_UserUUID := trim_space (mb_UserUUID member), mb_Email := trim_space (mb_Email member),
          mb_Role := role, mb_Status := status, mb_JoinedAt := joinedAt,
          mb_UpdatedAt := (if mb_UpdatedAt member = zero_time then joinedAt else mb_UpdatedAt member)\<rparr>))"

definition NormalizeUserForWrite :: "AccountEnv \<Rightarrow> User \<Rightarrow> User result" where
  "NormalizeUserForWrite env user =
    (let trimmed = trim_space (us_ID user);
         userID = (if trimmed = '''' then env_NewUUID env else trimmed);
         email = norm_key (us_PrimaryEmail user);
         status = norm_key (us_Status user);
         status = (if status = '''' then ''active'' else status);
         createdAt = (if us_CreatedAt user = zero_time then env_Now env else us_CreatedAt user)
     in if trimmed \<noteq> '''' \<and> \<not> env_UuidParses env trimmed then Inl (ErrorText ''invalid user id'')
        else if email = '''' then Inl (ErrorText ''primary email is required'')
        else if status \<notin> set validUserStatuses then Inl (ErrorText ''invalid user status'')
        else Inr (user\<lparr>us_ID := userID, us_PrimaryEmail := email, us_DisplayName := trim_space (us_DisplayName user),
          us_AvatarURL := trim_space (us_AvatarURL user), us_Status := status, us_CreatedAt := createdAt,
          us_UpdatedAt := (if us_UpdatedAt user = zero_time then createdAt else us_UpdatedAt user)\<rparr>))"

definition NormalizeUserIdentityForWrite :: "AccountEnv \<Rightarrow> UserIdentity \<Rightarrow> UserIdentity result" where
  "NormalizeUserIdentityForWrite env identity =
    (let trimmed = trim_space (ui_ID identity);
         identityID = (if trimmed = '''' then env_NewUUID env else trimmed);
         userID = trim_space (ui_UserID identity);
         provider = norm_key (ui_Provider identity);
         subject = trim_space (ui_Subject identity);
         rawClaims = (if ui_RawClaims identity = '''' then ''{}'' else ui_RawClaims identity);
         lastAuthenticatedAt = (if ui_LastAuthenticatedAt identity = zero_time then env_Now env
                                else ui_LastAuthenticatedAt identity)
     in if trimmed \<noteq> '''' \<and> \<not> env_UuidParses env trimmed then Inl (ErrorText ''invalid user identity id'')
        else if \<not> env_UuidParses env userID then Inl (ErrorText ''invalid user id'')
        else if provider = '''' then Inl (ErrorText ''provider is required'')
        else if subject = '''' then Inl (ErrorText ''subject is required'')
        else if \<not> env_JsonValid env rawClaims then Inl (ErrorText ''raw claims must be valid json'')
        else Inr (identity\<lparr>ui_ID := identityID, ui_UserID := userID, ui_Provider := provider, ui_Subject := subject,
          ui_Email := norm_key (ui_Email identity), ui_RawClaims := rawClaims,
          ui_LastAuthenticatedAt := lastAuthenticatedAt,
          ui_CreatedAt := (if ui_CreatedAt identity = zero_time then lastAuthenticatedAt else ui_CreatedAt identity)\<rparr>))"

definition NormalizeSessionForWrite :: "AccountEnv \<Rightarrow> Session \<Rightarrow> Session result" where
  "NormalizeSessionForWrite env session =
    (let userID = trim_space (ss_UserID session);
         authMethod = norm_key (ss_AuthMethod session);
         createdAt = (if ss_CreatedAt session = zero_time then env_Now env else ss_CreatedAt session)
     in if length (ss_ID session) \<noteq> 32 then Inl (ErrorText ''session id hash must be 32 bytes'')
        else if \<not> env_UuidParses env userID then Inl (ErrorText ''invalid user id'')
        else if authMethod \<notin> set validSessionAuthMethods then Inl (ErrorText ''invalid auth method'')
        else if ss_IdleExpiresAt session = zero_time then Inl (ErrorText ''idle expiry is required'')
        else if ss_AbsoluteExpiresAt session = zero_time then Inl (ErrorText ''absolute expiry is required'')
        else Inr (session\<lparr>ss_UserID := userID, ss_CurrentOrgID := trim_space (ss_CurrentOrgID session),
          ss_CurrentWorkspaceID := trim_space (ss_CurrentWorkspaceID session),
          ss_CurrentProjectID := trim_space (ss_CurrentProjectID session), ss_AuthMethod := authMethod,
          ss_IP := trim_space (ss_IP session), ss_UserAgent := trim_space (ss_UserAgent session),
          ss_CreatedAt := createdAt,
          ss_LastSeenAt := (if ss_LastSeenAt session = zero_time then createdAt else ss_LastSeenAt session)\<rparr>))"

subsection \<open>Keys\<close>

definition composite_part :: "string \<Rightarrow> string" where
  "composite_part part = int_string (int (length part)) @ '':'' @ part @ ''|''"

definition tenancyCompositeKey :: "string list \<Rightarrow> string" where
  "tenancyCompositeKey parts = concat (map composite_part parts)"

definition tenancyWorkspaceKey :: "string \<Rightarrow> string \<Rightarrow> string" where
  "tenancyWorkspaceKey tenantID workspaceID = tenancyCompositeKey [trim_space tenantID, trim_space workspaceID]"

definition tenancyMemberKey :: "string \<Rightarrow> string \<Rightarrow> string \<Rightarrow> string" where
  "tenancyMemberKey tenantID workspaceID memberID =
    tenancyCompositeKey [trim_space tenantID, trim_space workspaceID, trim_space memberID]"

definition userIdentityLookupKey :: "string \<Rightarrow> string \<Rightarrow> string" where
  "userIdentityLookupKey provider subject = norm_key provider @ [CHR 0x00] @ trim_space subject"

text \<open>\<^verbatim>\<open>hex.EncodeToString\<close>.\<close>

definition sessionHashKey :: "string \<Rightarrow> string" where
  "sessionHashKey hash = concat (map (\<lambda>b. [hex_char (of_char b div 16), hex_char (of_char b mod 16)]) hash)"


subsection \<open>Laws of the keys\<close>

lemma digit_char_no_colon: "digit_char d \<noteq> CHR '':''"
proof -
  have "list_all (\<lambda>d. digit_char d \<noteq> CHR '':'') [0..<10]" by code_simp
  then have "digit_char (d mod 10) \<noteq> CHR '':''" by (simp add: list_all_iff)
  then show ?thesis by (simp add: digit_char_def)
qed

lemma nat_string_no_colon: "CHR '':'' \<notin> set (nat_string n)"
proof (induction n rule: less_induct)
  case (less n)
  then have "10 \<le> n \<Longrightarrow> CHR '':'' \<notin> set (nat_string (n div 10))" by simp
  then show ?case
    using digit_char_no_colon by (subst nat_string.simps) (auto simp: eq_commute)
qed

lemma takeWhile_colon: "takeWhile (\<lambda>c. c \<noteq> CHR '':'') (nat_string n @ CHR '':'' # s) = nat_string n"
  using nat_string_no_colon [of n] by (subst takeWhile_append2) auto

lemma dropWhile_colon: "dropWhile (\<lambda>c. c \<noteq> CHR '':'') (nat_string n @ CHR '':'' # s) = CHR '':'' # s"
  using nat_string_no_colon [of n] by (subst dropWhile_append2) auto

lemma composite_part_prefix:
  assumes "composite_part p @ s = composite_part q @ t"
  shows "p = q \<and> s = t"
proof -
  have e: "nat_string (length p) @ CHR '':'' # p @ ''|'' @ s = nat_string (length q) @ CHR '':'' # q @ ''|'' @ t"
    using assms by (simp add: composite_part_def int_string_def)
  then have "nat_string (length p) = nat_string (length q)"
    using takeWhile_colon [of "length p"] takeWhile_colon [of "length q"] by metis
  then have l: "length p = length q" by (metis decimal_value_nat_string)
  with e have "p @ ''|'' @ s = q @ ''|'' @ t" by simp
  with l show ?thesis by simp
qed

lemma composite_part_not_Nil [simp]: "composite_part p \<noteq> []"
  by (simp add: composite_part_def)

lemma tenancyCompositeKey_inj [simp]: "tenancyCompositeKey ps = tenancyCompositeKey qs \<longleftrightarrow> ps = qs"
proof -
  have "tenancyCompositeKey ps = tenancyCompositeKey qs \<Longrightarrow> ps = qs"
  proof (induction ps arbitrary: qs)
    case Nil
    then show ?case by (cases qs) (simp_all add: tenancyCompositeKey_def)
  next
    case (Cons p ps)
    then obtain q qs' where q: "qs = q # qs'" by (cases qs) (simp_all add: tenancyCompositeKey_def)
    with Cons.prems have "composite_part p @ tenancyCompositeKey ps = composite_part q @ tenancyCompositeKey qs'"
      by (simp add: tenancyCompositeKey_def)
    from composite_part_prefix [OF this] Cons.IH [of qs'] q show ?case by blast
  qed
  then show ?thesis by blast
qed

lemma workspace_key_eq [simp]:
  "tenancyWorkspaceKey t w = tenancyWorkspaceKey t' w' \<longleftrightarrow> trim_space t = trim_space t' \<and> trim_space w = trim_space w'"
  by (auto simp: tenancyWorkspaceKey_def)

lemma member_key_eq [simp]:
  "tenancyMemberKey t w m = tenancyMemberKey t' w' m' \<longleftrightarrow>
    trim_space t = trim_space t' \<and> trim_space w = trim_space w' \<and> trim_space m = trim_space m'"
  by (auto simp: tenancyMemberKey_def)

text \<open>Looking a row up under the key of its own identifiers, written with or without spaces.\<close>

lemma workspace_key_trim [simp]:
  "tenancyWorkspaceKey (trim_space t) w = tenancyWorkspaceKey t w"
  "tenancyWorkspaceKey t (trim_space w) = tenancyWorkspaceKey t w"
  by simp_all

subsection \<open>Laws of the normalizers\<close>

definition wf_workspace :: "TenancyWorkspace \<Rightarrow> bool" where
  "wf_workspace w \<longleftrightarrow> trim_space (ws_TenantID w) = ws_TenantID w \<and> ws_TenantID w \<noteq> ''''
    \<and> trim_space (ws_WorkspaceID w) = ws_WorkspaceID w \<and> ws_WorkspaceID w \<noteq> ''''
    \<and> ws_Status w \<in> set [WorkspaceStatusActive, WorkspaceStatusSuspended, WorkspaceStatusDeleted]"

definition wf_member :: "TenancyWorkspaceMember \<Rightarrow> bool" where
  "wf_member m \<longleftrightarrow> trim_space (mb_TenantID m) = mb_TenantID m \<and> mb_TenantID m \<noteq> ''''
    \<and> trim_space (mb_WorkspaceID m) = mb_WorkspaceID m \<and> mb_WorkspaceID m \<noteq> ''''
    \<and> trim_space (mb_MemberID m) = mb_MemberID m \<and> mb_MemberID m \<noteq> ''''
    \<and> trim_space (mb_UserUUID m) = mb_UserUUID m
    \<and> mb_Role m \<in> set validTenancyMemberRoles \<and> mb_Status m \<in> set validTenancyMemberStatuses"

definition wf_user :: "AccountEnv \<Rightarrow> User \<Rightarrow> bool" where
  "wf_user env u \<longleftrightarrow> (us_ID u = env_NewUUID env \<or> (env_UuidParses env (us_ID u) \<and> trim_space (us_ID u) = us_ID u))
    \<and> norm_key (us_PrimaryEmail u) = us_PrimaryEmail u \<and> us_PrimaryEmail u \<noteq> '''' \<and> us_Status u \<in> set validUserStatuses"

lemma normalized_workspace:
  assumes "NormalizeTenancyWorkspaceForWrite env w = Inr n"
  shows "wf_workspace n" "ws_TenantID n = trim_space (ws_TenantID w)" "ws_WorkspaceID n = trim_space (ws_WorkspaceID w)"
    "ws_SuspendedAt n = ws_SuspendedAt w" "ws_DeletedAt n = ws_DeletedAt w"
    "trim_space (ws_Status w) = '''' \<Longrightarrow> ws_Status n = WorkspaceStatusActive"
    "trim_space (ws_Status w) \<noteq> '''' \<Longrightarrow> ws_Status n = trim_space (ws_Status w)"
  using assms
  by (auto simp: NormalizeTenancyWorkspaceForWrite_def wf_workspace_def Let_def rbind_Inr_iff split: if_splits)

lemma normalized_member:
  assumes "NormalizeTenancyWorkspaceMemberForWrite env m = Inr n"
  shows "wf_member n" "mb_TenantID n = trim_space (mb_TenantID m)" "mb_WorkspaceID n = trim_space (mb_WorkspaceID m)"
    "mb_MemberID n = trim_space (mb_MemberID m)" "mb_UserUUID n = trim_space (mb_UserUUID m)"
  using assms
  by (auto simp: NormalizeTenancyWorkspaceMemberForWrite_def wf_member_def Let_def split: if_splits)

lemma normalized_user:
  assumes "NormalizeUserForWrite env u = Inr n"
  shows "wf_user env n" "us_PrimaryEmail n = norm_key (us_PrimaryEmail u)" "us_DeletedAt n = us_DeletedAt u"
    "us_ID n = (if trim_space (us_ID u) = '''' then env_NewUUID env else trim_space (us_ID u))"
  using assms by (auto simp: NormalizeUserForWrite_def wf_user_def Let_def norm_key_eq_Nil split: if_splits)

lemma normalized_identity:
  assumes "NormalizeUserIdentityForWrite env i = Inr n"
  shows "norm_key (ui_Provider n) = ui_Provider n" "ui_Provider n = norm_key (ui_Provider i)"
    "ui_Subject n = trim_space (ui_Subject i)" "ui_Subject n \<noteq> ''''" "ui_UserID n = trim_space (ui_UserID i)"
    "ui_ID n = (if trim_space (ui_ID i) = '''' then env_NewUUID env else trim_space (ui_ID i))"
  using assms by (auto simp: NormalizeUserIdentityForWrite_def Let_def split: if_splits)

lemma normalized_session:
  assumes "NormalizeSessionForWrite env s = Inr n"
  shows "ss_ID n = ss_ID s" "length (ss_ID n) = 32" "ss_UserID n = trim_space (ss_UserID s)"
    "ss_IdleExpiresAt n = ss_IdleExpiresAt s" "ss_AbsoluteExpiresAt n = ss_AbsoluteExpiresAt s"
    "ss_RevokedAt n = ss_RevokedAt s"
  using assms by (auto simp: NormalizeSessionForWrite_def Let_def split: if_splits)

text \<open>Byte slices and their keys determine each other.\<close>

lemma hex_char_inj: "i < 16 \<Longrightarrow> j < 16 \<Longrightarrow> hex_char i = hex_char j \<Longrightarrow> i = j"
proof -
  have "list_all (\<lambda>i. list_all (\<lambda>j. hex_char i = hex_char j \<longrightarrow> i = j) [0..<16]) [0..<16]" by code_simp
  then show "i < 16 \<Longrightarrow> j < 16 \<Longrightarrow> hex_char i = hex_char j \<Longrightarrow> i = j" by (simp add: list_all_iff)
qed

lemma byte_of_hex:
  fixes a b :: char
  assumes "hex_char (of_char a div 16) = hex_char (of_char b div 16)" "hex_char (of_char a mod 16) = hex_char (of_char b mod 16)"
  shows "a = b"
proof -
  have lt: "of_char c div 16 < (16::nat)" for c :: char
    by (simp add: div_less_iff_less_mult of_char_def)
  from hex_char_inj [OF lt lt assms(1)] have d: "of_char a div 16 = (of_char b div 16 :: nat)" .
  from assms(2) have "of_char a mod 16 = (of_char b mod 16 :: nat)" by (intro hex_char_inj) simp_all
  with d have "of_char a = (of_char b :: nat)" by (metis div_mult_mod_eq)
  then show ?thesis by simp
qed

lemma sessionHashKey_inj [simp]: "sessionHashKey a = sessionHashKey b \<longleftrightarrow> a = b"
proof -
  have "sessionHashKey a = sessionHashKey b \<Longrightarrow> a = b"
  proof (induction a arbitrary: b)
    case Nil
    then show ?case by (cases b) (simp_all add: sessionHashKey_def)
  next
    case (Cons x a)
    then obtain y b' where b: "b = y # b'" by (cases b) (simp_all add: sessionHashKey_def)
    with Cons.prems have "x = y" "sessionHashKey a = sessionHashKey b'"
      by (auto simp: sessionHashKey_def intro: byte_of_hex)
    with Cons.IH b show ?case by blast
  qed
  then show ?thesis by blast
qed

end
