(* ===== verification/Authz_Roles.thy ===== *)
theory Authz_Roles
  imports Rate_Limit Tenancy_Records
begin

section \<open>From the authenticated request to policy roles (internal/api/authz_middleware.go, service.go)\<close>

text \<open>
  The accounts and memberships the middleware reads are behind the store interface; \<open>AccountStore\<close> is
  a record of the operations it calls. \<open>policyRolesFromAuthWithStore\<close> computes the roles the policy
  engine sees. Go sets of roles are lists without duplicates, their iteration order is lost in the
  final sort. The gin context is never nil here: the middlewares are handed a live one.
\<close>

record AccountStore =
  as_GetWorkspaceMemberByUserUUID :: "Context \<Rightarrow> string \<Rightarrow> string \<Rightarrow> TenancyWorkspaceMember result"
  as_GetWorkspaceMemberByUserID :: "Context \<Rightarrow> string \<Rightarrow> string \<Rightarrow> TenancyWorkspaceMember result"
  as_GetUser :: "Context \<Rightarrow> string \<Rightarrow> User result"
  as_GetUserIdentity :: "Context \<Rightarrow> string \<Rightarrow> string \<Rightarrow> UserIdentity result"
  as_GetUserIdentityBySubject :: "Context \<Rightarrow> string \<Rightarrow> UserIdentity result"
  as_GetWorkspace :: "Context \<Rightarrow> string \<Rightarrow> TenancyWorkspace result"
  as_GetAuthzEntityAttributes :: "Context \<Rightarrow> string \<Rightarrow> string \<Rightarrow> string \<Rightarrow> AuthzEntityAttributes result"

subsection \<open>Accounts and memberships (internal/api/service.go)\<close>

definition workspaceMemberAccountIsActive :: "Context \<Rightarrow> AccountStore \<Rightarrow> TenancyWorkspaceMember \<Rightarrow> bool result" where
  "workspaceMemberAccountIsActive ctx store member =
    (if norm_key (mb_Status member) \<noteq> ''active'' \<or> trim_space (mb_UserUUID member) = '''' then Inr False
     else case as_GetUser store ctx (mb_UserUUID member) of
       Inl err \<Rightarrow> (if errors_is err ErrNotFound then Inr False else Inl err)
     | Inr user \<Rightarrow> Inr (equal_fold (trim_space (us_Status user)) ''active''))"

definition lookupUserIdentityBySubject :: "Context \<Rightarrow> AccountStore \<Rightarrow> string \<Rightarrow> UserIdentity result" where
  "lookupUserIdentityBySubject ctx store subject =
    (let issuer = SubjectIssuer ctx
     in if issuer \<noteq> '''' then as_GetUserIdentity store ctx (''oidc:'' @ issuer) subject
        else as_GetUserIdentityBySubject store ctx subject)"

text \<open>The membership known by the provider subject only (the branch after a missing row by UUID).\<close>

definition legacy_membership ::
  "Context \<Rightarrow> AccountStore \<Rightarrow> string \<Rightarrow> string \<Rightarrow> string \<Rightarrow> TenancyWorkspaceMember option result" where
  "legacy_membership ctx store workspaceID subject userUUID =
    (case as_GetWorkspaceMemberByUserID store ctx workspaceID subject of
       Inl err \<Rightarrow> (if errors_is err ErrNotFound then Inr None else Inl err)
     | Inr legacy \<Rightarrow>
        (case as_GetUser store ctx userUUID of
           Inl err \<Rightarrow> (if errors_is err ErrNotFound then Inr (Some (legacy\<lparr>mb_Status := ''suspended''\<rparr>)) else Inl err)
         | Inr user \<Rightarrow>
            (if \<not> equal_fold (trim_space (us_Status user)) ''active'' \<or> norm_key (mb_Status legacy) \<noteq> ''active'' then
               Inr (Some (legacy\<lparr>mb_UserUUID := us_ID user, mb_Status := ''suspended''\<rparr>))
             else Inr (Some (legacy\<lparr>mb_UserUUID := us_ID user\<rparr>)))))"

definition lookupWorkspaceMemberForIdentity ::
  "Context \<Rightarrow> AccountStore \<Rightarrow> string \<Rightarrow> string \<Rightarrow> string \<Rightarrow> TenancyWorkspaceMember option result" where
  "lookupWorkspaceMemberForIdentity ctx store workspaceID subject userUUID =
    (case as_GetWorkspaceMemberByUserUUID store ctx workspaceID userUUID of
       Inr member \<Rightarrow>
        (case workspaceMemberAccountIsActive ctx store member of
           Inl err \<Rightarrow> Inl err
         | Inr active \<Rightarrow> Inr (Some (if active then member else member\<lparr>mb_Status := ''suspended''\<rparr>)))
     | Inl err \<Rightarrow>
        (if \<not> errors_is err ErrNotFound then Inl err
         else case as_GetUserIdentityBySubject store ctx subject of
           Inl identityErr \<Rightarrow>
            (if errors_is identityErr ErrConflict then Inr None
             else if \<not> errors_is identityErr ErrNotFound then Inl identityErr
             else legacy_membership ctx store workspaceID subject userUUID)
         | Inr _ \<Rightarrow> legacy_membership ctx store workspaceID subject userUUID))"

definition trustedMembershipAccountIsActive :: "Context \<Rightarrow> AccountStore \<Rightarrow> TenancyWorkspaceMember \<Rightarrow> bool" where
  "trustedMembershipAccountIsActive ctx store member =
    (case workspaceMemberAccountIsActive ctx store member of Inl _ \<Rightarrow> False | Inr active \<Rightarrow> active)"

definition trustedWorkspaceMembership :: "GinContext \<Rightarrow> AccountStore option \<Rightarrow> TenancyWorkspaceMember option result" where
  "trustedWorkspaceMembership c store =
    (case store of
       None \<Rightarrow> Inr None
     | Some store \<Rightarrow>
        (let subject = authContextString c ''auth.subject''; scope = ScopeFromContext (gc_Context c);
             scopedCtx = WithScope (gc_Context c) scope
         in if subject = '''' then Inr None
            else if trim_space (sc_TenantID scope) = '''' \<or> trim_space (sc_WorkspaceID scope) = '''' then Inr None
            else if SubjectSource scopedCtx = ''session'' then
              (case as_GetWorkspaceMemberByUserUUID store scopedCtx (sc_WorkspaceID scope) subject of
                 Inr member \<Rightarrow>
                   Inr (Some (if trustedMembershipAccountIsActive scopedCtx store member then member
                              else member\<lparr>mb_Status := ''suspended''\<rparr>))
               | Inl err \<Rightarrow> (if errors_is err ErrNotFound then Inr None else Inl err))
            else case lookupUserIdentityBySubject scopedCtx store subject of
              Inr identity \<Rightarrow>
                lookupWorkspaceMemberForIdentity scopedCtx store (sc_WorkspaceID scope) subject (ui_UserID identity)
            | Inl err \<Rightarrow>
                (if errors_is err ErrConflict \<or> errors_is err ErrNotFound then Inr None else Inl err)))"

definition hasWorkspaceScope :: "GinContext \<Rightarrow> bool" where
  "hasWorkspaceScope c =
    (let scope = ScopeFromContext (gc_Context c)
     in trim_space (sc_TenantID scope) \<noteq> '''' \<and> trim_space (sc_WorkspaceID scope) \<noteq> '''')"

subsection \<open>Roles\<close>

definition authClaimRoles :: "GinContext \<Rightarrow> string list" where
  "authClaimRoles c =
    (case gin_Get c ''auth.roles'' of
       Some (StringsValue typed) \<Rightarrow> typed
     | Some (AnyValues typed) \<Rightarrow> List.map_filter (\<lambda>item. item) typed
     | _ \<Rightarrow> [])"

definition normalizeKeyList :: "string list \<Rightarrow> string list" where
  "normalizeKeyList keys = List.map_filter (\<lambda>key. nonempty (trim_space key)) keys"

definition scope_roles :: "GinContext \<Rightarrow> string list" where
  "scope_roles c =
    (case gin_Get c ''auth.scope_set'' of
       Some (ScopeSetValue scopes) \<Rightarrow> filter (has_scope scopes) [scopeAdmin, scopeWrite, scopeRead]
     | _ \<Rightarrow> [])"

definition claimable_roles :: "string list" where
  "claimable_roles = [''authenticated'', ''owner'', ''admin'', ''analyst'', ''viewer'', scopeRead, scopeWrite]"

definition claim_roles :: "GinContext \<Rightarrow> string list" where
  "claim_roles c = filter (\<lambda>role. role \<in> set claimable_roles) (map norm_key (authClaimRoles c))"

definition delete_roles :: "string list \<Rightarrow> string list \<Rightarrow> string list" where
  "delete_roles removed roles = filter (\<lambda>role. role \<notin> set removed) roles"

definition policyRolesFromAuthWithStore ::
  "GinContext \<Rightarrow> string list \<Rightarrow> (string, string list) gomap \<Rightarrow> AccountStore option \<Rightarrow> string list" where
  "policyRolesFromAuthWithStore c writeKeys scopedKeys store =
    (let roles = foldl (\<lambda>acc r. add_unique r acc) [] (scope_roles c @ claim_roles c);
         legacyKey = authContextString c ''auth.api_key''
     in case trustedWorkspaceMembership c store of
          Inl _ \<Rightarrow> [''authenticated'']
        | Inr found \<Rightarrow>
           (let roles = (case found of
                Some member \<Rightarrow>
                 (let roles = add_unique ''authenticated''
                        (delete_roles [''owner'', ''admin'', ''analyst'', ''viewer'', scopeRead, scopeWrite, scopeAdmin] roles)
                  in if equal_fold (trim_space (mb_Status member)) ''active'' \<and> norm_key (mb_Role member) \<noteq> '''' then
                       add_unique (norm_key (mb_Role member)) roles
                     else roles)
              | None \<Rightarrow>
                 (if store \<noteq> None \<and> authContextString c ''auth.subject'' \<noteq> '''' \<and> hasWorkspaceScope c then
                    delete_roles [''owner'', ''admin'', ''analyst'', ''viewer''] (add_unique ''authenticated'' roles)
                  else roles))
            in if roles \<noteq> [] then sort roles
               else if legacyKey = '''' then []
               else if scopedKeys \<noteq> [] then []
               else if keyInList writeKeys legacyKey then [scopeRead, scopeWrite] else [scopeRead]))"

definition policyRolesFromAuth :: "GinContext \<Rightarrow> string list \<Rightarrow> (string, string list) gomap \<Rightarrow> string list" where
  "policyRolesFromAuth c writeKeys scopedKeys = policyRolesFromAuthWithStore c writeKeys scopedKeys None"

definition requireMetricsScopeMiddleware :: "string list \<Rightarrow> (string, string list) gomap \<Rightarrow> GinContext \<Rightarrow> Reply" where
  "requireMetricsScopeMiddleware writeKeys scopedKeys c =
    (if list_ex (\<lambda>role. role = scopeWrite \<or> role = scopeAdmin)
          (policyRolesFromAuth c (normalizeKeyList writeKeys) scopedKeys)
     then Next else Abort 403 ''forbidden'')"

subsection \<open>Laws\<close>

lemma set_fold_add_unique: "set (foldl (\<lambda>acc r. add_unique r acc) acc xs) = set acc \<union> set xs"
  by (induction xs arbitrary: acc) (auto simp: add_unique_def)

lemma set_delete_roles [simp]: "set (delete_roles ds rs) = set rs - set ds"
  by (auto simp: delete_roles_def)

lemma hasWorkspaceScope_always [simp]: "hasWorkspaceScope c"
proof -
  have "trim_space (sc_TenantID (ScopeFromContext ctx)) = sc_TenantID (ScopeFromContext ctx)"
    "trim_space (sc_WorkspaceID (ScopeFromContext ctx)) = sc_WorkspaceID (ScopeFromContext ctx)" for ctx
    using Normalize_Scope_trim [of "ScopeFromContext ctx"] by simp_all
  then show ?thesis by (simp add: hasWorkspaceScope_def Let_def)
qed

lemma workspaceMemberAccountIsActive_Inr:
  "workspaceMemberAccountIsActive ctx store m = Inr True \<Longrightarrow>
    norm_key (mb_Status m) = ''active'' \<and> (\<exists>u. as_GetUser store ctx (mb_UserUUID m) = Inr u \<and> equal_fold (trim_space (us_Status u)) ''active'')"
  by (auto simp: workspaceMemberAccountIsActive_def split: if_splits sum.splits)

text \<open>A membership that counts as active has an active account behind it.\<close>

definition backed_by_account :: "AccountStore \<Rightarrow> Context \<Rightarrow> bool" where
  "backed_by_account store ctx \<longleftrightarrow>
    (\<exists>uid u. as_GetUser store ctx uid = Inr u \<and> equal_fold (trim_space (us_Status u)) ''active'')"

definition member_active :: "TenancyWorkspaceMember \<Rightarrow> bool" where
  "member_active m = equal_fold (trim_space (mb_Status m)) ''active''"

lemma suspended_inactive [simp]: "\<not> member_active (m\<lparr>mb_Status := ''suspended''\<rparr>)"
proof -
  have "\<not> equal_fold (trim_space ''suspended'') ''active''" by code_simp
  then show ?thesis by (simp add: member_active_def)
qed

lemma suspended_uuid_inactive [simp]: "\<not> member_active (m\<lparr>mb_UserUUID := u, mb_Status := ''suspended''\<rparr>)"
  using suspended_inactive [of "m\<lparr>mb_UserUUID := u\<rparr>"] by simp

lemma legacy_membership_active:
  "legacy_membership ctx store w subject uid = Inr (Some m) \<Longrightarrow> member_active m \<Longrightarrow> backed_by_account store ctx"
  by (auto simp: legacy_membership_def backed_by_account_def split: sum.splits if_splits)

lemma lookup_member_active:
  assumes "lookupWorkspaceMemberForIdentity ctx store w subject uid = Inr (Some m)" "member_active m"
  shows "backed_by_account store ctx"
proof (cases "as_GetWorkspaceMemberByUserUUID store ctx w uid")
  case (Inl err)
  with assms legacy_membership_active show ?thesis
    by (auto simp: lookupWorkspaceMemberForIdentity_def split: sum.splits if_splits)
next
  case (Inr member)
  with assms obtain active where a: "workspaceMemberAccountIsActive ctx store member = Inr active"
    "m = (if active then member else member\<lparr>mb_Status := ''suspended''\<rparr>)"
    by (auto simp: lookupWorkspaceMemberForIdentity_def split: sum.splits)
  with assms(2) have active by (auto split: if_splits)
  with workspaceMemberAccountIsActive_Inr [of ctx store member] a(1) show ?thesis
    by (auto simp: backed_by_account_def)
qed

lemma trusted_member_active:
  assumes "trustedWorkspaceMembership c (Some store) = Inr (Some m)" "member_active m"
  shows "backed_by_account store (WithScope (gc_Context c) (ScopeFromContext (gc_Context c)))"
proof -
  let ?ctx = "WithScope (gc_Context c) (ScopeFromContext (gc_Context c))"
  let ?w = "sc_WorkspaceID (ScopeFromContext (gc_Context c))" and ?s = "authContextString c ''auth.subject''"
  show ?thesis
  proof (cases "SubjectSource ?ctx = ''session''")
    case True
    with assms(1) have "trustedMembershipAccountIsActive ?ctx store m \<or> (\<exists>member. m = member\<lparr>mb_Status := ''suspended''\<rparr>)"
      by (auto simp: trustedWorkspaceMembership_def Let_def split: if_splits sum.splits)
    with assms(2) have "trustedMembershipAccountIsActive ?ctx store m" by auto
    with workspaceMemberAccountIsActive_Inr [of ?ctx store m] show ?thesis
      by (auto simp: trustedMembershipAccountIsActive_def backed_by_account_def split: sum.splits)
  next
    case False
    with assms(1) have "\<exists>uid. lookupWorkspaceMemberForIdentity ?ctx store ?w ?s uid = Inr (Some m)"
      by (auto simp: trustedWorkspaceMembership_def Let_def split: if_splits sum.splits)
    with lookup_member_active [OF _ assms(2)] show ?thesis by blast
  qed
qed

definition workspace_roles :: "string list" where
  "workspace_roles = [''owner'', ''admin'', ''analyst'', ''viewer'']"

lemma policyRoles_trusted:
  assumes "trustedWorkspaceMembership c store = Inr found" "authContextString c ''auth.subject'' \<noteq> ''''" "store \<noteq> None"
  shows "set (policyRolesFromAuthWithStore c wk sk store) =
    (case found of
       Some m \<Rightarrow> insert ''authenticated'' ((set (scope_roles c) \<union> set (claim_roles c)) - set (workspace_roles @ [scopeRead, scopeWrite])
           \<union> (if member_active m \<and> norm_key (mb_Role m) \<noteq> '''' then {norm_key (mb_Role m)} else {}))
     | None \<Rightarrow> insert ''authenticated'' (set (scope_roles c) \<union> set (claim_roles c)) - set workspace_roles)"
proof -
  have nonempty_list: "xs \<noteq> []" if "''authenticated'' \<in> set xs" for xs :: "string list" using that by auto
  let ?roles = "foldl (\<lambda>acc r. add_unique r acc) [] (scope_roles c @ claim_roles c)"
  have set_roles: "set ?roles = set (scope_roles c) \<union> set (claim_roles c)" by (simp add: set_fold_add_unique)
  show ?thesis
  proof (cases found)
    case None
    let ?r = "delete_roles [''owner'', ''admin'', ''analyst'', ''viewer''] (add_unique ''authenticated'' ?roles)"
    have "''authenticated'' \<in> set ?r" by simp
    from nonempty_list [OF this] assms None show ?thesis
      by (simp add: policyRolesFromAuthWithStore_def Let_def set_roles workspace_roles_def del: foldl_append)
  next
    case (Some m)
    let ?r = "add_unique ''authenticated'' (delete_roles [''owner'', ''admin'', ''analyst'', ''viewer'', scopeRead, scopeWrite, scopeAdmin] ?roles)"
    have "''authenticated'' \<in> set ?r" "''authenticated'' \<in> set (add_unique (norm_key (mb_Role m)) ?r)" by simp_all
    from this [THEN nonempty_list] assms Some show ?thesis
      by (auto simp: policyRolesFromAuthWithStore_def Let_def set_roles workspace_roles_def member_active_def simp del: foldl_append)
  qed
qed

subsection \<open>Properties\<close>


definition sample_member :: TenancyWorkspaceMember where
  "sample_member = \<lparr>mb_TenantID = ''acme'', mb_WorkspaceID = ''prod'', mb_MemberID = ''m1'', mb_UserID = ''u1'',
     mb_UserUUID = ''u1'', mb_Email = '''', mb_Role = ''Analyst'', mb_Status = ''active'', mb_JoinedAt = 1, mb_UpdatedAt = 1\<rparr>"

text \<open>An account store with one active user who is an analyst of every workspace asked for.\<close>

definition sample_accounts :: AccountStore where
  "sample_accounts =
    \<lparr>as_GetWorkspaceMemberByUserUUID = (\<lambda>_ _ uuid. if uuid = ''u1'' then Inr sample_member else Inl (Sentinel ErrNotFound)),
     as_GetWorkspaceMemberByUserID = (\<lambda>_ _ _. Inl (Sentinel ErrNotFound)),
     as_GetUser = (\<lambda>_ uid. if uid = ''u1'' then Inr (plain_user ''u1'' ''u1@acme.test'' ''active'') else Inl (Sentinel ErrNotFound)),
     as_GetUserIdentity = (\<lambda>_ _ _. Inl (Sentinel ErrNotFound)),
     as_GetUserIdentityBySubject = (\<lambda>_ _. Inl (Sentinel ErrNotFound)),
     as_GetWorkspace = (\<lambda>_ w. Inr (plain_workspace ''acme'' w ''active'')),
     as_GetAuthzEntityAttributes = (\<lambda>_ _ _ _. Inl (Sentinel ErrNotFound))\<rparr>"

definition session_request :: "string \<Rightarrow> GinContext" where
  "session_request subject =
    \<lparr>gc_Method = ''GET'', gc_FullPath = ''/v1/findings'', gc_URLPath = ''/v1/findings'', gc_Params = [], gc_Headers = [],
     gc_Keys = [(''auth.session'', SessionValue), (''auth.subject'', StringValue subject),
       (''auth.roles'', StringsValue [''owner'', ''admin''])],
     gc_Context = WithSubjectSource (WithScope None \<lparr>sc_TenantID = ''acme'', sc_WorkspaceID = ''prod''\<rparr>) ''session'',
     gc_Actor = '''', gc_AuthFailures = []\<rparr>"


end
