(* ===== verification/Policy_Runtime.thy ===== *)
theory Policy_Runtime
  imports Policy_Builtin
begin

section \<open>The policy runtime resolver (internal/api/authz_policy_bundle_runtime.go)\<close>

text \<open>
  For every request the resolver reads the tenant's rollout pointer and the policy versions it names,
  compiles their bundles (through a cache shared by all requests) and falls back to the built-in
  policy when nothing usable is stored. The store it reads is a record of the operations it calls
  (\<open>StoreOps\<close>); \<open>memory_store_ops\<close> is the in-memory store. The ReBAC evaluator reads the store in the
  context of the request the runtime was resolved for, so the context is applied when the engine is
  built. The resolver's only state is its cache (\<^verbatim>\<open>sync.Map\<close>), which is passed explicitly; loads and
  stores of one key are atomic, so a sequence of calls is one of the possible interleavings.
  \<^verbatim>\<open>reflect.DeepEqual\<close> on compiled policies is equality of maps: all their slices come from the
  same normalizers, which never leave one nil.
\<close>

record StoreOps =
  so_GetRollout :: "Context \<Rightarrow> string \<Rightarrow> AuthzPolicyRollout result"
  so_GetVersion :: "Context \<Rightarrow> string \<Rightarrow> int \<Rightarrow> AuthzPolicyVersion result"
  so_ListRelationships :: "Context \<Rightarrow> AuthzRelationshipFilter \<Rightarrow> int \<Rightarrow> AuthzRelationship list result"

definition memory_store_ops :: "Env \<Rightarrow> MemoryStore \<Rightarrow> StoreOps" where
  "memory_store_ops env m =
    \<lparr>so_GetRollout = (\<lambda>ctx p. GetAuthzPolicyRollout ctx p m),
     so_GetVersion = (\<lambda>ctx p n. GetAuthzPolicyVersion ctx p n m),
     so_ListRelationships = (\<lambda>ctx. ListAuthzRelationships env ctx m)\<rparr>"

record resolvedCentralPolicyRuntime =
  rr_Engine :: "PolicyEngine option"
  rr_Registry :: routePolicyRegistry
  rr_Source :: string
  rr_PolicySetID :: string
  rr_Version :: int
  rr_RolloutMode :: string
  rr_Rollout :: AuthzPolicyRollout
  rr_CandidateEngine :: "PolicyEngine option"
  rr_CandidateSource :: string
  rr_CandidateVersion :: int

record Resolver =
  rv_Store :: "StoreOps option"
  rv_PolicySet :: string
  rv_Fallback :: compiledRouteAuthorizationPolicy
  rv_InitErr :: "go_error option"
  rv_Cache :: "(string, compiledRouteAuthorizationPolicy) gomap"

subsection \<open>Construction\<close>

definition newCentralPolicyRuntimeResolverWithPolicySet :: "StoreOps option \<Rightarrow> string \<Rightarrow> Resolver" where
  "newCentralPolicyRuntimeResolverWithPolicySet store policySetID =
    (let policySet = trim_space policySetID;
         policySet = (if policySet = '''' then defaultCentralPolicySetID else policySet)
     in case compileBuiltInRouteAuthorizationPolicyBundle of
          Inr compiled \<Rightarrow> \<lparr>rv_Store = store, rv_PolicySet = policySet, rv_Fallback = compiled,
             rv_InitErr = None, rv_Cache = []\<rparr>
        | Inl err \<Rightarrow> \<lparr>rv_Store = store, rv_PolicySet = policySet,
             rv_Fallback = emptyCompiledRouteAuthorizationPolicy,
             rv_InitErr = Some (Wrapped ''compile built-in policy bundle: '' err ''''), rv_Cache = []\<rparr>)"

definition newCentralPolicyRuntimeResolver :: "StoreOps option \<Rightarrow> Resolver" where
  "newCentralPolicyRuntimeResolver store =
    newCentralPolicyRuntimeResolverWithPolicySet store defaultCentralPolicySetID"

subsection \<open>Rollouts as the runtime reads them\<close>

definition empty_rollout :: "string \<Rightarrow> AuthzPolicyRollout" where
  "empty_rollout policySetID =
    \<lparr>ro_TenantID = '''', ro_WorkspaceID = '''', ro_PolicySetID = policySetID, ro_ActiveVersion = None,
     ro_CandidateVersion = None, ro_Mode = AuthzPolicyRolloutModeDisabled, ro_TenantAllowlist = [],
     ro_WorkspaceAllowlist = [], ro_CanaryPercentage = 100, ro_ValidatedVersions = [], ro_UpdatedBy = '''',
     ro_UpdatedAt = zero_time\<rparr>"

definition normalizeRuntimeAllowlist :: "string list \<Rightarrow> string list" where
  "normalizeRuntimeAllowlist values = sort (collect_unique (\<lambda>value. nonempty (trim_space value)) [] values)"

definition normalizeRuntimeValidatedVersions :: "int list \<Rightarrow> int list" where
  "normalizeRuntimeValidatedVersions values =
    sort (collect_unique (\<lambda>value. if value \<le> 0 then None else Some value) [] values)"

definition normalizeRuntimeRollout :: "AuthzPolicyRollout \<Rightarrow> string \<Rightarrow> AuthzPolicyRollout" where
  "normalizeRuntimeRollout rollout policySetID =
    (let policySet = norm_key policySetID;
         mode = norm_key (ro_Mode rollout);
         canary = ro_CanaryPercentage rollout;
         canary = (if canary \<le> 0 then 100 else canary)
     in rollout\<lparr>ro_PolicySetID := (if policySet = '''' then defaultCentralPolicySetID else policySet),
          ro_Mode := (if mode \<in> set validAuthzPolicyRolloutModes then mode else AuthzPolicyRolloutModeDisabled),
          ro_TenantAllowlist := normalizeRuntimeAllowlist (ro_TenantAllowlist rollout),
          ro_WorkspaceAllowlist := normalizeRuntimeAllowlist (ro_WorkspaceAllowlist rollout),
          ro_ValidatedVersions := normalizeRuntimeValidatedVersions (ro_ValidatedVersions rollout),
          ro_CanaryPercentage := (if 100 < canary then 100 else canary)\<rparr>)"

subsection \<open>Compatibility with stored bundles\<close>

definition sameRoleSet :: "string list \<Rightarrow> string list \<Rightarrow> bool" where
  "sameRoleSet left right = (sort left = sort right)"

definition same_map :: "('k, 'v) gomap \<Rightarrow> ('k, 'v) gomap \<Rightarrow> bool" where
  "same_map m m' =
    (list_all (\<lambda>(k, v). map_of m' k = map_of m k) m \<and> list_all (\<lambda>(k, v). map_of m k = map_of m' k) m')"

definition deep_equal :: "compiledRouteAuthorizationPolicy \<Rightarrow> compiledRouteAuthorizationPolicy \<Rightarrow> bool" where
  "deep_equal a b =
    (same_map (cp_RouteRegistry a) (cp_RouteRegistry b) \<and> same_map (cp_RBACActionRole a) (cp_RBACActionRole b)
     \<and> same_map (cp_ABACPolicies a) (cp_ABACPolicies b) \<and> same_map (cp_ReBACPolicies a) (cp_ReBACPolicies b))"

definition legacyGrants :: "(string, string list) gomap" where
  "legacyGrants =
    [(policyActionFindingsRead, [scopeRead, scopeWrite, scopeAdmin]),
     (policyActionFindingsTriage, [scopeWrite, scopeAdmin]),
     (policyActionGraphRead, [scopeRead, scopeWrite, scopeAdmin])]"

definition legacyDefaultRouteAuthorizationPolicyBundle :: routeAuthorizationPolicyBundle where
  "legacyDefaultRouteAuthorizationPolicyBundle =
    defaultBuiltInRouteAuthorizationPolicyBundle\<lparr>rb_RBACActionRole :=
      map_put policyActionGraphRead [scopeRead, scopeWrite, scopeAdmin]
        (map_put policyActionFindingsTriage [scopeWrite, scopeAdmin]
          (map_put policyActionFindingsRead [scopeRead, scopeWrite, scopeAdmin] defaultRouteActionRoleGrants))\<rparr>"

definition isLegacyDefaultRouteAuthorizationPolicy :: "compiledRouteAuthorizationPolicy \<Rightarrow> bool" where
  "isLegacyDefaultRouteAuthorizationPolicy compiled =
    (case compileRouteAuthorizationPolicyBundle legacyDefaultRouteAuthorizationPolicyBundle of
       Inl _ \<Rightarrow> False
     | Inr legacy \<Rightarrow> deep_equal compiled legacy)"

fun upgrade_grants ::
  "(string, string list) gomap \<Rightarrow> (string, string list) gomap \<Rightarrow> (string, string list) gomap
    \<Rightarrow> (string, string list) gomap" where
  "upgrade_grants [] fallback roles = roles"
| "upgrade_grants ((action, legacyRoles) # grants) fallback roles =
    (case (map_of roles action, map_of fallback action) of
       (Some currentRoles, Some fallbackRoles) \<Rightarrow>
         (if sameRoleSet currentRoles legacyRoles then upgrade_grants grants fallback (map_put action fallbackRoles roles)
          else upgrade_grants grants fallback roles)
     | _ \<Rightarrow> upgrade_grants grants fallback roles)"

definition upgradeLegacyDefaultRoleGrants ::
  "compiledRouteAuthorizationPolicy \<Rightarrow> compiledRouteAuthorizationPolicy \<Rightarrow> compiledRouteAuthorizationPolicy" where
  "upgradeLegacyDefaultRoleGrants base fallback =
    base\<lparr>cp_RBACActionRole := upgrade_grants legacyGrants (cp_RBACActionRole fallback) (cp_RBACActionRole base)\<rparr>"

text \<open>The zero value Go reads for a missing key of the policy maps.\<close>

definition zero_abac :: abacActionPolicy where
  "zero_abac = \<lparr>aa_AnyOf = [], aa_OnNoMatch = ''''\<rparr>"

definition zero_rebac :: rebacActionPolicy where
  "zero_rebac = \<lparr>ra_AnyOf = []\<rparr>"

definition lookup_zero :: "'v \<Rightarrow> ('k, 'v) gomap \<Rightarrow> 'k \<Rightarrow> 'v" where
  "lookup_zero z m k = (case map_of m k of None \<Rightarrow> z | Some v \<Rightarrow> v)"

definition put_missing :: "'k \<Rightarrow> 'v \<Rightarrow> ('k, 'v) gomap \<Rightarrow> ('k, 'v) gomap" where
  "put_missing k v m = (if has_key m k then m else map_put k v m)"

fun overlayRouteAuthorizationPolicyCompatibility ::
  "compiledRouteAuthorizationPolicy \<Rightarrow> compiledRouteAuthorizationPolicy \<Rightarrow> routePolicyDefinition list
    \<Rightarrow> compiledRouteAuthorizationPolicy" where
  "overlayRouteAuthorizationPolicyCompatibility base fallback [] = base"
| "overlayRouteAuthorizationPolicyCompatibility base fallback (def # defs) =
    (case normalizeRoutePolicyDefinition def of
       Inl _ \<Rightarrow> overlayRouteAuthorizationPolicyCompatibility base fallback defs
     | Inr n \<Rightarrow>
        (let key = routePolicyKey (rd_Method n) (rd_Path n)
         in if has_key (cp_RouteRegistry base) key then
              overlayRouteAuthorizationPolicyCompatibility base fallback defs
            else case map_of (cp_RouteRegistry fallback) key of
              None \<Rightarrow> overlayRouteAuthorizationPolicyCompatibility base fallback defs
            | Some fallbackPolicy \<Rightarrow>
                (let action = pol_Action fallbackPolicy
                 in overlayRouteAuthorizationPolicyCompatibility
                      (base\<lparr>cp_RouteRegistry := map_put key fallbackPolicy (cp_RouteRegistry base),
                        cp_RBACActionRole := put_missing action
                          (lookup_zero [] (cp_RBACActionRole fallback) action) (cp_RBACActionRole base),
                        cp_ABACPolicies := put_missing action
                          (lookup_zero zero_abac (cp_ABACPolicies fallback) action) (cp_ABACPolicies base),
                        cp_ReBACPolicies := put_missing action
                          (lookup_zero zero_rebac (cp_ReBACPolicies fallback) action) (cp_ReBACPolicies base)\<rparr>)
                      fallback defs)))"

definition compatibility_routes :: "routePolicyDefinition list" where
  "compatibility_routes =
    [route ''GET'' ''/v1/scans/:scan_id'' policyActionScansRead ''scan'' ''scan_id'',
     route ''POST'' ''/v1/workspaces/:workspace_id/projects/:project_id/aws/rollouts/:rollout_id/reconcile''
       policyActionTenancyWrite ''project'' ''project_id'',
     route ''POST'' ''/v1/workspaces/:workspace_id/projects/:project_id/aws/rollouts/:rollout_id/retry''
       policyActionTenancyWrite ''project'' ''project_id'']"

subsection \<open>Compilation of a stored version\<close>

definition version_cache_key :: "AuthzPolicyVersion \<Rightarrow> string" where
  "version_cache_key v = norm_key (pv_PolicySetID v) @ ''|'' @ int_string (pv_Version v) @ ''|'' @ norm_key (pv_Checksum v)"

text \<open>The body of \<^verbatim>\<open>compiledVersion\<close> after a cache miss.\<close>

definition compile_version ::
  "(string \<Rightarrow> routeAuthorizationPolicyBundle result) \<Rightarrow> Resolver \<Rightarrow> AuthzPolicyVersion
    \<Rightarrow> compiledRouteAuthorizationPolicy result" where
  "compile_version unmarshal r version =
    (case compileRouteAuthorizationPolicyBundleJSON unmarshal (pv_Bundle version) of
       Inl err \<Rightarrow> Inl (Wrapped (''compile policy version '' @ int_string (pv_Version version) @ '': '') err '''')
     | Inr compiled \<Rightarrow>
        (let compiled = (if equal_fold (trim_space (rv_PolicySet r)) defaultCentralPolicySetID
                            \<and> isLegacyDefaultRouteAuthorizationPolicy compiled
                         then upgradeLegacyDefaultRoleGrants compiled (rv_Fallback r) else compiled)
         in Inr (overlayRouteAuthorizationPolicyCompatibility compiled (rv_Fallback r) compatibility_routes)))"

definition compiledVersion ::
  "(string \<Rightarrow> routeAuthorizationPolicyBundle result) \<Rightarrow> Resolver \<Rightarrow> AuthzPolicyVersion
    \<Rightarrow> compiledRouteAuthorizationPolicy result \<times> Resolver" where
  "compiledVersion unmarshal r version =
    (let cacheKey = version_cache_key version
     in case (if cacheKey \<noteq> ''||'' then map_of (rv_Cache r) cacheKey else None) of
          Some compiled \<Rightarrow> (Inr compiled, r)
        | None \<Rightarrow>
           (case compile_version unmarshal r version of
              Inl err \<Rightarrow> (Inl err, r)
            | Inr compiled \<Rightarrow>
                (Inr compiled,
                 if cacheKey \<noteq> ''||'' then r\<lparr>rv_Cache := map_put cacheKey compiled (rv_Cache r)\<rparr> else r)))"

subsection \<open>Resolution\<close>

definition engine_of ::
  "StoreOps option \<Rightarrow> Context \<Rightarrow> compiledRouteAuthorizationPolicy \<Rightarrow> PolicyEngine" where
  "engine_of store ctx compiled =
    newCentralPolicyEngineFromCompiled
      (case store of None \<Rightarrow> None | Some s \<Rightarrow> Some (so_ListRelationships s ctx)) compiled"

definition built_in_runtime ::
  "StoreOps option \<Rightarrow> Context \<Rightarrow> compiledRouteAuthorizationPolicy \<Rightarrow> string \<Rightarrow> resolvedCentralPolicyRuntime" where
  "built_in_runtime store ctx compiled policySet =
    \<lparr>rr_Engine = Some (engine_of store ctx compiled), rr_Registry = cp_RouteRegistry compiled,
     rr_Source = ''built_in_default'', rr_PolicySetID = policySet, rr_Version = 0,
     rr_RolloutMode = AuthzPolicyRolloutModeDisabled, rr_Rollout = empty_rollout policySet,
     rr_CandidateEngine = None, rr_CandidateSource = '''', rr_CandidateVersion = 0\<rparr>"

definition fallbackRuntime :: "Resolver \<Rightarrow> Context \<Rightarrow> resolvedCentralPolicyRuntime" where
  "fallbackRuntime r ctx = built_in_runtime (rv_Store r) ctx (rv_Fallback r) (rv_PolicySet r)"

text \<open>
  Reading and compiling one of the two versions of a rollout: \<open>Inr None\<close> when it is absent, not
  found or does not compile.
\<close>

definition resolve_version ::
  "(string \<Rightarrow> routeAuthorizationPolicyBundle result) \<Rightarrow> StoreOps \<Rightarrow> Context \<Rightarrow> string \<Rightarrow> int option \<Rightarrow> Resolver
    \<Rightarrow> (compiledRouteAuthorizationPolicy \<times> int) option result \<times> Resolver" where
  "resolve_version unmarshal store ctx what pointer r =
    (case pointer of
       None \<Rightarrow> (Inr None, r)
     | Some n \<Rightarrow>
        (if n \<le> 0 then (Inr None, r)
         else case so_GetVersion store ctx (rv_PolicySet r) n of
           Inl err \<Rightarrow>
             (if errors_is err ErrNotFound then (Inr None, r)
              else (Inl (Wrapped (''resolve '' @ what @ '' policy version: '') err ''''), r))
         | Inr version \<Rightarrow>
            (case compiledVersion unmarshal r version of
               (Inl _, r') \<Rightarrow> (Inr None, r')
             | (Inr compiled, r') \<Rightarrow> (Inr (Some (compiled, pv_Version version)), r'))))"

definition with_active ::
  "StoreOps option \<Rightarrow> Context \<Rightarrow> (compiledRouteAuthorizationPolicy \<times> int) option
    \<Rightarrow> resolvedCentralPolicyRuntime \<Rightarrow> resolvedCentralPolicyRuntime" where
  "with_active store ctx found resolved =
    (case found of
       None \<Rightarrow> resolved
     | Some (compiled, version) \<Rightarrow>
         resolved\<lparr>rr_Engine := Some (engine_of store ctx compiled), rr_Registry := cp_RouteRegistry compiled,
           rr_Source := ''persisted_active_version'', rr_Version := version\<rparr>)"

definition with_candidate ::
  "StoreOps option \<Rightarrow> Context \<Rightarrow> (compiledRouteAuthorizationPolicy \<times> int) option
    \<Rightarrow> resolvedCentralPolicyRuntime \<Rightarrow> resolvedCentralPolicyRuntime" where
  "with_candidate store ctx found resolved =
    (case found of
       None \<Rightarrow> resolved
     | Some (compiled, version) \<Rightarrow>
         resolved\<lparr>rr_CandidateEngine := Some (engine_of store ctx compiled),
           rr_CandidateSource := ''persisted_candidate_version'', rr_CandidateVersion := version\<rparr>)"

definition Resolve ::
  "(string \<Rightarrow> routeAuthorizationPolicyBundle result) \<Rightarrow> Context \<Rightarrow> Resolver
    \<Rightarrow> resolvedCentralPolicyRuntime result \<times> Resolver" where
  "Resolve unmarshal ctx r =
    (case rv_InitErr r of
       Some err \<Rightarrow> (Inl err, r)
     | None \<Rightarrow>
        (let fallback = fallbackRuntime r ctx
         in case rv_Store r of
              None \<Rightarrow> (Inr fallback, r)
            | Some store \<Rightarrow>
               (case so_GetRollout store ctx (rv_PolicySet r) of
                  Inl err \<Rightarrow>
                    (if errors_is err ErrNotFound then (Inr fallback, r)
                     else (Inl (Wrapped ''resolve policy rollout: '' err ''''), r))
                | Inr rollout \<Rightarrow>
                   (let rollout = normalizeRuntimeRollout rollout (rv_PolicySet r);
                        resolved = fallback\<lparr>rr_Rollout := rollout, rr_RolloutMode := ro_Mode rollout\<rparr>
                    in case resolve_version unmarshal store ctx ''active'' (ro_ActiveVersion rollout) r of
                         (Inl err, r') \<Rightarrow> (Inl err, r')
                       | (Inr active, r') \<Rightarrow>
                          (case resolve_version unmarshal store ctx ''candidate'' (ro_CandidateVersion rollout) r' of
                             (Inl err, r'') \<Rightarrow> (Inl err, r'')
                           | (Inr candidate, r'') \<Rightarrow>
                               (Inr (with_candidate (Some store) ctx candidate
                                       (with_active (Some store) ctx active resolved)), r''))))))"

text \<open>The nil resolver.\<close>

definition Resolve_nil :: "Context \<Rightarrow> resolvedCentralPolicyRuntime result" where
  "Resolve_nil ctx =
    (case compileBuiltInRouteAuthorizationPolicyBundle of
       Inl err \<Rightarrow> Inl (Wrapped ''compile built-in policy bundle: '' err '''')
     | Inr compiled \<Rightarrow> Inr (built_in_runtime None ctx compiled defaultCentralPolicySetID))"

subsection \<open>Overlays keep what a bundle says\<close>

definition complete_policy :: "compiledRouteAuthorizationPolicy \<Rightarrow> bool" where
  "complete_policy c \<longleftrightarrow>
    (\<forall>a\<in>registry_actions (cp_RouteRegistry c). has_key (cp_RBACActionRole c) a \<and> has_key (cp_ABACPolicies c) a)"

text \<open>\<open>c'\<close> has every entry of \<open>c\<close>, and its new routes, roles and ABAC policies come from \<open>f\<close>.\<close>

definition sub_map :: "('k, 'v) gomap \<Rightarrow> ('k, 'v) gomap \<Rightarrow> bool" where
  "sub_map m m' \<longleftrightarrow> (\<forall>k v. map_of m k = Some v \<longrightarrow> map_of m' k = Some v)"

definition from_maps :: "('k, 'v) gomap \<Rightarrow> ('k, 'v) gomap \<Rightarrow> ('k, 'v) gomap \<Rightarrow> bool" where
  "from_maps m' m f \<longleftrightarrow> (\<forall>k v. map_of m' k = Some v \<longrightarrow> map_of m k = Some v \<or> map_of f k = Some v)"

definition extends_policy ::
  "compiledRouteAuthorizationPolicy \<Rightarrow> compiledRouteAuthorizationPolicy \<Rightarrow> compiledRouteAuthorizationPolicy \<Rightarrow> bool" where
  "extends_policy f c c' \<longleftrightarrow>
    sub_map (cp_RouteRegistry c) (cp_RouteRegistry c') \<and> from_maps (cp_RouteRegistry c') (cp_RouteRegistry c) (cp_RouteRegistry f)
    \<and> sub_map (cp_RBACActionRole c) (cp_RBACActionRole c')
    \<and> from_maps (cp_RBACActionRole c') (cp_RBACActionRole c) (cp_RBACActionRole f)
    \<and> sub_map (cp_ABACPolicies c) (cp_ABACPolicies c')
    \<and> from_maps (cp_ABACPolicies c') (cp_ABACPolicies c) (cp_ABACPolicies f)"

lemma sub_map_refl [simp]: "sub_map m m" and from_maps_refl [simp]: "from_maps m m f"
  by (simp_all add: sub_map_def from_maps_def)

lemma sub_map_trans: "sub_map a b \<Longrightarrow> sub_map b c \<Longrightarrow> sub_map a c"
  by (simp add: sub_map_def)

lemma from_maps_trans: "from_maps b a f \<Longrightarrow> from_maps c b f \<Longrightarrow> from_maps c a f"
  unfolding from_maps_def by blast

lemma extends_refl [simp]: "extends_policy f c c"
  by (simp add: extends_policy_def)

lemma extends_trans: "extends_policy f a b \<Longrightarrow> extends_policy f b c \<Longrightarrow> extends_policy f a c"
  unfolding extends_policy_def by (blast intro: sub_map_trans from_maps_trans)

lemma sub_map_put: "\<not> has_key m k \<Longrightarrow> sub_map m (map_put k v m)"
  by (auto simp: sub_map_def has_key_iff)

lemma from_maps_put: "map_of f k = Some v \<Longrightarrow> from_maps (map_put k v m) m f"
  by (auto simp: from_maps_def split: if_splits)

lemma sub_map_put_missing: "sub_map m (put_missing k v m)"
  by (simp add: put_missing_def sub_map_put)

lemma from_maps_put_missing: "map_of f k = Some v \<Longrightarrow> from_maps (put_missing k v m) m f"
  by (simp add: put_missing_def from_maps_put)

lemma put_missing_lookup [map_simps]:
  "map_of (put_missing k v m) j = (if j = k \<and> map_of m k = None then Some v else map_of m j)"
  by (auto simp: put_missing_def has_key_iff)

lemma put_missing_has [map_simps]: "has_key (put_missing k v m) j \<longleftrightarrow> j = k \<or> has_key m j"
  by (auto simp: put_missing_def)

lemma registry_actionsI: "map_of r k = Some p \<Longrightarrow> pol_Action p \<in> registry_actions r"
  by (force simp: registry_actions_def dest: map_of_SomeD)

lemma registry_actions_put: "registry_actions (map_put k p r) \<subseteq> insert (pol_Action p) (registry_actions r)"
  using set_update_subset [of k p r] by (auto simp: registry_actions_def map_put_def)

text \<open>One overlaid route.\<close>

definition overlay_entry ::
  "compiledRouteAuthorizationPolicy \<Rightarrow> string \<Rightarrow> routePolicy \<Rightarrow> compiledRouteAuthorizationPolicy
    \<Rightarrow> compiledRouteAuthorizationPolicy" where
  "overlay_entry fallback key p base =
    base\<lparr>cp_RouteRegistry := map_put key p (cp_RouteRegistry base),
      cp_RBACActionRole := put_missing (pol_Action p)
        (lookup_zero [] (cp_RBACActionRole fallback) (pol_Action p)) (cp_RBACActionRole base),
      cp_ABACPolicies := put_missing (pol_Action p)
        (lookup_zero zero_abac (cp_ABACPolicies fallback) (pol_Action p)) (cp_ABACPolicies base),
      cp_ReBACPolicies := put_missing (pol_Action p)
        (lookup_zero zero_rebac (cp_ReBACPolicies fallback) (pol_Action p)) (cp_ReBACPolicies base)\<rparr>"

lemma overlay_entry_extends:
  assumes "complete_policy f" "map_of (cp_RouteRegistry f) key = Some p" "\<not> has_key (cp_RouteRegistry b) key"
  shows "extends_policy f b (overlay_entry f key p b)"
proof -
  from assms(1) registry_actionsI [OF assms(2)]
  have "has_key (cp_RBACActionRole f) (pol_Action p)" "has_key (cp_ABACPolicies f) (pol_Action p)"
    by (auto simp: complete_policy_def)
  then have "map_of (cp_RBACActionRole f) (pol_Action p) = Some (lookup_zero [] (cp_RBACActionRole f) (pol_Action p))"
    "map_of (cp_ABACPolicies f) (pol_Action p) = Some (lookup_zero zero_abac (cp_ABACPolicies f) (pol_Action p))"
    by (auto simp: lookup_zero_def has_key_iff)
  with assms(2,3) show ?thesis
    by (simp add: extends_policy_def overlay_entry_def sub_map_put from_maps_put sub_map_put_missing from_maps_put_missing)
qed

lemma overlay_entry_complete: "complete_policy b \<Longrightarrow> complete_policy (overlay_entry f key p b)"
  using registry_actions_put [of key p "cp_RouteRegistry b"]
  by (auto simp: complete_policy_def overlay_entry_def map_simps)

lemma overlay_Cons_cases:
  obtains "overlayRouteAuthorizationPolicyCompatibility b f (def # defs) = overlayRouteAuthorizationPolicyCompatibility b f defs"
  | key p where "map_of (cp_RouteRegistry f) key = Some p" "\<not> has_key (cp_RouteRegistry b) key"
    "overlayRouteAuthorizationPolicyCompatibility b f (def # defs)
      = overlayRouteAuthorizationPolicyCompatibility (overlay_entry f key p b) f defs"
proof (cases "normalizeRoutePolicyDefinition def")
  case (Inl err)
  then show thesis by (intro that(1)) simp
next
  case (Inr n)
  let ?k = "routePolicyKey (rd_Method n) (rd_Path n)"
  show thesis
  proof (cases "has_key (cp_RouteRegistry b) ?k")
    case True
    with Inr show thesis by (intro that(1)) (simp add: Let_def)
  next
    case False
    then show thesis
      using Inr by (cases "map_of (cp_RouteRegistry f) ?k") (auto simp: Let_def overlay_entry_def intro: that)
  qed
qed

lemma overlay_keeps:
  assumes "complete_policy f" "complete_policy b"
  shows "extends_policy f b (overlayRouteAuthorizationPolicyCompatibility b f defs)
    \<and> complete_policy (overlayRouteAuthorizationPolicyCompatibility b f defs)"
  using assms(2)
proof (induction defs arbitrary: b)
  case (Cons def defs)
  show ?case
  proof (cases rule: overlay_Cons_cases [of b f "def" defs])
    case 1
    with Cons show ?thesis by simp
  next
    case (2 key p)
    from Cons.IH [OF overlay_entry_complete [OF Cons.prems], of f key p]
      extends_trans [OF overlay_entry_extends [OF assms(1) 2(1,2)]]
    show ?thesis unfolding 2(3) by blast
  qed
qed simp

lemma overlay_adds:
  assumes "normalizeRoutePolicyDefinition def = Inr n" "def \<in> set defs"
    and "map_of (cp_RouteRegistry f) (routePolicyKey (rd_Method n) (rd_Path n)) = Some p"
    and "complete_policy f" "complete_policy b"
  shows "has_key (cp_RouteRegistry (overlayRouteAuthorizationPolicyCompatibility b f defs))
    (routePolicyKey (rd_Method n) (rd_Path n))"
  using assms(2,5)
proof (induction defs arbitrary: b)
  case (Cons d defs)
  let ?k = "routePolicyKey (rd_Method n) (rd_Path n)"
  have keep: "has_key (cp_RouteRegistry (overlayRouteAuthorizationPolicyCompatibility b' f defs)) ?k"
    if "has_key (cp_RouteRegistry b') ?k" "complete_policy b'" for b'
    using overlay_keeps [OF assms(4) that(2), of defs] that(1) by (auto simp: extends_policy_def sub_map_def has_key_iff)
  show ?case
  proof (cases "d = def")
    case True
    show ?thesis
    proof (cases "has_key (cp_RouteRegistry b) ?k")
      case True
      with \<open>d = def\<close> assms(1) keep [OF True Cons.prems(2)] show ?thesis by (simp add: Let_def)
    next
      case False
      with \<open>d = def\<close> assms(1,3) have "overlayRouteAuthorizationPolicyCompatibility b f (d # defs)
          = overlayRouteAuthorizationPolicyCompatibility (overlay_entry f ?k p b) f defs"
        by (simp add: Let_def overlay_entry_def)
      with keep [OF _ overlay_entry_complete [OF Cons.prems(2)]] show ?thesis by (simp add: overlay_entry_def)
    qed
  next
    case False
    with Cons.prems(1) have mem: "def \<in> set defs" by simp
    show ?thesis
    proof (cases rule: overlay_Cons_cases [of b f d defs])
      case 1
      with Cons.IH [OF mem Cons.prems(2)] show ?thesis by simp
    next
      case (2 key q)
      with Cons.IH [OF mem overlay_entry_complete [OF Cons.prems(2)]] show ?thesis by simp
    qed
  qed
qed simp

lemma wf_complete: "wf_compiled c \<Longrightarrow> complete_policy c"
  by (simp add: wf_compiled_def complete_policy_def)

lemma upgrade_grants_keys: "has_key (upgrade_grants gs f m) a \<longleftrightarrow> has_key m a"
  by (induction gs f m rule: upgrade_grants.induct) (auto simp: has_key_iff split: option.splits)

lemma upgrade_complete: "complete_policy c \<Longrightarrow> complete_policy (upgradeLegacyDefaultRoleGrants c f)"
  by (simp add: complete_policy_def upgradeLegacyDefaultRoleGrants_def upgrade_grants_keys)

subsection \<open>The cache\<close>

definition cache_coherent ::
  "(string \<Rightarrow> routeAuthorizationPolicyBundle result) \<Rightarrow> AuthzPolicyVersion set \<Rightarrow> Resolver \<Rightarrow> bool" where
  "cache_coherent unmarshal V r \<longleftrightarrow>
    (\<forall>k c. map_of (rv_Cache r) k = Some c \<longrightarrow>
       (\<exists>v\<in>V. version_cache_key v = k \<and> compile_version unmarshal r v = Inr c))"

text \<open>The cache key tells bundles apart: what a checksum of the bundle gives.\<close>

definition keys_honest :: "AuthzPolicyVersion set \<Rightarrow> bool" where
  "keys_honest V \<longleftrightarrow> (\<forall>v\<in>V. \<forall>w\<in>V. version_cache_key v = version_cache_key w \<longrightarrow> pv_Bundle v = pv_Bundle w)"

lemma compile_version_cache [simp]: "compile_version u (r\<lparr>rv_Cache := m\<rparr>) v = compile_version u r v"
  by (cases "u (pv_Bundle v)") (simp_all add: compile_version_def Let_def cong: sum.case_cong if_cong)

lemma compile_version_bundle:
  "compile_version u r v = Inr c \<Longrightarrow> pv_Bundle w = pv_Bundle v \<Longrightarrow> compile_version u r w = Inr c"
  by (auto simp: compile_version_def split: sum.splits)

lemma compiledVersion_cases:
  assumes "compiledVersion u r v = (answer, r')"
  obtains (hit) c where "map_of (rv_Cache r) (version_cache_key v) = Some c" "answer = Inr c" "r' = r"
  | (failed) err where "compile_version u r v = Inl err" "answer = Inl err" "r' = r"
  | (compiled) c m where "compile_version u r v = Inr c" "answer = Inr c" "r' = r\<lparr>rv_Cache := m\<rparr>"
      "m = rv_Cache r \<or> m = map_put (version_cache_key v) c (rv_Cache r)"
proof (cases "version_cache_key v \<noteq> ''||'' \<and> map_of (rv_Cache r) (version_cache_key v) \<noteq> None")
  case True
  then obtain c where "version_cache_key v \<noteq> ''||''" "map_of (rv_Cache r) (version_cache_key v) = Some c" by blast
  with assms show thesis by (intro hit) (auto simp: compiledVersion_def Let_def)
next
  case False
  then have miss: "(if version_cache_key v \<noteq> ''||'' then map_of (rv_Cache r) (version_cache_key v) else None) = None" by auto
  show thesis
  proof (cases "compile_version u r v")
    case (Inl err)
    with assms miss show thesis by (intro failed [of err]) (auto simp: compiledVersion_def Let_def)
  next
    case (Inr c)
    let ?m = "if version_cache_key v \<noteq> ''||'' then map_put (version_cache_key v) c (rv_Cache r) else rv_Cache r"
    from assms miss Inr have "answer = Inr c" "r' = r\<lparr>rv_Cache := ?m\<rparr>"
      by (auto simp: compiledVersion_def Let_def split: if_splits)
    with Inr show thesis by (intro compiled [of c ?m]) auto
  qed
qed

lemma same_cache: "\<exists>m. r = r\<lparr>rv_Cache := m\<rparr>" for r :: Resolver
  by (intro exI [of _ "rv_Cache r"]) simp

lemma compiledVersion_keeps:
  assumes "compiledVersion u r v = (answer, r')" "cache_coherent u V r" "v \<in> V"
  shows "cache_coherent u V r'" and "\<exists>m. r' = r\<lparr>rv_Cache := m\<rparr>"
    and "answer = Inr c \<Longrightarrow> \<exists>w\<in>V. version_cache_key w = version_cache_key v \<and> compile_version u r w = Inr c"
    and "answer = Inl err \<Longrightarrow> compile_version u r v = Inl err"
proof -
  from assms(1) have "cache_coherent u V r' \<and> (\<exists>m. r' = r\<lparr>rv_Cache := m\<rparr>)
    \<and> (answer = Inr c \<longrightarrow> (\<exists>w\<in>V. version_cache_key w = version_cache_key v \<and> compile_version u r w = Inr c))
    \<and> (answer = Inl err \<longrightarrow> compile_version u r v = Inl err)"
  proof (cases rule: compiledVersion_cases)
    case hit
    with assms(2) same_cache [of r] show ?thesis by (auto simp: cache_coherent_def)
  next
    case failed
    with assms(2) same_cache [of r] show ?thesis by simp
  next
    case (compiled c' m)
    with assms(2,3) show ?thesis by (auto simp: cache_coherent_def split: if_splits)
  qed
  then show "cache_coherent u V r'" "\<exists>m. r' = r\<lparr>rv_Cache := m\<rparr>"
    "answer = Inr c \<Longrightarrow> \<exists>w\<in>V. version_cache_key w = version_cache_key v \<and> compile_version u r w = Inr c"
    "answer = Inl err \<Longrightarrow> compile_version u r v = Inl err" by blast+
qed

lemma compiledVersion_correct:
  assumes "cache_coherent u V r" "keys_honest V" "v \<in> V"
  shows "fst (compiledVersion u r v) = compile_version u r v"
proof -
  obtain answer r' where c: "compiledVersion u r v = (answer, r')" by fastforce
  show ?thesis
  proof (cases answer)
    case (Inl err)
    with c compiledVersion_keeps(4) [OF c assms(1,3)] show ?thesis by simp
  next
    case (Inr d)
    from compiledVersion_keeps(3) [OF c assms(1,3) Inr] obtain w where
      w: "w \<in> V" "version_cache_key w = version_cache_key v" "compile_version u r w = Inr d" by blast
    with assms(2,3) have "pv_Bundle v = pv_Bundle w" unfolding keys_honest_def by metis
    from compile_version_bundle [OF w(3) this] Inr c show ?thesis by simp
  qed
qed

subsection \<open>The specification: resolution without a cache\<close>

definition find_version ::
  "(string \<Rightarrow> routeAuthorizationPolicyBundle result) \<Rightarrow> StoreOps \<Rightarrow> Context \<Rightarrow> string \<Rightarrow> int option \<Rightarrow> Resolver
    \<Rightarrow> (compiledRouteAuthorizationPolicy \<times> int) option result" where
  "find_version unmarshal store ctx what pointer r =
    (case pointer of
       None \<Rightarrow> Inr None
     | Some n \<Rightarrow>
        (if n \<le> 0 then Inr None
         else case so_GetVersion store ctx (rv_PolicySet r) n of
           Inl err \<Rightarrow>
             (if errors_is err ErrNotFound then Inr None
              else Inl (Wrapped (''resolve '' @ what @ '' policy version: '') err ''''))
         | Inr version \<Rightarrow>
            (case compile_version unmarshal r version of
               Inl _ \<Rightarrow> Inr None
             | Inr compiled \<Rightarrow> Inr (Some (compiled, pv_Version version)))))"

text \<open>How the two lookups are put together.\<close>

definition resolve_with ::
  "Context \<Rightarrow> Resolver \<Rightarrow> (int option \<Rightarrow> (compiledRouteAuthorizationPolicy \<times> int) option result)
    \<Rightarrow> (int option \<Rightarrow> (compiledRouteAuthorizationPolicy \<times> int) option result) \<Rightarrow> StoreOps
    \<Rightarrow> resolvedCentralPolicyRuntime result" where
  "resolve_with ctx r active candidate store =
    (case rv_InitErr r of
       Some err \<Rightarrow> Inl err
     | None \<Rightarrow>
        (case so_GetRollout store ctx (rv_PolicySet r) of
           Inl err \<Rightarrow> (if errors_is err ErrNotFound then Inr (fallbackRuntime r ctx)
                       else Inl (Wrapped ''resolve policy rollout: '' err ''''))
         | Inr rollout \<Rightarrow>
            (let rollout = normalizeRuntimeRollout rollout (rv_PolicySet r)
             in rbind (active (ro_ActiveVersion rollout)) (\<lambda>a.
                rbind (candidate (ro_CandidateVersion rollout)) (\<lambda>c.
                  Inr (with_candidate (Some store) ctx c (with_active (Some store) ctx a
                    ((fallbackRuntime r ctx)\<lparr>rr_Rollout := rollout, rr_RolloutMode := ro_Mode rollout\<rparr>))))))))"

definition resolve_spec ::
  "(string \<Rightarrow> routeAuthorizationPolicyBundle result) \<Rightarrow> Context \<Rightarrow> Resolver \<Rightarrow> StoreOps \<Rightarrow> resolvedCentralPolicyRuntime result" where
  "resolve_spec unmarshal ctx r store =
    resolve_with ctx r (\<lambda>p. find_version unmarshal store ctx ''active'' p r)
      (\<lambda>p. find_version unmarshal store ctx ''candidate'' p r) store"

text \<open>Every version the store can return in this context is in \<open>V\<close>.\<close>

definition versions_in :: "StoreOps \<Rightarrow> AuthzPolicyVersion set \<Rightarrow> bool" where
  "versions_in store V \<longleftrightarrow> (\<forall>ctx p n v. so_GetVersion store ctx p n = Inr v \<longrightarrow> v \<in> V)"

definition compiles_in :: "(string \<Rightarrow> routeAuthorizationPolicyBundle result) \<Rightarrow> AuthzPolicyVersion set \<Rightarrow> Resolver
    \<Rightarrow> compiledRouteAuthorizationPolicy \<Rightarrow> bool" where
  "compiles_in u V r c \<longleftrightarrow> (\<exists>v\<in>V. compile_version u r v = Inr c)"

lemma resolve_version_keeps:
  assumes "resolve_version u store ctx what pointer r = (answer, r')" "cache_coherent u V r" "versions_in store V"
  shows "cache_coherent u V r'" and "\<exists>m. r' = r\<lparr>rv_Cache := m\<rparr>"
    and "answer = Inr (Some (c, n)) \<Longrightarrow> compiles_in u V r c"
proof -
  have "cache_coherent u V r' \<and> (\<exists>m. r' = r\<lparr>rv_Cache := m\<rparr>) \<and> (answer = Inr (Some (c, n)) \<longrightarrow> compiles_in u V r c)"
  proof (cases "\<exists>k v. pointer = Some k \<and> 0 < k \<and> so_GetVersion store ctx (rv_PolicySet r) k = Inr v")
    case True
    then obtain k v where p: "pointer = Some k" "0 < k" "so_GetVersion store ctx (rv_PolicySet r) k = Inr v" by blast
    with assms(3) have "v \<in> V" unfolding versions_in_def by blast
    obtain b r'' where b: "compiledVersion u r v = (b, r'')" by fastforce
    note keep = compiledVersion_keeps [OF b assms(2) \<open>v \<in> V\<close>]
    have "r'' = r' \<and> (answer = Inr (Some (c, n)) \<longrightarrow> b = Inr c)"
      using assms(1) p b by (cases b) (auto simp: resolve_version_def)
    with keep show ?thesis unfolding compiles_in_def by blast
  next
    case False
    with assms(1) have "r' = r \<and> (answer = Inr None \<or> (\<exists>e. answer = Inl e))"
      by (cases pointer) (auto simp: resolve_version_def split: sum.splits if_splits)
    with assms(2) same_cache [of r] show ?thesis by auto
  qed
  then show "cache_coherent u V r'" "\<exists>m. r' = r\<lparr>rv_Cache := m\<rparr>"
    "answer = Inr (Some (c, n)) \<Longrightarrow> compiles_in u V r c" by blast+
qed

lemma resolve_version_correct:
  assumes "cache_coherent u V r" "keys_honest V" "versions_in store V"
  shows "fst (resolve_version u store ctx what pointer r) = find_version u store ctx what pointer r"
proof (cases "\<exists>n v. pointer = Some n \<and> 0 < n \<and> so_GetVersion store ctx (rv_PolicySet r) n = Inr v")
  case True
  then obtain n v where p: "pointer = Some n" "0 < n" "so_GetVersion store ctx (rv_PolicySet r) n = Inr v" by blast
  with assms(3) have "v \<in> V" unfolding versions_in_def by blast
  from p compiledVersion_correct [OF assms(1,2) this] show ?thesis
    by (cases "compiledVersion u r v") (auto simp: resolve_version_def find_version_def split: sum.splits)
next
  case False
  then show ?thesis
    by (cases pointer) (auto simp: resolve_version_def find_version_def split: sum.splits)
qed

lemma find_version_cache [simp]: "find_version u store ctx what pointer (r\<lparr>rv_Cache := m\<rparr>)
    = find_version u store ctx what pointer r"
  by (simp add: find_version_def cong: sum.case_cong option.case_cong if_cong)

lemma compiles_in_cache [simp]: "compiles_in u V (r\<lparr>rv_Cache := m\<rparr>) c = compiles_in u V r c"
  by (simp add: compiles_in_def)


lemma Resolve_run:
  assumes "rv_Store r = Some store" "cache_coherent u V r" "versions_in store V"
  obtains r1 m where "r1 = r\<lparr>rv_Cache := m\<rparr>" "cache_coherent u V r1"
    "fst (Resolve u ctx r) = resolve_with ctx r (\<lambda>p. fst (resolve_version u store ctx ''active'' p r))
       (\<lambda>p. fst (resolve_version u store ctx ''candidate'' p r1)) store"
    "cache_coherent u V (snd (Resolve u ctx r))" "\<exists>m'. snd (Resolve u ctx r) = r\<lparr>rv_Cache := m'\<rparr>"
proof (cases "\<exists>ro. rv_InitErr r = None \<and> so_GetRollout store ctx (rv_PolicySet r) = Inr ro")
  case False
  then have "fst (Resolve u ctx r) = resolve_with ctx r (\<lambda>p. fst (resolve_version u store ctx ''active'' p r))
       (\<lambda>p. fst (resolve_version u store ctx ''candidate'' p r)) store \<and> snd (Resolve u ctx r) = r"
    using assms(1) by (cases "rv_InitErr r"; cases "so_GetRollout store ctx (rv_PolicySet r)")
      (simp_all add: Resolve_def resolve_with_def Let_def)
  with that [of r "rv_Cache r"] assms(2) same_cache [of r] show thesis by simp
next
  case True
  then obtain ro where s: "rv_InitErr r = None" "so_GetRollout store ctx (rv_PolicySet r) = Inr ro" by blast
  let ?ro = "normalizeRuntimeRollout ro (rv_PolicySet r)"
  obtain a r1 where a: "resolve_version u store ctx ''active'' (ro_ActiveVersion ?ro) r = (a, r1)" by fastforce
  obtain c r2 where c: "resolve_version u store ctx ''candidate'' (ro_CandidateVersion ?ro) r1 = (c, r2)" by fastforce
  note k1 = resolve_version_keeps(1,2) [OF a assms(2,3)]
  note k2 = resolve_version_keeps(1,2) [OF c k1(1) assms(3)]
  from k1(2) obtain m where m: "r1 = r\<lparr>rv_Cache := m\<rparr>" by blast
  have "fst (Resolve u ctx r) = resolve_with ctx r (\<lambda>p. fst (resolve_version u store ctx ''active'' p r))
       (\<lambda>p. fst (resolve_version u store ctx ''candidate'' p r1)) store
      \<and> (snd (Resolve u ctx r) = r1 \<or> snd (Resolve u ctx r) = r2)"
    using assms(1) s a c by (cases a; cases c) (simp_all add: Resolve_def resolve_with_def Let_def)
  moreover from k1(2) k2(2) have "\<exists>m'. r1 = r\<lparr>rv_Cache := m'\<rparr>" "\<exists>m'. r2 = r\<lparr>rv_Cache := m'\<rparr>" by auto
  ultimately have "cache_coherent u V (snd (Resolve u ctx r))" "\<exists>m'. snd (Resolve u ctx r) = r\<lparr>rv_Cache := m'\<rparr>"
    "fst (Resolve u ctx r) = resolve_with ctx r (\<lambda>p. fst (resolve_version u store ctx ''active'' p r))
       (\<lambda>p. fst (resolve_version u store ctx ''candidate'' p r1)) store"
    using k1(1) k2(1) by metis+
  with that [OF m k1(1)] show thesis by blast
qed

lemma Resolve_correct:
  assumes "rv_Store r = Some store" "cache_coherent u V r" "keys_honest V" "versions_in store V"
  shows "fst (Resolve u ctx r) = resolve_spec u ctx r store"
  using resolve_version_correct [OF _ assms(3,4)] assms(2)
  by (auto simp: resolve_spec_def intro: Resolve_run [OF assms(1,2,4), of ctx])

subsection \<open>The runtime over the in-memory store\<close>

text \<open>
  The server's state for this part is the store and the resolver. Writers change the store, requests
  run \<open>Resolve\<close> against it and may fill the cache, in any order.
\<close>

definition attach :: "Env \<Rightarrow> MemoryStore \<Rightarrow> Resolver \<Rightarrow> Resolver" where
  "attach env m r = r\<lparr>rv_Store := Some (memory_store_ops env m)\<rparr>"

inductive runtime_step ::
  "(string \<Rightarrow> routeAuthorizationPolicyBundle result) \<Rightarrow> MemoryStore \<times> Resolver \<Rightarrow> MemoryStore \<times> Resolver \<Rightarrow> bool"
  for unmarshal where
  store_write: "store_step m m' \<Longrightarrow> runtime_step unmarshal (m, r) (m', r)"
| serve: "Resolve unmarshal ctx (attach env m r) = (answer, r') \<Longrightarrow> runtime_step unmarshal (m, r) (m, r')"

definition stored_versions :: "MemoryStore \<Rightarrow> AuthzPolicyVersion set" where
  "stored_versions m = {v. \<exists>k. map_of (st_authzVersions m) k = Some v}"

lemma versions_in_memory: "versions_in (memory_store_ops env m) (stored_versions m)"
  by (auto simp: versions_in_def memory_store_ops_def GetAuthzPolicyVersion_Inr stored_versions_def)

lemma stored_versions_grow: "store_step m m' \<Longrightarrow> stored_versions m \<subseteq> stored_versions m'"
  using store_step_grows [of m m'] by (auto simp: stored_versions_def store_grows_def)

lemma keys_honest_mono: "keys_honest W \<Longrightarrow> V \<subseteq> W \<Longrightarrow> keys_honest V"
  unfolding keys_honest_def by blast

lemma cache_coherent_mono: "cache_coherent u V r \<Longrightarrow> V \<subseteq> W \<Longrightarrow> cache_coherent u W r"
  unfolding cache_coherent_def by blast

lemma compile_version_attach [simp]: "compile_version u (attach env m r) v = compile_version u r v"
  by (cases "u (pv_Bundle v)") (simp_all add: attach_def compile_version_def Let_def cong: sum.case_cong if_cong)

lemma cache_coherent_attach [simp]: "cache_coherent u V (attach env m r) = cache_coherent u V r"
  by (simp add: cache_coherent_def) (simp add: attach_def)

lemma attach_sel [simp]:
  "rv_Store (attach env m r) = Some (memory_store_ops env m)" "rv_PolicySet (attach env m r) = rv_PolicySet r"
  "rv_Fallback (attach env m r) = rv_Fallback r" "rv_InitErr (attach env m r) = rv_InitErr r"
  by (simp_all add: attach_def)

text \<open>What the steps keep: the resolver's parameters and a cache of compiled stored versions.\<close>

definition same_resolver :: "Resolver \<Rightarrow> Resolver \<Rightarrow> bool" where
  "same_resolver r r' \<longleftrightarrow>
    rv_PolicySet r' = rv_PolicySet r \<and> rv_Fallback r' = rv_Fallback r \<and> rv_InitErr r' = rv_InitErr r"

lemma runtime_keeps:
  assumes "(runtime_step u)\<^sup>*\<^sup>* (NewMemoryStore, r0) (m, r)" "rv_Cache r0 = []"
  shows "store_step\<^sup>*\<^sup>* NewMemoryStore m \<and> cache_coherent u (stored_versions m) r \<and> same_resolver r0 r"
  using assms(1)
proof (induction "(m, r)" arbitrary: m r rule: rtranclp_induct)
  case base
  with assms(2) show ?case by (simp add: cache_coherent_def same_resolver_def)
next
  case (step mid)
  obtain m1 r1 where mid: "mid = (m1, r1)" by (cases mid)
  from step(3) [OF mid]
  have inv: "store_step\<^sup>*\<^sup>* NewMemoryStore m1" "cache_coherent u (stored_versions m1) r1" "same_resolver r0 r1" by auto
  from step(2) [unfolded mid] show ?case
  proof cases
    case store_write
    with inv cache_coherent_mono [OF inv(2) stored_versions_grow [OF store_write(2)]] show ?thesis by auto
  next
    case (serve ctx env answer)
    have coherent: "cache_coherent u (stored_versions m1) (attach env m1 r1)" using inv(2) by simp
    obtain m' where "snd (Resolve u ctx (attach env m1 r1)) = (attach env m1 r1)\<lparr>rv_Cache := m'\<rparr>"
      "cache_coherent u (stored_versions m1) (snd (Resolve u ctx (attach env m1 r1)))"
      by (rule Resolve_run [OF attach_sel(1) coherent versions_in_memory]) blast
    with serve inv(1,3) show ?thesis by (simp add: same_resolver_def)
  qed
qed

subsection \<open>Resolution always answers\<close>

lemma resolve_version_memory:
  assumes "wf_store m" "GetAuthzPolicyRollout ctx p m = Inr ro" "n = ro_ActiveVersion ro \<or> n = ro_CandidateVersion ro"
    and "rv_PolicySet r = p"
  shows "\<exists>found. fst (resolve_version u (memory_store_ops env m) ctx what n r) = Inr found"
proof (cases n)
  case None
  then show ?thesis by (simp add: resolve_version_def)
next
  case (Some k)
  with rollout_version_found [OF assms(1,2), of k] assms(3)
  obtain v where "GetAuthzPolicyVersion ctx p k m = Inr v" by metis
  with Some assms(4) show ?thesis
    by (auto simp: resolve_version_def memory_store_ops_def split: sum.splits prod.splits)
qed

lemma normalizeRuntimeRollout_versions [simp]:
  "ro_ActiveVersion (normalizeRuntimeRollout ro p) = ro_ActiveVersion ro"
  "ro_CandidateVersion (normalizeRuntimeRollout ro p) = ro_CandidateVersion ro"
  by (simp_all add: normalizeRuntimeRollout_def Let_def)

lemma with_candidate_sel [simp]:
  "rr_Engine (with_candidate store ctx c rt) = rr_Engine rt" "rr_Registry (with_candidate store ctx c rt) = rr_Registry rt"
  "rr_Source (with_candidate store ctx c rt) = rr_Source rt"
  by (auto simp: with_candidate_def split: option.splits)

text \<open>The policy that decides: the built-in one, or the compiled active version.\<close>

definition decides_with :: "Env \<Rightarrow> MemoryStore \<Rightarrow> Context \<Rightarrow> resolvedCentralPolicyRuntime \<Rightarrow> compiledRouteAuthorizationPolicy \<Rightarrow> bool" where
  "decides_with env m ctx rt c \<longleftrightarrow>
    rr_Engine rt = Some (engine_of (Some (memory_store_ops env m)) ctx c) \<and> rr_Registry rt = cp_RouteRegistry c"

lemma fallback_decides: "decides_with env m ctx (fallbackRuntime (attach env m r) ctx) (rv_Fallback r)"
  by (simp add: decides_with_def fallbackRuntime_def built_in_runtime_def)

lemma Resolve_answers:
  assumes "wf_store m" "cache_coherent u (stored_versions m) r" "rv_InitErr r = None"
    and "RequireScope ctx = Inr sc" "authzOwnerTeamPattern (norm_key (rv_PolicySet r))"
  shows "\<exists>rt c. fst (Resolve u ctx (attach env m r)) = Inr rt \<and> decides_with env m ctx rt c
    \<and> (c = rv_Fallback r \<or> compiles_in u (stored_versions m) r c)"
proof -
  let ?r = "attach env m r" and ?s = "memory_store_ops env m"
  have coherent: "cache_coherent u (stored_versions m) ?r" using assms(2) by simp
  obtain r1 k where r1: "r1 = ?r\<lparr>rv_Cache := k\<rparr>"
    and run: "fst (Resolve u ctx ?r) = resolve_with ctx ?r (\<lambda>p. fst (resolve_version u ?s ctx ''active'' p ?r))
       (\<lambda>p. fst (resolve_version u ?s ctx ''candidate'' p r1)) ?s"
    by (rule Resolve_run [OF attach_sel(1) coherent versions_in_memory])
  show ?thesis
  proof (cases "GetAuthzPolicyRollout ctx (rv_PolicySet r) m")
    case (Inl err)
    with assms(4,5) have "err = Sentinel ErrNotFound"
      by (auto simp: GetAuthzPolicyRollout_def rbind_Inl_iff normalizeAuthzPolicySetID_def Let_def
          authzOwnerTeamPattern_def split: option.splits if_splits)
    with Inl assms(3) have "fst (Resolve u ctx ?r) = Inr (fallbackRuntime ?r ctx)"
      by (simp add: run resolve_with_def memory_store_ops_def)
    with fallback_decides show ?thesis by blast
  next
    case (Inr ro)
    let ?A = "resolve_version u ?s ctx ''active'' (ro_ActiveVersion ro) ?r"
    have p: "rv_PolicySet ?r = rv_PolicySet r" "rv_PolicySet r1 = rv_PolicySet r" by (simp_all add: r1)
    obtain a where a: "fst ?A = Inr a" using resolve_version_memory [OF assms(1) Inr _ p(1)] by blast
    obtain c where c: "fst (resolve_version u ?s ctx ''candidate'' (ro_CandidateVersion ro) r1) = Inr c"
      using resolve_version_memory [OF assms(1) Inr _ p(2)] by blast
    have "so_GetRollout ?s ctx (rv_PolicySet r) = Inr ro" using Inr by (simp add: memory_store_ops_def)
    with a c assms(3) obtain rt where rt: "fst (Resolve u ctx ?r) = Inr rt"
      and eng: "rr_Engine rt = rr_Engine (with_active (Some ?s) ctx a (fallbackRuntime ?r ctx))"
        "rr_Registry rt = rr_Registry (with_active (Some ?s) ctx a (fallbackRuntime ?r ctx))"
      by (cases a) (auto simp: run resolve_with_def Let_def with_active_def)
    show ?thesis
    proof (cases a)
      case None
      with eng fallback_decides [of env m ctx r] rt show ?thesis by (auto simp: with_active_def decides_with_def)
    next
      case (Some found)
      then obtain d n where d: "a = Some (d, n)" by (cases found) auto
      with a have "?A = (Inr (Some (d, n)), snd ?A)" by (metis prod.collapse)
      from resolve_version_keeps(3) [OF this coherent versions_in_memory refl]
      have "compiles_in u (stored_versions m) r d" by (simp add: compiles_in_def)
      with d eng rt show ?thesis by (auto simp: with_active_def decides_with_def)
    qed
  qed
qed

lemma default_policy_set: "authzOwnerTeamPattern (norm_key defaultCentralPolicySetID)"
  by code_simp

lemma new_resolver: "newCentralPolicyRuntimeResolver store =
    \<lparr>rv_Store = store, rv_PolicySet = defaultCentralPolicySetID, rv_Fallback = builtin_compiled,
     rv_InitErr = None, rv_Cache = []\<rparr>"
proof -
  have "trim_space defaultCentralPolicySetID = defaultCentralPolicySetID" by code_simp
  moreover have "defaultCentralPolicySetID \<noteq> ''''" by code_simp
  ultimately show ?thesis
    by (simp add: newCentralPolicyRuntimeResolver_def newCentralPolicyRuntimeResolverWithPolicySet_def Let_def builtin_compiles)
qed

subsection \<open>What compiling a stored version gives\<close>

lemma builtin_complete: "complete_policy builtin_compiled"
  by (rule wf_complete [OF builtin_wf])

lemma compatibility_routes_shipped: "set compatibility_routes \<subseteq> set defaultBuiltInRoutePolicyDefinitions"
  by (simp add: compatibility_routes_def defaultBuiltInRoutePolicyDefinitions_def
      builtInRoutePolicyDefinitions_1_def builtInRoutePolicyDefinitions_2_def)

definition has_route :: "compiledRouteAuthorizationPolicy \<Rightarrow> routePolicyDefinition \<Rightarrow> bool" where
  "has_route c d \<longleftrightarrow> lookup_route (cp_RouteRegistry c) (rd_Method d) (rd_Path d) \<noteq> None"

lemma overlay_compatibility:
  assumes "complete_policy b" "d \<in> set compatibility_routes"
  shows "has_route (overlayRouteAuthorizationPolicyCompatibility b builtin_compiled compatibility_routes) d"
proof -
  from assms(2) compatibility_routes_shipped have d: "d \<in> set defaultBuiltInRoutePolicyDefinitions" by blast
  from overlay_adds [OF builtin_routes_normal [OF d] assms(2) builtin_route_found [OF d, unfolded lookup_route_def]
      builtin_complete assms(1)]
  show ?thesis by (simp add: has_route_def lookup_route_def has_key_iff)
qed

definition upgraded :: "string \<Rightarrow> compiledRouteAuthorizationPolicy \<Rightarrow> compiledRouteAuthorizationPolicy" where
  "upgraded policySet c =
    (if equal_fold (trim_space policySet) defaultCentralPolicySetID \<and> isLegacyDefaultRouteAuthorizationPolicy c
     then upgradeLegacyDefaultRoleGrants c builtin_compiled else c)"

lemma compile_version_gives:
  assumes "rv_Fallback r = builtin_compiled" "compile_version u r v = Inr c"
  obtains b where "compileRouteAuthorizationPolicyBundleJSON u (pv_Bundle v) = Inr b"
    "extends_policy builtin_compiled (upgraded (rv_PolicySet r) b) c" "complete_policy c"
    "\<forall>d\<in>set compatibility_routes. has_route c d"
proof -
  from assms obtain b where b: "compileRouteAuthorizationPolicyBundleJSON u (pv_Bundle v) = Inr b"
    and c: "c = overlayRouteAuthorizationPolicyCompatibility (upgraded (rv_PolicySet r) b) builtin_compiled compatibility_routes"
    by (auto simp: compile_version_def upgraded_def Let_def split: sum.splits)
  from b obtain raw where "compileRouteAuthorizationPolicyBundle raw = Inr b"
    by (auto simp: compileRouteAuthorizationPolicyBundleJSON_def Let_def split: sum.splits if_splits)
  then have "complete_policy b" by (intro wf_complete compile_wf)
  then have u: "complete_policy (upgraded (rv_PolicySet r) b)" by (simp add: upgraded_def upgrade_complete)
  from that [OF b] overlay_keeps [OF builtin_complete u] overlay_compatibility [OF u] show thesis
    unfolding c by blast
qed

text \<open>A resolver over the built-in policy whose policy set identifier is accepted by the store.\<close>

lemma new_resolver_set:
  assumes "authzOwnerTeamPattern (norm_key p)"
  shows "newCentralPolicyRuntimeResolverWithPolicySet store p =
    \<lparr>rv_Store = store, rv_PolicySet = trim_space p, rv_Fallback = builtin_compiled, rv_InitErr = None, rv_Cache = []\<rparr>"
proof -
  have "trim_space p \<noteq> ''''"
  proof
    assume "trim_space p = ''''"
    then have "norm_key p = ''''" by (simp add: norm_key_def)
    with assms show False by (simp add: authzOwnerTeamPattern_def)
  qed
  then show ?thesis
    by (simp add: newCentralPolicyRuntimeResolverWithPolicySet_def Let_def builtin_compiles)
qed

subsection \<open>Properties\<close>

text \<open>Concrete values: every stored bundle decodes to the sample bundle, and one request is served.\<close>

definition sample_unmarshal :: "string \<Rightarrow> routeAuthorizationPolicyBundle result" where
  "sample_unmarshal raw = Inr sample_bundle"

definition sample_resolver :: Resolver where
  "sample_resolver = newCentralPolicyRuntimeResolverWithPolicySet None ''core''"

definition served_resolver :: Resolver where
  "served_resolver = snd (Resolve sample_unmarshal sample_ctx (attach sample_env store3 sample_resolver))"

lemma core_set: "authzOwnerTeamPattern (norm_key ''core'')"
  by code_simp

lemma sample_runtime: "(runtime_step sample_unmarshal)\<^sup>*\<^sup>* (NewMemoryStore, sample_resolver) (store3, served_resolver)"
proof -
  have "runtime_step sample_unmarshal (store3, sample_resolver) (store3, served_resolver)"
    unfolding served_resolver_def by (rule serve [OF prod.collapse [symmetric]])
  with sample_steps [THEN store_write, of sample_unmarshal sample_resolver] show ?thesis
    by (meson rtranclp.rtrancl_into_rtrancl rtranclp.rtrancl_refl)
qed



text \<open>
  C12: resolution never fails on the in-memory store. Whatever was written and cached before, a
  request with a scope gets a runtime whose engine and routes come from one policy: the built-in one,
  or a stored bundle as compiled with its compatibility overlay; in both every routed action has role
  grants and an ABAC policy, and the three compatibility routes are present.
\<close>

theorem runtime_always_answers:
  assumes "(runtime_step unmarshal)\<^sup>*\<^sup>* (NewMemoryStore, newCentralPolicyRuntimeResolverWithPolicySet store p) (m, r)"
    and "authzOwnerTeamPattern (norm_key p)" "RequireScope ctx = Inr sc"
  shows "\<exists>rt c. fst (Resolve unmarshal ctx (attach env m r)) = Inr rt \<and> decides_with env m ctx rt c
    \<and> (c = builtin_compiled \<or> (\<exists>v\<in>stored_versions m. compile_version unmarshal r v = Inr c))
    \<and> complete_policy c \<and> (\<forall>d\<in>set compatibility_routes. has_route c d)"
proof -
  note new = new_resolver_set [OF assms(2)]
  have keep: "store_step\<^sup>*\<^sup>* NewMemoryStore m" "cache_coherent unmarshal (stored_versions m) r"
    "rv_PolicySet r = trim_space p" "rv_Fallback r = builtin_compiled" "rv_InitErr r = None"
    using runtime_keeps [OF assms(1)] by (simp_all add: new same_resolver_def)
  from Resolve_answers [OF reachable_wf [OF keep(1)] keep(2,5) assms(3), of env] keep(3,4) assms(2)
  obtain rt c where rt: "fst (Resolve unmarshal ctx (attach env m r)) = Inr rt" "decides_with env m ctx rt c"
    and c: "c = builtin_compiled \<or> (\<exists>v\<in>stored_versions m. compile_version unmarshal r v = Inr c)"
    by (auto simp: compiles_in_def)
  have "\<forall>d\<in>set compatibility_routes. has_route builtin_compiled d"
    using compatibility_routes_shipped builtin_route_found by (auto simp: has_route_def)
  with c builtin_complete have "complete_policy c \<and> (\<forall>d\<in>set compatibility_routes. has_route c d)"
    by (auto elim: compile_version_gives [OF keep(4)])
  with rt c show ?thesis by blast
qed

theorem runtime_always_answers_witness:
  "\<exists>rt c. fst (Resolve sample_unmarshal sample_ctx (attach sample_env store3 served_resolver)) = Inr rt
    \<and> decides_with sample_env store3 sample_ctx rt c \<and> complete_policy c"
  using runtime_always_answers [OF sample_runtime [unfolded sample_resolver_def] core_set sample_scope_required]
  by blast

text \<open>
  What the runtime does with a stored bundle. Compiling a version keeps every route, role grant
  and ABAC policy of the bundle's own compilation (after the upgrade of legacy default grants), takes
  every entry it adds from the built-in policy, and fails only when the bundle itself does not compile.
\<close>

theorem compiled_version_extends_bundle:
  assumes "r = newCentralPolicyRuntimeResolverWithPolicySet store p" "authzOwnerTeamPattern (norm_key p)"
    and "compileRouteAuthorizationPolicyBundleJSON unmarshal (pv_Bundle v) = Inr b"
  shows "\<exists>c. compile_version unmarshal r v = Inr c \<and> extends_policy builtin_compiled (upgraded (rv_PolicySet r) b) c
    \<and> (\<forall>a. has_key (cp_RBACActionRole b) a \<longrightarrow> has_key (cp_RBACActionRole c) a)
    \<and> (\<not> isLegacyDefaultRouteAuthorizationPolicy b \<longrightarrow> extends_policy builtin_compiled b c)"
proof -
  have fallback: "rv_Fallback r = builtin_compiled" using assms(1) new_resolver_set [OF assms(2)] by simp
  from assms(3) obtain c where c: "compile_version unmarshal r v = Inr c"
    by (simp add: compile_version_def Let_def)
  from compile_version_gives [OF fallback c] assms(3)
  have ext: "extends_policy builtin_compiled (upgraded (rv_PolicySet r) b) c" by (metis sum.inject(2))
  have "has_key (cp_RBACActionRole (upgraded (rv_PolicySet r) b)) a = has_key (cp_RBACActionRole b) a" for a
    by (simp add: upgraded_def upgradeLegacyDefaultRoleGrants_def upgrade_grants_keys)
  with ext have "\<forall>a. has_key (cp_RBACActionRole b) a \<longrightarrow> has_key (cp_RBACActionRole c) a"
    unfolding extends_policy_def sub_map_def has_key_iff by blast
  with c ext show ?thesis by (auto simp: upgraded_def)
qed

theorem compiled_version_extends_bundle_witness:
  "\<exists>c. compile_version sample_unmarshal sample_resolver sample_version = Inr c
    \<and> lookup_route (cp_RouteRegistry c) ''GET'' ''/v1/findings/:finding_id'' \<noteq> None"
proof -
  have "trim_space ''{}'' = ''{}''" by code_simp
  then have "compileRouteAuthorizationPolicyBundleJSON sample_unmarshal (pv_Bundle sample_version) = Inr sample_compiled"
    by (simp add: compileRouteAuthorizationPolicyBundleJSON_def sample_version_def sample_unmarshal_def sample_compiles)
  from compiled_version_extends_bundle [OF sample_resolver_def core_set this] obtain c where
    c: "compile_version sample_unmarshal sample_resolver sample_version = Inr c"
    "extends_policy builtin_compiled (upgraded (rv_PolicySet sample_resolver) sample_compiled) c" by blast
  have "upgraded (rv_PolicySet sample_resolver) sample_compiled = sample_compiled"
  proof -
    have "\<not> equal_fold (trim_space (trim_space ''core'')) defaultCentralPolicySetID" by code_simp
    then show ?thesis by (simp add: upgraded_def sample_resolver_def new_resolver_set [OF core_set])
  qed
  moreover have "lookup_route (cp_RouteRegistry sample_compiled) ''GET'' ''/v1/findings/:finding_id'' \<noteq> None" by code_simp
  ultimately have "lookup_route (cp_RouteRegistry c) ''GET'' ''/v1/findings/:finding_id'' \<noteq> None"
    using c(2) by (auto simp: extends_policy_def sub_map_def lookup_route_def)
  with c(1) show ?thesis by blast
qed

text \<open>
  The cache does not see the tenant. Once a version has been compiled, any other version with the
  same policy set, number and checksum is served the first one's policy, whatever its own tenant,
  workspace and bundle say.
\<close>

theorem cache_key_ignores_scope:
  assumes "map_of (rv_Cache r) (version_cache_key v) = None" "compile_version unmarshal r v = Inr c"
    and "pv_PolicySetID w = pv_PolicySetID v" "pv_Version w = pv_Version v" "pv_Checksum w = pv_Checksum v"
    and "version_cache_key v \<noteq> ''||''"
  shows "fst (compiledVersion unmarshal (snd (compiledVersion unmarshal r v)) w) = Inr c"
proof -
  have "version_cache_key w = version_cache_key v" using assms(3,4,5) by (simp add: version_cache_key_def)
  with assms show ?thesis by (simp add: compiledVersion_def Let_def)
qed

definition other_tenants_version :: AuthzPolicyVersion where
  "other_tenants_version = sample_version\<lparr>pv_TenantID := ''globex'', pv_Bundle := ''not json''\<rparr>"

definition strict_unmarshal :: "string \<Rightarrow> routeAuthorizationPolicyBundle result" where
  "strict_unmarshal raw = (if raw = ''{}'' then Inr sample_bundle else Inl (ErrorText ''invalid character''))"

definition bare_resolver :: Resolver where
  "bare_resolver = \<lparr>rv_Store = None, rv_PolicySet = ''core'', rv_Fallback = emptyCompiledRouteAuthorizationPolicy,
     rv_InitErr = None, rv_Cache = []\<rparr>"

theorem cache_key_ignores_scope_witness:
  "\<exists>c. fst (compiledVersion strict_unmarshal (snd (compiledVersion strict_unmarshal bare_resolver sample_version))
      other_tenants_version) = Inr c
    \<and> compileRouteAuthorizationPolicyBundleJSON strict_unmarshal (pv_Bundle other_tenants_version)
      = Inl (Wrapped ''decode policy bundle json: '' (ErrorText ''invalid character'') '''')"
proof -
  have "is_ok (compile_version strict_unmarshal bare_resolver sample_version)" by code_simp
  then obtain c where c: "compile_version strict_unmarshal bare_resolver sample_version = Inr c" by (auto simp: is_ok_iff)
  have none: "map_of (rv_Cache bare_resolver) (version_cache_key sample_version) = None" by (simp add: bare_resolver_def)
  have key: "version_cache_key sample_version \<noteq> ''||''" by code_simp
  have "compileRouteAuthorizationPolicyBundleJSON strict_unmarshal (pv_Bundle other_tenants_version)
      = Inl (Wrapped ''decode policy bundle json: '' (ErrorText ''invalid character'') '''')" by code_simp
  with cache_key_ignores_scope [OF none c _ _ _ key, of other_tenants_version]
  show ?thesis by (simp add: other_tenants_version_def)
qed

text \<open>
  The rollout the runtime works with is always usable: a known mode, a canary percentage in 1..100,
  and sorted duplicate-free lists with positive versions and non-empty allowlist entries.
\<close>

theorem runtime_rollout_bounds:
  "let n = normalizeRuntimeRollout ro p in
    ro_Mode n \<in> set validAuthzPolicyRolloutModes \<and> 1 \<le> ro_CanaryPercentage n \<and> ro_CanaryPercentage n \<le> 100
    \<and> ro_PolicySetID n \<noteq> ''''
    \<and> sorted (ro_ValidatedVersions n) \<and> distinct (ro_ValidatedVersions n)
    \<and> set (ro_ValidatedVersions n) = {v. v \<in> set (ro_ValidatedVersions ro) \<and> 0 < v}
    \<and> sorted (ro_TenantAllowlist n) \<and> distinct (ro_TenantAllowlist n)
    \<and> set (ro_TenantAllowlist n) = trim_space ` set (ro_TenantAllowlist ro) - {''''}
    \<and> sorted (ro_WorkspaceAllowlist n) \<and> distinct (ro_WorkspaceAllowlist n)
    \<and> set (ro_WorkspaceAllowlist n) = trim_space ` set (ro_WorkspaceAllowlist ro) - {''''}"
proof -
  have mode: "AuthzPolicyRolloutModeDisabled \<in> set validAuthzPolicyRolloutModes" by code_simp
  have default: "defaultCentralPolicySetID \<noteq> ''''" by code_simp
  have versions: "set (normalizeRuntimeValidatedVersions vs) = {v. v \<in> set vs \<and> 0 < v}" for vs
    by (force simp: normalizeRuntimeValidatedVersions_def set_collect_unique split: if_splits)
  have allowed: "set (normalizeRuntimeAllowlist xs) = trim_space ` set xs - {''''}" for xs
    by (auto simp: normalizeRuntimeAllowlist_def set_collect_unique nonempty_def split: if_splits)
  have lists: "sorted (normalizeRuntimeValidatedVersions vs)" "distinct (normalizeRuntimeValidatedVersions vs)"
    "sorted (normalizeRuntimeAllowlist xs)" "distinct (normalizeRuntimeAllowlist xs)" for vs xs
    by (simp_all add: normalizeRuntimeValidatedVersions_def normalizeRuntimeAllowlist_def distinct_collect_unique)
  show ?thesis
    by (simp add: normalizeRuntimeRollout_def Let_def mode default versions allowed lists)
qed

end
