(* ===== verification/Authz_Rollout.thy ===== *)
theory Authz_Rollout
  imports Authz_Roles Policy_Runtime
begin

section \<open>Rollout targeting and shadow evaluation (internal/api/authz_middleware.go)\<close>

text \<open>
  Which requests a rollout reaches (allowlists, then a deterministic canary bucket), which engine
  decides them, and the shadow evaluation of a candidate policy. The bucket is the 64-bit FNV-1a hash
  of the request's identity, computed on \<^typ>\<open>64 word\<close> as \<^verbatim>\<open>hash/fnv\<close> does. The counters are
  \<^verbatim>\<open>uint64\<close> and wrap; a metric update is an entry of \<open>az_Metrics\<close> (\<open>None\<close> for nil metrics), the
  divergence rate is recorded as its two counters instead of their quotient.
\<close>

unbundle bit_operations_syntax

datatype metric =
    DecisionByVersion string string string string
  | ShadowEvaluation
  | ShadowEvaluationError
  | ShadowDivergence
  | ShadowDivergenceRate "64 word" "64 word"

record AuthzState =
  az_Metrics :: "metric list option"
  az_EvalCount :: "64 word"
  az_DivergenceCount :: "64 word"
  az_Resolver :: Resolver

definition emit :: "metric \<Rightarrow> AuthzState \<Rightarrow> AuthzState" where
  "emit m st = st\<lparr>az_Metrics := map_option (\<lambda>ms. ms @ [m]) (az_Metrics st)\<rparr>"

subsection \<open>Targeting\<close>

definition fnv_step :: "64 word \<Rightarrow> char \<Rightarrow> 64 word" where
  "fnv_step h b = (h XOR word_of_nat (of_char b)) * 1099511628211"

definition fnv64a :: "string \<Rightarrow> 64 word" where
  "fnv64a s = foldl fnv_step 14695981039346656037 s"

definition deterministicCanaryBucket :: "string \<Rightarrow> int" where
  "deterministicCanaryBucket seed = uint (fnv64a (trim_space seed) mod 100)"

definition containsStringExact :: "string list \<Rightarrow> string \<Rightarrow> bool" where
  "containsStringExact values target = list_ex (\<lambda>candidate. trim_space candidate = trim_space target) values"

definition decision_tenant :: "PolicyInput \<Rightarrow> string" where
  "decision_tenant input =
    firstNonEmpty (res_TenantID (in_Resource input))
      (firstNonEmpty (sub_TenantID (in_Subject input))
        (trim_space (map_string (pc_Attributes (in_Context input)) policyContextTenantIDKey)))"

definition decision_workspace :: "PolicyInput \<Rightarrow> string" where
  "decision_workspace input =
    firstNonEmpty (res_WorkspaceID (in_Resource input))
      (firstNonEmpty (sub_WorkspaceID (in_Subject input))
        (trim_space (map_string (pc_Attributes (in_Context input)) policyContextWorkspaceIDKey)))"

definition canary_seed :: "AuthzPolicyRollout \<Rightarrow> PolicyInput \<Rightarrow> string" where
  "canary_seed rollout input =
    join_strings ''|'' [trim_space (ro_PolicySetID rollout), decision_tenant input, decision_workspace input,
      trim_space (sub_Type (in_Subject input)), trim_space (sub_ID (in_Subject input)), trim_space (in_Action input),
      trim_space (res_Type (in_Resource input)), trim_space (res_ID (in_Resource input))]"

definition shouldTargetRolloutRequest :: "AuthzPolicyRollout \<Rightarrow> PolicyInput \<Rightarrow> bool" where
  "shouldTargetRolloutRequest rollout input =
    (let canary = ro_CanaryPercentage rollout
     in if canary \<le> 0 then False
        else let canary = (if 100 < canary then 100 else canary)
          in if ro_TenantAllowlist rollout \<noteq> [] \<and> \<not> containsStringExact (ro_TenantAllowlist rollout) (decision_tenant input) then
               False
             else if ro_WorkspaceAllowlist rollout \<noteq> []
                     \<and> \<not> containsStringExact (ro_WorkspaceAllowlist rollout) (decision_workspace input) then False
             else if 100 \<le> canary then True
             else deterministicCanaryBucket (canary_seed rollout input) < canary)"

definition rolloutVersionValidated :: "AuthzPolicyRollout \<Rightarrow> int \<Rightarrow> bool" where
  "rolloutVersionValidated rollout version =
    (if version \<le> 0 then False else list_ex (\<lambda>validated. validated = version) (ro_ValidatedVersions rollout))"

subsection \<open>The deciding engine\<close>

definition enforceCandidate :: "resolvedCentralPolicyRuntime \<Rightarrow> bool \<Rightarrow> bool" where
  "enforceCandidate rt targeted =
    (ro_Mode (rr_Rollout rt) = AuthzPolicyRolloutModeEnforce \<and> targeted \<and> rr_CandidateEngine rt \<noteq> None
     \<and> rolloutVersionValidated (rr_Rollout rt) (rr_CandidateVersion rt))"

definition decision_engine :: "resolvedCentralPolicyRuntime \<Rightarrow> bool \<Rightarrow> PolicyEngine option \<times> string \<times> int" where
  "decision_engine rt targeted =
    (if enforceCandidate rt targeted then (rr_CandidateEngine rt, rr_CandidateSource rt, rr_CandidateVersion rt)
     else (rr_Engine rt, rr_Source rt, rr_Version rt))"

subsection \<open>Shadow evaluation and metrics\<close>

definition policyDecisionsDiverge :: "PolicyDecision \<Rightarrow> PolicyDecision \<Rightarrow> bool" where
  "policyDecisionsDiverge current candidate =
    (pd_Allowed current \<noteq> pd_Allowed candidate \<or> pd_Stage current \<noteq> pd_Stage candidate)"

definition recordPolicyShadowEvaluation ::
  "resolvedCentralPolicyRuntime \<Rightarrow> bool \<Rightarrow> PolicyInput \<Rightarrow> PolicyDecision \<Rightarrow> bool \<Rightarrow> bool \<Rightarrow> AuthzState \<Rightarrow> AuthzState" where
  "recordPolicyShadowEvaluation rt targeted input decision evalPtr divergencePtr st =
    (if ro_Mode (rr_Rollout rt) \<noteq> AuthzPolicyRolloutModeShadow \<or> \<not> targeted \<or> rr_CandidateEngine rt = None
        \<or> \<not> rolloutVersionValidated (rr_Rollout rt) (rr_CandidateVersion rt) then st
     else
       let st = emit ShadowEvaluation st;
           st = (if evalPtr then st\<lparr>az_EvalCount := az_EvalCount st + 1\<rparr> else st);
           totalEvaluations = (if evalPtr then az_EvalCount st else 0);
           st = (case Decide (rr_CandidateEngine rt) input of
               Inl _ \<Rightarrow> emit ShadowEvaluationError st
             | Inr candidateDecision \<Rightarrow>
                (if policyDecisionsDiverge decision candidateDecision then
                   let st = emit ShadowDivergence st
                   in if divergencePtr then st\<lparr>az_DivergenceCount := az_DivergenceCount st + 1\<rparr> else st
                 else st))
       in if 0 < totalEvaluations \<and> divergencePtr then
            emit (ShadowDivergenceRate (az_DivergenceCount st) totalEvaluations) st
          else st)"

definition recordPolicyDecisionMetric :: "int \<Rightarrow> string \<Rightarrow> string \<Rightarrow> bool \<Rightarrow> AuthzState \<Rightarrow> AuthzState" where
  "recordPolicyDecisionMetric version source rolloutMode allowed st =
    (let versionLabel = (if 0 < version then int_string version else ''built_in'');
         sourceLabel = (if trim_space source = '''' then ''unknown'' else trim_space source);
         modeLabel = (if trim_space rolloutMode = '''' then AuthzPolicyRolloutModeDisabled else trim_space rolloutMode)
     in emit (DecisionByVersion versionLabel sourceLabel modeLabel (if allowed then ''true'' else ''false'')) st)"

subsection \<open>Laws\<close>

text \<open>The published test vectors of FNV-1a.\<close>

lemma fnv64a_vectors: "fnv64a [] = 0xcbf29ce484222325 \<and> fnv64a (''a'') = 0xaf63dc4c8601ec8c"
  by (simp add: fnv64a_def fnv_step_def of_char_def)

lemma bucket_range: "0 \<le> deterministicCanaryBucket seed \<and> deterministicCanaryBucket seed < 100"
proof -
  have "uint (fnv64a (trim_space seed) mod 100) = uint (fnv64a (trim_space seed)) mod 100" by (simp add: uint_mod)
  then show ?thesis by (simp add: deterministicCanaryBucket_def)
qed

text \<open>The requests a rollout can reach at all.\<close>

definition allowlisted :: "AuthzPolicyRollout \<Rightarrow> PolicyInput \<Rightarrow> bool" where
  "allowlisted rollout input \<longleftrightarrow>
    (ro_TenantAllowlist rollout = [] \<or> containsStringExact (ro_TenantAllowlist rollout) (decision_tenant input))
    \<and> (ro_WorkspaceAllowlist rollout = [] \<or> containsStringExact (ro_WorkspaceAllowlist rollout) (decision_workspace input))"

lemma shouldTarget_iff:
  "shouldTargetRolloutRequest rollout input \<longleftrightarrow>
    allowlisted rollout input \<and> deterministicCanaryBucket (canary_seed rollout input) < ro_CanaryPercentage rollout"
  using bucket_range [of "canary_seed rollout input"]
  by (auto simp: shouldTargetRolloutRequest_def Let_def allowlisted_def)

lemma canary_seed_update [simp]:
  "canary_seed (r\<lparr>ro_CanaryPercentage := n\<rparr>) input = canary_seed r input"
  "allowlisted (r\<lparr>ro_CanaryPercentage := n\<rparr>) input = allowlisted r input"
  by (simp_all add: canary_seed_def allowlisted_def)

subsection \<open>Properties\<close>

text \<open>
  Canary percentages are exact and monotone. A request's bucket is in 0..99, a rollout reaches a
  request exactly when the allowlists admit it and its bucket lies below the percentage, so raising
  the percentage never drops a request, 100 reaches all admitted ones and 0 none.
\<close>

theorem canary_targets:
  "0 \<le> deterministicCanaryBucket (canary_seed rollout input) \<and> deterministicCanaryBucket (canary_seed rollout input) < 100
   \<and> shouldTargetRolloutRequest (rollout\<lparr>ro_CanaryPercentage := n\<rparr>) input
     = (allowlisted rollout input \<and> deterministicCanaryBucket (canary_seed rollout input) < n)
   \<and> shouldTargetRolloutRequest (rollout\<lparr>ro_CanaryPercentage := min n k\<rparr>) input
     = (shouldTargetRolloutRequest (rollout\<lparr>ro_CanaryPercentage := n\<rparr>) input
        \<and> shouldTargetRolloutRequest (rollout\<lparr>ro_CanaryPercentage := k\<rparr>) input)"
  using bucket_range [of "canary_seed rollout input"] by (auto simp: shouldTarget_iff)

end
