(* ===== verification/Authz_Middleware.thy ===== *)
theory Authz_Middleware
  imports Authz_Rollout
begin

section \<open>The central policy middleware (internal/api/authz_middleware.go)\<close>

text \<open>
  Each request of the API group passes \<open>requireCentralPolicyMiddleware\<close>: it resolves the policy,
  looks the route up, builds the policy input from the request and the stored attributes, picks the
  deciding engine, records metrics, the shadow evaluation and the audit decision, and blocks
  suspended workspaces. \<open>authorizeRepoFindingDeleteTargets\<close> is the check a bulk delete runs for each
  target of its body. \<open>fp_id\<close> is the keyed fingerprint of an identifier; \<open>env\<close> gives the clock; the
  middleware's state (resolver cache, shadow counters, metrics) is an \<open>AuthzState\<close>.
\<close>

abbreviation authzShadowEvalCountKey :: string where "authzShadowEvalCountKey \<equiv> ''authz.shadow_eval_count''"
abbreviation authzShadowDivergenceCountKey :: string where
  "authzShadowDivergenceCountKey \<equiv> ''authz.shadow_divergence_count''"


definition usesBodyAwareAuthorization :: "routePolicy \<Rightarrow> bool" where
  "usesBodyAwareAuthorization policy = (trim_space (pol_ResourceType policy) = ''repo_finding_bulk_delete'')"

definition setAuthzShadowCounters :: "GinContext \<Rightarrow> GinContext" where
  "setAuthzShadowCounters c =
    gin_Set authzShadowDivergenceCountKey CounterValue (gin_Set authzShadowEvalCountKey CounterValue c)"

definition authzShadowCounters :: "GinContext \<Rightarrow> bool \<times> bool" where
  "authzShadowCounters c =
    (gin_Get c authzShadowEvalCountKey = Some CounterValue, gin_Get c authzShadowDivergenceCountKey = Some CounterValue)"

subsection \<open>Inactive workspaces\<close>

definition requiresActiveWorkspace :: "routePolicy \<Rightarrow> bool" where
  "requiresActiveWorkspace policy =
    (let action = trim_space (pol_Action policy); kind = trim_space (pol_ResourceType policy)
     in action \<in> set [policyActionFindingsTriage, policyActionScansRun, policyActionScansReplay, policyActionRepoScansRun]
        \<or> (action = policyActionTenancyWrite \<and> kind \<in> set [''connector'', ''project'', ''scan_policy'', ''workspace_member'']))"

text \<open>\<open>Inr (Some w)\<close>: blocked by the inactive workspace \<open>w\<close>.\<close>

definition inactiveWorkspaceBlock ::
  "GinContext \<Rightarrow> routePolicy \<Rightarrow> AccountStore option \<Rightarrow> TenancyWorkspace option result" where
  "inactiveWorkspaceBlock c policy store =
    (case store of
       None \<Rightarrow> Inr None
     | Some s \<Rightarrow>
        (if \<not> requiresActiveWorkspace policy then Inr None
         else let scope = ScopeFromContext (gc_Context c);
                  workspaceID = trim_space (gin_Param c ''workspace_id'');
                  workspaceID = (if workspaceID = '''' then trim_space (sc_WorkspaceID scope) else workspaceID)
           in if workspaceID = '''' \<or> trim_space (sc_TenantID scope) = '''' then Inr None
              else case ResolveScopedWorkspaceID scope workspaceID of
                Inl _ \<Rightarrow> Inr None
              | Inr resolvedWorkspaceID \<Rightarrow>
                 (case as_GetWorkspace s (WithScope (gc_Context c)
                         \<lparr>sc_TenantID = sc_TenantID scope, sc_WorkspaceID = resolvedWorkspaceID\<rparr>) resolvedWorkspaceID of
                    Inl err \<Rightarrow> (if errors_is err ErrNotFound then Inr None else Inl err)
                  | Inr workspace \<Rightarrow>
                     (if ws_Status workspace = WorkspaceStatusActive \<and> ws_DeletedAt workspace = None then Inr None
                      else Inr (Some workspace)))))"

definition abort_workspace :: "TenancyWorkspace \<Rightarrow> Reply" where
  "abort_workspace w = AbortWorkspace (ws_Status w) (ws_SuspendedAt w) (ws_DeletedAt w)"

subsection \<open>The policy input\<close>

definition trustedAttributesFromStore ::
  "Env \<Rightarrow> Context \<Rightarrow> AccountStore option \<Rightarrow> string \<Rightarrow> string \<Rightarrow> string \<Rightarrow> (string, string) gomap result" where
  "trustedAttributesFromStore env ctx store entityKind entityType entityID =
    (case store of
       None \<Rightarrow> Inr []
     | Some s \<Rightarrow>
        (let normalizedType = norm_key entityType; normalizedID = trim_space entityID
         in if normalizedType = '''' \<or> normalizedID = '''' then Inr []
            else case as_GetAuthzEntityAttributes s ctx entityKind normalizedType normalizedID of
              Inl err \<Rightarrow> (if errors_is err ErrNotFound then Inr [] else Inl err)
            | Inr record \<Rightarrow>
               rbind (NormalizeAuthzEntityAttributesForWrite env
                  \<lparr>ea_TenantID = '''', ea_WorkspaceID = '''', ea_EntityKind = entityKind, ea_EntityType = normalizedType,
                   ea_EntityID = normalizedID, ea_OwnerTeam = ea_OwnerTeam record, ea_Environment = ea_Environment record,
                   ea_RiskTier = ea_RiskTier record, ea_Classification = ea_Classification record,
                   ea_UpdatedAt = ea_UpdatedAt record\<rparr>) (\<lambda>n.
                 Inr (filter (\<lambda>(k, v). v \<noteq> '''')
                   [(policyAttributeOwnerTeam, trim_space (ea_OwnerTeam n)),
                    (policyAttributeEnvironment, trim_space (ea_Environment n)),
                    (policyAttributeRiskTier, trim_space (ea_RiskTier n)),
                    (policyAttributeClassification, trim_space (ea_Classification n))]))))"

definition load_attributes :: "string \<Rightarrow> (string, string) gomap \<Rightarrow> PolicyContext \<Rightarrow> PolicyContext" where
  "load_attributes loadedKey attrs ctx =
    (if attrs \<noteq> [] then ctx\<lparr>pc_Attributes := map_put loadedKey ''true'' (pc_Attributes ctx)\<rparr> else ctx)"

definition loadTrustedPolicyAttributes ::
  "Env \<Rightarrow> Context \<Rightarrow> AccountStore option \<Rightarrow> PolicyInput \<Rightarrow> PolicyInput result" where
  "loadTrustedPolicyAttributes env ctx store input =
    rbind (trustedAttributesFromStore env ctx store ''subject'' (sub_Type (in_Subject input)) (sub_ID (in_Subject input))) (\<lambda>sub.
    rbind (trustedAttributesFromStore env ctx store ''resource'' (res_Type (in_Resource input)) (res_ID (in_Resource input))) (\<lambda>res.
      Inr (input\<lparr>in_Subject := (if sub \<noteq> [] then (in_Subject input)\<lparr>sub_Attributes := sub\<rparr> else in_Subject input),
             in_Resource := (if res \<noteq> [] then (in_Resource input)\<lparr>res_Attributes := res\<rparr> else in_Resource input),
             in_Context := load_attributes policyContextABACResourceAttrsLoadedKey res
               (load_attributes policyContextABACSubjectAttrsLoadedKey sub (in_Context input))\<rparr>)))"

definition buildPolicyInputFromGinContext ::
  "Env \<Rightarrow> GinContext \<Rightarrow> routePolicy \<Rightarrow> string list \<Rightarrow> (string, string list) gomap \<Rightarrow> AccountStore option
    \<Rightarrow> PolicyInput result" where
  "buildPolicyInputFromGinContext env c policy writeKeys scopedKeys store =
    (let scope = ScopeFromContext (gc_Context c);
         resourceID = (if trim_space (pol_ResourceIDParam policy) \<noteq> ''''
                       then trim_space (gin_Param c (pol_ResourceIDParam policy)) else '''');
         tenant = trim_space (sc_TenantID scope); workspace = trim_space (sc_WorkspaceID scope)
     in loadTrustedPolicyAttributes env (gc_Context c) store
          \<lparr>in_Subject =
             \<lparr>sub_Type = firstNonEmpty (authContextString c ''auth.principal_type'') (inferPrincipalType c),
              sub_ID = firstNonEmpty (authContextString c ''auth.principal_id'') (inferPrincipalID c),
              sub_TenantID = firstNonEmpty (authContextString c ''auth.tenant_id'') tenant,
              sub_WorkspaceID = firstNonEmpty (authContextString c ''auth.workspace_id'') workspace,
              sub_Groups = [], sub_Roles = policyRolesFromAuthWithStore c writeKeys scopedKeys store, sub_Attributes = []\<rparr>,
           in_Action = norm_key (pol_Action policy),
           in_Resource =
             \<lparr>res_Type = trim_space (pol_ResourceType policy), res_ID = resourceID, res_TenantID = tenant,
              res_WorkspaceID = workspace, res_Attributes = []\<rparr>,
           in_Context =
             \<lparr>pc_RequestPath = trim_space (gc_FullPath c), pc_RequestMethod = to_upper (trim_space (gc_Method c)),
              pc_Now = env_Now env,
              pc_Attributes = [(policyContextTenantIDKey, tenant), (policyContextWorkspaceIDKey, workspace),
                (policyContextABACSubjectAttrsLoadedKey, ''false''), (policyContextABACResourceAttrsLoadedKey, ''false'')]\<rparr>\<rparr>)"

definition empty_input :: PolicyInput where
  "empty_input =
    \<lparr>in_Subject = \<lparr>sub_Type = '''', sub_ID = '''', sub_TenantID = '''', sub_WorkspaceID = '''', sub_Groups = [],
       sub_Roles = [], sub_Attributes = []\<rparr>,
     in_Action = '''',
     in_Resource = \<lparr>res_Type = '''', res_ID = '''', res_TenantID = '''', res_WorkspaceID = '''', res_Attributes = []\<rparr>,
     in_Context = \<lparr>pc_RequestPath = '''', pc_RequestMethod = '''', pc_Now = zero_time, pc_Attributes = []\<rparr>\<rparr>"

definition policyInputForMissingRoutePolicy ::
  "Env \<Rightarrow> GinContext \<Rightarrow> string \<Rightarrow> string list \<Rightarrow> (string, string list) gomap \<Rightarrow> PolicyInput" where
  "policyInputForMissingRoutePolicy env c fullPath writeKeys scopedKeys =
    (case buildPolicyInputFromGinContext env c
            \<lparr>pol_Action = routePolicyKey (gc_Method c) fullPath, pol_ResourceType = ''route'', pol_ResourceIDParam = ''''\<rparr>
            writeKeys scopedKeys None of
       Inl _ \<Rightarrow> empty_input
     | Inr input \<Rightarrow> input)"

subsection \<open>The audit decision\<close>

definition setAuthzDecisionContext ::
  "(string \<Rightarrow> string) \<Rightarrow> string \<Rightarrow> int \<Rightarrow> string \<Rightarrow> string \<Rightarrow> PolicyDecision \<Rightarrow> PolicyInput \<Rightarrow> GinContext \<Rightarrow> GinContext" where
  "setAuthzDecisionContext fp_id policySetID policyVersion policySource rolloutMode decision input c =
    (let or_else = (\<lambda>s fallback. if trim_space s = '''' then fallback else trim_space s);
         audit =
          \<lparr>ad_PolicySetID = or_else policySetID defaultCentralPolicySetID,
           ad_PolicyVersion = (if 0 < policyVersion then Some policyVersion else None),
           ad_PolicySource = or_else policySource ''unknown'',
           ad_RolloutMode = or_else rolloutMode AuthzPolicyRolloutModeDisabled,
           ad_Allowed = pd_Allowed decision, ad_Stage = trim_space (stage_string (pd_Stage decision)),
           ad_Reason = trim_space (pd_Reason decision),
           ad_Input =
            \<lparr>ai_SubjectType = trim_space (sub_Type (in_Subject input)), ai_SubjectIDHash = fp_id (sub_ID (in_Subject input)),
             ai_Action = trim_space (in_Action input), ai_ResourceType = trim_space (res_Type (in_Resource input)),
             ai_ResourceIDHash = fp_id (res_ID (in_Resource input)),
             ai_TenantID = decision_tenant input, ai_WorkspaceID = decision_workspace input\<rparr>\<rparr>;
         c = gin_Set ''authz.stage'' (StringValue (ad_Stage audit)) c;
         c = gin_Set ''authz.policy_source'' (StringValue (ad_PolicySource audit)) c;
         c = gin_Set ''authz.policy_set_id'' (StringValue (ad_PolicySetID audit)) c;
         c = gin_Set ''authz.rollout_mode'' (StringValue (ad_RolloutMode audit)) c;
         c = (case ad_PolicyVersion audit of None \<Rightarrow> c | Some v \<Rightarrow> gin_Set ''authz.policy_version'' (IntValue v) c)
     in gin_Set ''authz.audit_decision'' (DecisionValue audit) c)"

subsection \<open>The middleware\<close>

definition finish_request :: "GinContext \<Rightarrow> routePolicy \<Rightarrow> AccountStore option \<Rightarrow> (GinContext \<Rightarrow> GinContext) \<Rightarrow> Reply \<times> GinContext" where
  "finish_request c policy store mark =
    (case inactiveWorkspaceBlock c policy store of
       Inl _ \<Rightarrow> (Abort 500 ''authorization failed'', c)
     | Inr (Some workspace) \<Rightarrow> (abort_workspace workspace, c)
     | Inr None \<Rightarrow> (Next, mark c))"

text \<open>The part of the middleware after the route's policy is known.\<close>

definition decide_request ::
  "Env \<Rightarrow> (string \<Rightarrow> string) \<Rightarrow> string list \<Rightarrow> (string, string list) gomap \<Rightarrow> AccountStore option
    \<Rightarrow> resolvedCentralPolicyRuntime \<Rightarrow> routePolicy \<Rightarrow> GinContext \<Rightarrow> AuthzState \<Rightarrow> Reply \<times> GinContext \<times> AuthzState" where
  "decide_request env fp_id writeKeys scopedKeys store rt policy c st =
    (case buildPolicyInputFromGinContext env c policy writeKeys scopedKeys store of
       Inl _ \<Rightarrow> (Abort 500 ''authorization failed'', c, st)
     | Inr input \<Rightarrow>
        (let targeted = shouldTargetRolloutRequest (rr_Rollout rt) input;
             (engine, source, version) = decision_engine rt targeted
         in case Decide engine input of
              Inl _ \<Rightarrow> (Abort 500 ''authorization failed'', c, st)
            | Inr decision \<Rightarrow>
               (let st = recordPolicyDecisionMetric version source (rr_RolloutMode rt) (pd_Allowed decision) st;
                    st = recordPolicyShadowEvaluation rt targeted input decision True True st;
                    c = setAuthzDecisionContext fp_id (rr_PolicySetID rt) version source (rr_RolloutMode rt) decision input c
                in if \<not> pd_Allowed decision then (Abort 403 ''forbidden'', c, st)
                   else let (reply, c) = finish_request c policy store (\<lambda>c. c) in (reply, c, st))))"

definition requireCentralPolicyMiddleware ::
  "Env \<Rightarrow> (string \<Rightarrow> routeAuthorizationPolicyBundle result) \<Rightarrow> (string \<Rightarrow> string) \<Rightarrow> string list
    \<Rightarrow> (string, string list) gomap \<Rightarrow> AccountStore option \<Rightarrow> GinContext \<Rightarrow> AuthzState \<Rightarrow> Reply \<times> GinContext \<times> AuthzState" where
  "requireCentralPolicyMiddleware env unmarshal fp_id writeKeys scopedKeys store c st =
    (let normalizedWriteKeys = normalizeKeyList writeKeys; fullPath = trim_space (gc_FullPath c)
     in if fullPath = '''' then (Next, c, st)
        else if \<not> hasAuthContext c then (Next, c, st)
        else case Resolve unmarshal (gc_Context c) (az_Resolver st) of
          (Inl _, resolver) \<Rightarrow> (Abort 500 ''authorization failed'', c, st\<lparr>az_Resolver := resolver\<rparr>)
        | (Inr rt, resolver) \<Rightarrow>
           (let st = st\<lparr>az_Resolver := resolver\<rparr>
            in case lookup_route (rr_Registry rt) (gc_Method c) fullPath of
                 None \<Rightarrow>
                  (let decision = denyDecision PolicyStageDefaultDeny ''route authorization policy missing'';
                       input = policyInputForMissingRoutePolicy env c fullPath normalizedWriteKeys scopedKeys
                   in (Abort 403 ''forbidden'',
                       setAuthzDecisionContext fp_id (rr_PolicySetID rt) (rr_Version rt) (rr_Source rt) (rr_RolloutMode rt)
                         decision input c,
                       recordPolicyDecisionMetric (rr_Version rt) (rr_Source rt) (rr_RolloutMode rt)
                         (pd_Allowed decision) st))
               | Some policy \<Rightarrow>
                  (if usesBodyAwareAuthorization policy then
                     let (reply, c) = finish_request c policy store setAuthzShadowCounters in (reply, c, st)
                   else decide_request env fp_id normalizedWriteKeys scopedKeys store rt policy c st)))"

subsection \<open>Bulk deletes\<close>

record RepoFindingDeleteTarget =
  dt_FindingID :: string
  dt_RepoScanID :: string

definition target_input ::
  "Env \<Rightarrow> GinContext \<Rightarrow> routePolicy \<Rightarrow> string list \<Rightarrow> (string, string list) gomap \<Rightarrow> AccountStore option
    \<Rightarrow> RepoFindingDeleteTarget \<Rightarrow> PolicyInput result" where
  "target_input env c policy writeKeys scopedKeys store target =
    rbind (buildPolicyInputFromGinContext env c policy writeKeys scopedKeys store) (\<lambda>input.
      loadTrustedPolicyAttributes env (gc_Context c) store
        (input\<lparr>in_Resource := (in_Resource input)\<lparr>res_ID := trim_space (dt_FindingID target), res_Attributes := []\<rparr>,
          in_Context := (in_Context input)\<lparr>pc_Attributes :=
            map_put ''repo_scan_id'' (trim_space (dt_RepoScanID target))
              (map_put policyContextABACResourceAttrsLoadedKey ''false'' (pc_Attributes (in_Context input)))\<rparr>\<rparr>))"

text \<open>The loop; \<open>allowed\<close> is the last allowed decision with its input, source and version.\<close>

fun authorize_targets ::
  "Env \<Rightarrow> (string \<Rightarrow> string) \<Rightarrow> routePolicy \<Rightarrow> string list \<Rightarrow> (string, string list) gomap \<Rightarrow> AccountStore option
    \<Rightarrow> resolvedCentralPolicyRuntime \<Rightarrow> RepoFindingDeleteTarget list
    \<Rightarrow> (PolicyDecision \<times> PolicyInput \<times> string \<times> int) option \<Rightarrow> GinContext \<Rightarrow> AuthzState
    \<Rightarrow> bool result \<times> GinContext \<times> AuthzState" where
  "authorize_targets env fp_id policy writeKeys scopedKeys store rt [] allowed c st =
    (case allowed of
       None \<Rightarrow> (Inr True, c, st)
     | Some (decision, input, source, version) \<Rightarrow>
         (Inr True, setAuthzDecisionContext fp_id (rr_PolicySetID rt) version source (rr_RolloutMode rt) decision input c, st))"
| "authorize_targets env fp_id policy writeKeys scopedKeys store rt (target # targets) allowed c st =
    (case target_input env c policy writeKeys scopedKeys store target of
       Inl err \<Rightarrow> (Inl err, c, st)
     | Inr input \<Rightarrow>
        (let targeted = shouldTargetRolloutRequest (rr_Rollout rt) input;
             (engine, source, version) = decision_engine rt targeted
         in case Decide engine input of
              Inl err \<Rightarrow> (Inl err, c, st)
            | Inr decision \<Rightarrow>
               (let st = recordPolicyDecisionMetric version source (rr_RolloutMode rt) (pd_Allowed decision) st;
                    st = recordPolicyShadowEvaluation rt targeted input decision (fst (authzShadowCounters c))
                           (snd (authzShadowCounters c)) st
                in if \<not> pd_Allowed decision then
                     (Inr False,
                      setAuthzDecisionContext fp_id (rr_PolicySetID rt) version source (rr_RolloutMode rt) decision input c, st)
                   else authorize_targets env fp_id policy writeKeys scopedKeys store rt targets
                          (Some (decision, input, source, version)) c st)))"

definition delete_target_policy :: "resolvedCentralPolicyRuntime \<Rightarrow> GinContext \<Rightarrow> routePolicy" where
  "delete_target_policy rt c =
    (let action = (case lookup_route (rr_Registry rt) (gc_Method c) (gc_FullPath c) of
           None \<Rightarrow> policyActionRepoScansRun
         | Some p \<Rightarrow> (if usesBodyAwareAuthorization p \<and> trim_space (pol_Action p) \<noteq> '''' then trim_space (pol_Action p)
                     else policyActionRepoScansRun))
     in \<lparr>pol_Action = action, pol_ResourceType = ''repo_finding'', pol_ResourceIDParam = ''''\<rparr>)"

definition authorizeRepoFindingDeleteTargets ::
  "Env \<Rightarrow> (string \<Rightarrow> routeAuthorizationPolicyBundle result) \<Rightarrow> (string \<Rightarrow> string) \<Rightarrow> string list
    \<Rightarrow> (string, string list) gomap \<Rightarrow> AccountStore option \<Rightarrow> RepoFindingDeleteTarget list \<Rightarrow> GinContext \<Rightarrow> AuthzState
    \<Rightarrow> bool result \<times> GinContext \<times> AuthzState" where
  "authorizeRepoFindingDeleteTargets env unmarshal fp_id writeKeys scopedKeys store targets c st =
    (if \<not> hasAuthContext c then (Inr True, c, st)
     else case Resolve unmarshal (gc_Context c) (az_Resolver st) of
       (Inl err, resolver) \<Rightarrow> (Inl err, c, st\<lparr>az_Resolver := resolver\<rparr>)
     | (Inr rt, resolver) \<Rightarrow>
         authorize_targets env fp_id (delete_target_policy rt c) (normalizeKeyList writeKeys) scopedKeys store rt targets None c
           (st\<lparr>az_Resolver := resolver\<rparr>))"

subsection \<open>Laws\<close>

lemma setDecision_sel [simp]:
  "gc_Context (setAuthzDecisionContext fp p v s m d i c) = gc_Context c"
  "gc_Params (setAuthzDecisionContext fp p v s m d i c) = gc_Params c"
  by (simp_all add: setAuthzDecisionContext_def Let_def split: option.split)

lemma inactive_cong:
  assumes "gc_Context c' = gc_Context c" "gc_Params c' = gc_Params c"
  shows "inactiveWorkspaceBlock c' policy store = inactiveWorkspaceBlock c policy store"
  unfolding inactiveWorkspaceBlock_def gin_Param_def assms by (rule refl)

lemma inactive_after_decision [simp]:
  "inactiveWorkspaceBlock (setAuthzDecisionContext fp p v s m d i c) policy store = inactiveWorkspaceBlock c policy store"
  by (rule inactive_cong) simp_all

lemma finish_Next: "fst (finish_request c policy store mark) = Next \<longleftrightarrow> inactiveWorkspaceBlock c policy store = Inr None"
  by (simp add: finish_request_def abort_workspace_def split: sum.split option.split)

text \<open>The verdict of the deciding engine on the input built for a route's policy.\<close>

definition request_allowed ::
  "Env \<Rightarrow> string list \<Rightarrow> (string, string list) gomap \<Rightarrow> AccountStore option \<Rightarrow> resolvedCentralPolicyRuntime \<Rightarrow> routePolicy
    \<Rightarrow> GinContext \<Rightarrow> bool" where
  "request_allowed env writeKeys scopedKeys store rt policy c \<longleftrightarrow>
    (\<exists>input d. buildPolicyInputFromGinContext env c policy writeKeys scopedKeys store = Inr input
       \<and> Decide (fst (decision_engine rt (shouldTargetRolloutRequest (rr_Rollout rt) input))) input = Inr d \<and> pd_Allowed d)"

lemma decide_request_cases:
  obtains (no_input) err where "buildPolicyInputFromGinContext env c policy wk sk store = Inl err"
    "decide_request env fp wk sk store rt policy c st = (Abort 500 ''authorization failed'', c, st)"
  | (no_decision) input err where "buildPolicyInputFromGinContext env c policy wk sk store = Inr input"
    "Decide (fst (decision_engine rt (shouldTargetRolloutRequest (rr_Rollout rt) input))) input = Inl err"
    "decide_request env fp wk sk store rt policy c st = (Abort 500 ''authorization failed'', c, st)"
  | (decided) input engine source version d where "buildPolicyInputFromGinContext env c policy wk sk store = Inr input"
    "decision_engine rt (shouldTargetRolloutRequest (rr_Rollout rt) input) = (engine, source, version)"
    "Decide engine input = Inr d"
    "decide_request env fp wk sk store rt policy c st =
      (let c' = setAuthzDecisionContext fp (rr_PolicySetID rt) version source (rr_RolloutMode rt) d input c
       in (if pd_Allowed d then fst (finish_request c' policy store (\<lambda>c. c)) else Abort 403 ''forbidden'',
           if pd_Allowed d then snd (finish_request c' policy store (\<lambda>c. c)) else c',
           recordPolicyShadowEvaluation rt (shouldTargetRolloutRequest (rr_Rollout rt) input) input d True True
             (recordPolicyDecisionMetric version source (rr_RolloutMode rt) (pd_Allowed d) st)))"
proof (cases "buildPolicyInputFromGinContext env c policy wk sk store")
  case (Inl err)
  then show thesis by (intro no_input [of err]) (simp_all add: decide_request_def)
next
  case (Inr input)
  note input = this
  obtain engine source version where e: "decision_engine rt (shouldTargetRolloutRequest (rr_Rollout rt) input) = (engine, source, version)"
    by (metis prod_cases3)
  show thesis
  proof (cases "Decide engine input")
    case (Inl err)
    with input e show thesis by (intro no_decision [of input err]) (simp_all add: decide_request_def Let_def)
  next
    case (Inr d)
    with input e show thesis
      by (intro decided [of input engine source version d])
        (simp_all add: decide_request_def Let_def split: prod.split)
  qed
qed

lemma decide_request_Next:
  "fst (decide_request env fp wk sk store rt policy c st) = Next \<longleftrightarrow>
    request_allowed env wk sk store rt policy c \<and> inactiveWorkspaceBlock c policy store = Inr None"
  by (rule decide_request_cases [where env = env and c = c and policy = policy and wk = wk and sk = sk and store = store
      and rt = rt and fp = fp and st = st])
    (auto simp: request_allowed_def finish_Next Let_def)

lemma requireCentralPolicy_Next:
  "fst (requireCentralPolicyMiddleware env unmarshal fp writeKeys scopedKeys store c st) = Next \<longleftrightarrow>
    trim_space (gc_FullPath c) = '''' \<or> \<not> hasAuthContext c
    \<or> (\<exists>rt policy. fst (Resolve unmarshal (gc_Context c) (az_Resolver st)) = Inr rt
        \<and> lookup_route (rr_Registry rt) (gc_Method c) (trim_space (gc_FullPath c)) = Some policy
        \<and> inactiveWorkspaceBlock c policy store = Inr None
        \<and> (usesBodyAwareAuthorization policy
           \<or> request_allowed env (normalizeKeyList writeKeys) scopedKeys store rt policy c))"
proof (cases "trim_space (gc_FullPath c) = '''' \<or> \<not> hasAuthContext c")
  case True
  then show ?thesis by (auto simp: requireCentralPolicyMiddleware_def Let_def)
next
  case False
  obtain res resolver where r: "Resolve unmarshal (gc_Context c) (az_Resolver st) = (res, resolver)" by fastforce
  show ?thesis
  proof (cases res)
    case (Inl err)
    with False r show ?thesis by (simp add: requireCentralPolicyMiddleware_def Let_def)
  next
    case (Inr rt)
    show ?thesis
    proof (cases "lookup_route (rr_Registry rt) (gc_Method c) (trim_space (gc_FullPath c))")
      case None
      with False r Inr show ?thesis by (simp add: requireCentralPolicyMiddleware_def Let_def)
    next
      case (Some policy)
      show ?thesis
      proof (cases "usesBodyAwareAuthorization policy")
        case True
        with False r Inr Some show ?thesis
          by (auto simp: requireCentralPolicyMiddleware_def Let_def finish_Next [of c policy store setAuthzShadowCounters, symmetric]
              split: prod.split)
      next
        case False
        with \<open>\<not> (trim_space (gc_FullPath c) = '''' \<or> \<not> hasAuthContext c)\<close> r Inr Some show ?thesis
          by (auto simp: requireCentralPolicyMiddleware_def Let_def decide_request_Next)
      qed
    qed
  qed
qed

subsection \<open>Properties\<close>

text \<open>
  C1: exactly which requests get through. The middleware passes a request on iff it has no route or
  no authentication (authentication is then disabled), or the resolved policy has the route, its
  workspace is not inactive, and the deciding engine allows the input built from the request; a route
  without a policy, a failing lookup and a failing engine are all refused. Only the routes that check
  the targets in their body are passed on undecided.
\<close>

theorem middleware_passes_iff:
  "fst (requireCentralPolicyMiddleware env unmarshal fp writeKeys scopedKeys store c st) = Next \<longleftrightarrow>
    trim_space (gc_FullPath c) = '''' \<or> \<not> hasAuthContext c
    \<or> (\<exists>rt policy. fst (Resolve unmarshal (gc_Context c) (az_Resolver st)) = Inr rt
        \<and> lookup_route (rr_Registry rt) (gc_Method c) (trim_space (gc_FullPath c)) = Some policy
        \<and> inactiveWorkspaceBlock c policy store = Inr None
        \<and> (usesBodyAwareAuthorization policy
           \<or> request_allowed env (normalizeKeyList writeKeys) scopedKeys store rt policy c))"
  by (rule requireCentralPolicy_Next)

definition counters_step :: "AuthzState \<Rightarrow> AuthzState \<Rightarrow> bool" where
  "counters_step st st' \<longleftrightarrow> az_Resolver st' = az_Resolver st
    \<and> (az_EvalCount st' = az_EvalCount st \<and> az_DivergenceCount st' = az_DivergenceCount st
       \<or> az_EvalCount st' = az_EvalCount st + 1
         \<and> az_DivergenceCount st' \<in> {az_DivergenceCount st, az_DivergenceCount st + 1})"

lemma shadow_counters: "counters_step st (recordPolicyShadowEvaluation rt targeted input d True True st)"
  by (auto simp: counters_step_def recordPolicyShadowEvaluation_def Let_def emit_def split: sum.split)

lemma emit_sel [simp]:
  "az_Resolver (emit m st) = az_Resolver st" "az_EvalCount (emit m st) = az_EvalCount st"
  "az_DivergenceCount (emit m st) = az_DivergenceCount st"
  by (simp_all add: emit_def)

lemma decision_metric_sel [simp]:
  "az_Resolver (recordPolicyDecisionMetric v s m a st) = az_Resolver st"
  "az_EvalCount (recordPolicyDecisionMetric v s m a st) = az_EvalCount st"
  "az_DivergenceCount (recordPolicyDecisionMetric v s m a st) = az_DivergenceCount st"
  by (simp_all add: recordPolicyDecisionMetric_def Let_def)

lemma decide_request_reply:
  "decide_request env fp wk sk store rt policy c st =
    (case buildPolicyInputFromGinContext env c policy wk sk store of
       Inl _ \<Rightarrow> (Abort 500 ''authorization failed'', c, st)
     | Inr input \<Rightarrow>
        (case decision_engine rt (shouldTargetRolloutRequest (rr_Rollout rt) input) of (engine, source, version) \<Rightarrow>
          case Decide engine input of
            Inl _ \<Rightarrow> (Abort 500 ''authorization failed'', c, st)
          | Inr d \<Rightarrow>
             (let c' = setAuthzDecisionContext fp (rr_PolicySetID rt) version source (rr_RolloutMode rt) d input c
              in (if pd_Allowed d then fst (finish_request c' policy store (\<lambda>c. c)) else Abort 403 ''forbidden'',
                  if pd_Allowed d then snd (finish_request c' policy store (\<lambda>c. c)) else c',
                  recordPolicyShadowEvaluation rt (shouldTargetRolloutRequest (rr_Rollout rt) input) input d True True
                    (recordPolicyDecisionMetric version source (rr_RolloutMode rt) (pd_Allowed d) st)))))"
  by (rule decide_request_cases [where env = env and c = c and policy = policy and wk = wk and sk = sk and store = store
      and rt = rt and fp = fp and st = st]) (auto split: prod.split)

definition with_candidate_policy ::
  "PolicyEngine option \<Rightarrow> string \<Rightarrow> int \<Rightarrow> resolvedCentralPolicyRuntime \<Rightarrow> resolvedCentralPolicyRuntime" where
  "with_candidate_policy engine source version rt =
    rt\<lparr>rr_CandidateEngine := engine, rr_CandidateSource := source, rr_CandidateVersion := version\<rparr>"

lemma with_candidate_policy_sel [simp]:
  "rr_Rollout (with_candidate_policy e s v rt) = rr_Rollout rt"
  "rr_PolicySetID (with_candidate_policy e s v rt) = rr_PolicySetID rt"
  "rr_RolloutMode (with_candidate_policy e s v rt) = rr_RolloutMode rt"
  by (simp_all add: with_candidate_policy_def)

lemma decision_engine_not_enforced:
  "ro_Mode (rr_Rollout rt) \<noteq> AuthzPolicyRolloutModeEnforce \<Longrightarrow>
    decision_engine (with_candidate_policy e s v rt) t = decision_engine rt t"
  by (simp add: decision_engine_def enforceCandidate_def with_candidate_policy_def)

text \<open>
  C22: shadow mode is invisible. Unless the rollout enforces its candidate, replacing the candidate
  policy by any other changes neither the reply nor the audit decision of a request; the shadow
  counters move by at most one, the divergence counter only together with the evaluation counter, and
  the resolver is untouched.
\<close>

theorem shadow_mode_invisible:
  assumes "ro_Mode (rr_Rollout rt) \<noteq> AuthzPolicyRolloutModeEnforce"
  shows "let run = (\<lambda>rt. decide_request env fp writeKeys scopedKeys store rt policy c st);
             swapped = run (with_candidate_policy engine source version rt)
    in fst swapped = fst (run rt) \<and> fst (snd swapped) = fst (snd (run rt))
       \<and> counters_step st (snd (snd (run rt))) \<and> counters_step st (snd (snd swapped))"
proof -
  let ?rt' = "with_candidate_policy engine source version rt"
  have "counters_step st (snd (snd (decide_request env fp writeKeys scopedKeys store r policy c st)))" for r
  proof (cases rule: decide_request_cases [where env = env and c = c and policy = policy and wk = writeKeys
        and sk = scopedKeys and store = store and rt = r and fp = fp and st = st])
    case (decided input e s v d)
    with shadow_counters [of "recordPolicyDecisionMetric v s (rr_RolloutMode r) (pd_Allowed d) st" r
        "shouldTargetRolloutRequest (rr_Rollout r) input" input d]
    show ?thesis by (simp add: Let_def counters_step_def)
  qed (simp_all add: counters_step_def)
  moreover have "fst (decide_request env fp writeKeys scopedKeys store ?rt' policy c st)
      = fst (decide_request env fp writeKeys scopedKeys store rt policy c st)"
    "fst (snd (decide_request env fp writeKeys scopedKeys store ?rt' policy c st))
      = fst (snd (decide_request env fp writeKeys scopedKeys store rt policy c st))"
    by (simp_all add: decide_request_reply decision_engine_not_enforced [OF assms] Let_def split: sum.split prod.split)
  ultimately show ?thesis by (simp add: Let_def)
qed

definition key_bundle :: routeAuthorizationPolicyBundle where
  "key_bundle =
    \<lparr>rb_SchemaVersion = routeAuthorizationPolicyBundleSchemaV1,
     rb_RoutePolicies = [\<lparr>rd_Method = ''GET'', rd_Path = ''/v1/findings'', rd_Action = ''findings.read'',
       rd_ResourceType = ''finding'', rd_ResourceIDParam = ''''\<rparr>],
     rb_RBACActionRole = [(''findings.read'', [''read''])],
     rb_ABACPolicies = [(''findings.read'', passThroughPolicy)],
     rb_ReBACPolicies = []\<rparr>"

definition key_resolver :: Resolver where
  "key_resolver = bare_resolver\<lparr>rv_Fallback := compiled_of (compileRouteAuthorizationPolicyBundle key_bundle)\<rparr>"

definition key_state :: AuthzState where
  "key_state = \<lparr>az_Metrics = Some [], az_EvalCount = 0, az_DivergenceCount = 0, az_Resolver = key_resolver\<rparr>"

definition shadow_runtime :: resolvedCentralPolicyRuntime where
  "shadow_runtime = (fallbackRuntime key_resolver None)\<lparr>rr_Rollout := (empty_rollout ''core'')\<lparr>ro_Mode := AuthzPolicyRolloutModeShadow,
     ro_ValidatedVersions := [2]\<rparr>, rr_RolloutMode := AuthzPolicyRolloutModeShadow\<rparr>"

definition findings_policy :: routePolicy where
  "findings_policy = \<lparr>pol_Action = ''findings.read'', pol_ResourceType = ''finding'', pol_ResourceIDParam = ''''\<rparr>"

definition bound_request :: GinContext where
  "bound_request = snd (requestScopeMiddleware ''main'' ''main'' True
     (snd (apiKeyAuthMiddleware [] sample_scoped_keys [] None [] (\<lambda>s. s) True (key_request ''k1'' ''acme''))))"

text \<open>A key with the read role on a registered route: let through, and by a policy of the resolved registry.\<close>

theorem middleware_passes_iff_witness:
  "fst (requireCentralPolicyMiddleware sample_env sample_unmarshal (\<lambda>s. s) [] sample_scoped_keys None bound_request key_state) = Next
   \<and> (\<exists>rt policy. fst (Resolve sample_unmarshal (gc_Context bound_request) (az_Resolver key_state)) = Inr rt
        \<and> lookup_route (rr_Registry rt) ''GET'' ''/v1/findings'' = Some policy)"
proof -
  have "fst (requireCentralPolicyMiddleware sample_env sample_unmarshal (\<lambda>s. s) [] sample_scoped_keys None
      bound_request key_state) = Next" by code_simp
  moreover have "hasAuthContext bound_request" "gc_Method bound_request = ''GET''"
    "trim_space (gc_FullPath bound_request) = ''/v1/findings''" by code_simp+
  ultimately show ?thesis
    using middleware_passes_iff [of sample_env sample_unmarshal "\<lambda>s. s" "[]" sample_scoped_keys None bound_request key_state]
    by auto
qed

text \<open>An empty candidate policy in shadow mode: one evaluation that diverges.\<close>

theorem shadow_mode_invisible_witness:
  "let run = (\<lambda>rt. decide_request sample_env (\<lambda>s. s) [] sample_scoped_keys None rt findings_policy bound_request key_state);
       swapped = run (with_candidate_policy (Some (NewPolicyEngine None None None None)) ''candidate'' 2 shadow_runtime)
   in fst swapped = Next \<and> fst (run shadow_runtime) = Next
      \<and> az_DivergenceCount (snd (snd swapped)) = 1 \<and> az_DivergenceCount (snd (snd (run shadow_runtime))) = 0"
proof -
  let ?run = "\<lambda>rt. decide_request sample_env (\<lambda>s. s) [] sample_scoped_keys None rt findings_policy bound_request key_state"
  let ?swap = "with_candidate_policy (Some (NewPolicyEngine None None None None)) ''candidate'' 2 shadow_runtime"
  have mode: "ro_Mode (rr_Rollout shadow_runtime) \<noteq> AuthzPolicyRolloutModeEnforce"
    by (simp add: shadow_runtime_def empty_rollout_def)
  have "fst (?run shadow_runtime) = Next" by code_simp
  moreover have "az_DivergenceCount (snd (snd (?run ?swap))) = 1" by code_simp
  moreover have "az_DivergenceCount (snd (snd (?run shadow_runtime))) = 0" by code_simp
  ultimately show ?thesis
    using shadow_mode_invisible [OF mode, of sample_env "\<lambda>s. s" "[]" sample_scoped_keys None findings_policy bound_request
        key_state "Some (NewPolicyEngine None None None None)" "''candidate''" 2]
    by (simp add: Let_def)
qed

subsection \<open>Bulk deletes\<close>

definition target_allowed ::
  "Env \<Rightarrow> string list \<Rightarrow> (string, string list) gomap \<Rightarrow> AccountStore option \<Rightarrow> resolvedCentralPolicyRuntime \<Rightarrow> routePolicy
    \<Rightarrow> GinContext \<Rightarrow> RepoFindingDeleteTarget \<Rightarrow> bool" where
  "target_allowed env writeKeys scopedKeys store rt policy c target \<longleftrightarrow>
    (\<exists>input d. target_input env c policy writeKeys scopedKeys store target = Inr input
       \<and> Decide (fst (decision_engine rt (shouldTargetRolloutRequest (rr_Rollout rt) input))) input = Inr d \<and> pd_Allowed d)"

lemma authorize_targets_iff:
  "fst (authorize_targets env fp policy wk sk store rt targets allowed c st) = Inr True \<longleftrightarrow>
    list_all (target_allowed env wk sk store rt policy c) targets"
proof (induction targets arbitrary: allowed st)
  case Nil
  then show ?case by (simp split: option.split)
next
  case (Cons target targets)
  show ?case
  proof (cases "target_input env c policy wk sk store target")
    case (Inl err)
    then show ?thesis by (simp add: target_allowed_def)
  next
    case (Inr input)
    obtain engine source version where e: "decision_engine rt (shouldTargetRolloutRequest (rr_Rollout rt) input) = (engine, source, version)"
      by (metis prod_cases3)
    with Inr Cons.IH show ?thesis
      by (cases "Decide engine input") (auto simp: target_allowed_def Let_def)
  qed
qed

text \<open>
  C21: a bulk delete is all or nothing. The check answers yes exactly when authentication is disabled
  or the policy resolves and the deciding engine allows every single target, each with the resource
  identifier and attributes of its own finding.
\<close>

theorem bulk_delete_needs_every_target:
  "fst (authorizeRepoFindingDeleteTargets env unmarshal fp writeKeys scopedKeys store targets c st) = Inr True \<longleftrightarrow>
    \<not> hasAuthContext c
    \<or> (\<exists>rt. fst (Resolve unmarshal (gc_Context c) (az_Resolver st)) = Inr rt
        \<and> list_all (target_allowed env (normalizeKeyList writeKeys) scopedKeys store rt (delete_target_policy rt c) c) targets)"
  by (auto simp: authorizeRepoFindingDeleteTargets_def authorize_targets_iff split: prod.split sum.split)

definition delete_bundle :: routeAuthorizationPolicyBundle where
  "delete_bundle =
    key_bundle\<lparr>rb_RoutePolicies := [\<lparr>rd_Method = ''POST'', rd_Path = ''/v1/repo-findings/bulk-delete'',
        rd_Action = policyActionRepoScansRun, rd_ResourceType = ''repo_finding_bulk_delete'', rd_ResourceIDParam = ''''\<rparr>],
      rb_RBACActionRole := [(policyActionRepoScansRun, [''read''])],
      rb_ABACPolicies := [(policyActionRepoScansRun, passThroughPolicy)]\<rparr>"

definition delete_state :: AuthzState where
  "delete_state = key_state\<lparr>az_Resolver :=
     bare_resolver\<lparr>rv_Fallback := compiled_of (compileRouteAuthorizationPolicyBundle delete_bundle)\<rparr>\<rparr>"

definition delete_targets :: "RepoFindingDeleteTarget list" where
  "delete_targets = [\<lparr>dt_FindingID = ''f1'', dt_RepoScanID = ''r1''\<rparr>, \<lparr>dt_FindingID = ''f2'', dt_RepoScanID = ''r1''\<rparr>]"

text \<open>A policy that grants the delete allows both targets; one without the action refuses the batch.\<close>

theorem bulk_delete_needs_every_target_witness:
  "let check = (\<lambda>st. fst (authorizeRepoFindingDeleteTargets sample_env sample_unmarshal (\<lambda>s. s) [] sample_scoped_keys None
         delete_targets bound_request st))
   in check delete_state = Inr True \<and> check key_state = Inr False
      \<and> (\<exists>rt. fst (Resolve sample_unmarshal (gc_Context bound_request) (az_Resolver delete_state)) = Inr rt
           \<and> list_all (target_allowed sample_env (normalizeKeyList []) sample_scoped_keys None rt
               (delete_target_policy rt bound_request) bound_request) delete_targets)"
proof -
  let ?check = "\<lambda>st. fst (authorizeRepoFindingDeleteTargets sample_env sample_unmarshal (\<lambda>s. s) [] sample_scoped_keys None
         delete_targets bound_request st)"
  have "?check delete_state = Inr True" "?check key_state = Inr False" "hasAuthContext bound_request" by code_simp+
  then show ?thesis
    using bulk_delete_needs_every_target [of sample_env sample_unmarshal "\<lambda>s. s" "[]" sample_scoped_keys None
        delete_targets bound_request delete_state]
    by (simp add: Let_def)
qed

subsection \<open>The whole pipeline\<close>

lemma loadTrusted_keeps:
  "loadTrustedPolicyAttributes env ctx store input = Inr input' \<Longrightarrow>
    res_TenantID (in_Resource input') = res_TenantID (in_Resource input)
    \<and> res_WorkspaceID (in_Resource input') = res_WorkspaceID (in_Resource input)
    \<and> sub_TenantID (in_Subject input') = sub_TenantID (in_Subject input)
    \<and> sub_WorkspaceID (in_Subject input') = sub_WorkspaceID (in_Subject input)
    \<and> sub_Roles (in_Subject input') = sub_Roles (in_Subject input) \<and> in_Action input' = in_Action input"
  by (auto simp: loadTrustedPolicyAttributes_def rbind_Inr_iff split: if_splits)

text \<open>Subject and resource are in one scope.\<close>

definition in_scope :: "Scope \<Rightarrow> PolicyInput \<Rightarrow> bool" where
  "in_scope s input \<longleftrightarrow>
    res_TenantID (in_Resource input) = sc_TenantID s \<and> res_WorkspaceID (in_Resource input) = sc_WorkspaceID s
    \<and> sub_TenantID (in_Subject input) = sc_TenantID s \<and> sub_WorkspaceID (in_Subject input) = sc_WorkspaceID s"

lemma request_scope_Next:
  assumes "requestScopeMiddleware dt dw ex c = (Next, c')"
  shows "\<exists>s. c' = c\<lparr>gc_Context := WithScope (gc_Context c) s\<rparr>
    \<and> authContextString c ''auth.tenant_id'' \<in> {'''', sc_TenantID s}
    \<and> authContextString c ''auth.workspace_id'' \<in> {'''', sc_WorkspaceID s}"
proof -
  let ?k = "authContextString c ''auth.api_key'' \<noteq> ''''"
  let ?bt = "authContextString c authAPIKeyTenantID" and ?bw = "authContextString c authAPIKeyWorkspaceID"
  let ?b = "?k \<and> (?bt \<noteq> '''' \<or> ?bw \<noteq> '''')"
  let ?t = "request_id ?k ?b (authContextString c ''auth.tenant_id'') ?bt (trim_space (gin_Header c scopeHeaderTenantID))"
  let ?w = "request_id ?k ?b (authContextString c ''auth.workspace_id'') ?bw (trim_space (gin_Header c scopeHeaderWorkspaceID))"
  have pick: "a \<in> {'''', (if i = '''' then d else i)}" if "a \<in> {'''', i}" for a i d :: string using that by auto
  let ?d = "Normalize_Scope \<lparr>sc_TenantID = dt, sc_WorkspaceID = dw\<rparr>"
  define t where "t = (if ?t = '''' then sc_TenantID ?d else ?t)"
  define w where "w = (if ?w = '''' then sc_WorkspaceID ?d else ?w)"
  have "c' = c\<lparr>gc_Context := WithScope (gc_Context c) \<lparr>sc_TenantID = t, sc_WorkspaceID = w\<rparr>\<rparr>"
    using assms unfolding requestScopeMiddleware_def Let_def t_def w_def
    by (simp only: prod.inject Reply.distinct simp_thms split: if_split_asm)
  moreover have "authContextString c ''auth.tenant_id'' \<in> {'''', t}" "authContextString c ''auth.workspace_id'' \<in> {'''', w}"
    unfolding t_def w_def by (rule pick [OF request_id_auth])+
  moreover define s where "s = \<lparr>sc_TenantID = t, sc_WorkspaceID = w\<rparr>"
  then have "sc_TenantID s = t" "sc_WorkspaceID s = w" by simp_all
  ultimately have "c' = c\<lparr>gc_Context := WithScope (gc_Context c) s\<rparr>
    \<and> authContextString c ''auth.tenant_id'' \<in> {'''', sc_TenantID s}
    \<and> authContextString c ''auth.workspace_id'' \<in> {'''', sc_WorkspaceID s}"
    unfolding s_def by (intro conjI) simp_all
  then show ?thesis by (rule exI)
qed

lemma firstNonEmpty_scope:
  assumes "trim_space a = a" "trim_space b = b"
  shows "a \<in> {'''', sc_TenantID u} \<Longrightarrow> firstNonEmpty a (sc_TenantID (Normalize_Scope u)) = sc_TenantID (Normalize_Scope u)"
    "b \<in> {'''', sc_WorkspaceID u} \<Longrightarrow> firstNonEmpty b (sc_WorkspaceID (Normalize_Scope u)) = sc_WorkspaceID (Normalize_Scope u)"
  using assms by (cases "a = ''''"; force simp: firstNonEmpty_def Normalize_Scope_def Let_def)
    (use assms in \<open>cases "b = ''''"; force simp: firstNonEmpty_def Normalize_Scope_def Let_def\<close>)

lemma build_input_in_scope:
  assumes "requestScopeMiddleware dt dw ex c = (Next, c')"
    and "buildPolicyInputFromGinContext env c' policy wk sk store = Inr input"
  shows "in_scope (ScopeFromContext (gc_Context c')) input" "RequireScope (gc_Context c') = Inr (ScopeFromContext (gc_Context c'))"
proof -
  from request_scope_Next [OF assms(1)] obtain u where
    c': "c' = c\<lparr>gc_Context := WithScope (gc_Context c) u\<rparr>"
    and auth: "authContextString c ''auth.tenant_id'' \<in> {'''', sc_TenantID u}"
      "authContextString c ''auth.workspace_id'' \<in> {'''', sc_WorkspaceID u}" by blast
  let ?s = "ScopeFromContext (gc_Context c')"
  have s: "?s = Normalize_Scope u"
    by (simp add: c' ScopeFromContext_def LookupScope_def WithScope_def)
  show "RequireScope (gc_Context c') = Inr ?s" unfolding s by (simp add: c')
  have norm: "trim_space (sc_TenantID ?s) = sc_TenantID ?s" "trim_space (sc_WorkspaceID ?s) = sc_WorkspaceID ?s"
    unfolding s by simp_all
  have same: "authContextString c' k = authContextString c k" for k by (simp add: c' authContextString_def gin_Get_def)
  have ids: "firstNonEmpty (authContextString c' ''auth.tenant_id'') (sc_TenantID ?s) = sc_TenantID ?s"
    "firstNonEmpty (authContextString c' ''auth.workspace_id'') (sc_WorkspaceID ?s) = sc_WorkspaceID ?s"
    unfolding same s using firstNonEmpty_scope [OF trim_authContextString trim_authContextString] auth by blast+
  from assms(2) loadTrusted_keeps show "in_scope ?s input"
    by (auto simp: buildPolicyInputFromGinContext_def Let_def in_scope_def norm ids dest!: loadTrusted_keeps)
qed




end
