(* ===== verification/Policy_Admin.thy ===== *)
theory Policy_Admin
  imports Authz_Rollout
begin

section \<open>Policy rollback and simulation (internal/api/authz_policy_rollback.go, authz_simulation.go)\<close>

text \<open>
  Two handlers that administer the stored policies. The rollback handler checks that a stored version
  compiles, points the tenant's rollout at it alone and appends an event. The simulation handler
  decides a hypothetical request, with the policy in force or with a stored version named by the
  caller, and answers with the full trace. A decoded request body is an argument, \<open>None\<close> when
  \<^verbatim>\<open>ShouldBindJSON\<close> fails. \<open>AdminState\<close> holds what the handlers change: the store (\<open>None\<close> for a
  nil store), the rollback counter (\<open>None\<close> for nil metrics) and, of the audit records of simulations,
  the actor and the fingerprint of the API key; their other fields are constants or clock readings.
  A handler reads the clock as one instant.
\<close>

record AdminState =
  am_Store :: "MemoryStore option"
  am_Rollbacks :: "nat option"

datatype 'r AdminReply = AdminError int string | AdminOK 'r

subsection \<open>Rollback\<close>

record authzPolicyRollbackRequest =
  rq_PolicySetID :: string
  rq_TargetVersion :: int
  rq_Actor :: string

record authzPolicyRollbackResponse =
  rs_PolicySetID :: string
  rs_PreviousEffective :: "int option"
  rs_PreviousActiveVersion :: "int option"
  rs_PreviousCandidateVersion :: "int option"
  rs_ActiveVersion :: int
  rs_RolloutMode :: string
  rs_UpdatedAt :: time

definition effectiveVersionBeforeRollback :: "AuthzPolicyRollout \<Rightarrow> int option" where
  "effectiveVersionBeforeRollback rollout =
    (case ro_CandidateVersion rollout of
       Some candidate \<Rightarrow>
         (if ro_Mode rollout = AuthzPolicyRolloutModeEnforce \<and> rolloutVersionValidated rollout candidate
          then Some candidate else ro_ActiveVersion rollout)
     | None \<Rightarrow> ro_ActiveVersion rollout)"

definition appendValidatedVersion :: "int list \<Rightarrow> int \<Rightarrow> int list" where
  "appendValidatedVersion existing target =
    (let versions = existing @ (if 0 < target then [target] else [])
     in sort (collect_unique (\<lambda>version. if version \<le> 0 then None else Some version) [] versions))"

definition effectiveRollbackActor :: "(string \<Rightarrow> string) \<Rightarrow> (string \<Rightarrow> string) \<Rightarrow> GinContext \<Rightarrow> string \<Rightarrow> string" where
  "effectiveRollbackActor fp_id fp_key c explicit =
    (let normalized = trim_space explicit
     in if normalized \<noteq> '''' then normalized else triageActorFromContext fp_id fp_key c)"

definition rollback_event ::
  "string \<Rightarrow> AuthzPolicyRollout \<Rightarrow> int \<Rightarrow> string \<Rightarrow> time \<Rightarrow> AuthzPolicyEvent" where
  "rollback_event policySetID rollout target actor now =
    \<lparr>pe_ID = '''', pe_TenantID = '''', pe_WorkspaceID = '''', pe_PolicySetID = policySetID, pe_EventType = ''rollback'',
     pe_FromVersion = effectiveVersionBeforeRollback rollout, pe_ToVersion = Some target, pe_Actor = actor,
     pe_Message = ''rolled back active policy version'',
     pe_Metadata = [(''previous_active_version'', ro_ActiveVersion rollout),
       (''previous_candidate_version'', ro_CandidateVersion rollout), (''target_version'', Some target)],
     pe_CreatedAt = now\<rparr>"

definition rollback_rollout :: "string \<Rightarrow> AuthzPolicyRollout \<Rightarrow> int \<Rightarrow> string \<Rightarrow> time \<Rightarrow> AuthzPolicyRollout" where
  "rollback_rollout policySetID rollout target actor now =
    \<lparr>ro_TenantID = '''', ro_WorkspaceID = '''', ro_PolicySetID = policySetID, ro_ActiveVersion = Some target,
     ro_CandidateVersion = None, ro_Mode = AuthzPolicyRolloutModeDisabled, ro_TenantAllowlist = [],
     ro_WorkspaceAllowlist = [], ro_CanaryPercentage = 100,
     ro_ValidatedVersions = appendValidatedVersion (ro_ValidatedVersions rollout) target,
     ro_UpdatedBy = actor, ro_UpdatedAt = now\<rparr>"

definition requested_policy_set :: "string \<Rightarrow> string" where
  "requested_policy_set policySetID = (if trim_space policySetID = '''' then defaultCentralPolicySetID else trim_space policySetID)"

text \<open>The handler from the reading of the rollout on; a failing event append is only logged.\<close>

definition apply_rollback ::
  "Env \<Rightarrow> Context \<Rightarrow> string \<Rightarrow> string \<Rightarrow> AuthzPolicyRollout \<Rightarrow> int \<Rightarrow> MemoryStore \<Rightarrow> nat option
    \<Rightarrow> authzPolicyRollbackResponse AdminReply \<times> AdminState" where
  "apply_rollback env ctx actor policySetID rollout target m count =
    (case UpsertAuthzPolicyRollout env ctx (rollback_rollout policySetID rollout target actor (env_Now env)) m of
       Inl err \<Rightarrow>
        (if errors_is err ErrNotFound then AdminError 404 ''policy set or version not found''
         else AdminError 500 ''failed to rollback policy'', \<lparr>am_Store = Some m, am_Rollbacks = count\<rparr>)
     | Inr m1 \<Rightarrow>
        (let m2 = (case AppendAuthzPolicyEvent env ctx (rollback_event policySetID rollout target actor (env_Now env)) m1 of
                     Inl _ \<Rightarrow> m1
                   | Inr m2 \<Rightarrow> m2)
         in (AdminOK
              \<lparr>rs_PolicySetID = policySetID, rs_PreviousEffective = effectiveVersionBeforeRollback rollout,
               rs_PreviousActiveVersion = ro_ActiveVersion rollout,
               rs_PreviousCandidateVersion = ro_CandidateVersion rollout, rs_ActiveVersion = target,
               rs_RolloutMode = AuthzPolicyRolloutModeDisabled, rs_UpdatedAt = env_Now env\<rparr>,
             \<lparr>am_Store = Some m2, am_Rollbacks = map_option Suc count\<rparr>)))"

definition authzPolicyRollbackHandler ::
  "Env \<Rightarrow> (string \<Rightarrow> routeAuthorizationPolicyBundle result) \<Rightarrow> (string \<Rightarrow> string) \<Rightarrow> (string \<Rightarrow> string) \<Rightarrow> GinContext
    \<Rightarrow> authzPolicyRollbackRequest option \<Rightarrow> AdminState \<Rightarrow> authzPolicyRollbackResponse AdminReply \<times> AdminState" where
  "authzPolicyRollbackHandler env unmarshal fp_id fp_key c body st =
    (case am_Store st of
       None \<Rightarrow> (AdminError 503 ''policy store unavailable'', st)
     | Some m \<Rightarrow>
        (case body of
           None \<Rightarrow> (AdminError 400 ''invalid request body'', st)
         | Some request \<Rightarrow>
            (let target = rq_TargetVersion request; policySetID = requested_policy_set (rq_PolicySetID request);
                 ctx = gc_Context c
             in if target \<le> 0 then (AdminError 400 ''target_version must be greater than zero'', st)
                else case validateAuthzPolicyVersionBundle unmarshal (\<lambda>p n. GetAuthzPolicyVersion ctx p n m) policySetID target of
                  Inl err \<Rightarrow>
                   (if errors_is err ErrNotFound then (AdminError 404 ''target policy version not found'', st)
                    else if \<not> errors_is err ErrInvalidAuthzPolicyVersionBundle then
                      (AdminError 500 ''failed to rollback policy'', st)
                    else (AdminError 400 ''target policy version is not valid'', st))
                | Inr _ \<Rightarrow>
                   (case GetAuthzPolicyRollout ctx policySetID m of
                      Inl err \<Rightarrow>
                       (if \<not> errors_is err ErrNotFound then (AdminError 500 ''failed to rollback policy'', st)
                        else apply_rollback env ctx (effectiveRollbackActor fp_id fp_key c (rq_Actor request)) policySetID
                               (empty_rollout policySetID) target m (am_Rollbacks st))
                    | Inr rollout \<Rightarrow>
                        apply_rollback env ctx (effectiveRollbackActor fp_id fp_key c (rq_Actor request)) policySetID
                          rollout target m (am_Rollbacks st)))))"

subsection \<open>Simulation\<close>

record policySimulationSubjectInput =
  si_Type :: string
  si_ID :: string
  si_TenantID :: string
  si_WorkspaceID :: string
  si_Groups :: "string list"
  si_Roles :: "string list"
  si_Attributes :: "(string, string) gomap"

record policySimulationResourceInput =
  sr_Type :: string
  sr_ID :: string
  sr_TenantID :: string
  sr_WorkspaceID :: string
  sr_Attributes :: "(string, string) gomap"

record policySimulationContextInput =
  sx_RequestPath :: string
  sx_RequestMethod :: string
  sx_Attributes :: "(string, string) gomap"

record authzPolicySimulationRequest =
  sm_Subject :: policySimulationSubjectInput
  sm_Action :: string
  sm_Resource :: policySimulationResourceInput
  sm_Context :: policySimulationContextInput
  sm_PolicySetID :: string
  sm_TargetVersion :: "int option"
  sm_AuditEvent :: bool

record authzPolicySimulationPolicyResponse =
  sp_Source :: string
  sp_PolicySetID :: string
  sp_Version :: int
  sp_RolloutMode :: string
  sp_TargetVersion :: "int option"

record authzPolicySimulationResponse =
  sn_Decision :: PolicyDecision
  sn_Trace :: "PolicyTraceStep list"
  sn_Policy :: authzPolicySimulationPolicyResponse

record SimulationAudit =
  se_Actor :: string
  se_APIKeyID :: string

definition normalizeSimulationList :: "string list \<Rightarrow> bool \<Rightarrow> string list" where
  "normalizeSimulationList values lower =
    sort (collect_unique (\<lambda>value. nonempty (if lower then norm_key value else trim_space value)) [] values)"

definition normalizeSimulationAttributes :: "(string, string) gomap \<Rightarrow> (string, string) gomap" where
  "normalizeSimulationAttributes attributes =
    foldl (\<lambda>normalized (key, value).
        if norm_key key = '''' \<or> trim_space value = '''' then normalized
        else map_put (norm_key key) (trim_space value) normalized) [] attributes"

definition toSimulationPolicyInput :: "Env \<Rightarrow> GinContext \<Rightarrow> authzPolicySimulationRequest \<Rightarrow> PolicyInput" where
  "toSimulationPolicyInput env c request =
    (let scope = ScopeFromContext (gc_Context c);
         subject = sm_Subject request; resource = sm_Resource request; ctx = sm_Context request;
         attributes = normalizeSimulationAttributes (sx_Attributes ctx);
         attributes = map_put policyContextTenantIDKey
           (firstNonEmpty (map_string attributes policyContextTenantIDKey) (sc_TenantID scope)) attributes;
         attributes = map_put policyContextWorkspaceIDKey
           (firstNonEmpty (map_string attributes policyContextWorkspaceIDKey) (sc_WorkspaceID scope)) attributes
     in \<lparr>in_Subject =
           \<lparr>sub_Type = norm_key (si_Type subject), sub_ID = trim_space (si_ID subject),
            sub_TenantID = firstNonEmpty (si_TenantID subject) (sc_TenantID scope),
            sub_WorkspaceID = firstNonEmpty (si_WorkspaceID subject) (sc_WorkspaceID scope),
            sub_Groups = normalizeSimulationList (si_Groups subject) False,
            sub_Roles = normalizeSimulationList (si_Roles subject) True,
            sub_Attributes = normalizeSimulationAttributes (si_Attributes subject)\<rparr>,
         in_Action = norm_key (sm_Action request),
         in_Resource =
           \<lparr>res_Type = norm_key (sr_Type resource), res_ID = trim_space (sr_ID resource),
            res_TenantID = firstNonEmpty (sr_TenantID resource) (sc_TenantID scope),
            res_WorkspaceID = firstNonEmpty (sr_WorkspaceID resource) (sc_WorkspaceID scope),
            res_Attributes = normalizeSimulationAttributes (sr_Attributes resource)\<rparr>,
         in_Context =
           \<lparr>pc_RequestPath = trim_space (sx_RequestPath ctx), pc_RequestMethod = to_upper (trim_space (sx_RequestMethod ctx)),
            pc_Now = env_Now env, pc_Attributes = attributes\<rparr>\<rparr>)"

text \<open>The zero value of a rollout, which the runtime of a simulated version carries.\<close>

definition zero_rollout :: AuthzPolicyRollout where
  "zero_rollout = (empty_rollout '''')\<lparr>ro_Mode := '''', ro_CanaryPercentage := 0\<rparr>"

definition target_runtime ::
  "StoreOps \<Rightarrow> Context \<Rightarrow> string \<Rightarrow> string \<Rightarrow> compiledRouteAuthorizationPolicy \<Rightarrow> int \<Rightarrow> resolvedCentralPolicyRuntime" where
  "target_runtime store ctx policySetID rolloutMode compiled version =
    \<lparr>rr_Engine = Some (engine_of (Some store) ctx compiled), rr_Registry = cp_RouteRegistry compiled,
     rr_Source = ''persisted_target_version'', rr_PolicySetID = policySetID, rr_Version = version,
     rr_RolloutMode = rolloutMode, rr_Rollout = zero_rollout,
     rr_CandidateEngine = None, rr_CandidateSource = '''', rr_CandidateVersion = 0\<rparr>"

text \<open>
  The resolver is the shared one, or with \<open>None\<close> one made for the call; the second component is the
  resolver after the call, whose cache may have grown.
\<close>

definition resolveSimulationRuntime ::
  "(string \<Rightarrow> routeAuthorizationPolicyBundle result) \<Rightarrow> Context \<Rightarrow> StoreOps option \<Rightarrow> Resolver option \<Rightarrow> string \<Rightarrow> int option
    \<Rightarrow> resolvedCentralPolicyRuntime result \<times> Resolver" where
  "resolveSimulationRuntime unmarshal ctx store resolver policySetID targetVersion =
    (let r = (case resolver of None \<Rightarrow> newCentralPolicyRuntimeResolverWithPolicySet store policySetID | Some r \<Rightarrow> r)
     in case targetVersion of
          None \<Rightarrow> Resolve unmarshal ctx r
        | Some target \<Rightarrow>
           (case store of
              None \<Rightarrow> (Inl (ErrorText ''policy store is not configured''), r)
            | Some s \<Rightarrow>
               (case so_GetVersion s ctx policySetID target of
                  Inl err \<Rightarrow> (Inl err, r)
                | Inr version \<Rightarrow>
                   (case compiledVersion unmarshal r version of
                      (Inl err, r) \<Rightarrow> (Inl (Wrapped ''compile target policy version: '' err ''''), r)
                    | (Inr compiled, r) \<Rightarrow>
                       (let rolloutMode = (case so_GetRollout s ctx policySetID of
                                Inl _ \<Rightarrow> AuthzPolicyRolloutModeDisabled
                              | Inr rollout \<Rightarrow> trim_space (ro_Mode rollout))
                        in (Inr (target_runtime s ctx policySetID rolloutMode compiled (pv_Version version)), r))))))"

definition simulation_audit :: "(string \<Rightarrow> string) \<Rightarrow> (string \<Rightarrow> string) \<Rightarrow> GinContext \<Rightarrow> SimulationAudit" where
  "simulation_audit fp_id fp_key c =
    (let apiKey = authContextString c ''auth.api_key''
     in \<lparr>se_Actor = triageActorFromContext fp_id fp_key c, se_APIKeyID = (if apiKey \<noteq> '''' then fp_key apiKey else '''')\<rparr>)"

definition writeSimulationAuditEvent ::
  "(string \<Rightarrow> string) \<Rightarrow> (string \<Rightarrow> string) \<Rightarrow> GinContext \<Rightarrow> SimulationAudit list option \<Rightarrow> SimulationAudit list option" where
  "writeSimulationAuditEvent fp_id fp_key c sink = map_option (\<lambda>events. events @ [simulation_audit fp_id fp_key c]) sink"

definition authzPolicySimulationHandler ::
  "Env \<Rightarrow> (string \<Rightarrow> routeAuthorizationPolicyBundle result) \<Rightarrow> (string \<Rightarrow> string) \<Rightarrow> (string \<Rightarrow> string) \<Rightarrow> StoreOps option
    \<Rightarrow> GinContext \<Rightarrow> authzPolicySimulationRequest option \<Rightarrow> Resolver option \<Rightarrow> SimulationAudit list option
    \<Rightarrow> authzPolicySimulationResponse AdminReply \<times> Resolver option \<times> SimulationAudit list option" where
  "authzPolicySimulationHandler env unmarshal fp_id fp_key store c body resolver sink =
    (case body of
       None \<Rightarrow> (AdminError 400 ''invalid request body'', resolver, sink)
     | Some request \<Rightarrow>
        (let policySetID = requested_policy_set (sm_PolicySetID request);
             input = toSimulationPolicyInput env c request
         in if (case sm_TargetVersion request of None \<Rightarrow> False | Some n \<Rightarrow> n \<le> 0) then
              (AdminError 400 ''target_version must be greater than zero'', resolver, sink)
            else if trim_space (in_Action input) = '''' then (AdminError 400 ''action is required'', resolver, sink)
            else
              let (answer, r) = resolveSimulationRuntime unmarshal (gc_Context c) store resolver policySetID
                    (sm_TargetVersion request);
                  resolver = map_option (\<lambda>_. r) resolver
              in case answer of
                   Inl err \<Rightarrow>
                    (if errors_is err ErrNotFound then AdminError 404 ''policy version not found''
                     else AdminError 500 ''failed to resolve policy runtime'', resolver, sink)
                 | Inr runtime \<Rightarrow>
                    (case DecideWithTrace (rr_Engine runtime) input of
                       Inl _ \<Rightarrow> (AdminError 500 ''failed to simulate policy decision'', resolver, sink)
                     | Inr (decision, trace) \<Rightarrow>
                        (AdminOK \<lparr>sn_Decision = decision, sn_Trace = trace,
                           sn_Policy = \<lparr>sp_Source = rr_Source runtime, sp_PolicySetID = rr_PolicySetID runtime,
                             sp_Version = rr_Version runtime, sp_RolloutMode = rr_RolloutMode runtime,
                             sp_TargetVersion = sm_TargetVersion request\<rparr>\<rparr>,
                         resolver,
                         if sm_AuditEvent request then writeSimulationAuditEvent fp_id fp_key c sink else sink))))"

subsection \<open>Laws\<close>

lemma last_bar_split:
  assumes "x @ ''|'' @ int_string i = y @ ''|'' @ int_string j" "bar_free (int_string i)" "bar_free (int_string j)"
  shows "x = y \<and> int_string i = int_string j"
  using bar_split [of "rev (int_string i)" "rev x" "rev (int_string j)" "rev y"] arg_cong [OF assms(1), of rev] assms(2,3)
  by (simp add: bar_free_def)

lemma bar_free_int: "0 < i \<Longrightarrow> bar_free (int_string i)"
proof -
  have d: "list_all (\<lambda>k. digit_char k \<noteq> CHR ''|'') [0..<10]" by code_simp
  have "CHR ''|'' \<notin> set (nat_string n)" for n
  proof (induction n rule: less_induct)
    case (less n)
    have "digit_char (n mod 10) \<noteq> CHR ''|''" using d by (simp add: list_all_iff)
    with less [of "n div 10"] d show ?case by (subst nat_string.simps) (auto simp: list_all_iff)
  qed
  then show "0 < i \<Longrightarrow> bar_free (int_string i)" by (simp add: int_string_def bar_free_def)
qed

text \<open>A version read back has the number it was asked for, and its policy set is stored.\<close>

lemma get_version_entry:
  assumes "wf_store m" "GetAuthzPolicyVersion ctx p n m = Inr v"
  shows "pv_Version v = n"
    and "RequireScope ctx = Inr sc \<Longrightarrow> has_key (st_authzSets m) (authzPolicySetScopeKey sc p)"
proof -
  from assms(2) obtain s where s: "RequireScope ctx = Inr s" "0 < n"
    "map_of (st_authzVersions m) (authzPolicyVersionScopeKey s p n) = Some v" by (auto simp: GetAuthzPolicyVersion_Inr)
  from assms(1) have "table_ok (version_entry m) (st_authzVersions m)" by (simp add: wf_store_def)
  from table_ok_lookup [OF this s(3)] have e: "version_entry m (authzPolicyVersionScopeKey s p n) v" .
  let ?vs = "record_scope (pv_TenantID v) (pv_WorkspaceID v)"
  from e have pos: "0 < pv_Version v" by (simp add: version_entry_def wf_version_def)
  from e have "authzPolicySetScopeKey s p @ ''|'' @ int_string n = authzPolicySetScopeKey ?vs (pv_PolicySetID v) @ ''|'' @ int_string (pv_Version v)"
    by (simp add: version_entry_def authzPolicyVersionScopeKey_def)
  from last_bar_split [OF this bar_free_int [OF s(2)] bar_free_int [OF pos]] int_string_inj [OF pos s(2)] e
  show "pv_Version v = n" "RequireScope ctx = Inr sc \<Longrightarrow> has_key (st_authzSets m) (authzPolicySetScopeKey sc p)"
    using s(1) by (auto simp: version_entry_def)
qed

lemma pattern_nonempty: "authzOwnerTeamPattern s \<Longrightarrow> s \<noteq> ''''"
  by (auto simp: authzOwnerTeamPattern_def)

lemma policy_set_accepted: "authzOwnerTeamPattern (norm_key p) \<Longrightarrow> normalizeAuthzPolicySetID p = Inr (norm_key p)"
  using pattern_nonempty [of "norm_key p"] by (simp add: normalizeAuthzPolicySetID_def Let_def)

lemma collect_positive_versions: "\<forall>v\<in>set vs. 0 < v \<Longrightarrow> is_ok (collect_versions acc vs)"
  by (induction acc vs rule: collect_versions.induct) (auto simp: Let_def)

lemma appended_versions_positive: "v \<in> set (appendValidatedVersion vs n) \<Longrightarrow> 0 < v"
  by (auto simp: appendValidatedVersion_def Let_def set_collect_unique split: if_splits)

lemma rollback_rollout_writable:
  assumes "authzOwnerTeamPattern (norm_key p)" "0 < n"
  shows "\<exists>b. NormalizeAuthzPolicyRolloutForWrite env (rollback_rollout p ro n actor now) = Inr b
    \<and> ro_PolicySetID b = norm_key p \<and> ro_ActiveVersion b = Some n \<and> ro_CandidateVersion b = None
    \<and> ro_Mode b = AuthzPolicyRolloutModeDisabled"
proof -
  have "is_ok (collect_versions [] (appendValidatedVersion (ro_ValidatedVersions ro) n))"
    by (rule collect_positive_versions) (blast intro: appended_versions_positive)
  then obtain vs where vs: "normalizeAuthzRolloutValidatedVersions (appendValidatedVersion (ro_ValidatedVersions ro) n) = Inr vs"
    by (auto simp: is_ok_iff normalizeAuthzRolloutValidatedVersions_def)
  have mode: "norm_key AuthzPolicyRolloutModeDisabled = AuthzPolicyRolloutModeDisabled"
    "AuthzPolicyRolloutModeDisabled \<in> set validAuthzPolicyRolloutModes"
    "AuthzPolicyRolloutModeDisabled \<noteq> ''''" "AuthzPolicyRolloutModeDisabled \<noteq> AuthzPolicyRolloutModeEnforce" by code_simp+
  with assms pattern_nonempty [OF assms(1)] show ?thesis
    by (simp add: NormalizeAuthzPolicyRolloutForWrite_def rollback_rollout_def normalizeAuthzPolicySetID_def Let_def vs mode)
qed

lemma rollback_upsert_ok:
  assumes "wf_store m" "GetAuthzPolicyVersion ctx p n m = Inr v"
  obtains sc b where "RequireScope ctx = Inr sc" "ro_PolicySetID b = norm_key p" "ro_ActiveVersion b = Some n"
    "ro_CandidateVersion b = None" "ro_Mode b = AuthzPolicyRolloutModeDisabled"
    "UpsertAuthzPolicyRollout env ctx (rollback_rollout p ro n actor now) m
      = Inr (m\<lparr>st_authzRollouts := map_put (authzPolicySetScopeKey sc p) b (st_authzRollouts m)\<rparr>)"
proof -
  from assms(2) obtain sc where sc: "RequireScope ctx = Inr sc" "authzOwnerTeamPattern (norm_key p)" "0 < n"
    "map_of (st_authzVersions m) (authzPolicyVersionScopeKey sc p n) = Some v" by (auto simp: GetAuthzPolicyVersion_Inr)
  from rollback_rollout_writable [OF sc(2,3), of env ro actor now] obtain b where
    b: "NormalizeAuthzPolicyRolloutForWrite env (rollback_rollout p ro n actor now) = Inr b"
      "ro_PolicySetID b = norm_key p" "ro_ActiveVersion b = Some n" "ro_CandidateVersion b = None"
      "ro_Mode b = AuthzPolicyRolloutModeDisabled" by blast
  let ?b = "b\<lparr>ro_TenantID := sc_TenantID sc, ro_WorkspaceID := sc_WorkspaceID sc\<rparr>"
  have "UpsertAuthzPolicyRollout env ctx (rollback_rollout p ro n actor now) m
      = Inr (m\<lparr>st_authzRollouts := map_put (authzPolicySetScopeKey sc p) ?b (st_authzRollouts m)\<rparr>)"
    using b sc get_version_entry(2) [OF assms sc(1)] RequireScope_normal [OF sc(1)]
    by (simp add: UpsertAuthzPolicyRollout_def Let_def version_stored_def has_key_iff)
  with b sc that [of sc ?b] show thesis by simp
qed

text \<open>What a rollback leaves of the store.\<close>

definition rolled_back :: "Context \<Rightarrow> string \<Rightarrow> int \<Rightarrow> MemoryStore \<Rightarrow> MemoryStore \<Rightarrow> bool" where
  "rolled_back ctx p n m m' \<longleftrightarrow> store_step\<^sup>*\<^sup>* m m'
    \<and> st_authzVersions m' = st_authzVersions m \<and> st_authzRels m' = st_authzRels m
    \<and> st_authzAttrs m' = st_authzAttrs m \<and> st_authzSets m' = st_authzSets m
    \<and> (\<exists>ro. GetAuthzPolicyRollout ctx p m' = Inr ro \<and> ro_ActiveVersion ro = Some n
         \<and> ro_CandidateVersion ro = None \<and> ro_Mode ro = AuthzPolicyRolloutModeDisabled)"

lemma append_event_step:
  "AppendAuthzPolicyEvent env ctx e m = Inr m' \<Longrightarrow> store_step\<^sup>*\<^sup>* m m' \<and> st_authzRollouts m' = st_authzRollouts m
    \<and> st_authzVersions m' = st_authzVersions m \<and> st_authzRels m' = st_authzRels m
    \<and> st_authzAttrs m' = st_authzAttrs m \<and> st_authzSets m' = st_authzSets m"
  using store_step.step_event [of env ctx e m m'] by (auto elim: Append_event_cases)

lemma rolled_back_reads:
  assumes "rolled_back ctx0 q n m m'"
  shows "GetAuthzPolicyVersion ctx p k m' = GetAuthzPolicyVersion ctx p k m"
    "ListAuthzRelationships env ctx m' = ListAuthzRelationships env ctx m"
proof -
  from assms have same: "st_authzVersions m' = st_authzVersions m" "st_authzRels m' = st_authzRels m"
    by (simp_all add: rolled_back_def)
  show "GetAuthzPolicyVersion ctx p k m' = GetAuthzPolicyVersion ctx p k m"
    unfolding GetAuthzPolicyVersion_def same by (rule refl)
  show "ListAuthzRelationships env ctx m' = ListAuthzRelationships env ctx m"
    by (intro ext) (simp only: ListAuthzRelationships_def same)
qed

lemma apply_rollback_done:
  assumes "wf_store m" "GetAuthzPolicyVersion ctx p n m = Inr v"
  obtains resp m' where "apply_rollback env ctx actor p ro n m count
      = (AdminOK resp, \<lparr>am_Store = Some m', am_Rollbacks = map_option Suc count\<rparr>)"
    "rs_ActiveVersion resp = n" "rolled_back ctx p n m m'"
proof -
  let ?now = "env_Now env"
  obtain sc b where b: "RequireScope ctx = Inr sc" "ro_PolicySetID b = norm_key p" "ro_ActiveVersion b = Some n"
    "ro_CandidateVersion b = None" "ro_Mode b = AuthzPolicyRolloutModeDisabled"
    and up: "UpsertAuthzPolicyRollout env ctx (rollback_rollout p ro n actor ?now) m
      = Inr (m\<lparr>st_authzRollouts := map_put (authzPolicySetScopeKey sc p) b (st_authzRollouts m)\<rparr>)"
    by (rule rollback_upsert_ok [OF assms])
  let ?m1 = "m\<lparr>st_authzRollouts := map_put (authzPolicySetScopeKey sc p) b (st_authzRollouts m)\<rparr>"
  let ?event = "AppendAuthzPolicyEvent env ctx (rollback_event p ro n actor ?now) ?m1"
  let ?m2 = "case ?event of Inl _ \<Rightarrow> ?m1 | Inr m2 \<Rightarrow> m2"
  have step1: "store_step m ?m1" using up by (rule store_step.step_rollout)
  have "authzOwnerTeamPattern (norm_key p)" using assms(2) by (auto simp: GetAuthzPolicyVersion_Inr)
  with b(1) RequireScope_normal [OF b(1)] have read: "GetAuthzPolicyRollout ctx p ?m1 = Inr b"
    by (auto simp: GetAuthzPolicyRollout_def policy_set_accepted)
  have step2: "store_step\<^sup>*\<^sup>* ?m1 ?m2 \<and> st_authzRollouts ?m2 = st_authzRollouts ?m1
      \<and> st_authzVersions ?m2 = st_authzVersions m \<and> st_authzRels ?m2 = st_authzRels m
      \<and> st_authzAttrs ?m2 = st_authzAttrs m \<and> st_authzSets ?m2 = st_authzSets m"
    by (cases ?event) (auto dest: append_event_step)
  then have "GetAuthzPolicyRollout ctx p ?m2 = GetAuthzPolicyRollout ctx p ?m1"
    unfolding GetAuthzPolicyRollout_def by (elim conjE) (simp only:)
  with read step2 b(3-5) converse_rtranclp_into_rtranclp [where r = store_step, OF step1]
  have "rolled_back ctx p n m ?m2" unfolding rolled_back_def by simp
  with up show thesis by (intro that [of _ ?m2]) (auto simp: apply_rollback_def Let_def)
qed

lemma validate_version_ok:
  "is_ok (validateAuthzPolicyVersionBundle u get p n) \<longleftrightarrow>
    0 < n \<and> (\<exists>v b. get p n = Inr v \<and> compileRouteAuthorizationPolicyBundleJSON u (pv_Bundle v) = Inr b)"
proof (cases "get p n")
  case (Inl err)
  then show ?thesis by (simp add: validateAuthzPolicyVersionBundle_def)
next
  case (Inr v)
  then show ?thesis
    by (cases "compileRouteAuthorizationPolicyBundleJSON u (pv_Bundle v)")
      (simp_all add: validateAuthzPolicyVersionBundle_def)
qed

text \<open>The version the request names is stored in the caller's scope and its bundle compiles.\<close>

definition target_usable ::
  "(string \<Rightarrow> routeAuthorizationPolicyBundle result) \<Rightarrow> MemoryStore \<Rightarrow> Context \<Rightarrow> authzPolicyRollbackRequest \<Rightarrow> bool" where
  "target_usable unmarshal m ctx request \<longleftrightarrow>
    (\<exists>v b. GetAuthzPolicyVersion ctx (requested_policy_set (rq_PolicySetID request)) (rq_TargetVersion request) m = Inr v
       \<and> compileRouteAuthorizationPolicyBundleJSON unmarshal (pv_Bundle v) = Inr b)"

lemma rollback_accepted:
  assumes "wf_store m" "am_Store st = Some m" "target_usable unmarshal m (gc_Context c) request"
  obtains resp m' where "authzPolicyRollbackHandler env unmarshal fp_id fp_key c (Some request) st
      = (AdminOK resp, \<lparr>am_Store = Some m', am_Rollbacks = map_option Suc (am_Rollbacks st)\<rparr>)"
    "rs_ActiveVersion resp = rq_TargetVersion request"
    "rolled_back (gc_Context c) (requested_policy_set (rq_PolicySetID request)) (rq_TargetVersion request) m m'"
proof -
  let ?ctx = "gc_Context c" and ?p = "requested_policy_set (rq_PolicySetID request)" and ?n = "rq_TargetVersion request"
  let ?actor = "effectiveRollbackActor fp_id fp_key c (rq_Actor request)"
  from assms(3) obtain v b where v: "GetAuthzPolicyVersion ?ctx ?p ?n m = Inr v"
    "compileRouteAuthorizationPolicyBundleJSON unmarshal (pv_Bundle v) = Inr b" by (auto simp: target_usable_def)
  then have n: "0 < ?n" and "authzOwnerTeamPattern (norm_key ?p)" "is_ok (RequireScope ?ctx)"
    by (auto simp: GetAuthzPolicyVersion_Inr is_ok_iff)
  then have not_found: "err = Sentinel ErrNotFound" if "GetAuthzPolicyRollout ?ctx ?p m = Inl err" for err
    using that by (auto simp: GetAuthzPolicyRollout_def policy_set_accepted is_ok_iff split: option.splits)
  let ?ro = "case GetAuthzPolicyRollout ?ctx ?p m of Inl _ \<Rightarrow> empty_rollout ?p | Inr ro \<Rightarrow> ro"
  have "authzPolicyRollbackHandler env unmarshal fp_id fp_key c (Some request) st
      = apply_rollback env ?ctx ?actor ?p ?ro ?n m (am_Rollbacks st)"
    using v n assms(2) not_found
    by (cases "GetAuthzPolicyRollout ?ctx ?p m")
      (simp_all add: authzPolicyRollbackHandler_def validateAuthzPolicyVersionBundle_def Let_def)
  moreover obtain resp m' where "apply_rollback env ?ctx ?actor ?p ?ro ?n m (am_Rollbacks st)
      = (AdminOK resp, \<lparr>am_Store = Some m', am_Rollbacks = map_option Suc (am_Rollbacks st)\<rparr>)"
    "rs_ActiveVersion resp = ?n" "rolled_back ?ctx ?p ?n m m'"
    by (rule apply_rollback_done [OF assms(1) v(1)])
  ultimately show thesis by (intro that [of resp m']) auto
qed

lemma rollback_refused:
  assumes "am_Store st = Some m" "\<not> target_usable unmarshal m (gc_Context c) request"
  obtains code msg where
    "authzPolicyRollbackHandler env unmarshal fp_id fp_key c (Some request) st = (AdminError code msg, st)"
proof (cases "rq_TargetVersion request \<le> 0")
  case True
  then have "authzPolicyRollbackHandler env unmarshal fp_id fp_key c (Some request) st
    = (AdminError 400 ''target_version must be greater than zero'', st)"
    using assms(1) by (simp add: authzPolicyRollbackHandler_def Let_def)
  then show thesis by (rule that)
next
  case False
  let ?check = "validateAuthzPolicyVersionBundle unmarshal (\<lambda>p n. GetAuthzPolicyVersion (gc_Context c) p n m)
    (requested_policy_set (rq_PolicySetID request)) (rq_TargetVersion request)"
  from assms(2) have "\<not> is_ok ?check" by (auto simp: validate_version_ok target_usable_def)
  then obtain err where "?check = Inl err" by (cases ?check) auto
  with False assms(1) have "\<exists>code msg. authzPolicyRollbackHandler env unmarshal fp_id fp_key c (Some request) st
    = (AdminError code msg, st)" by (auto simp: authzPolicyRollbackHandler_def Let_def)
  with that show thesis by blast
qed

subsection \<open>The policy in force after a rollback\<close>

lemma get_by_scope_and_set:
  assumes "RequireScope ctx = RequireScope ctx'" "norm_key p = norm_key q"
  shows "GetAuthzPolicyVersion ctx p n m = GetAuthzPolicyVersion ctx' q n m"
    "GetAuthzPolicyRollout ctx p m = GetAuthzPolicyRollout ctx' q m"
  unfolding GetAuthzPolicyVersion_def GetAuthzPolicyRollout_def normalizeAuthzPolicySetID_def assms by (rule refl)+

lemma reached_resolver:
  assumes "(runtime_step u)\<^sup>*\<^sup>* (NewMemoryStore, newCentralPolicyRuntimeResolverWithPolicySet store p) (m, r)"
    and "authzOwnerTeamPattern (norm_key p)"
  shows "store_step\<^sup>*\<^sup>* NewMemoryStore m" "cache_coherent u (stored_versions m) r"
    "rv_PolicySet r = trim_space p" "rv_Fallback r = builtin_compiled" "rv_InitErr r = None"
  using runtime_keeps [OF assms(1)] new_resolver_set [OF assms(2)] by (simp_all add: same_resolver_def)

definition runs_only :: "Env \<Rightarrow> Context \<Rightarrow> MemoryStore \<Rightarrow> compiledRouteAuthorizationPolicy \<Rightarrow> int \<Rightarrow> resolvedCentralPolicyRuntime \<Rightarrow> bool" where
  "runs_only env ctx m d n rt \<longleftrightarrow>
    rr_Engine rt = Some (engine_of (Some (memory_store_ops env m)) ctx d) \<and> rr_Registry rt = cp_RouteRegistry d
    \<and> rr_Source rt = ''persisted_active_version'' \<and> rr_Version rt = n
    \<and> rr_CandidateEngine rt = None \<and> ro_Mode (rr_Rollout rt) = AuthzPolicyRolloutModeDisabled"

lemma resolve_after_rollback:
  assumes "(runtime_step u)\<^sup>*\<^sup>* (NewMemoryStore, newCentralPolicyRuntimeResolverWithPolicySet store p) (m, r)"
    and "keys_honest (stored_versions m)" "target_usable u m ctx0 request"
    and "norm_key p = norm_key (requested_policy_set (rq_PolicySetID request))"
    and "rolled_back ctx0 (requested_policy_set (rq_PolicySetID request)) (rq_TargetVersion request) m m'"
    and "RequireScope ctx = RequireScope ctx0"
  obtains v d rt where "GetAuthzPolicyVersion ctx p (rq_TargetVersion request) m = Inr v" "pv_Version v = rq_TargetVersion request"
    "fst (compiledVersion u (attach env m r) v) = Inr d" "fst (Resolve u ctx (attach env m' r)) = Inr rt"
    "runs_only env ctx m' d (rq_TargetVersion request) rt"
proof -
  let ?n = "rq_TargetVersion request" and ?q = "requested_policy_set (rq_PolicySetID request)"
  note same = get_by_scope_and_set [OF assms(6,4)]
  from assms(3) obtain v b where v: "GetAuthzPolicyVersion ctx p ?n m = Inr v"
    and b: "compileRouteAuthorizationPolicyBundleJSON u (pv_Bundle v) = Inr b"
    by (auto simp: target_usable_def same)
  then have pattern: "authzOwnerTeamPattern (norm_key p)" and n: "0 < ?n" by (auto simp: GetAuthzPolicyVersion_Inr)
  note keep = reached_resolver [OF assms(1) pattern]
  have versions: "st_authzVersions m' = st_authzVersions m" using assms(5) by (simp add: rolled_back_def)
  then have stored: "stored_versions m' = stored_versions m" by (simp add: stored_versions_def)
  note read = rolled_back_reads(1) [OF assms(5)]
  obtain ro where ro: "GetAuthzPolicyRollout ctx p m' = Inr ro" "ro_ActiveVersion ro = Some ?n"
    "ro_CandidateVersion ro = None" "ro_Mode ro = AuthzPolicyRolloutModeDisabled"
    using assms(5) by (auto simp: rolled_back_def same)
  from b obtain d where d: "compile_version u r v = Inr d" by (simp add: compile_version_def Let_def)
  have "v \<in> stored_versions m" using v by (auto simp: GetAuthzPolicyVersion_Inr stored_versions_def)
  then have compiled: "fst (compiledVersion u (attach env m r) v) = Inr d"
    using compiledVersion_correct [OF _ assms(2), of u "attach env m r"] keep(2) d by simp
  have number: "pv_Version v = ?n" by (rule get_version_entry(1) [OF reachable_wf [OF keep(1)] v])
  have "cache_coherent u (stored_versions m') (attach env m' r)" "keys_honest (stored_versions m')"
    using keep(2) assms(2) stored by simp_all
  from Resolve_correct [OF attach_sel(1) this versions_in_memory]
  have run: "fst (Resolve u ctx (attach env m' r)) = resolve_spec u ctx (attach env m' r) (memory_store_ops env m')" .
  let ?rt = "with_active (Some (memory_store_ops env m')) ctx (Some (d, ?n))
    ((fallbackRuntime (attach env m' r) ctx)\<lparr>rr_Rollout := normalizeRuntimeRollout ro (trim_space p),
      rr_RolloutMode := ro_Mode (normalizeRuntimeRollout ro (trim_space p))\<rparr>)"
  have policy_set: "GetAuthzPolicyRollout ctx (trim_space p) m' = Inr ro" "GetAuthzPolicyVersion ctx (trim_space p) ?n m' = Inr v"
    using ro(1) v get_by_scope_and_set [OF refl, of "trim_space p" p ctx] by (simp_all add: read)
  have "resolve_spec u ctx (attach env m' r) (memory_store_ops env m') = Inr ?rt"
    using keep(3,5) policy_set ro d number n
    by (simp add: resolve_spec_def resolve_with_def find_version_def memory_store_ops_def Let_def with_candidate_def)
  moreover have "AuthzPolicyRolloutModeDisabled \<in> set validAuthzPolicyRolloutModes"
    "norm_key AuthzPolicyRolloutModeDisabled = AuthzPolicyRolloutModeDisabled" by code_simp+
  then have "runs_only env ctx m' d ?n ?rt"
    using ro(4) by (simp add: runs_only_def with_active_def fallbackRuntime_def built_in_runtime_def
        normalizeRuntimeRollout_def Let_def)
  ultimately show thesis using that [OF v number compiled] run by simp
qed

lemma runs_only_decides:
  "runs_only env ctx m d n rt \<Longrightarrow> decision_engine rt targeted = (rr_Engine rt, ''persisted_active_version'', n)"
  by (simp add: runs_only_def decision_engine_def enforceCandidate_def)

lemma after_rollback:
  assumes "(runtime_step unmarshal)\<^sup>*\<^sup>* (NewMemoryStore, newCentralPolicyRuntimeResolverWithPolicySet store p) (m, r)"
    and "keys_honest (stored_versions m)" "am_Store st = Some m"
    and "authzPolicyRollbackHandler env unmarshal fp_id fp_key c (Some request) st = (AdminOK resp, st')"
    and "norm_key p = norm_key (requested_policy_set (rq_PolicySetID request))"
    and "RequireScope ctx = RequireScope (gc_Context c)"
  obtains m' v d rt where "am_Store st' = Some m'"
    "rolled_back (gc_Context c) (requested_policy_set (rq_PolicySetID request)) (rq_TargetVersion request) m m'"
    "GetAuthzPolicyVersion ctx p (rq_TargetVersion request) m = Inr v"
    "fst (compiledVersion unmarshal (attach env' m r) v) = Inr d" "pv_Version v = rq_TargetVersion request"
    "fst (Resolve unmarshal ctx (attach env' m' r)) = Inr rt" "runs_only env' ctx m' d (rq_TargetVersion request) rt"
proof -
  have usable: "target_usable unmarshal m (gc_Context c) request"
  proof (rule ccontr)
    assume refused: "\<not> ?thesis"
    show False by (rule rollback_refused [OF assms(3) refused, of env fp_id fp_key]) (simp add: assms(4))
  qed
  then have "authzOwnerTeamPattern (norm_key p)"
    using assms(5) by (auto simp: target_usable_def GetAuthzPolicyVersion_Inr)
  note keep = reached_resolver [OF assms(1) this]
  obtain m' where m': "am_Store st' = Some m'"
    "rolled_back (gc_Context c) (requested_policy_set (rq_PolicySetID request)) (rq_TargetVersion request) m m'"
    by (rule rollback_accepted [OF reachable_wf [OF keep(1)] assms(3) usable, of env fp_id fp_key]) (simp add: assms(4))
  show thesis
    by (rule resolve_after_rollback [OF assms(1,2) usable assms(5) m'(2) assms(6), of env']) (rule that [OF m'])
qed

text \<open>A simulation of a stored version that compiles.\<close>

lemma simulate_version:
  assumes "sm_TargetVersion sim = Some n" "0 < n"
    and "GetAuthzPolicyVersion (gc_Context c) (requested_policy_set (sm_PolicySetID sim)) n m = Inr v"
    and "fst (compiledVersion u r v) = Inr d" "pv_Version v = n" "norm_key (sm_Action sim) \<noteq> ''''"
  shows "\<exists>mode. fst (authzPolicySimulationHandler now u fp_id fp_key (Some (memory_store_ops env m)) c (Some sim) (Some r) sink)
      = (case DecideWithTrace (Some (engine_of (Some (memory_store_ops env m)) (gc_Context c) d)) (toSimulationPolicyInput now c sim) of
             Inl _ \<Rightarrow> AdminError 500 ''failed to simulate policy decision''
           | Inr (decision, trace) \<Rightarrow>
               AdminOK \<lparr>sn_Decision = decision, sn_Trace = trace,
                 sn_Policy = \<lparr>sp_Source = ''persisted_target_version'', sp_PolicySetID = requested_policy_set (sm_PolicySetID sim),
                   sp_Version = n, sp_RolloutMode = mode, sp_TargetVersion = Some n\<rparr>\<rparr>)"
proof -
  obtain r' where compiled: "compiledVersion u r v = (Inr d, r')" using assms(4) by (metis prod.collapse)
  let ?mode = "case GetAuthzPolicyRollout (gc_Context c) (requested_policy_set (sm_PolicySetID sim)) m of
      Inl _ \<Rightarrow> AuthzPolicyRolloutModeDisabled | Inr rollout \<Rightarrow> trim_space (ro_Mode rollout)"
  have "so_GetVersion (memory_store_ops env m) (gc_Context c) (requested_policy_set (sm_PolicySetID sim)) n = Inr v"
    using assms(3) by (simp add: memory_store_ops_def)
  with compiled assms(1,5) have resolved: "resolveSimulationRuntime u (gc_Context c) (Some (memory_store_ops env m)) (Some r)
      (requested_policy_set (sm_PolicySetID sim)) (sm_TargetVersion sim)
      = (Inr (target_runtime (memory_store_ops env m) (gc_Context c) (requested_policy_set (sm_PolicySetID sim)) ?mode d n), r')"
    by (simp add: resolveSimulationRuntime_def) (simp add: memory_store_ops_def)
  have "trim_space (in_Action (toSimulationPolicyInput now c sim)) \<noteq> ''''"
    using assms(6) by (simp add: toSimulationPolicyInput_def Let_def)
  with resolved assms(1,2) show ?thesis
    by (intro exI [of _ ?mode])
      (simp add: authzPolicySimulationHandler_def Let_def target_runtime_def split: sum.split prod.split)
qed

text \<open>
  A simulation without a target version uses the server's shared resolver: the policy set the request
  names is not looked at.
\<close>

lemma simulation_without_target_ignores_set:
  assumes "sm_TargetVersion sim = None"
  shows "authzPolicySimulationHandler now u fp_id fp_key store c (Some (sim\<lparr>sm_PolicySetID := q\<rparr>)) (Some r) sink
    = authzPolicySimulationHandler now u fp_id fp_key store c (Some sim) (Some r) sink"
proof -
  have "toSimulationPolicyInput now c (sim\<lparr>sm_PolicySetID := q\<rparr>) = toSimulationPolicyInput now c sim"
    by (simp add: toSimulationPolicyInput_def)
  with assms show ?thesis
    by (simp add: authzPolicySimulationHandler_def resolveSimulationRuntime_def Let_def
        cong: sum.case_cong prod.case_cong if_cong)
qed

subsection \<open>A sample rollback\<close>

text \<open>Concrete values: the one version of the sample store, simulated and rolled back to.\<close>

definition admin_request :: GinContext where
  "admin_request = (key_request ''k1'' ''acme'')\<lparr>gc_Context := sample_ctx\<rparr>"

definition rollback_to_1 :: authzPolicyRollbackRequest where
  "rollback_to_1 = \<lparr>rq_PolicySetID = '' Core'', rq_TargetVersion = 1, rq_Actor = ''ops''\<rparr>"

definition before_rollback :: AdminState where
  "before_rollback = \<lparr>am_Store = Some store3, am_Rollbacks = Some 0\<rparr>"

definition simulate_1 :: authzPolicySimulationRequest where
  "simulate_1 =
    \<lparr>sm_Subject = \<lparr>si_Type = ''subject'', si_ID = ''alice'', si_TenantID = '''', si_WorkspaceID = '''', si_Groups = [],
       si_Roles = [''read''], si_Attributes = []\<rparr>,
     sm_Action = ''findings.read'',
     sm_Resource = \<lparr>sr_Type = ''finding'', sr_ID = ''f1'', sr_TenantID = '''', sr_WorkspaceID = '''', sr_Attributes = []\<rparr>,
     sm_Context = \<lparr>sx_RequestPath = '''', sx_RequestMethod = ''get'', sx_Attributes = []\<rparr>,
     sm_PolicySetID = ''core'', sm_TargetVersion = Some 1, sm_AuditEvent = False\<rparr>"

definition sample_rollback :: "authzPolicyRollbackResponse AdminReply \<times> AdminState" where
  "sample_rollback =
    authzPolicyRollbackHandler sample_env sample_unmarshal (\<lambda>s. s) (\<lambda>s. s) admin_request (Some rollback_to_1) before_rollback"

lemma sample_rollback_ok: "\<exists>resp. sample_rollback = (AdminOK resp, snd sample_rollback)"
proof -
  have "case fst sample_rollback of AdminOK _ \<Rightarrow> True | AdminError _ _ \<Rightarrow> False" by code_simp
  then show ?thesis by (cases "fst sample_rollback") (auto simp: prod_eq_iff)
qed

lemma store3_reachable: "store_step\<^sup>*\<^sup>* NewMemoryStore store3"
  by (rule rtranclp.rtrancl_into_rtrancl [OF store2_reachable store3_step])

lemma store3_honest: "keys_honest (stored_versions store3)"
proof -
  have "list_all (\<lambda>(k, v). pv_Bundle v = ''{}'') (st_authzVersions store3)" by code_simp
  then have "pv_Bundle v = ''{}''" if "v \<in> stored_versions store3" for v
    using that by (auto simp: stored_versions_def list_all_iff dest: map_of_SomeD)
  then show ?thesis by (simp add: keys_honest_def)
qed

subsection \<open>Properties\<close>

text \<open>
  When a rollback succeeds. On every store the server can reach, the handler answers 200 exactly
  when the version named is stored in the caller's scope and its bundle compiles: no later step of the
  handler fails. It then leaves versions, policy sets, relationships and attributes alone and the
  rollout pointing at that version only, with rollout mode disabled. Otherwise nothing is changed.
\<close>

theorem rollback_succeeds_iff:
  assumes "store_step\<^sup>*\<^sup>* NewMemoryStore m" "am_Store st = Some m"
  shows "case authzPolicyRollbackHandler env unmarshal fp_id fp_key c (Some request) st of
      (AdminOK resp, st') \<Rightarrow> target_usable unmarshal m (gc_Context c) request
        \<and> rs_ActiveVersion resp = rq_TargetVersion request
        \<and> (\<exists>m'. st' = \<lparr>am_Store = Some m', am_Rollbacks = map_option Suc (am_Rollbacks st)\<rparr>
             \<and> rolled_back (gc_Context c) (requested_policy_set (rq_PolicySetID request)) (rq_TargetVersion request) m m')
    | (AdminError code msg, st') \<Rightarrow> \<not> target_usable unmarshal m (gc_Context c) request \<and> st' = st"
proof (cases "target_usable unmarshal m (gc_Context c) request")
  case True
  show ?thesis
    by (rule rollback_accepted [OF reachable_wf [OF assms(1)] assms(2) True, of env fp_id fp_key]) (simp add: True)
next
  case False
  show ?thesis
    by (rule rollback_refused [OF assms(2) False, of env fp_id fp_key]) (simp add: False)
qed

theorem rollback_succeeds_iff_witness:
  "\<exists>m'. snd sample_rollback = \<lparr>am_Store = Some m', am_Rollbacks = Some 1\<rparr> \<and> rolled_back sample_ctx ''Core'' 1 store3 m'"
proof -
  have set: "requested_policy_set (rq_PolicySetID rollback_to_1) = ''Core''" by code_simp
  have start: "am_Store before_rollback = Some store3" by (simp add: before_rollback_def)
  obtain resp where "sample_rollback = (AdminOK resp, snd sample_rollback)" using sample_rollback_ok by blast
  with rollback_succeeds_iff [OF store3_reachable start, where env = sample_env and unmarshal = sample_unmarshal
      and fp_id = "\<lambda>s. s" and fp_key = "\<lambda>s. s" and c = admin_request and request = rollback_to_1] set
  show ?thesis
    by (cases sample_rollback)
      (auto simp: sample_rollback_def before_rollback_def admin_request_def rollback_to_1_def)
qed

text \<open>
  C24: a rollback takes effect at once. After it, whatever the compile cache held, every request of the
  tenant's scope is decided by the version rolled back to and nothing else: the resolver returns that
  version's engine, there is no candidate, and rollout targeting cannot select another engine. This
  holds for the policy set the resolver serves and bundles that differ whenever their cache keys do.
\<close>

theorem rollback_takes_effect:
  assumes "(runtime_step unmarshal)\<^sup>*\<^sup>* (NewMemoryStore, newCentralPolicyRuntimeResolverWithPolicySet store p) (m, r)"
    and "keys_honest (stored_versions m)" "am_Store st = Some m"
    and "authzPolicyRollbackHandler env unmarshal fp_id fp_key c (Some request) st = (AdminOK resp, st')"
    and "norm_key p = norm_key (requested_policy_set (rq_PolicySetID request))"
    and "RequireScope ctx = RequireScope (gc_Context c)"
  shows "\<exists>m' v d rt. am_Store st' = Some m' \<and> GetAuthzPolicyVersion ctx p (rq_TargetVersion request) m' = Inr v
    \<and> fst (compiledVersion unmarshal (attach env' m r) v) = Inr d \<and> fst (Resolve unmarshal ctx (attach env' m' r)) = Inr rt
    \<and> runs_only env' ctx m' d (rq_TargetVersion request) rt
    \<and> (\<forall>targeted. decision_engine rt targeted = (rr_Engine rt, ''persisted_active_version'', rq_TargetVersion request))"
proof -
  obtain m' v d rt where m': "am_Store st' = Some m'"
    "rolled_back (gc_Context c) (requested_policy_set (rq_PolicySetID request)) (rq_TargetVersion request) m m'"
    and v: "GetAuthzPolicyVersion ctx p (rq_TargetVersion request) m = Inr v"
      "fst (compiledVersion unmarshal (attach env' m r) v) = Inr d"
    and rt: "fst (Resolve unmarshal ctx (attach env' m' r)) = Inr rt" "runs_only env' ctx m' d (rq_TargetVersion request) rt"
    by (rule after_rollback [OF assms])
  then show ?thesis using rolled_back_reads(1) [OF m'(2)] by (auto simp: runs_only_decides)
qed

theorem rollback_takes_effect_witness:
  "\<exists>m' d rt. am_Store (snd sample_rollback) = Some m'
    \<and> fst (Resolve sample_unmarshal sample_ctx (attach sample_env m' served_resolver)) = Inr rt
    \<and> runs_only sample_env sample_ctx m' d 1 rt"
proof -
  have start: "am_Store before_rollback = Some store3" by (simp add: before_rollback_def)
  obtain resp where ran: "authzPolicyRollbackHandler sample_env sample_unmarshal (\<lambda>s. s) (\<lambda>s. s) admin_request (Some rollback_to_1)
      before_rollback = (AdminOK resp, snd sample_rollback)"
    using sample_rollback_ok unfolding sample_rollback_def by blast
  have set: "norm_key ''core'' = norm_key (requested_policy_set (rq_PolicySetID rollback_to_1))" by code_simp
  have scope: "RequireScope sample_ctx = RequireScope (gc_Context admin_request)" by (simp add: admin_request_def)
  from rollback_takes_effect [OF sample_runtime [unfolded sample_resolver_def] store3_honest start ran set scope, of sample_env]
  show ?thesis by (auto simp: rollback_to_1_def)
qed

text \<open>
  Simulation predicts a rollback. A simulation that names a stored version answers, before the
  rollback, with exactly the decision and trace that the same input gets from the policy in force
  after rolling back to that version, whichever way the rollout targets it.
\<close>

theorem simulation_predicts_rollback:
  assumes "(runtime_step unmarshal)\<^sup>*\<^sup>* (NewMemoryStore, newCentralPolicyRuntimeResolverWithPolicySet store p) (m, r)"
    and "keys_honest (stored_versions m)" "am_Store st = Some m"
    and "authzPolicyRollbackHandler env unmarshal fp_id fp_key c (Some request) st = (AdminOK resp, st')"
    and "norm_key p = norm_key (requested_policy_set (rq_PolicySetID request))"
    and "RequireScope (gc_Context c') = RequireScope (gc_Context c)"
    and "sm_TargetVersion sim = Some (rq_TargetVersion request)"
    and "norm_key (requested_policy_set (sm_PolicySetID sim)) = norm_key p" "norm_key (sm_Action sim) \<noteq> ''''"
  shows "\<exists>m' rt mode. am_Store st' = Some m' \<and> fst (Resolve unmarshal (gc_Context c') (attach env' m' r)) = Inr rt
    \<and> (\<forall>targeted. fst (authzPolicySimulationHandler now unmarshal fp_id fp_key (Some (memory_store_ops env' m)) c' (Some sim)
            (Some (attach env' m r)) sink)
        = (case DecideWithTrace (fst (decision_engine rt targeted)) (toSimulationPolicyInput now c' sim) of
             Inl _ \<Rightarrow> AdminError 500 ''failed to simulate policy decision''
           | Inr (decision, trace) \<Rightarrow>
               AdminOK \<lparr>sn_Decision = decision, sn_Trace = trace,
                 sn_Policy = \<lparr>sp_Source = ''persisted_target_version'', sp_PolicySetID = requested_policy_set (sm_PolicySetID sim),
                   sp_Version = rq_TargetVersion request, sp_RolloutMode = mode,
                   sp_TargetVersion = Some (rq_TargetVersion request)\<rparr>\<rparr>))"
proof -
  obtain m' v d rt where m': "am_Store st' = Some m'"
    "rolled_back (gc_Context c) (requested_policy_set (rq_PolicySetID request)) (rq_TargetVersion request) m m'"
    and v: "GetAuthzPolicyVersion (gc_Context c') p (rq_TargetVersion request) m = Inr v"
      "fst (compiledVersion unmarshal (attach env' m r) v) = Inr d" "pv_Version v = rq_TargetVersion request"
    and rt: "fst (Resolve unmarshal (gc_Context c') (attach env' m' r)) = Inr rt"
      "runs_only env' (gc_Context c') m' d (rq_TargetVersion request) rt"
    by (rule after_rollback [OF assms(1-6)])
  have "engine_of (Some (memory_store_ops env' m')) (gc_Context c') d = engine_of (Some (memory_store_ops env' m)) (gc_Context c') d"
    by (simp add: engine_of_def memory_store_ops_def rolled_back_reads(2) [OF m'(2)])
  with rt(2) have engine: "fst (decision_engine rt t) = Some (engine_of (Some (memory_store_ops env' m)) (gc_Context c') d)" for t
    by (simp add: runs_only_decides) (simp add: runs_only_def)
  have positive: "0 < rq_TargetVersion request" using v(1) by (auto simp: GetAuthzPolicyVersion_Inr)
  have "GetAuthzPolicyVersion (gc_Context c') (requested_policy_set (sm_PolicySetID sim)) (rq_TargetVersion request) m = Inr v"
    using v(1) get_by_scope_and_set(1) [OF refl assms(8)] by simp
  from simulate_version [OF assms(7) positive this v(2,3) assms(9)] obtain mode where
    "fst (authzPolicySimulationHandler now unmarshal fp_id fp_key (Some (memory_store_ops env' m)) c' (Some sim)
        (Some (attach env' m r)) sink)
      = (case DecideWithTrace (Some (engine_of (Some (memory_store_ops env' m)) (gc_Context c') d)) (toSimulationPolicyInput now c' sim) of
             Inl _ \<Rightarrow> AdminError 500 ''failed to simulate policy decision''
           | Inr (decision, trace) \<Rightarrow>
               AdminOK \<lparr>sn_Decision = decision, sn_Trace = trace,
                 sn_Policy = \<lparr>sp_Source = ''persisted_target_version'', sp_PolicySetID = requested_policy_set (sm_PolicySetID sim),
                   sp_Version = rq_TargetVersion request, sp_RolloutMode = mode,
                   sp_TargetVersion = Some (rq_TargetVersion request)\<rparr>\<rparr>)" by blast
  with m'(1) rt(1) show ?thesis
    by (intro exI [of _ m'] exI [of _ rt] exI [of _ mode]) (simp add: engine)
qed

theorem simulation_predicts_rollback_witness:
  "\<exists>m' rt mode. am_Store (snd sample_rollback) = Some m'
    \<and> fst (Resolve sample_unmarshal sample_ctx (attach sample_env m' served_resolver)) = Inr rt
    \<and> fst (authzPolicySimulationHandler sample_env sample_unmarshal (\<lambda>s. s) (\<lambda>s. s) (Some (memory_store_ops sample_env store3))
        admin_request (Some simulate_1) (Some (attach sample_env store3 served_resolver)) None)
      = (case DecideWithTrace (rr_Engine rt) (toSimulationPolicyInput sample_env admin_request simulate_1) of
           Inl _ \<Rightarrow> AdminError 500 ''failed to simulate policy decision''
         | Inr (decision, trace) \<Rightarrow>
             AdminOK \<lparr>sn_Decision = decision, sn_Trace = trace,
               sn_Policy = \<lparr>sp_Source = ''persisted_target_version'', sp_PolicySetID = ''core'', sp_Version = 1,
                 sp_RolloutMode = mode, sp_TargetVersion = Some 1\<rparr>\<rparr>)"
proof -
  have start: "am_Store before_rollback = Some store3" by (simp add: before_rollback_def)
  obtain resp where ran: "authzPolicyRollbackHandler sample_env sample_unmarshal (\<lambda>s. s) (\<lambda>s. s) admin_request (Some rollback_to_1)
      before_rollback = (AdminOK resp, snd sample_rollback)"
    using sample_rollback_ok unfolding sample_rollback_def by blast
  have set: "norm_key ''core'' = norm_key (requested_policy_set (rq_PolicySetID rollback_to_1))"
    "norm_key (requested_policy_set (sm_PolicySetID simulate_1)) = norm_key ''core''"
    "requested_policy_set (sm_PolicySetID simulate_1) = ''core''" by code_simp+
  have sim: "sm_TargetVersion simulate_1 = Some (rq_TargetVersion rollback_to_1)" "norm_key (sm_Action simulate_1) \<noteq> ''''"
    by (simp add: simulate_1_def rollback_to_1_def, code_simp)
  from simulation_predicts_rollback [OF sample_runtime [unfolded sample_resolver_def] store3_honest start ran set(1) refl
      sim(1) set(2) sim(2), where env' = sample_env and now = sample_env and sink = None, unfolded set(3)]
  obtain m' rt mode where m': "am_Store (snd sample_rollback) = Some m'"
    and rt: "fst (Resolve sample_unmarshal (gc_Context admin_request) (attach sample_env m' served_resolver)) = Inr rt"
    and sim: "\<forall>targeted. fst (authzPolicySimulationHandler sample_env sample_unmarshal (\<lambda>s. s) (\<lambda>s. s)
        (Some (memory_store_ops sample_env store3)) admin_request (Some simulate_1) (Some (attach sample_env store3 served_resolver)) None)
      = (case DecideWithTrace (fst (decision_engine rt targeted)) (toSimulationPolicyInput sample_env admin_request simulate_1) of
           Inl _ \<Rightarrow> AdminError 500 ''failed to simulate policy decision''
         | Inr (decision, trace) \<Rightarrow>
             AdminOK \<lparr>sn_Decision = decision, sn_Trace = trace,
               sn_Policy = \<lparr>sp_Source = ''persisted_target_version'', sp_PolicySetID = ''core'',
                 sp_Version = rq_TargetVersion rollback_to_1, sp_RolloutMode = mode,
                 sp_TargetVersion = Some (rq_TargetVersion rollback_to_1)\<rparr>\<rparr>)"
    by (elim exE conjE) (rule that)
  have engine: "fst (decision_engine rt False) = rr_Engine rt" by (simp add: decision_engine_def enforceCandidate_def)
  have ctx: "gc_Context admin_request = sample_ctx" and one: "rq_TargetVersion rollback_to_1 = 1"
    by (simp_all add: admin_request_def rollback_to_1_def)
  show ?thesis
    using m' rt [unfolded ctx] sim [THEN spec, of False, unfolded engine one] by (intro exI conjI)
qed

end
