(* ===== verification/Cron.thy ===== *)
theory Cron
  imports Go_Base
begin

section \<open>Cron schedules (internal/scheduler/cron.go)\<close>

text \<open>
  The five-field cron matcher of the scan-policy scheduler: parsing, matching one minute, and the
  search for the latest tick. A set of field values (\<^verbatim>\<open>map[int]bool\<close>) is a duplicate-free list. The
  loop that fills it adds the step in 64-bit arithmetic, where a huge step wraps around, so it is a
  partial function; that it returns for every text is proved (\<open>cron_parse_returns\<close>). \<^verbatim>\<open>time.Time\<close> is
  the number of nanoseconds since 1 January of year 1, UTC; the calendar below is the proleptic
  Gregorian one of Go's \<^verbatim>\<open>time\<close> package.
\<close>

subsection \<open>The standard library functions\<close>

definition is_digit :: "char \<Rightarrow> bool" where
  "is_digit c = (c \<in> set ''0123456789'')"

text \<open>\<^verbatim>\<open>strconv.Atoi\<close>: an optional sign and decimal digits of a 64-bit value; \<open>None\<close> is its error.\<close>

definition atoi :: "string \<Rightarrow> int option" where
  "atoi s =
    (let (negative, digits) =
           (case s of
              [] \<Rightarrow> (False, [])
            | c # rest \<Rightarrow> (if c = CHR ''-'' then (True, rest) else if c = CHR ''+'' then (False, rest) else (False, s)))
     in if digits = [] \<or> \<not> list_all is_digit digits then None
        else let v = (if negative then - int (decimal_value digits) else int (decimal_value digits))
          in if - (2 ^ 63) \<le> v \<and> v < 2 ^ 63 then Some v else None)"

text \<open>\<^verbatim>\<open>strings.Split\<close> with a one-byte separator, and \<^verbatim>\<open>strings.Fields\<close>.\<close>

fun split_string :: "char \<Rightarrow> string \<Rightarrow> string list" where
  "split_string sep [] = [[]]"
| "split_string sep (c # s) =
    (if c = sep then [] # split_string sep s
     else case split_string sep s of
            [] \<Rightarrow> [[c]]
          | piece # pieces \<Rightarrow> (c # piece) # pieces)"

fun fields_from :: "string \<Rightarrow> string \<Rightarrow> string list" where
  "fields_from word [] = (if word = [] then [] else [word])"
| "fields_from word (c # s) =
    (if is_space c then (if word = [] then fields_from [] s else word # fields_from [] s)
     else fields_from (word @ [c]) s)"

definition string_fields :: "string \<Rightarrow> string list" where
  "string_fields s = fields_from [] s"

subsection \<open>Parsing\<close>

record CronSchedule =
  cr_minutes :: "int list"
  cr_hours :: "int list"
  cr_monthDays :: "int list"
  cr_monthDaysAny :: bool
  cr_months :: "int list"
  cr_weekDays :: "int list"
  cr_weekDaysAny :: bool

text \<open>The first value, the last and the step of one part of a field.\<close>

definition parse_base :: "string \<Rightarrow> string \<Rightarrow> int \<Rightarrow> int \<Rightarrow> int \<Rightarrow> (int \<times> int \<times> int) result" where
  "parse_base part base minimum maximum step =
    (if base = ''*'' then Inr (minimum, maximum, step)
     else if CHR ''-'' \<in> set base then
       (case split_string (CHR ''-'') base of
          [a, b] \<Rightarrow>
            (if a = '''' \<or> b = '''' then Inl (ErrorText (''invalid range '' @ quote_string part))
             else case atoi a of
               None \<Rightarrow> Inl (ErrorText (''invalid range start '' @ quote_string part))
             | Some start \<Rightarrow>
                (case atoi b of
                   None \<Rightarrow> Inl (ErrorText (''invalid range end '' @ quote_string part))
                 | Some last_v \<Rightarrow>
                    (if start < minimum \<or> maximum < last_v \<or> last_v < start then
                       Inl (ErrorText (''range '' @ quote_string part @ '' outside '' @ int_string minimum @ ''-'' @ int_string maximum))
                     else Inr (start, last_v, step))))
        | _ \<Rightarrow> Inl (ErrorText (''invalid range '' @ quote_string part)))
     else case atoi base of
       None \<Rightarrow> Inl (ErrorText (''invalid value '' @ quote_string part))
     | Some v \<Rightarrow>
        (if v < minimum \<or> maximum < v then
           Inl (ErrorText (''value '' @ quote_string part @ '' outside '' @ int_string minimum @ ''-'' @ int_string maximum))
         else Inr (v, v, step)))"

definition parseCronPart :: "string \<Rightarrow> int \<Rightarrow> int \<Rightarrow> (int \<times> int \<times> int) result" where
  "parseCronPart part minimum maximum =
    (if CHR ''/'' \<in> set part then
       (case split_string (CHR ''/'') part of
          [a, b] \<Rightarrow>
            (if a = '''' \<or> b = '''' then Inl (ErrorText (''invalid step '' @ quote_string part))
             else case atoi b of
               None \<Rightarrow> Inl (ErrorText (''invalid step '' @ quote_string part))
             | Some step \<Rightarrow>
                (if step \<le> 0 then Inl (ErrorText (''invalid step '' @ quote_string part))
                 else parse_base part a minimum maximum step))
        | _ \<Rightarrow> Inl (ErrorText (''invalid step '' @ quote_string part)))
     else parse_base part part minimum maximum 1)"

text \<open>\<^verbatim>\<open>for value := start; value <= end; value += step { values[value] = true }\<close>.\<close>

partial_function (option) cron_values :: "int \<Rightarrow> int \<Rightarrow> int \<Rightarrow> int list \<Rightarrow> int list option" where
  "cron_values last_v step v vals =
    (if v \<le> last_v then cron_values last_v step (wrap64 (v + step)) (add_unique v vals) else Some vals)"

text \<open>The loop over the parts; \<open>None\<close> would be a loop that never returns.\<close>

fun parse_parts :: "int \<Rightarrow> int \<Rightarrow> string list \<Rightarrow> int list \<Rightarrow> int list result option" where
  "parse_parts minimum maximum [] vals =
    (if vals = [] then Some (Inl (ErrorText ''no cron vals'')) else Some (Inr vals))"
| "parse_parts minimum maximum (raw # parts) vals =
    (let part = trim_space raw
     in if part = '''' then Some (Inl (ErrorText ''empty cron field part''))
        else case parseCronPart part minimum maximum of
          Inl err \<Rightarrow> Some (Inl err)
        | Inr (start, last_v, step) \<Rightarrow>
           (case cron_values last_v step start vals of
              None \<Rightarrow> None
            | Some vals \<Rightarrow> parse_parts minimum maximum parts vals))"

definition parseCronField :: "string \<Rightarrow> int \<Rightarrow> int \<Rightarrow> int list result option" where
  "parseCronField raw minimum maximum = parse_parts minimum maximum (split_string (CHR '','') raw) []"

definition field_named :: "string \<Rightarrow> string \<Rightarrow> int \<Rightarrow> int \<Rightarrow> int list result option" where
  "field_named what raw minimum maximum =
    map_option (wrap_err (what @ '' field'')) (parseCronField raw minimum maximum)"

text \<open>Sequencing of computations that may not return and may fail.\<close>

fun then_parse :: "'a result option \<Rightarrow> ('a \<Rightarrow> 'b result option) \<Rightarrow> 'b result option" where
  "then_parse None f = None"
| "then_parse (Some (Inl err)) f = Some (Inl err)"
| "then_parse (Some (Inr x)) f = f x"

definition ParseCronSchedule :: "string \<Rightarrow> CronSchedule result option" where
  "ParseCronSchedule expr =
    (case string_fields (trim_space expr) of
       [f1, f2, f3, f4, f5] \<Rightarrow>
         then_parse (field_named ''minute'' f1 0 59) (\<lambda>minutes.
         then_parse (field_named ''hour'' f2 0 23) (\<lambda>hours.
         then_parse (field_named ''day-of-month'' f3 1 31) (\<lambda>monthDays.
         then_parse (field_named ''month'' f4 1 12) (\<lambda>months.
         then_parse (field_named ''day-of-week'' f5 0 7) (\<lambda>weekDays.
           Some (Inr \<lparr>cr_minutes = minutes, cr_hours = hours, cr_monthDays = monthDays,
             cr_monthDaysAny = (trim_space f3 = ''*''), cr_months = months,
             cr_weekDays = (if 7 \<in> set weekDays then filter (\<lambda>d. d \<noteq> 7) (add_unique 0 weekDays) else weekDays),
             cr_weekDaysAny = (trim_space f5 = ''*'')\<rparr>))))))
     | _ \<Rightarrow> Some (Inl (ErrorText ''cron expression must contain 5 fields'')))"

subsection \<open>The calendar\<close>

abbreviation nanos_per_minute :: int where "nanos_per_minute \<equiv> 60000000000"

definition days_of :: "time \<Rightarrow> int" where
  "days_of t = t div (1440 * nanos_per_minute)"

definition minute_of_day :: "time \<Rightarrow> int" where
  "minute_of_day t = t div nanos_per_minute mod 1440"

definition Minute :: "time \<Rightarrow> int" where
  "Minute t = minute_of_day t mod 60"

definition Hour :: "time \<Rightarrow> int" where
  "Hour t = minute_of_day t div 60"

text \<open>1 January of year 1 is a Monday; Sunday is 0.\<close>

definition Weekday :: "time \<Rightarrow> int" where
  "Weekday t = (days_of t + 1) mod 7"

definition month_lengths :: "bool \<Rightarrow> int list" where
  "month_lengths leap = [31, if leap then 29 else 28, 31, 30, 31, 30, 31, 31, 30, 31, 30, 31]"

text \<open>The month (from \<open>m\<close>) and the day of the month of a day of the year.\<close>

fun month_day :: "int \<Rightarrow> int list \<Rightarrow> int \<Rightarrow> int \<times> int" where
  "month_day m [] d = (m, d + 1)"
| "month_day m (n # ns) d = (if d < n then (m, d + 1) else month_day (m + 1) ns (d - n))"

definition civil_date :: "int \<Rightarrow> int \<times> int \<times> int" where
  "civil_date days =
    (let n400 = days div 146097; d = days mod 146097;
         n100 = min 3 (d div 36524); d = d - n100 * 36524;
         n4 = d div 1461; d = d mod 1461;
         n1 = min 3 (d div 365); d = d - n1 * 365;
         leap = (n1 = 3 \<and> (n4 \<noteq> 24 \<or> n100 = 3));
         (month, day) = month_day 1 (month_lengths leap) d
     in (400 * n400 + 100 * n100 + 4 * n4 + n1 + 1, month, day))"

definition Month :: "time \<Rightarrow> int" where
  "Month t = fst (snd (civil_date (days_of t)))"

definition Day :: "time \<Rightarrow> int" where
  "Day t = snd (snd (civil_date (days_of t)))"

subsection \<open>Matching and the latest tick\<close>

definition cronSearchLimit :: nat where
  "cronSearchLimit = 366 * 24 * 60"

definition cron_matches :: "CronSchedule \<Rightarrow> time \<Rightarrow> bool" where
  "cron_matches s t =
    (let monthDayMatches = Day t \<in> set (cr_monthDays s); weekDayMatches = Weekday t \<in> set (cr_weekDays s);
         dayMatches =
           (if cr_monthDaysAny s \<and> cr_weekDaysAny s then True
            else if cr_monthDaysAny s then weekDayMatches
            else if cr_weekDaysAny s then monthDayMatches
            else monthDayMatches \<or> weekDayMatches)
     in Minute t \<in> set (cr_minutes s) \<and> Hour t \<in> set (cr_hours s) \<and> Month t \<in> set (cr_months s) \<and> dayMatches)"

text \<open>The search loop; the first argument counts the iterations left.\<close>

fun latest_from :: "nat \<Rightarrow> CronSchedule \<Rightarrow> time \<Rightarrow> time \<Rightarrow> time option" where
  "latest_from 0 s boundary cursor = None"
| "latest_from (Suc n) s boundary cursor =
    (if boundary < cursor then
       if cron_matches s cursor then Some cursor else latest_from n s boundary (cursor - nanos_per_minute)
     else None)"

definition LatestAfter :: "CronSchedule \<Rightarrow> time \<Rightarrow> time \<Rightarrow> time option" where
  "LatestAfter s after now = latest_from cronSearchLimit s after (now - now mod nanos_per_minute)"

subsection \<open>Laws of the text functions\<close>

lemma split_no_sep: "sep \<notin> set p \<Longrightarrow> split_string sep p = [p]"
  by (induction p) auto

lemma split_append: "sep \<notin> set p \<Longrightarrow> split_string sep (p @ sep # s) = p # split_string sep s"
  by (induction p) auto

lemma split_join: "ps \<noteq> [] \<Longrightarrow> \<forall>p\<in>set ps. sep \<notin> set p \<Longrightarrow> split_string sep (join_strings [sep] ps) = ps"
  by (induction "[sep]" ps rule: join_strings.induct) (auto simp: split_no_sep split_append)

lemma fields_word: "\<forall>c\<in>set p. \<not> is_space c \<Longrightarrow> fields_from w (p @ s) = fields_from (w @ p) s"
  by (induction p arbitrary: w) auto

lemma fields_join:
  "\<forall>p\<in>set ps. p \<noteq> [] \<and> (\<forall>c\<in>set p. \<not> is_space c) \<Longrightarrow> string_fields (join_strings '' '' ps) = ps"
proof (induction "'' ''" ps rule: join_strings.induct)
  case (2 s)
  then show ?case using fields_word [of s "[]" "[]"] by (simp add: string_fields_def)
next
  case (3 s t ts)
  moreover have "is_space CHR '' ''" by code_simp
  ultimately show ?case using fields_word [of s "[]" "CHR '' '' # join_strings '' '' (t # ts)"] by (simp add: string_fields_def)
qed (simp add: string_fields_def)

lemma trim_no_space: "\<forall>c\<in>set s. \<not> is_space c \<Longrightarrow> trim_space s = s"
proof -
  assume free: "\<forall>c\<in>set s. \<not> is_space c"
  have fix_point: "\<forall>c\<in>set xs. \<not> is_space c \<Longrightarrow> dropWhile is_space xs = xs" for xs by (cases xs) auto
  from fix_point [OF free] fix_point [of "rev s"] free show ?thesis by (simp add: trim_space_def)
qed

lemma digit_facts: "d < 10 \<Longrightarrow> is_digit (digit_char d)"
  "is_digit c \<Longrightarrow> \<not> is_space c \<and> c \<notin> {CHR ''-'', CHR ''+'', CHR ''/'', CHR '','', CHR ''*''}"
proof -
  have "list_all (\<lambda>d. is_digit (digit_char d)) [0..<10]" by code_simp
  then show "d < 10 \<Longrightarrow> is_digit (digit_char d)" by (simp add: list_all_iff)
  have "list_all (\<lambda>c. \<not> is_space c \<and> c \<notin> set ''-+/,*'') ''0123456789''" by code_simp
  then show "is_digit c \<Longrightarrow> \<not> is_space c \<and> c \<notin> {CHR ''-'', CHR ''+'', CHR ''/'', CHR '','', CHR ''*''}"
    unfolding list_all_iff is_digit_def by auto
qed

lemma nat_string_digits: "nat_string n \<noteq> [] \<and> list_all is_digit (nat_string n)"
proof (induction n rule: less_induct)
  case (less n)
  show ?case
  proof (cases "n < 10")
    case False
    then have "n div 10 < n" by simp
    from less [OF this] show ?thesis by (subst nat_string.simps, subst (2) nat_string.simps) (simp add: digit_facts(1))
  qed (subst nat_string.simps, subst (2) nat_string.simps, simp add: digit_facts(1))
qed

lemma atoi_int_string: "0 \<le> i \<Longrightarrow> i < 2 ^ 63 \<Longrightarrow> atoi (int_string i) = Some i"
proof -
  assume i: "0 \<le> i" "i < 2 ^ 63"
  obtain c cs where s: "nat_string (nat i) = c # cs" using nat_string_digits [of "nat i"] by (cases "nat_string (nat i)") auto
  then have "c \<noteq> CHR ''-''" "c \<noteq> CHR ''+''" using nat_string_digits [of "nat i"] digit_facts(2) [of c] by auto
  then show ?thesis
    using i s nat_string_digits [of "nat i"] decimal_value_nat_string [of "nat i"] by (simp add: atoi_def int_string_def)
qed

subsection \<open>The loop of a field\<close>

lemma wrap64_id: "- (2 ^ 63) \<le> i \<Longrightarrow> i < 2 ^ 63 \<Longrightarrow> wrap64 i = i"
  by (simp add: wrap64_def)

lemma wrap64_over: "2 ^ 63 \<le> i \<Longrightarrow> i < 2 ^ 64 + 2 ^ 63 \<Longrightarrow> wrap64 i = i - 2 ^ 64"
proof -
  assume "2 ^ 63 \<le> i" "i < 2 ^ 64 + 2 ^ 63"
  then have "(i - 2 ^ 63) mod 2 ^ 64 = i - 2 ^ 63" by simp
  moreover have "i + 2 ^ 63 = (i - 2 ^ 63) + 2 ^ 64" by simp
  then have "(i + 2 ^ 63) mod 2 ^ 64 = (i - 2 ^ 63) mod 2 ^ 64" by (simp only: mod_add_self2)
  ultimately show ?thesis by (simp add: wrap64_def)
qed

declare cron_values.simps [simp del]

text \<open>Without overflow the loop collects the arithmetic progression.\<close>

lemma cron_values_progression:
  assumes "0 < step" "last_v + step < 2 ^ 63" "0 \<le> v"
  shows "\<exists>r. cron_values last_v step v vals = Some r
    \<and> set r = set vals \<union> {x. v \<le> x \<and> x \<le> last_v \<and> step dvd x - v} \<and> (distinct vals \<longrightarrow> distinct r)"
  using assms(3)
proof (induction "nat (last_v + 1 - v)" arbitrary: v vals rule: less_induct)
  case less
  show ?case
  proof (cases "v \<le> last_v")
    case True
    have here: "{x. v \<le> x \<and> x \<le> last_v \<and> step dvd x - v} = insert v {x. v + step \<le> x \<and> x \<le> last_v \<and> step dvd x - (v + step)}"
    proof (intro set_eqI iffI)
      fix x assume x: "x \<in> {x. v \<le> x \<and> x \<le> last_v \<and> step dvd x - v}"
      then obtain k where k: "x - v = step * k" by (auto elim: dvdE)
      show "x \<in> insert v {x. v + step \<le> x \<and> x \<le> last_v \<and> step dvd x - (v + step)}"
      proof (cases "k = 0")
        case False
        from k x have "0 \<le> step * k" by simp
        with False assms(1) have "1 \<le> k" by (auto simp: zero_le_mult_iff)
        then have "step * 1 \<le> step * k" using assms(1) by (intro mult_left_mono) auto
        then have "v + step \<le> x" using k by linarith
        moreover have "step dvd x - (v + step)" using k by (intro dvdI [of _ _ "k - 1"]) (simp add: algebra_simps)
        moreover have "x \<le> last_v" using x by blast
        ultimately show ?thesis by blast
      qed (use k in simp)
    next
      fix x assume "x \<in> insert v {x. v + step \<le> x \<and> x \<le> last_v \<and> step dvd x - (v + step)}"
      then consider "x = v" | "v + step \<le> x" "x \<le> last_v" "step dvd x - (v + step)" by blast
      then show "x \<in> {x. v \<le> x \<and> x \<le> last_v \<and> step dvd x - v}"
      proof cases
        case 2
        from dvd_add [OF 2(3) dvd_refl] have "step dvd x - v" by (simp only: diff_add_eq diff_diff_eq2 add_diff_cancel_right') simp
        moreover have "v \<le> x" using 2(1) assms(1) by linarith
        ultimately show ?thesis using 2(2) by blast
      qed (use True in simp)
    qed
    have "wrap64 (v + step) = v + step" using assms less.prems True by (intro wrap64_id) auto
    moreover from less.hyps [of "v + step" "add_unique v vals"] True assms(1) less.prems
    obtain r where "cron_values last_v step (v + step) (add_unique v vals) = Some r"
      "set r = set (add_unique v vals) \<union> {x. v + step \<le> x \<and> x \<le> last_v \<and> step dvd x - (v + step)}"
      "distinct (add_unique v vals) \<longrightarrow> distinct r" by auto
    ultimately show ?thesis using True distinct_add_unique [of "vals" v]
      by (subst cron_values.simps) (auto simp: here)
  next
    case False
    then show ?thesis by (subst cron_values.simps) auto
  qed
qed

text \<open>With overflow the loop still returns: two wrapped steps of size \<open>2^63 - k\<close> go down by \<open>2k\<close>.\<close>

lemma cron_values_overflow_returns:
  assumes "2 ^ 63 \<le> last_v + step" "step < 2 ^ 63" "last_v \<le> 1000" "- 1000 \<le> v"
  shows "\<exists>r. cron_values last_v step v vals = Some r"
  using assms(4)
proof (induction "nat (v + 1000)" arbitrary: v vals rule: less_induct)
  case less
  let ?k = "2 ^ 63 - step"
  have k: "1 \<le> ?k" "?k \<le> 1000" using assms by auto
  show ?case
  proof (cases "v \<le> last_v")
    case False
    then show ?thesis by (subst cron_values.simps) simp
  next
    case v: True
    show ?thesis
    proof (cases "v < ?k")
      case True
      have "wrap64 (v + step) = v + step" using True assms less.prems by (intro wrap64_id) auto
      moreover have "\<not> v + step \<le> last_v" using less.prems k assms by auto
      ultimately show ?thesis using v by (subst cron_values.simps, subst cron_values.simps) simp
    next
      case False
      have one: "wrap64 (v + step) = v - ?k - 2 ^ 63" using False v assms by (subst wrap64_over) auto
      have two: "wrap64 (v - ?k - 2 ^ 63 + step) = v - 2 * ?k" using False v assms k by (subst wrap64_id) auto
      have low: "v - ?k - 2 ^ 63 \<le> last_v" using v assms by auto
      have "- 1000 \<le> v - 2 * ?k" "nat (v - 2 * ?k + 1000) < nat (v + 1000)" using False k by auto
      from less.hyps [OF this(2,1)] show ?thesis
        using v low one two by (subst cron_values.simps, subst cron_values.simps) simp
    qed
  qed
qed

lemma cron_values_returns:
  assumes "0 < step" "step < 2 ^ 63" "0 \<le> v" "last_v \<le> 1000"
  shows "\<exists>r. cron_values last_v step v vals = Some r"
proof (cases "last_v + step < 2 ^ 63")
  case True
  from cron_values_progression [OF assms(1) True assms(3)] show ?thesis by blast
next
  case False
  with assms show ?thesis by (intro cron_values_overflow_returns) auto
qed

subsection \<open>Parsing always returns\<close>

lemma atoi_range: "atoi s = Some v \<Longrightarrow> - (2 ^ 63) \<le> v \<and> v < 2 ^ 63"
  by (auto simp: atoi_def Let_def split: if_splits prod.splits)

lemma parse_base_range:
  "parse_base part base lo hi step = Inr (a, b, n) \<Longrightarrow> n = step \<and> lo \<le> a \<and> b \<le> hi"
  by (auto simp: parse_base_def split: if_splits option.splits list.splits)

lemma parseCronPart_range:
  "parseCronPart part lo hi = Inr (a, b, n) \<Longrightarrow> lo \<le> a \<and> b \<le> hi \<and> 0 < n \<and> n < 2 ^ 63"
  by (auto simp: parseCronPart_def dest!: parse_base_range atoi_range split: if_splits option.splits list.splits)

lemma parse_parts_returns: "0 \<le> lo \<Longrightarrow> hi \<le> 1000 \<Longrightarrow> \<exists>r. parse_parts lo hi parts vals = Some r"
proof (induction lo hi parts vals rule: parse_parts.induct)
  case (2 lo hi raw parts vals)
  show ?case
  proof (cases "parseCronPart (trim_space raw) lo hi")
    case (Inr p)
    obtain a b n where p: "p = (a, b, n)" by (cases p) auto
    with Inr parseCronPart_range [of "trim_space raw" lo hi a b n] 2(2,3)
    obtain r where r: "cron_values b n a vals = Some r"
      using cron_values_returns [of n a b vals] by auto
    show ?thesis
    proof (cases "trim_space raw = ''''")
      case False
      from 2(1) [OF refl False Inr [unfolded p] refl refl r 2(2,3)] False Inr p r show ?thesis by simp
    qed simp
  qed (simp add: Let_def)
qed simp

lemma parseCronField_returns: "0 \<le> lo \<Longrightarrow> hi \<le> 1000 \<Longrightarrow> \<exists>r. field_named what raw lo hi = Some r"
  using parse_parts_returns [of lo hi "split_string (CHR '','') raw" "[]"]
  by (auto simp: field_named_def parseCronField_def)

lemma then_parse_returns: "m \<noteq> None \<Longrightarrow> (\<And>x. m = Some (Inr x) \<Longrightarrow> f x \<noteq> None) \<Longrightarrow> then_parse m f \<noteq> None"
  by (cases "(m, f)" rule: then_parse.cases) auto

subsection \<open>Printing\<close>

text \<open>The cron notation as data: what a field means, and how it is written.\<close>

datatype cron_base = Star | One int | Range int int

type_synonym cron_part = "cron_base \<times> int option"

fun base_bounds :: "int \<Rightarrow> int \<Rightarrow> cron_base \<Rightarrow> int \<times> int" where
  "base_bounds lo hi Star = (lo, hi)"
| "base_bounds lo hi (One v) = (v, v)"
| "base_bounds lo hi (Range a b) = (a, b)"

definition part_step :: "cron_part \<Rightarrow> int" where
  "part_step p = (case snd p of None \<Rightarrow> 1 | Some n \<Rightarrow> n)"

definition part_values :: "int \<Rightarrow> int \<Rightarrow> cron_part \<Rightarrow> int set" where
  "part_values lo hi p =
    (let (a, b) = base_bounds lo hi (fst p) in {x. a \<le> x \<and> x \<le> b \<and> part_step p dvd x - a})"

definition valid_part :: "int \<Rightarrow> int \<Rightarrow> cron_part \<Rightarrow> bool" where
  "valid_part lo hi p =
    (let (a, b) = base_bounds lo hi (fst p)
     in lo \<le> a \<and> a \<le> b \<and> b \<le> hi \<and> 0 < part_step p \<and> part_step p < 2 ^ 63 - hi)"

fun print_base :: "cron_base \<Rightarrow> string" where
  "print_base Star = ''*''"
| "print_base (One v) = int_string v"
| "print_base (Range a b) = int_string a @ ''-'' @ int_string b"

definition print_part :: "cron_part \<Rightarrow> string" where
  "print_part p = print_base (fst p) @ (case snd p of None \<Rightarrow> '''' | Some n \<Rightarrow> ''/'' @ int_string n)"

definition print_field :: "cron_part list \<Rightarrow> string" where
  "print_field ps = join_strings '','' (map print_part ps)"

lemma int_string_chars: "0 \<le> i \<Longrightarrow> int_string i \<noteq> [] \<and> (\<forall>c\<in>set (int_string i). is_digit c)"
  using nat_string_digits [of "nat i"] by (auto simp: int_string_def list_all_iff)

lemma digits_free: "0 \<le> i \<Longrightarrow> c \<in> set (int_string i) \<Longrightarrow> \<not> is_space c \<and> c \<noteq> CHR ''-'' \<and> c \<noteq> CHR ''/'' \<and> c \<noteq> CHR '','' \<and> c \<noteq> CHR ''*''"
  using int_string_chars [of i] digit_facts(2) [of c] by auto

lemma print_base_chars:
  assumes "valid_part lo hi (b, n)" "0 \<le> lo" "c \<in> set (print_base b)"
  shows "\<not> is_space c \<and> c \<noteq> CHR ''/'' \<and> c \<noteq> CHR '',''"
proof -
  have special: "\<not> is_space (CHR ''*'')" "\<not> is_space (CHR ''-'')" by code_simp+
  show ?thesis
    using assms special by (cases b) (auto simp: valid_part_def dest: digits_free [rotated])
qed

lemma print_base_nonempty: "valid_part lo hi (b, n) \<Longrightarrow> 0 \<le> lo \<Longrightarrow> print_base b \<noteq> []"
  using int_string_chars by (cases b) (auto simp: valid_part_def)

lemma parse_print_base:
  assumes "valid_part lo hi (b, n)" "0 \<le> lo" "hi < 2 ^ 62"
  shows "parse_base part (print_base b) lo hi step = (case base_bounds lo hi b of (x, y) \<Rightarrow> Inr (x, y, step))"
proof (cases b)
  case Star
  then show ?thesis by (simp add: parse_base_def)
next
  case (One v)
  with assms have v: "0 \<le> v" "v < 2 ^ 63" "lo \<le> v" "v \<le> hi" by (auto simp: valid_part_def)
  have "int_string v \<noteq> ''*''" "CHR ''-'' \<notin> set (int_string v)" using digits_free [OF v(1)] by force+
  with One v show ?thesis by (simp add: parse_base_def atoi_int_string)
next
  case (Range x y)
  with assms have v: "0 \<le> x" "x < 2 ^ 63" "0 \<le> y" "y < 2 ^ 63" "lo \<le> x" "x \<le> y" "y \<le> hi" by (auto simp: valid_part_def)
  have free: "CHR ''-'' \<notin> set (int_string x)" "CHR ''-'' \<notin> set (int_string y)"
    using digits_free [OF v(1)] digits_free [OF v(3)] by auto
  then have "split_string (CHR ''-'') (int_string x @ CHR ''-'' # int_string y) = [int_string x, int_string y]"
    by (simp add: split_append split_no_sep)
  moreover have "int_string x @ CHR ''-'' # int_string y \<noteq> ''*''"
    using int_string_chars [OF v(1)] by (cases "int_string x") auto
  ultimately show ?thesis
    using Range v int_string_chars [OF v(1)] int_string_chars [OF v(3)] by (simp add: parse_base_def atoi_int_string)
qed

lemma parse_print_part:
  assumes "valid_part lo hi p" "0 \<le> lo" "hi < 2 ^ 62"
  shows "parseCronPart (print_part p) lo hi = (case base_bounds lo hi (fst p) of (x, y) \<Rightarrow> Inr (x, y, part_step p))"
proof -
  obtain b n where p: "p = (b, n)" by (cases p) auto
  note base = parse_print_base [OF assms(1)[unfolded p] assms(2,3)]
  have free: "CHR ''/'' \<notin> set (print_base b)" using print_base_chars [OF assms(1)[unfolded p] assms(2)] by blast
  show ?thesis
  proof (cases n)
    case None
    with p free base show ?thesis by (simp add: parseCronPart_def print_part_def part_step_def)
  next
    case (Some k)
    with assms p have k: "0 < k" "k < 2 ^ 63" by (auto simp: valid_part_def part_step_def split: prod.splits)
    have slash: "CHR ''/'' \<notin> set (int_string k)" using digits_free [of k] k by auto
    from free slash have "split_string (CHR ''/'') (print_base b @ CHR ''/'' # int_string k) = [print_base b, int_string k]"
      by (simp add: split_append split_no_sep)
    with Some k p base print_base_nonempty [OF assms(1)[unfolded p] assms(2)] int_string_chars [of k] show ?thesis
      by (simp add: parseCronPart_def print_part_def part_step_def atoi_int_string)
  qed
qed

lemma print_part_chars:
  assumes "valid_part lo hi p" "0 \<le> lo"
  shows "print_part p \<noteq> []" "\<forall>c\<in>set (print_part p). \<not> is_space c \<and> c \<noteq> CHR '',''"
proof -
  obtain b n where p: "p = (b, n)" by (cases p) auto
  have k: "0 \<le> k" if "n = Some k" for k using assms(1) that p by (auto simp: valid_part_def part_step_def split: prod.splits)
  have slash: "\<not> is_space (CHR ''/'')" by code_simp
  show "print_part p \<noteq> []" using print_base_nonempty [OF assms(1)[unfolded p] assms(2)] p by (simp add: print_part_def)
  show "\<forall>c\<in>set (print_part p). \<not> is_space c \<and> c \<noteq> CHR '',''"
    using print_base_chars [OF assms(1)[unfolded p] assms(2)] p slash digits_free k
    by (auto simp: print_part_def split: option.splits)
qed

lemma parse_print_parts:
  assumes "list_all (valid_part lo hi) ps" "0 \<le> lo" "hi < 2 ^ 62" "distinct vals" "ps \<noteq> [] \<or> vals \<noteq> []"
  shows "\<exists>r. parse_parts lo hi (map print_part ps) vals = Some (Inr r) \<and> distinct r
    \<and> set r = set vals \<union> (\<Union>p\<in>set ps. part_values lo hi p)"
  using assms
proof (induction ps arbitrary: vals)
  case (Cons p ps)
  then have p: "valid_part lo hi p" by simp
  note chars = print_part_chars [OF p Cons.prems(2)]
  then have trim: "trim_space (print_part p) = print_part p" "print_part p \<noteq> ''''" by (auto intro: trim_no_space)
  obtain a b where ab: "base_bounds lo hi (fst p) = (a, b)" by fastforce
  with p Cons.prems(2) have bounds: "0 < part_step p" "b + part_step p < 2 ^ 63" "0 \<le> a" "a \<le> b" by (auto simp: valid_part_def)
  from cron_values_progression [OF bounds(1,2,3)] Cons.prems(4) obtain r where
    r: "cron_values b (part_step p) a vals = Some r" "distinct r"
      "set r = set vals \<union> {x. a \<le> x \<and> x \<le> b \<and> part_step p dvd x - a}" by blast
  then have "set r = set vals \<union> part_values lo hi p" by (simp add: part_values_def ab)
  moreover have "a \<in> set r" using r(3) bounds(4) by simp
  then have "r \<noteq> []" by auto
  with Cons.IH [of r] Cons.prems r obtain q where "parse_parts lo hi (map print_part ps) r = Some (Inr q)" "distinct q"
    "set q = set r \<union> (\<Union>p\<in>set ps. part_values lo hi p)" by auto
  ultimately show ?case
    using trim r(1) parse_print_part [OF p Cons.prems(2,3)] ab by auto
qed simp

lemma parse_print_field:
  assumes "list_all (valid_part lo hi) ps" "0 \<le> lo" "hi < 2 ^ 62" "ps \<noteq> []"
  shows "\<exists>r. field_named what (print_field ps) lo hi = Some (Inr r) \<and> distinct r \<and> set r = (\<Union>p\<in>set ps. part_values lo hi p)"
proof -
  have "\<forall>q\<in>set (map print_part ps). CHR '','' \<notin> set q"
    using assms(1,2) print_part_chars(2) by (fastforce simp: list_all_iff)
  then have "split_string (CHR '','') (print_field ps) = map print_part ps"
    unfolding print_field_def using assms(4) by (intro split_join) auto
  with parse_print_parts [OF assms(1-3), of "[]"] assms(4) show ?thesis
    by (auto simp: field_named_def parseCronField_def)
qed

subsection \<open>The search\<close>

definition is_tick :: "time \<Rightarrow> bool" where
  "is_tick t \<longleftrightarrow> t mod nanos_per_minute = 0"

lemma latest_from_Some:
  "latest_from n s b c = Some t \<longleftrightarrow>
    (\<exists>i<n. t = c - int i * nanos_per_minute \<and> b < t \<and> cron_matches s t
       \<and> (\<forall>j<i. \<not> cron_matches s (c - int j * nanos_per_minute)))" (is "?L n c \<longleftrightarrow> ?R n c")
proof (induction n arbitrary: c)
  case (Suc n)
  show ?case
  proof (cases "b < c \<and> \<not> cron_matches s c")
    case True
    have "?R (Suc n) c \<longleftrightarrow> ?R n (c - nanos_per_minute)"
    proof
      assume "?R (Suc n) c"
      then obtain i where i: "i < Suc n" "t = c - int i * nanos_per_minute" "b < t" "cron_matches s t"
        "\<forall>j<i. \<not> cron_matches s (c - int j * nanos_per_minute)" by blast
      with True have "i \<noteq> 0" by (intro notI) simp
      then obtain k where k: "i = Suc k" by (cases i) auto
      have "\<not> cron_matches s (c - nanos_per_minute - int j * nanos_per_minute)" if "j < k" for j
        using i(5) [rule_format, of "Suc j"] that k by (simp add: algebra_simps)
      with i k show "?R n (c - nanos_per_minute)" by (intro exI [of _ k]) (auto simp: algebra_simps)
    next
      assume "?R n (c - nanos_per_minute)"
      then obtain k where k: "k < n" "t = c - nanos_per_minute - int k * nanos_per_minute" "b < t" "cron_matches s t"
        "\<forall>j<k. \<not> cron_matches s (c - nanos_per_minute - int j * nanos_per_minute)" by blast
      have "\<not> cron_matches s (c - int j * nanos_per_minute)" if "j < Suc k" for j
      proof (cases j)
        case (Suc l)
        with k(5) that show ?thesis by (auto simp: algebra_simps)
      qed (use True in simp)
      with k show "?R (Suc n) c" by (intro exI [of _ "Suc k"]) (auto simp: algebra_simps)
    qed
    with True Suc.IH show ?thesis by simp
  next
    case False
    show ?thesis
    proof (cases "b < c")
      case True
      with False show ?thesis by (auto intro!: exI [of _ "0 :: nat"] dest!: spec [of _ "0 :: nat"])
    next
      case low: False
      have "\<not> b < c - int i * nanos_per_minute" for i using low by auto
      with low show ?thesis by auto
    qed
  qed
qed simp

lemma latest_from_finds:
  "i < n \<Longrightarrow> b < c - int i * nanos_per_minute \<Longrightarrow> cron_matches s (c - int i * nanos_per_minute) \<Longrightarrow> latest_from n s b c \<noteq> None"
proof (induction n arbitrary: c i)
  case (Suc n)
  show ?case
  proof (cases i)
    case 0
    with Suc.prems show ?thesis by auto
  next
    case (Suc k)
    with Suc.IH [of k "c - nanos_per_minute"] Suc.prems show ?thesis by (auto simp: algebra_simps)
  qed
qed simp

lemma ticks_back:
  assumes "is_tick c" "is_tick u" "u \<le> c"
  obtains j where "u = c - int j * nanos_per_minute"
proof -
  from assms obtain x y where "c = nanos_per_minute * x" "u = nanos_per_minute * y" by (auto simp: is_tick_def elim!: dvdE)
  with assms(3) that [of "nat (x - y)"] show thesis by (simp add: algebra_simps)
qed

definition latest_tick :: "CronSchedule \<Rightarrow> time \<Rightarrow> time \<Rightarrow> time \<Rightarrow> bool" where
  "latest_tick s after now t \<longleftrightarrow>
    is_tick t \<and> cron_matches s t \<and> after < t \<and> t \<le> now \<and> now - t < int cronSearchLimit * nanos_per_minute
    \<and> (\<forall>u. is_tick u \<and> t < u \<and> u \<le> now \<longrightarrow> \<not> cron_matches s u)"

abbreviation tick_of :: "time \<Rightarrow> time" where
  "tick_of now \<equiv> now - now mod nanos_per_minute"

lemma tick_of: "is_tick (tick_of now - int j * nanos_per_minute)" "tick_of now \<le> now" "now < tick_of now + nanos_per_minute"
  by (simp_all add: is_tick_def mod_diff_eq mod_diff_left_eq [symmetric])

lemma ticks_until_now:
  assumes "is_tick u" "u \<le> now"
  obtains j where "u = tick_of now - int j * nanos_per_minute"
proof -
  have "u div nanos_per_minute * nanos_per_minute \<le> now div nanos_per_minute * nanos_per_minute"
    using assms(2) by (intro mult_right_mono zdiv_mono1) auto
  moreover have "u div nanos_per_minute * nanos_per_minute = u"
    using div_mult_mod_eq [of u nanos_per_minute] assms(1) by (simp only: is_tick_def add_0_right)
  ultimately have "u \<le> tick_of now" by (simp add: minus_mod_eq_div_mult)
  from ticks_back [OF _ assms(1) this] tick_of(1) [of now 0] that show thesis by auto
qed

lemma LatestAfter_spec: "LatestAfter s after now = Some t \<longleftrightarrow> latest_tick s after now t"
proof -
  let ?c = "tick_of now"
  show ?thesis
  proof
    assume "LatestAfter s after now = Some t"
    then obtain i where i: "i < cronSearchLimit" "t = ?c - int i * nanos_per_minute" "after < t" "cron_matches s t"
      "\<forall>j<i. \<not> cron_matches s (?c - int j * nanos_per_minute)" unfolding LatestAfter_def latest_from_Some by blast
    have "\<not> cron_matches s u" if u: "is_tick u" "t < u" "u \<le> now" for u
    proof -
      obtain j where j: "u = ?c - int j * nanos_per_minute" by (rule ticks_until_now [OF u(1,3)])
      with u(2) i(2) have "j < i" by simp
      with i(5) j show ?thesis by blast
    qed
    moreover have "int i + 1 \<le> int cronSearchLimit" using i(1) by simp
    then have "(int i + 1) * nanos_per_minute \<le> int cronSearchLimit * nanos_per_minute" by (intro mult_right_mono) auto
    then have "now - t < int cronSearchLimit * nanos_per_minute" using i(2) tick_of(3) [of now] by (simp add: algebra_simps)
    ultimately show "latest_tick s after now t"
      using i tick_of(2) [of now] tick_of(1) [of now i] by (auto simp: latest_tick_def)
  next
    assume t: "latest_tick s after now t"
    then have tick: "is_tick t" "t \<le> now" by (auto simp: latest_tick_def)
    obtain i where i: "t = ?c - int i * nanos_per_minute" by (rule ticks_until_now [OF tick])
    have "int i * nanos_per_minute < int cronSearchLimit * nanos_per_minute" using t i tick_of(2) [of now] by (auto simp: latest_tick_def)
    then have "i < cronSearchLimit" by simp
    moreover have "\<not> cron_matches s (?c - int j * nanos_per_minute)" if "j < i" for j
      using t that i tick_of(2) [of now] tick_of(1) [of now j] by (auto simp: latest_tick_def)
    ultimately show "LatestAfter s after now = Some t"
      using t i unfolding LatestAfter_def latest_from_Some by (auto simp: latest_tick_def)
  qed
qed

lemma join_chars: "c \<in> set (join_strings sep ps) \<Longrightarrow> c \<in> set sep \<or> (\<exists>p\<in>set ps. c \<in> set p)"
  by (induction sep ps rule: join_strings.induct) auto

lemma join_nonempty: "ps \<noteq> [] \<Longrightarrow> \<forall>p\<in>set ps. p \<noteq> [] \<Longrightarrow> join_strings sep ps \<noteq> []"
  by (induction sep ps rule: join_strings.induct) auto

lemma print_field_chars:
  assumes "list_all (valid_part lo hi) ps" "0 \<le> lo" "ps \<noteq> []"
  shows "print_field ps \<noteq> [] \<and> (\<forall>c\<in>set (print_field ps). \<not> is_space c)"
proof -
  have comma: "\<not> is_space (CHR '','')" by code_simp
  have part: "print_part p \<noteq> []" "\<forall>c\<in>set (print_part p). \<not> is_space c" if "p \<in> set ps" for p
    using print_part_chars [of lo hi p] assms(1,2) that by (auto simp: list_all_iff)
  have "print_field ps \<noteq> []"
    unfolding print_field_def using part(1) assms(3) by (intro join_nonempty) auto
  moreover have "\<forall>c\<in>set (print_field ps). \<not> is_space c"
    unfolding print_field_def using part(2) comma by (auto dest!: join_chars)
  ultimately show ?thesis by blast
qed

lemma trimmed_fields:
  assumes "\<forall>p\<in>set ps. p \<noteq> [] \<and> (\<forall>c\<in>set p. \<not> is_space c)" "ps \<noteq> []"
  shows "string_fields (trim_space (join_strings '' '' ps)) = ps"
proof -
  obtain p qs where ps: "ps = p # qs" using assms(2) by (cases ps) auto
  then have p: "p \<noteq> []" "\<not> is_space (hd p)" using assms(1) by auto
  have "\<exists>r. join_strings '' '' ps = p @ r" unfolding ps by (cases qs) auto
  then obtain r where r: "join_strings '' '' ps = p @ r" by blast
  have first: "\<not> is_space (hd (join_strings '' '' ps))" "join_strings '' '' ps \<noteq> []" unfolding r using p by simp_all
  have last: "\<not> is_space (List.last (join_strings '' '' ps))"
    using assms
  proof (induction "'' ''" ps rule: join_strings.induct)
    case (3 s t ts)
    moreover have "join_strings '' '' (t # ts) \<noteq> []" using 3(2) by (intro join_nonempty) auto
    ultimately show ?case by (simp add: last_append)
  qed auto
  have "dropWhile is_space (join_strings '' '' ps) = join_strings '' '' ps"
    "dropWhile is_space (rev (join_strings '' '' ps)) = rev (join_strings '' '' ps)"
    using first last by (intro dropWhile_fixed; simp add: hd_rev)+
  then have "trim_space (join_strings '' '' ps) = join_strings '' '' ps" by (simp add: trim_space_def)
  with fields_join [OF assms(1)] show ?thesis by simp
qed

lemma part_values_range: "valid_part lo hi p \<Longrightarrow> x \<in> part_values lo hi p \<Longrightarrow> lo \<le> x \<and> x \<le> hi"
  by (cases "base_bounds lo hi (fst p)") (auto simp: valid_part_def part_values_def)

lemma week_days:
  assumes "list_all (valid_part 0 7) w" "set vs = (\<Union>p\<in>set w. part_values 0 7 p)"
  shows "set (if 7 \<in> set vs then filter (\<lambda>d. d \<noteq> 7) (add_unique 0 vs) else vs) = (\<lambda>v. v mod 7) ` set vs"
proof -
  have range: "0 \<le> v \<and> v \<le> 7" if "v \<in> set vs" for v
    using assms that part_values_range [of 0 7 _ v] by (auto simp: list_all_iff)
  have small: "v mod 7 = v" if "v \<in> set vs" "v \<noteq> 7" for v using range [OF that(1)] that(2) by simp
  show ?thesis
  proof (cases "7 \<in> set vs")
    case True
    have "(\<lambda>v. v mod 7) ` set vs = insert 0 (set vs - {7})" using True small by (force simp: image_iff)
    with True show ?thesis by auto
  next
    case False
    have "v mod 7 = v" if "v \<in> set vs" for v using that False small by metis
    with False show ?thesis by simp
  qed
qed

subsection \<open>Properties\<close>

text \<open>The calendar on known days: 29 February 2024 was a Thursday, 1 January 2000 a Saturday.\<close>

lemma calendar_vectors:
  "civil_date 738944 = (2024, 2, 29)" "civil_date 730119 = (2000, 1, 1)" "civil_date 719162 = (1970, 1, 1)"
  "Weekday (738944 * 1440 * nanos_per_minute) = 4" "Weekday (730119 * 1440 * nanos_per_minute) = 6"
  by code_simp+

text \<open>
  C38: parsing a cron expression always returns, whatever the text: no step makes the loop that fills
  a field run for ever, although the addition of the step is not guarded against 64-bit overflow.
  Such a step wraps instead: minute 5 with step 9223372036854775807 also selects minutes 3 and 1.
\<close>

theorem cron_parse_returns:
  "(\<exists>r. ParseCronSchedule expr = Some r)
   \<and> (\<exists>vs. parseCronField ''5/9223372036854775807'' 0 59 = Some (Inr vs) \<and> {1, 3, 5} \<subseteq> set vs)"
proof
  have field: "field_named what raw 0 59 \<noteq> None" "field_named what raw 0 23 \<noteq> None" "field_named what raw 1 31 \<noteq> None"
    "field_named what raw 1 12 \<noteq> None" "field_named what raw 0 7 \<noteq> None" for what raw
    using parseCronField_returns by simp_all
  have "ParseCronSchedule expr \<noteq> None"
  proof (cases "\<exists>f1 f2 f3 f4 f5. string_fields (trim_space expr) = [f1, f2, f3, f4, f5]")
    case True
    then obtain f1 f2 f3 f4 f5 where "string_fields (trim_space expr) = [f1, f2, f3, f4, f5]" by blast
    then show ?thesis
      unfolding ParseCronSchedule_def by (simp only: list.case) (intro then_parse_returns field, simp)
  qed (auto simp: ParseCronSchedule_def split: list.split)
  then show "\<exists>r. ParseCronSchedule expr = Some r" by blast
  have "parseCronField ''5/9223372036854775807'' 0 59
    = Some (Inr [5, - 9223372036854775804, 3, - 9223372036854775806, 1, - 9223372036854775808, - 1])"
    by (simp add: parseCronField_def trim_space_def is_space_def parseCronPart_def parse_base_def atoi_def is_digit_def
        decimal_value_def digit_value_def cron_values.simps wrap64_def add_unique_def)
  then show "\<exists>vs. parseCronField ''5/9223372036854775807'' 0 59 = Some (Inr vs) \<and> {1, 3, 5} \<subseteq> set vs" by simp
qed

definition print_cron :: "cron_part list list \<Rightarrow> string" where
  "print_cron fs = join_strings '' '' (map print_field fs)"

text \<open>
  C28: parsing inverts printing. A five-field expression written from its fields (stars, values and
  ranges, each with an optional step, joined by commas) parses to the sets of values the notation
  stands for, day 7 of the week being day 0.
\<close>

theorem cron_roundtrip:
  assumes "list_all (valid_part 0 59) m" "list_all (valid_part 0 23) h" "list_all (valid_part 1 31) d"
    and "list_all (valid_part 1 12) mo" "list_all (valid_part 0 7) w"
    and "m \<noteq> []" "h \<noteq> []" "d \<noteq> []" "mo \<noteq> []" "w \<noteq> []"
  shows "\<exists>s. ParseCronSchedule (print_cron [m, h, d, mo, w]) = Some (Inr s)
    \<and> set (cr_minutes s) = (\<Union>p\<in>set m. part_values 0 59 p) \<and> set (cr_hours s) = (\<Union>p\<in>set h. part_values 0 23 p)
    \<and> set (cr_monthDays s) = (\<Union>p\<in>set d. part_values 1 31 p) \<and> set (cr_months s) = (\<Union>p\<in>set mo. part_values 1 12 p)
    \<and> set (cr_weekDays s) = (\<lambda>v. v mod 7) ` (\<Union>p\<in>set w. part_values 0 7 p)
    \<and> cr_monthDaysAny s = (print_field d = ''*'') \<and> cr_weekDaysAny s = (print_field w = ''*'')"
proof -
  note chars = print_field_chars [OF assms(1) _ assms(6)] print_field_chars [OF assms(2) _ assms(7)]
    print_field_chars [OF assms(3) _ assms(8)] print_field_chars [OF assms(4) _ assms(9)]
    print_field_chars [OF assms(5) _ assms(10)]
  have "string_fields (trim_space (print_cron [m, h, d, mo, w])) = map print_field [m, h, d, mo, w]"
    unfolding print_cron_def using chars by (intro trimmed_fields) auto
  moreover obtain rm rh rd ro rw where
    "field_named ''minute'' (print_field m) 0 59 = Some (Inr rm)" "set rm = (\<Union>p\<in>set m. part_values 0 59 p)"
    "field_named ''hour'' (print_field h) 0 23 = Some (Inr rh)" "set rh = (\<Union>p\<in>set h. part_values 0 23 p)"
    "field_named ''day-of-month'' (print_field d) 1 31 = Some (Inr rd)" "set rd = (\<Union>p\<in>set d. part_values 1 31 p)"
    "field_named ''month'' (print_field mo) 1 12 = Some (Inr ro)" "set ro = (\<Union>p\<in>set mo. part_values 1 12 p)"
    "field_named ''day-of-week'' (print_field w) 0 7 = Some (Inr rw)" "set rw = (\<Union>p\<in>set w. part_values 0 7 p)"
    using parse_print_field [OF assms(1) _ _ assms(6), of "''minute''"] parse_print_field [OF assms(2) _ _ assms(7), of "''hour''"]
      parse_print_field [OF assms(3) _ _ assms(8), of "''day-of-month''"] parse_print_field [OF assms(4) _ _ assms(9), of "''month''"]
      parse_print_field [OF assms(5) _ _ assms(10), of "''day-of-week''"] by auto
  moreover have "trim_space (print_field d) = print_field d" "trim_space (print_field w) = print_field w"
    using chars by (auto intro: trim_no_space)
  ultimately show ?thesis
    using week_days [OF assms(5), of rw] by (simp add: ParseCronSchedule_def)
qed

theorem cron_roundtrip_witness:
  "print_cron [[(One 0, None), (One 30, None)], [(Range 9 17, Some 4)], [(Star, None)], [(Star, Some 6)], [(One 7, None)]]
    = ''0,30 9-17/4 * */6 7''
   \<and> (\<exists>s. ParseCronSchedule ''0,30 9-17/4 * */6 7'' = Some (Inr s) \<and> set (cr_minutes s) = {0, 30} \<and> 13 \<in> set (cr_hours s)
        \<and> cr_monthDaysAny s \<and> set (cr_weekDays s) = {0})"
proof -
  let ?m = "[(One 0, None), (One 30, None)]" and ?h = "[(Range 9 17, Some 4)]" and ?w = "[(One 7, None)]"
  have print: "print_cron [?m, ?h, [(Star, None)], [(Star, Some 6)], ?w] = ''0,30 9-17/4 * */6 7''" by code_simp
  have star: "print_field [(Star, None)] = ''*''" by code_simp
  have vals: "part_values 0 59 (One v, None) = {v}" "part_values 0 7 (One v, None) = {v}"
    "13 \<in> part_values 0 23 (Range 9 17, Some 4)" for v
    by (auto simp: part_values_def part_step_def)
  show ?thesis
    using cron_roundtrip [of ?m ?h "[(Star, None)]" "[(Star, Some 6)]" ?w] print star vals
    by (auto simp: valid_part_def part_step_def)
qed

text \<open>
  C27: the search finds the latest due tick. It answers with a time iff that is the latest matching
  minute after the boundary and not after now, no further back than the search limit; it answers with
  none iff no minute of that window matches.
\<close>

theorem latest_due_tick:
  "(LatestAfter s after now = Some t \<longleftrightarrow> latest_tick s after now t)
   \<and> (LatestAfter s after now \<noteq> None \<longleftrightarrow>
        (\<exists>u. is_tick u \<and> cron_matches s u \<and> after < u \<and> u \<le> now \<and> now - u < int cronSearchLimit * nanos_per_minute))"
proof (intro conjI iffI)
  show "LatestAfter s after now = Some t \<Longrightarrow> latest_tick s after now t" "latest_tick s after now t \<Longrightarrow> LatestAfter s after now = Some t"
    by (simp_all add: LatestAfter_spec)
  assume "LatestAfter s after now \<noteq> None"
  then obtain u where "latest_tick s after now u" by (auto simp: LatestAfter_spec)
  then show "\<exists>u. is_tick u \<and> cron_matches s u \<and> after < u \<and> u \<le> now \<and> now - u < int cronSearchLimit * nanos_per_minute"
    by (auto simp: latest_tick_def)
next
  assume "\<exists>u. is_tick u \<and> cron_matches s u \<and> after < u \<and> u \<le> now \<and> now - u < int cronSearchLimit * nanos_per_minute"
  then obtain u where u: "is_tick u" "cron_matches s u" "after < u" "u \<le> now" "now - u < int cronSearchLimit * nanos_per_minute"
    by blast
  obtain i where i: "u = tick_of now - int i * nanos_per_minute" by (rule ticks_until_now [OF u(1,4)])
  have "int i * nanos_per_minute < int cronSearchLimit * nanos_per_minute" using u(5) i tick_of(2) [of now] by simp
  then have "i < cronSearchLimit" by simp
  from latest_from_finds [OF this, of after "tick_of now" s] u i show "LatestAfter s after now \<noteq> None"
    by (simp add: LatestAfter_def)
qed

end
