(* ===== verification/Scan_Queue.thy ===== *)
theory Scan_Queue
  imports Scope
begin

section \<open>The scan queue (internal/db/memory.go, internal/db/store.go)\<close>

text \<open>
  Scan records in the in-memory store: creation, the bounded queue, the claim of the oldest due scan, and
  the writes that end or requeue a run. The mutex makes every operation atomic. \<open>qs_scans\<close> is the map
  of records, \<open>qs_scanIDs\<close> the slice of their identifiers in the order of creation, \<open>qs_events\<close> the event
  log of each scan; the other maps of the store are not read or written here. What the operations read from
  outside (\<^verbatim>\<open>uuid.NewString\<close>, the clock, \<^verbatim>\<open>ctx.Err()\<close>) is an argument, a function of the number of reads so far, which the
  state counts in \<open>qs_reads\<close>. Event metadata is built from the values the callers put there (\<open>meta\<close>).
\<close>

record ScanRecord =
  scn_ID :: string
  scn_TenantID :: string
  scn_WorkspaceID :: string
  scn_ProjectID :: string
  scn_ConnectorID :: string
  scn_Provider :: string
  scn_Status :: string
  scn_StartedAt :: time
  scn_FinishedAt :: "time option"
  scn_AssetCount :: int
  scn_FindingCount :: int
  scn_ErrorMessage :: string
  scn_RetryCount :: int
  scn_MaxRetryCount :: int
  scn_FailureCategory :: string
  scn_NextRetryAt :: "time option"
  scn_DeadLettered :: bool
  scn_DeadLetteredAt :: "time option"
  scn_TraceParent :: string
  scn_TraceState :: string

record ScanSource =
  src_ProjectID :: string
  src_ConnectorID :: string

text \<open>\<^verbatim>\<open>providers.SourceError\<close>.\<close>

record SourceError =
  se_Collector :: string
  se_SourceID :: string
  se_Code :: string
  se_Message :: string
  se_Retryable :: bool

text \<open>\<open>MetaTime\<close> is the text of a time in \<^verbatim>\<open>time.RFC3339Nano\<close>.\<close>

datatype meta =
    MetaText string | MetaInt int | MetaBool bool | MetaTime time | MetaSourceErrors "SourceError list"

record ScanEvent =
  sev_ID :: string
  sev_ScanID :: string
  sev_Level :: string
  sev_Message :: string
  sev_Metadata :: "(string, meta) gomap"
  sev_CreatedAt :: time

record ScanStore =
  qs_scans :: "(string, ScanRecord) gomap"
  qs_scanIDs :: "string list"
  qs_events :: "(string, ScanEvent list) gomap"
  qs_reads :: nat

record Outside =
  out_uuid :: "nat \<Rightarrow> string"
  out_now :: "nat \<Rightarrow> time"
  out_ctx_err :: "nat \<Rightarrow> go_error option"

definition empty_scans :: ScanStore where
  "empty_scans = \<lparr>qs_scans = [], qs_scanIDs = [], qs_events = [], qs_reads = 0\<rparr>"

definition new_uuid :: "Outside \<Rightarrow> ScanStore \<Rightarrow> string \<times> ScanStore" where
  "new_uuid env st = (out_uuid env (qs_reads st), st\<lparr>qs_reads := Suc (qs_reads st)\<rparr>)"

definition read_clock :: "Outside \<Rightarrow> ScanStore \<Rightarrow> time \<times> ScanStore" where
  "read_clock env st = (out_now env (qs_reads st), st\<lparr>qs_reads := Suc (qs_reads st)\<rparr>)"

definition read_ctx_err :: "Outside \<Rightarrow> ScanStore \<Rightarrow> go_error option \<times> ScanStore" where
  "read_ctx_err env st = (out_ctx_err env (qs_reads st), st\<lparr>qs_reads := Suc (qs_reads st)\<rparr>)"

definition DefaultScanMaxRetryCount :: int where
  "DefaultScanMaxRetryCount = 3"

definition Normalize_ScanSource :: "ScanSource \<Rightarrow> ScanSource" where
  "Normalize_ScanSource s = \<lparr>src_ProjectID = trim_space (src_ProjectID s), src_ConnectorID = trim_space (src_ConnectorID s)\<rparr>"

definition Empty_ScanSource :: "ScanSource \<Rightarrow> bool" where
  "Empty_ScanSource s =
    (let normalized = Normalize_ScanSource s in src_ProjectID normalized = '''' \<and> src_ConnectorID normalized = '''')"

definition no_source :: ScanSource where
  "no_source = \<lparr>src_ProjectID = '''', src_ConnectorID = ''''\<rparr>"

subsection \<open>Creation\<close>

definition put_scan :: "ScanRecord \<Rightarrow> ScanStore \<Rightarrow> ScanStore" where
  "put_scan record st = st\<lparr>qs_scans := map_put (scn_ID record) record (qs_scans st)\<rparr>"

definition createScanLocked ::
  "Outside \<Rightarrow> Scope \<Rightarrow> string \<Rightarrow> ScanSource \<Rightarrow> string \<Rightarrow> time \<Rightarrow> ScanStore \<Rightarrow> ScanRecord \<times> ScanStore" where
  "createScanLocked env scope provider source status startedAt st =
    (let normalizedScope = Normalize_Scope scope; normalizedSource = Normalize_ScanSource source;
         (id, st) = new_uuid env st;
         record = \<lparr>scn_ID = id, scn_TenantID = sc_TenantID normalizedScope,
           scn_WorkspaceID = sc_WorkspaceID normalizedScope,
           scn_ProjectID = src_ProjectID normalizedSource, scn_ConnectorID = src_ConnectorID normalizedSource,
           scn_Provider = trim_space provider, scn_Status = trim_space status, scn_StartedAt = startedAt,
           scn_FinishedAt = None, scn_AssetCount = 0, scn_FindingCount = 0, scn_ErrorMessage = '''',
           scn_RetryCount = 0, scn_MaxRetryCount = DefaultScanMaxRetryCount, scn_FailureCategory = '''',
           scn_NextRetryAt = None, scn_DeadLettered = False, scn_DeadLetteredAt = None,
           scn_TraceParent = '''', scn_TraceState = ''''\<rparr>
     in (record, (put_scan record st)\<lparr>qs_scanIDs := qs_scanIDs st @ [id]\<rparr>))"

definition CreateScan :: "Outside \<Rightarrow> Context \<Rightarrow> string \<Rightarrow> time \<Rightarrow> ScanStore \<Rightarrow> ScanRecord result \<times> ScanStore" where
  "CreateScan env ctx provider startedAt st =
    (case RequireScope ctx of
       Inl err \<Rightarrow> (Inl err, st)
     | Inr scope \<Rightarrow> apfst Inr (createScanLocked env scope provider no_source ''running'' startedAt st))"

text \<open>The common end of the queueing operations: the new record with the trace of the context.\<close>

definition queue_scan ::
  "Outside \<Rightarrow> Context \<Rightarrow> Scope \<Rightarrow> string \<Rightarrow> ScanSource \<Rightarrow> time \<Rightarrow> ScanStore \<Rightarrow> ScanRecord result \<times> ScanStore" where
  "queue_scan env ctx scope provider source queuedAt st =
    (let (record, st) = createScanLocked env scope provider source ''queued'' queuedAt st;
         (traceParent, traceState) = QueueTraceContextFromContext ctx;
         record = record\<lparr>scn_TraceParent := traceParent, scn_TraceState := traceState\<rparr>
     in (Inr record, put_scan record st))"

definition CreateQueuedScanWithSource ::
  "Outside \<Rightarrow> Context \<Rightarrow> string \<Rightarrow> ScanSource \<Rightarrow> time \<Rightarrow> ScanStore \<Rightarrow> ScanRecord result \<times> ScanStore" where
  "CreateQueuedScanWithSource env ctx provider source queuedAt st =
    (case RequireScope ctx of
       Inl err \<Rightarrow> (Inl err, st)
     | Inr scope \<Rightarrow> queue_scan env ctx scope provider source queuedAt st)"

definition CreateQueuedScan :: "Outside \<Rightarrow> Context \<Rightarrow> string \<Rightarrow> time \<Rightarrow> ScanStore \<Rightarrow> ScanRecord result \<times> ScanStore" where
  "CreateQueuedScan env ctx provider queuedAt st = CreateQueuedScanWithSource env ctx provider no_source queuedAt st"

definition scanSourceMatches :: "ScanRecord \<Rightarrow> ScanSource \<Rightarrow> bool" where
  "scanSourceMatches record source =
    (let normalized = Normalize_ScanSource source
     in if src_ProjectID normalized \<noteq> '''' \<and> trim_space (scn_ProjectID record) \<noteq> src_ProjectID normalized then False
        else if src_ConnectorID normalized \<noteq> '''' \<and> trim_space (scn_ConnectorID record) \<noteq> src_ConnectorID normalized then False
        else True)"

text \<open>The conditions of the loops over the records, in the order of their \<^verbatim>\<open>continue\<close> statements.\<close>

definition provider_matches :: "string \<Rightarrow> ScanRecord \<Rightarrow> bool" where
  "provider_matches normalizedProvider record =
    (normalizedProvider = '''' \<or> trim_space (scn_Provider record) = normalizedProvider)"

definition counts_queued :: "Scope \<Rightarrow> string \<Rightarrow> ScanSource \<Rightarrow> ScanRecord \<Rightarrow> bool" where
  "counts_queued scope normalizedProvider normalizedSource record =
    (MatchScope scope (scn_TenantID record) (scn_WorkspaceID record)
     \<and> \<not> (scn_Status record \<noteq> ''queued'' \<or> scn_DeadLettered record)
     \<and> provider_matches normalizedProvider record
     \<and> scanSourceMatches record normalizedSource)"

definition counts_pending :: "Scope \<Rightarrow> string \<Rightarrow> ScanSource \<Rightarrow> ScanRecord \<Rightarrow> bool" where
  "counts_pending scope normalizedProvider normalizedSource record =
    (MatchScope scope (scn_TenantID record) (scn_WorkspaceID record)
     \<and> provider_matches normalizedProvider record
     \<and> \<not> scn_DeadLettered record
     \<and> scanSourceMatches record normalizedSource
     \<and> (scn_Status record = ''queued'' \<or> scn_Status record = ''running''))"

definition count_scans :: "(ScanRecord \<Rightarrow> bool) \<Rightarrow> ScanStore \<Rightarrow> nat" where
  "count_scans P st = length (filter (\<lambda>(_, record). P record) (qs_scans st))"

definition CreateQueuedScanWithinLimitWithSource ::
  "Outside \<Rightarrow> Context \<Rightarrow> string \<Rightarrow> ScanSource \<Rightarrow> time \<Rightarrow> int \<Rightarrow> ScanStore \<Rightarrow> ScanRecord result \<times> ScanStore" where
  "CreateQueuedScanWithinLimitWithSource env ctx provider source queuedAt maxPending st =
    (case RequireScope ctx of
       Inl err \<Rightarrow> (Inl err, st)
     | Inr scope \<Rightarrow>
        (let maxPending = (if maxPending \<le> 0 then 1 else maxPending);
             normalizedSource = Normalize_ScanSource source;
             queued = count_scans (counts_queued scope (trim_space provider) normalizedSource) st
         in if int queued \<ge> maxPending then (Inl (Sentinel ErrQueueLimitReached), st)
            else queue_scan env ctx scope provider normalizedSource queuedAt st))"

definition CreateQueuedScanWithinLimit ::
  "Outside \<Rightarrow> Context \<Rightarrow> string \<Rightarrow> time \<Rightarrow> int \<Rightarrow> ScanStore \<Rightarrow> ScanRecord result \<times> ScanStore" where
  "CreateQueuedScanWithinLimit env ctx provider queuedAt maxPending st =
    CreateQueuedScanWithinLimitWithSource env ctx provider no_source queuedAt maxPending st"

definition CreateQueuedScanIfNoPendingWithSource ::
  "Outside \<Rightarrow> Context \<Rightarrow> string \<Rightarrow> ScanSource \<Rightarrow> time \<Rightarrow> ScanStore \<Rightarrow> ScanRecord result \<times> ScanStore" where
  "CreateQueuedScanIfNoPendingWithSource env ctx provider source queuedAt st =
    (case RequireScope ctx of
       Inl err \<Rightarrow> (Inl err, st)
     | Inr scope \<Rightarrow>
        (let normalizedSource = Normalize_ScanSource source
         in if list_ex (\<lambda>(_, record). counts_pending scope (trim_space provider) normalizedSource record) (qs_scans st)
            then (Inl (Sentinel ErrPendingScanExists), st)
            else queue_scan env ctx scope provider normalizedSource queuedAt st))"

definition CreateQueuedScanIfNoPending ::
  "Outside \<Rightarrow> Context \<Rightarrow> string \<Rightarrow> time \<Rightarrow> ScanStore \<Rightarrow> ScanRecord result \<times> ScanStore" where
  "CreateQueuedScanIfNoPending env ctx provider queuedAt st =
    CreateQueuedScanIfNoPendingWithSource env ctx provider no_source queuedAt st"

subsection \<open>The claim\<close>

text \<open>
  The loop keeps the best record so far. The clock is read for every record that waits for a retry.
\<close>

definition claim_candidate :: "Scope option \<Rightarrow> string \<Rightarrow> ScanRecord \<Rightarrow> bool" where
  "claim_candidate scope normalizedProvider record =
    ((case scope of None \<Rightarrow> True | Some s \<Rightarrow> MatchScope s (scn_TenantID record) (scn_WorkspaceID record))
     \<and> \<not> (scn_Status record \<noteq> ''queued'' \<or> scn_DeadLettered record)
     \<and> provider_matches normalizedProvider record)"

definition better_claim :: "ScanRecord option \<Rightarrow> ScanRecord \<Rightarrow> ScanRecord option" where
  "better_claim best record =
    (case best of
       None \<Rightarrow> Some record
     | Some b \<Rightarrow> if scn_StartedAt record < scn_StartedAt b then Some record else Some b)"

fun claim_loop ::
  "Outside \<Rightarrow> Scope option \<Rightarrow> string \<Rightarrow> string list \<Rightarrow> ScanRecord option \<Rightarrow> ScanStore \<Rightarrow> ScanRecord option \<times> ScanStore"
  where
  "claim_loop env scope provider [] best st = (best, st)"
| "claim_loop env scope provider (scanID # ids) best st =
    (case map_of (qs_scans st) scanID of
       None \<Rightarrow> claim_loop env scope provider ids best st
     | Some record \<Rightarrow>
        (if \<not> claim_candidate scope provider record then claim_loop env scope provider ids best st
         else case scn_NextRetryAt record of
           None \<Rightarrow> claim_loop env scope provider ids (better_claim best record) st
         | Some retryAt \<Rightarrow>
            (let (now, st) = read_clock env st
             in if retryAt > now then claim_loop env scope provider ids best st
                else claim_loop env scope provider ids (better_claim best record) st)))"

definition claimNextQueuedScanLocked ::
  "Outside \<Rightarrow> Scope option \<Rightarrow> string \<Rightarrow> ScanStore \<Rightarrow> ScanRecord result \<times> ScanStore" where
  "claimNextQueuedScanLocked env scope provider st =
    (case claim_loop env scope (trim_space provider) (qs_scanIDs st) None st of
       (None, st) \<Rightarrow> (Inl (Sentinel ErrNotFound), st)
     | (Some best, st) \<Rightarrow>
        (let best = best\<lparr>scn_Status := ''running'', scn_FinishedAt := None, scn_ErrorMessage := '''',
               scn_FailureCategory := '''', scn_NextRetryAt := None\<rparr>
         in (Inr best, put_scan best st)))"

definition ClaimNextQueuedScan :: "Outside \<Rightarrow> Context \<Rightarrow> string \<Rightarrow> ScanStore \<Rightarrow> ScanRecord result \<times> ScanStore" where
  "ClaimNextQueuedScan env ctx provider st =
    (case RequireScope ctx of
       Inl err \<Rightarrow> (Inl err, st)
     | Inr scope \<Rightarrow> claimNextQueuedScanLocked env (Some scope) provider st)"

definition ClaimNextQueuedScanAnyScope :: "Outside \<Rightarrow> string \<Rightarrow> ScanStore \<Rightarrow> ScanRecord result \<times> ScanStore" where
  "ClaimNextQueuedScanAnyScope env provider st = claimNextQueuedScanLocked env None provider st"

subsection \<open>Reads\<close>

definition CountQueuedScansWithSource :: "Context \<Rightarrow> string \<Rightarrow> ScanSource \<Rightarrow> ScanStore \<Rightarrow> int result" where
  "CountQueuedScansWithSource ctx provider source st =
    (case RequireScope ctx of
       Inl err \<Rightarrow> Inl err
     | Inr scope \<Rightarrow>
        Inr (int (count_scans (counts_queued scope (trim_space provider) (Normalize_ScanSource source)) st)))"

definition CountQueuedScans :: "Context \<Rightarrow> string \<Rightarrow> ScanStore \<Rightarrow> int result" where
  "CountQueuedScans ctx provider st = CountQueuedScansWithSource ctx provider no_source st"

definition CountPendingScansWithSource :: "Context \<Rightarrow> string \<Rightarrow> ScanSource \<Rightarrow> ScanStore \<Rightarrow> int result" where
  "CountPendingScansWithSource ctx provider source st =
    (case RequireScope ctx of
       Inl err \<Rightarrow> Inl err
     | Inr scope \<Rightarrow>
        Inr (int (count_scans (counts_pending scope (trim_space provider) (Normalize_ScanSource source)) st)))"

definition CountQueuedScansAnyScope :: "string \<Rightarrow> ScanStore \<Rightarrow> int" where
  "CountQueuedScansAnyScope provider st =
    int (count_scans (\<lambda>record. \<not> (scn_Status record \<noteq> ''queued'' \<or> scn_DeadLettered record)
       \<and> provider_matches (trim_space provider) record) st)"

definition scan_in_scope :: "Scope \<Rightarrow> string \<Rightarrow> ScanStore \<Rightarrow> ScanRecord result" where
  "scan_in_scope scope scanID st =
    (case map_of (qs_scans st) scanID of
       None \<Rightarrow> Inl (Sentinel ErrNotFound)
     | Some record \<Rightarrow>
        if MatchScope scope (scn_TenantID record) (scn_WorkspaceID record) then Inr record
        else Inl (Sentinel ErrNotFound))"

definition GetScan :: "Context \<Rightarrow> string \<Rightarrow> ScanStore \<Rightarrow> ScanRecord result" where
  "GetScan ctx scanID st = rbind (RequireScope ctx) (\<lambda>scope. scan_in_scope scope scanID st)"

text \<open>
  \<^verbatim>\<open>ListScans\<close> sorts with \<^verbatim>\<open>sort.Slice\<close>, newest first, which leaves the order of equal start times
  open; the model keeps their order of creation.
\<close>

definition ListScans :: "Context \<Rightarrow> int \<Rightarrow> ScanStore \<Rightarrow> ScanRecord list result" where
  "ListScans ctx limit st =
    (let limit = (if limit \<le> 0 then 100 else limit)
     in case RequireScope ctx of
          Inl err \<Rightarrow> Inl err
        | Inr scope \<Rightarrow>
            (let records = List.map_filter (\<lambda>scanID. case scan_in_scope scope scanID st of Inl _ \<Rightarrow> None | Inr r \<Rightarrow> Some r) (qs_scanIDs st)
             in Inr (take (nat limit) (sort_key (\<lambda>r. - scn_StartedAt r) records))))"

subsection \<open>Writes\<close>

definition BindScanSource ::
  "Context \<Rightarrow> string \<Rightarrow> ScanSource \<Rightarrow> ScanStore \<Rightarrow> ScanRecord result \<times> ScanStore" where
  "BindScanSource ctx scanID source st =
    (case RequireScope ctx of
       Inl err \<Rightarrow> (Inl err, st)
     | Inr scope \<Rightarrow>
        (let normalizedSource = Normalize_ScanSource source
         in if Empty_ScanSource normalizedSource then (Inl (Sentinel ErrNotFound), st)
            else case map_of (qs_scans st) scanID of
              None \<Rightarrow> (Inl (Sentinel ErrNotFound), st)
            | Some record \<Rightarrow>
                if scn_DeadLettered record \<or> (scn_Status record \<noteq> ''queued'' \<and> scn_Status record \<noteq> ''running'')
                then (Inl (Sentinel ErrNotFound), st)
                else (let record = record\<lparr>scn_TenantID := sc_TenantID scope, scn_WorkspaceID := sc_WorkspaceID scope,
                            scn_ProjectID := src_ProjectID normalizedSource, scn_ConnectorID := src_ConnectorID normalizedSource\<rparr>
                      in (Inr record, st\<lparr>qs_scans := map_put scanID record (qs_scans st)\<rparr>))))"

text \<open>The frame of the three writes that end a run: the record in scope is replaced, or the error returned.\<close>

definition update_scan ::
  "Context \<Rightarrow> string \<Rightarrow> (ScanRecord \<Rightarrow> ScanRecord) \<Rightarrow> ScanStore \<Rightarrow> go_error option \<times> ScanStore" where
  "update_scan ctx scanID f st =
    (case GetScan ctx scanID st of
       Inl err \<Rightarrow> (Some err, st)
     | Inr record \<Rightarrow> (None, st\<lparr>qs_scans := map_put scanID (f record) (qs_scans st)\<rparr>))"

definition CompleteScan ::
  "Context \<Rightarrow> string \<Rightarrow> string \<Rightarrow> time \<Rightarrow> int \<Rightarrow> int \<Rightarrow> string \<Rightarrow> ScanStore \<Rightarrow> go_error option \<times> ScanStore" where
  "CompleteScan ctx scanID status finishedAt assetCount findingCount errorMessage st =
    update_scan ctx scanID (\<lambda>record. record\<lparr>scn_Status := status, scn_FinishedAt := Some finishedAt,
      scn_AssetCount := assetCount, scn_FindingCount := findingCount, scn_ErrorMessage := errorMessage,
      scn_FailureCategory := '''', scn_NextRetryAt := None, scn_DeadLettered := False, scn_DeadLetteredAt := None\<rparr>) st"

definition ScheduleScanRetry ::
  "Context \<Rightarrow> string \<Rightarrow> time \<Rightarrow> int \<Rightarrow> int \<Rightarrow> string \<Rightarrow> string \<Rightarrow> time \<Rightarrow> ScanStore \<Rightarrow> go_error option \<times> ScanStore" where
  "ScheduleScanRetry ctx scanID queuedAt retryCount maxRetryCount failureCategory errorMessage nextRetryAt st =
    update_scan ctx scanID (\<lambda>record. record\<lparr>scn_Status := ''queued'', scn_StartedAt := queuedAt, scn_FinishedAt := None,
      scn_ErrorMessage := errorMessage, scn_RetryCount := retryCount, scn_MaxRetryCount := maxRetryCount,
      scn_FailureCategory := trim_space failureCategory, scn_NextRetryAt := Some nextRetryAt,
      scn_DeadLettered := False, scn_DeadLetteredAt := None\<rparr>) st"

definition DeadLetterScan ::
  "Context \<Rightarrow> string \<Rightarrow> time \<Rightarrow> int \<Rightarrow> int \<Rightarrow> int \<Rightarrow> int \<Rightarrow> string \<Rightarrow> string \<Rightarrow> ScanStore \<Rightarrow> go_error option \<times> ScanStore" where
  "DeadLetterScan ctx scanID finishedAt retryCount maxRetryCount assetCount findingCount failureCategory errorMessage st =
    update_scan ctx scanID (\<lambda>record. record\<lparr>scn_Status := ''failed'', scn_FinishedAt := Some finishedAt,
      scn_ErrorMessage := errorMessage, scn_RetryCount := retryCount, scn_MaxRetryCount := maxRetryCount,
      scn_AssetCount := assetCount, scn_FindingCount := findingCount, scn_FailureCategory := trim_space failureCategory,
      scn_NextRetryAt := None, scn_DeadLettered := True, scn_DeadLetteredAt := Some finishedAt\<rparr>) st"

definition NormalizeScanEventLevel :: "string \<Rightarrow> string result" where
  "NormalizeScanEventLevel level =
    (if level \<in> set [''debug'', ''info'', ''warn'', ''error''] then Inr level
     else Inl (ErrorText ''invalid scan event level''))"

definition events_of :: "ScanStore \<Rightarrow> string \<Rightarrow> ScanEvent list" where
  "events_of st scanID = (case map_of (qs_events st) scanID of None \<Rightarrow> [] | Some es \<Rightarrow> es)"

definition AppendScanEvent ::
  "Outside \<Rightarrow> Context \<Rightarrow> string \<Rightarrow> string \<Rightarrow> string \<Rightarrow> (string, meta) gomap \<Rightarrow> ScanStore \<Rightarrow> go_error option \<times> ScanStore" where
  "AppendScanEvent env ctx scanID level message metadata st =
    (case GetScan ctx scanID st of
       Inl err \<Rightarrow> (Some err, st)
     | Inr _ \<Rightarrow>
        (case NormalizeScanEventLevel (norm_key level) of
           Inl err \<Rightarrow> (Some err, st)
         | Inr normalizedLevel \<Rightarrow>
            (let (id, st) = new_uuid env st; (now, st) = read_clock env st;
                 event = \<lparr>sev_ID = id, sev_ScanID = scanID, sev_Level = normalizedLevel, sev_Message = message,
                   sev_Metadata = metadata, sev_CreatedAt = now\<rparr>
             in (None, st\<lparr>qs_events := map_put scanID (events_of st scanID @ [event]) (qs_events st)\<rparr>))))"

definition ListScanEvents :: "Context \<Rightarrow> string \<Rightarrow> int \<Rightarrow> ScanStore \<Rightarrow> ScanEvent list result" where
  "ListScanEvents ctx scanID limit st =
    rbind (GetScan ctx scanID st)
      (\<lambda>_. Inr (limit_list limit (sort_key (\<lambda>e. - sev_CreatedAt e) (events_of st scanID))))"

subsection \<open>The invariant of the queue\<close>

text \<open>
  Records and identifiers correspond; every identifier was drawn earlier; a record has a tenant, a
  workspace and a trimmed provider; a dead-lettered record is failed, only a queued one waits for a retry.
\<close>

definition scan_record_ok :: "ScanRecord \<Rightarrow> bool" where
  "scan_record_ok r \<longleftrightarrow> scn_TenantID r \<noteq> '''' \<and> scn_WorkspaceID r \<noteq> '''' \<and> trim_space (scn_TenantID r) = scn_TenantID r
    \<and> trim_space (scn_WorkspaceID r) = scn_WorkspaceID r \<and> trim_space (scn_Provider r) = scn_Provider r
    \<and> (scn_DeadLettered r \<longrightarrow> scn_Status r = ''failed'' \<and> scn_DeadLetteredAt r \<noteq> None)
    \<and> (scn_NextRetryAt r \<noteq> None \<longrightarrow> scn_Status r = ''queued'') \<and> 0 \<le> scn_RetryCount r"

definition queue_ok :: "Outside \<Rightarrow> ScanStore \<Rightarrow> bool" where
  "queue_ok env st \<longleftrightarrow> distinct (map fst (qs_scans st)) \<and> distinct (qs_scanIDs st)
    \<and> set (qs_scanIDs st) = fst ` set (qs_scans st)
    \<and> (\<forall>id r. map_of (qs_scans st) id = Some r \<longrightarrow> scn_ID r = id \<and> scan_record_ok r)
    \<and> (\<forall>id\<in>set (qs_scanIDs st). \<exists>n<qs_reads st. id = out_uuid env n)"

inductive queue_step :: "Outside \<Rightarrow> ScanStore \<Rightarrow> ScanStore \<Rightarrow> bool" for env where
  create: "queue_step env st (snd (CreateScan env ctx provider startedAt st))"
| queue: "queue_step env st (snd (CreateQueuedScanWithSource env ctx provider source queuedAt st))"
| limited: "queue_step env st (snd (CreateQueuedScanWithinLimitWithSource env ctx provider source queuedAt maxPending st))"
| if_none: "queue_step env st (snd (CreateQueuedScanIfNoPendingWithSource env ctx provider source queuedAt st))"
| claim: "queue_step env st (snd (ClaimNextQueuedScan env ctx provider st))"
| claim_any: "queue_step env st (snd (ClaimNextQueuedScanAnyScope env provider st))"
| bind: "queue_step env st (snd (BindScanSource ctx scanID source st))"
| complete: "queue_step env st (snd (CompleteScan ctx scanID status finishedAt assets findings message st))"
| retry: "0 \<le> retryCount \<Longrightarrow>
    queue_step env st (snd (ScheduleScanRetry ctx scanID queuedAt retryCount maxRetryCount category message nextRetryAt st))"
| dead: "0 \<le> retryCount \<Longrightarrow>
    queue_step env st (snd (DeadLetterScan ctx scanID finishedAt retryCount maxRetryCount assets findings category message st))"
| event: "queue_step env st (snd (AppendScanEvent env ctx scanID level message metadata st))"

lemma queue_ok_lookup: "queue_ok env st \<Longrightarrow> map_of (qs_scans st) sid = Some r \<Longrightarrow> scn_ID r = sid \<and> scan_record_ok r"
  by (simp add: queue_ok_def)

lemma queue_ok_same:
  assumes "queue_ok env st" "qs_scans st' = qs_scans st" "qs_scanIDs st' = qs_scanIDs st" "qs_reads st \<le> qs_reads st'"
  shows "queue_ok env st'"
  using assms unfolding queue_ok_def by (metis order_less_le_trans)

lemma queue_ok_update:
  assumes "queue_ok env st" "map_of (qs_scans st) sid = Some r" "scn_ID r' = sid" "scan_record_ok r'"
    and "qs_scans st' = map_put sid r' (qs_scans st)" "qs_scanIDs st' = qs_scanIDs st" "qs_reads st' = qs_reads st"
  shows "queue_ok env st'"
proof -
  from assms(2) have "sid \<in> fst ` set (qs_scans st)" by (metis map_of_eq_None_iff option.distinct(1))
  then have dom: "fst ` set (map_put sid r' (qs_scans st)) = fst ` set (qs_scans st)"
    by (simp add: map_put_def dom_update insert_absorb)
  from assms(1) have "distinct (map fst (map_put sid r' (qs_scans st)))" by (simp add: queue_ok_def distinct_put)
  with assms dom show ?thesis by (auto simp: queue_ok_def)
qed

lemma queue_ok_new:
  assumes "queue_ok env st" "inj (out_uuid env)" "scn_ID r = out_uuid env (qs_reads st)" "scan_record_ok r"
    and "qs_scans st' = map_put (scn_ID r) r (qs_scans st)" "qs_scanIDs st' = qs_scanIDs st @ [scn_ID r]"
      "qs_reads st' = Suc (qs_reads st)"
  shows "queue_ok env st'" "scn_ID r \<notin> fst ` set (qs_scans st)"
proof -
  show fresh: "scn_ID r \<notin> fst ` set (qs_scans st)"
  proof
    assume "scn_ID r \<in> fst ` set (qs_scans st)"
    moreover have "\<forall>i\<in>fst ` set (qs_scans st). \<exists>n<qs_reads st. i = out_uuid env n"
      using assms(1) unfolding queue_ok_def by metis
    ultimately obtain n where "n < qs_reads st" "scn_ID r = out_uuid env n" by blast
    with assms(2,3) show False by (metis injD less_irrefl)
  qed
  have "fst ` set (map_put (scn_ID r) r (qs_scans st)) = insert (scn_ID r) (fst ` set (qs_scans st))"
    by (simp add: map_put_def dom_update)
  moreover from assms(1) have "distinct (map fst (map_put (scn_ID r) r (qs_scans st)))" by (simp add: queue_ok_def distinct_put)
  moreover have "\<forall>i\<in>set (qs_scanIDs st). \<exists>n<qs_reads st. i = out_uuid env n"
    using assms(1) unfolding queue_ok_def by metis
  then have "\<forall>i\<in>set (qs_scanIDs st @ [scn_ID r]). \<exists>n<Suc (qs_reads st). i = out_uuid env n"
    using assms(3) less_Suc_eq by auto
  ultimately show "queue_ok env st'" using assms fresh by (auto simp: queue_ok_def)
qed

lemma createScanLocked_facts:
  assumes "createScanLocked env scope provider source status startedAt st = (r, st')"
  shows "scn_ID r = out_uuid env (qs_reads st)" "qs_scans st' = map_put (scn_ID r) r (qs_scans st)"
    "qs_scanIDs st' = qs_scanIDs st @ [scn_ID r]" "qs_reads st' = Suc (qs_reads st)" "qs_events st' = qs_events st"
    "scn_TenantID r = sc_TenantID (Normalize_Scope scope)" "scn_WorkspaceID r = sc_WorkspaceID (Normalize_Scope scope)"
    "scn_ProjectID r = trim_space (src_ProjectID source)" "scn_ConnectorID r = trim_space (src_ConnectorID source)"
    "scn_Provider r = trim_space provider" "scn_Status r = trim_space status" "scn_StartedAt r = startedAt"
    "\<not> scn_DeadLettered r" "scn_RetryCount r = 0" "scn_MaxRetryCount r = 3" "scn_NextRetryAt r = None"
    "scan_record_ok r"
  using assms by (auto simp: createScanLocked_def new_uuid_def put_scan_def Normalize_ScanSource_def
    DefaultScanMaxRetryCount_def scan_record_ok_def Let_def split_beta)

lemma queue_scan_facts:
  assumes "queue_scan env ctx scope provider source queuedAt st = (res, st')"
  obtains r where "res = Inr r" "scn_ID r = out_uuid env (qs_reads st)" "qs_scans st' = map_put (scn_ID r) r (qs_scans st)"
    "qs_scanIDs st' = qs_scanIDs st @ [scn_ID r]" "qs_reads st' = Suc (qs_reads st)" "qs_events st' = qs_events st"
    "scn_TenantID r = sc_TenantID (Normalize_Scope scope)" "scn_WorkspaceID r = sc_WorkspaceID (Normalize_Scope scope)"
    "scn_ProjectID r = trim_space (src_ProjectID source)" "scn_ConnectorID r = trim_space (src_ConnectorID source)"
    "scn_Provider r = trim_space provider" "scn_Status r = ''queued''" "scn_StartedAt r = queuedAt"
    "\<not> scn_DeadLettered r" "scn_RetryCount r = 0" "scn_MaxRetryCount r = 3" "scn_NextRetryAt r = None"
    "scan_record_ok r"
proof -
  obtain r0 st0 where c: "createScanLocked env scope provider source ''queued'' queuedAt st = (r0, st0)" by (metis surj_pair)
  obtain tp ts where t: "QueueTraceContextFromContext ctx = (tp, ts)" by (metis surj_pair)
  note f = createScanLocked_facts [OF c]
  have q: "trim_space ''queued'' = ''queued''" by code_simp
  let ?r = "r0\<lparr>scn_TraceParent := tp, scn_TraceState := ts\<rparr>"
  from assms have "res = Inr ?r" "st' = put_scan ?r st0" by (simp_all add: queue_scan_def c t Let_def)
  with f q show ?thesis by (intro that [of ?r]) (simp_all add: put_scan_def map_put_put scan_record_ok_def)
qed

lemma queue_scan_ok:
  assumes "queue_ok env st" "inj (out_uuid env)" "queue_scan env ctx scope provider source queuedAt st = (res, st')"
  shows "queue_ok env st'"
  using assms(3)
proof (rule queue_scan_facts)
  fix r
  assume "scn_ID r = out_uuid env (qs_reads st)" "scan_record_ok r" "qs_scans st' = map_put (scn_ID r) r (qs_scans st)"
    "qs_scanIDs st' = qs_scanIDs st @ [scn_ID r]" "qs_reads st' = Suc (qs_reads st)"
  then show ?thesis by (intro queue_ok_new(1) [OF assms(1,2)])
qed

text \<open>The queueing operations return an error and keep the store, or queue a scan.\<close>

lemma queueing_cases:
  "(\<exists>e. CreateQueuedScanWithSource env ctx provider source queuedAt st = (Inl e, st))
    \<or> (\<exists>scope. RequireScope ctx = Inr scope \<and> CreateQueuedScanWithSource env ctx provider source queuedAt st = queue_scan env ctx scope provider source queuedAt st)"
  "(\<exists>e. CreateQueuedScanWithinLimitWithSource env ctx provider source queuedAt maxPending st = (Inl e, st))
    \<or> (\<exists>scope s. RequireScope ctx = Inr scope \<and> CreateQueuedScanWithinLimitWithSource env ctx provider source queuedAt maxPending st = queue_scan env ctx scope provider s queuedAt st)"
  "(\<exists>e. CreateQueuedScanIfNoPendingWithSource env ctx provider source queuedAt st = (Inl e, st))
    \<or> (\<exists>scope s. RequireScope ctx = Inr scope \<and> CreateQueuedScanIfNoPendingWithSource env ctx provider source queuedAt st = queue_scan env ctx scope provider s queuedAt st)"
  by (cases "RequireScope ctx"; auto simp: CreateQueuedScanWithSource_def CreateQueuedScanWithinLimitWithSource_def
    CreateQueuedScanIfNoPendingWithSource_def Let_def)+

lemma queueing_ok:
  assumes "queue_ok env st" "inj (out_uuid env)"
  shows "queue_ok env (snd (CreateQueuedScanWithSource env ctx provider source queuedAt st))"
    "queue_ok env (snd (CreateQueuedScanWithinLimitWithSource env ctx provider source queuedAt maxPending st))"
    "queue_ok env (snd (CreateQueuedScanIfNoPendingWithSource env ctx provider source queuedAt st))"
proof -
  have q: "queue_ok env (snd (queue_scan env ctx scope provider s queuedAt st))" for scope s
    by (rule queue_scan_ok [OF assms prod.collapse [symmetric]])
  show "queue_ok env (snd (CreateQueuedScanWithSource env ctx provider source queuedAt st))"
    using queueing_cases(1) [of env ctx provider source queuedAt st] q assms(1) by force
  show "queue_ok env (snd (CreateQueuedScanWithinLimitWithSource env ctx provider source queuedAt maxPending st))"
    using queueing_cases(2) [of env ctx provider source queuedAt maxPending st] q assms(1) by force
  show "queue_ok env (snd (CreateQueuedScanIfNoPendingWithSource env ctx provider source queuedAt st))"
    using queueing_cases(3) [of env ctx provider source queuedAt st] q assms(1) by force
qed

lemma CreateScan_ok:
  assumes "queue_ok env st" "inj (out_uuid env)"
  shows "queue_ok env (snd (CreateScan env ctx provider startedAt st))"
proof (cases "RequireScope ctx")
  case (Inr scope)
  obtain r st' where c: "createScanLocked env scope provider no_source ''running'' startedAt st = (r, st')" by (metis surj_pair)
  from queue_ok_new(1) [OF assms createScanLocked_facts(1,17,2-4) [OF c]] Inr c show ?thesis by (simp add: CreateScan_def)
qed (use assms in \<open>simp add: CreateScan_def\<close>)

lemma GetScan_Inr:
  assumes "GetScan ctx scanID st = Inr r"
  obtains scope where "RequireScope ctx = Inr scope" "map_of (qs_scans st) scanID = Some r"
    "MatchScope scope (scn_TenantID r) (scn_WorkspaceID r)"
proof -
  from assms obtain scope where s: "RequireScope ctx = Inr scope" "scan_in_scope scope scanID st = Inr r"
    by (cases "RequireScope ctx") (simp_all add: GetScan_def)
  from s(2) have "map_of (qs_scans st) scanID = Some r" "MatchScope scope (scn_TenantID r) (scn_WorkspaceID r)"
    by (auto simp: scan_in_scope_def split: option.splits if_splits)
  with s(1) show ?thesis by (rule that)
qed

lemma update_scan_ok:
  assumes "queue_ok env st" "\<And>r. scan_record_ok r \<Longrightarrow> scan_record_ok (f r)" "\<And>r. scn_ID (f r) = scn_ID r"
  shows "queue_ok env (snd (update_scan ctx scanID f st))"
proof (cases "GetScan ctx scanID st")
  case (Inr r)
  then have at: "map_of (qs_scans st) scanID = Some r" by (auto elim: GetScan_Inr)
  from queue_ok_lookup [OF assms(1) at] assms(2,3)
  show ?thesis
    unfolding update_scan_def Inr by (simp, intro queue_ok_update [OF assms(1) at, of "f r"]) simp_all
qed (use assms(1) in \<open>simp add: update_scan_def\<close>)

lemma ending_ok:
  assumes "queue_ok env st"
  shows "queue_ok env (snd (CompleteScan ctx scanID status finishedAt assets findings message st))"
    "0 \<le> retryCount \<Longrightarrow> queue_ok env (snd (ScheduleScanRetry ctx scanID queuedAt retryCount maxRetryCount category message nextRetryAt st))"
    "0 \<le> retryCount \<Longrightarrow> queue_ok env (snd (DeadLetterScan ctx scanID finishedAt retryCount maxRetryCount assets findings category message st))"
  unfolding CompleteScan_def ScheduleScanRetry_def DeadLetterScan_def
  subgoal by (rule update_scan_ok [OF assms]) (simp_all add: scan_record_ok_def)
  subgoal by (rule update_scan_ok [OF assms]) (simp_all add: scan_record_ok_def)
  subgoal by (rule update_scan_ok [OF assms]) (simp_all add: scan_record_ok_def)
  done

lemma BindScanSource_ok: "queue_ok env st \<Longrightarrow> queue_ok env (snd (BindScanSource ctx scanID source st))"
proof -
  assume ok: "queue_ok env st"
  show ?thesis
  proof (cases "snd (BindScanSource ctx scanID source st) = st")
    case False
    then obtain scope r where s: "RequireScope ctx = Inr scope" "map_of (qs_scans st) scanID = Some r"
      "snd (BindScanSource ctx scanID source st) =
        st\<lparr>qs_scans := map_put scanID (r\<lparr>scn_TenantID := sc_TenantID scope, scn_WorkspaceID := sc_WorkspaceID scope,
          scn_ProjectID := src_ProjectID (Normalize_ScanSource source), scn_ConnectorID := src_ConnectorID (Normalize_ScanSource source)\<rparr>) (qs_scans st)\<rparr>"
      by (auto simp: BindScanSource_def Let_def split: sum.splits option.splits if_splits)
    have "scan_record_ok (r\<lparr>scn_TenantID := sc_TenantID scope, scn_WorkspaceID := sc_WorkspaceID scope,
          scn_ProjectID := src_ProjectID (Normalize_ScanSource source), scn_ConnectorID := src_ConnectorID (Normalize_ScanSource source)\<rparr>)"
      using queue_ok_lookup [OF ok s(2)] RequireScope_normal [OF s(1)] RequireScope_nonempty [OF s(1)] Normalize_Scope_trimmed [of scope]
      by (simp add: scan_record_ok_def)
    with queue_ok_lookup [OF ok s(2)] show ?thesis unfolding s(3) by (intro queue_ok_update [OF ok s(2)]) simp_all
  qed (simp add: ok)
qed

lemma AppendScanEvent_frame:
  assumes "AppendScanEvent env ctx scanID level message metadata st = (e, st')"
  shows "qs_scans st' = qs_scans st" "qs_scanIDs st' = qs_scanIDs st" "qs_reads st \<le> qs_reads st'"
  using assms by (auto simp: AppendScanEvent_def new_uuid_def read_clock_def Let_def split: sum.splits)

subsection \<open>What a claim takes\<close>

text \<open>
  \<open>surely_due env q\<close>: whatever the clock says, the scan does not wait any more.
\<close>

definition surely_due :: "Outside \<Rightarrow> ScanRecord \<Rightarrow> bool" where
  "surely_due env q \<longleftrightarrow> (\<forall>t. scn_NextRetryAt q = Some t \<longrightarrow> (\<forall>n. t \<le> out_now env n))"

definition was_due :: "Outside \<Rightarrow> nat \<Rightarrow> ScanRecord \<Rightarrow> bool" where
  "was_due env n0 q \<longleftrightarrow> (\<forall>t. scn_NextRetryAt q = Some t \<longrightarrow> (\<exists>n\<ge>n0. t \<le> out_now env n))"

lemma claim_loop_frame:
  "claim_loop env scope p ids best st = (res, st') \<Longrightarrow>
    qs_scans st' = qs_scans st \<and> qs_scanIDs st' = qs_scanIDs st \<and> qs_events st' = qs_events st \<and> qs_reads st \<le> qs_reads st'"
proof (induction ids arbitrary: best st)
  case (Cons i ids)
  show ?case
  proof (cases "\<exists>q t. map_of (qs_scans st) i = Some q \<and> claim_candidate scope p q \<and> scn_NextRetryAt q = Some t")
    case True
    then obtain q t where q: "map_of (qs_scans st) i = Some q" "claim_candidate scope p q" "scn_NextRetryAt q = Some t" by blast
    let ?st = "st\<lparr>qs_reads := Suc (qs_reads st)\<rparr>"
    from Cons.prems q obtain b where "claim_loop env scope p ids b ?st = (res, st')"
      by (auto simp: read_clock_def split: if_splits)
    from Cons.IH [OF this] show ?thesis by simp
  next
    case False
    then obtain b where "claim_loop env scope p ids b st = (res, st')"
      using Cons.prems by (auto split: option.splits if_splits)
    from Cons.IH [OF this] show ?thesis .
  qed
qed simp

lemma better_claim_le:
  "\<exists>b. better_claim best q = Some b \<and> (b = q \<or> best = Some b) \<and> scn_StartedAt b \<le> scn_StartedAt q
    \<and> (\<forall>c. best = Some c \<longrightarrow> scn_StartedAt b \<le> scn_StartedAt c)"
  by (cases best) (auto simp: better_claim_def)

lemma claim_loop_sound:
  assumes "claim_loop env scope p ids best st = (Some r, st')"
  shows "best = Some r \<or> (\<exists>i\<in>set ids. map_of (qs_scans st) i = Some r \<and> claim_candidate scope p r \<and> was_due env (qs_reads st) r)"
  using assms
proof (induction ids arbitrary: best st)
  case (Cons i ids)
  show ?case
  proof (cases "\<exists>q. map_of (qs_scans st) i = Some q \<and> claim_candidate scope p q")
    case False
    then have "claim_loop env scope p ids best st = (Some r, st')" using Cons.prems by (auto split: option.splits if_splits)
    from Cons.IH [OF this] show ?thesis by auto
  next
    case True
    then obtain q where q: "map_of (qs_scans st) i = Some q" "claim_candidate scope p q" by blast
    from better_claim_le obtain b where b: "better_claim best q = Some b" "b = q \<or> best = Some b" by blast
    show ?thesis
    proof (cases "scn_NextRetryAt q")
      case None
      with Cons.prems q b have "claim_loop env scope p ids (Some b) st = (Some r, st')" by simp
      from Cons.IH [OF this] b q None show ?thesis by (auto simp: was_due_def)
    next
      case (Some t)
      let ?st = "st\<lparr>qs_reads := Suc (qs_reads st)\<rparr>"
      have later: "was_due env (qs_reads st) x" if "was_due env (Suc (qs_reads st)) x" for x
        using that unfolding was_due_def by (meson Suc_leD)
      show ?thesis
      proof (cases "t > out_now env (qs_reads st)")
        case True
        with Cons.prems q Some have "claim_loop env scope p ids best ?st = (Some r, st')" by (simp add: read_clock_def)
        from Cons.IH [OF this] later show ?thesis by auto
      next
        case False
        with Cons.prems q b Some have "claim_loop env scope p ids (Some b) ?st = (Some r, st')" by (simp add: read_clock_def)
        from Cons.IH [OF this] have "b = r \<or> (\<exists>j\<in>set ids. map_of (qs_scans st) j = Some r \<and> claim_candidate scope p r
          \<and> was_due env (Suc (qs_reads st)) r)" by simp
        moreover from False Some have "was_due env (qs_reads st) q" by (auto simp: was_due_def)
        ultimately show ?thesis using b q later by auto
      qed
    qed
  qed
qed simp

lemma claim_loop_best:
  assumes "claim_loop env scope p ids best st = (res, st')"
  shows "(\<forall>b. best = Some b \<longrightarrow> (\<exists>r. res = Some r \<and> scn_StartedAt r \<le> scn_StartedAt b))
    \<and> (\<forall>i\<in>set ids. \<forall>q. map_of (qs_scans st) i = Some q \<and> claim_candidate scope p q \<and> surely_due env q \<longrightarrow>
         (\<exists>r. res = Some r \<and> scn_StartedAt r \<le> scn_StartedAt q))"
  using assms
proof (induction ids arbitrary: best st)
  case (Cons i ids)
  show ?case
  proof (cases "\<exists>q. map_of (qs_scans st) i = Some q \<and> claim_candidate scope p q")
    case False
    then have "claim_loop env scope p ids best st = (res, st')" using Cons.prems by (auto split: option.splits if_splits)
    from Cons.IH [OF this] False show ?thesis by auto
  next
    case True
    then obtain q where q: "map_of (qs_scans st) i = Some q" "claim_candidate scope p q" by blast
    from better_claim_le obtain b where b: "better_claim best q = Some b" "scn_StartedAt b \<le> scn_StartedAt q"
      "\<And>c. best = Some c \<Longrightarrow> scn_StartedAt b \<le> scn_StartedAt c" by blast
    define same where "same s \<longleftrightarrow> qs_scans s = qs_scans st" for s :: ScanStore
    consider
        (taken) s where "same s" "claim_loop env scope p ids (Some b) s = (res, st')"
      | (waits) s where "same s" "claim_loop env scope p ids best s = (res, st')" "\<not> surely_due env q"
    proof (cases "scn_NextRetryAt q")
      case None
      with Cons.prems q b(1) have "claim_loop env scope p ids (Some b) st = (res, st')" by simp
      with taken [of st] show ?thesis by (simp add: same_def)
    next
      case (Some t)
      let ?st = "st\<lparr>qs_reads := Suc (qs_reads st)\<rparr>"
      show ?thesis
      proof (cases "t > out_now env (qs_reads st)")
        case True
        then have "\<not> t \<le> out_now env (qs_reads st)" by simp
        with Some have "\<not> surely_due env q" unfolding surely_due_def by blast
        moreover from True Cons.prems q Some have "claim_loop env scope p ids best ?st = (res, st')" by (simp add: read_clock_def)
        ultimately show ?thesis using waits [of ?st] by (simp add: same_def)
      next
        case False
        with Cons.prems q b(1) Some have "claim_loop env scope p ids (Some b) ?st = (res, st')" by (simp add: read_clock_def)
        with taken [of ?st] show ?thesis by (simp add: same_def)
      qed
    qed
    then obtain s b' where s: "same s" "claim_loop env scope p ids b' s = (res, st')"
        "\<And>c. best = Some c \<Longrightarrow> \<exists>d. b' = Some d \<and> scn_StartedAt d \<le> scn_StartedAt c"
        "surely_due env q \<Longrightarrow> \<exists>d. b' = Some d \<and> scn_StartedAt d \<le> scn_StartedAt q"
      by cases (use b in auto)
    have best': "\<exists>r. res = Some r \<and> scn_StartedAt r \<le> k" if "\<exists>d. b' = Some d \<and> scn_StartedAt d \<le> k" for k
    proof -
      from that obtain d where d: "b' = Some d" "scn_StartedAt d \<le> k" by blast
      with conjunct1 [OF Cons.IH [OF s(2)]] obtain r where "res = Some r" "scn_StartedAt r \<le> scn_StartedAt d" by blast
      with d(2) show ?thesis by force
    qed
    note IH = conjunct2 [OF Cons.IH [OF s(2)], unfolded s(1) [unfolded same_def]]
    show ?thesis
    proof (intro conjI allI ballI impI)
      fix c
      assume "best = Some c"
      from best' [OF s(3) [OF this]] show "\<exists>r. res = Some r \<and> scn_StartedAt r \<le> scn_StartedAt c" .
    next
      fix j q'
      assume j: "j \<in> set (i # ids)" "map_of (qs_scans st) j = Some q' \<and> claim_candidate scope p q' \<and> surely_due env q'"
      show "\<exists>r. res = Some r \<and> scn_StartedAt r \<le> scn_StartedAt q'"
      proof (cases "j = i")
        case True
        with j(2) q(1) have "q' = q" by simp
        with j(2) best' [OF s(4)] show ?thesis by simp
      next
        case False
        with j(1) have "j \<in> set ids" by simp
        with j(2) IH show ?thesis by blast
      qed
    qed
  qed
qed simp

definition run_record :: "ScanRecord \<Rightarrow> ScanRecord" where
  "run_record q = q\<lparr>scn_Status := ''running'', scn_FinishedAt := None, scn_ErrorMessage := '''',
     scn_FailureCategory := '''', scn_NextRetryAt := None\<rparr>"

lemma claim_cases:
  assumes "queue_ok env st"
  shows "case claimNextQueuedScanLocked env scope provider st of
      (Inr r, st') \<Rightarrow> \<exists>q. map_of (qs_scans st) (scn_ID r) = Some q \<and> claim_candidate scope (trim_space provider) q
        \<and> was_due env (qs_reads st) q \<and> r = run_record q
        \<and> qs_scans st' = map_put (scn_ID r) r (qs_scans st) \<and> qs_scanIDs st' = qs_scanIDs st \<and> qs_events st' = qs_events st
        \<and> qs_reads st \<le> qs_reads st' \<and> queue_ok env st'
        \<and> (\<forall>i q'. map_of (qs_scans st) i = Some q' \<and> claim_candidate scope (trim_space provider) q' \<and> surely_due env q' \<longrightarrow>
             scn_StartedAt q \<le> scn_StartedAt q')
    | (Inl e, st') \<Rightarrow> e = Sentinel ErrNotFound \<and> qs_scans st' = qs_scans st \<and> qs_scanIDs st' = qs_scanIDs st
        \<and> qs_events st' = qs_events st \<and> qs_reads st \<le> qs_reads st' \<and> queue_ok env st'
        \<and> (\<forall>i q'. map_of (qs_scans st) i = Some q' \<and> claim_candidate scope (trim_space provider) q' \<longrightarrow> \<not> surely_due env q')"
proof -
  obtain res st1 where loop: "claim_loop env scope (trim_space provider) (qs_scanIDs st) None st = (res, st1)"
    by (metis surj_pair)
  note frame = claim_loop_frame [OF loop]
  then have ok1: "queue_ok env st1" using queue_ok_same [OF assms] by blast
  have ids: "i \<in> set (qs_scanIDs st)" if "map_of (qs_scans st) i = Some q'" for i q'
    using assms that by (auto simp: queue_ok_def dest!: map_of_SomeD intro: rev_image_eqI)
  note best = claim_loop_best [OF loop]
  show ?thesis
  proof (cases res)
    case None
    with loop have c: "claimNextQueuedScanLocked env scope provider st = (Inl (Sentinel ErrNotFound), st1)"
      by (simp add: claimNextQueuedScanLocked_def)
    from best ids None have "\<forall>i q'. map_of (qs_scans st) i = Some q' \<and> claim_candidate scope (trim_space provider) q' \<longrightarrow> \<not> surely_due env q'"
      by blast
    with c frame ok1 show ?thesis by auto
  next
    case (Some q)
    with claim_loop_sound [of env scope "trim_space provider" "qs_scanIDs st" None st q st1] loop obtain i where
      q: "map_of (qs_scans st) i = Some q" "claim_candidate scope (trim_space provider) q" "was_due env (qs_reads st) q" by auto
    from queue_ok_lookup [OF assms q(1)] have qid: "scn_ID q = i" "scan_record_ok q" by auto
    have c: "claimNextQueuedScanLocked env scope provider st = (Inr (run_record q), put_scan (run_record q) st1)"
      using loop Some by (simp add: claimNextQueuedScanLocked_def run_record_def Let_def)
    have "scan_record_ok (run_record q)" using qid q(2) by (simp add: scan_record_ok_def run_record_def claim_candidate_def)
    then have "queue_ok env (put_scan (run_record q) st1)"
      using frame qid q(1) by (intro queue_ok_update [OF ok1, of i q "run_record q"]) (simp_all add: put_scan_def run_record_def)
    moreover from best ids Some
    have "\<forall>i q'. map_of (qs_scans st) i = Some q' \<and> claim_candidate scope (trim_space provider) q' \<and> surely_due env q' \<longrightarrow>
             scn_StartedAt q \<le> scn_StartedAt q'" by blast
    moreover have "scn_ID (run_record q) = i" using qid by (simp add: run_record_def)
    ultimately show ?thesis using q frame by (auto simp: c put_scan_def)
  qed
qed

lemma claims_ok:
  assumes "queue_ok env st"
  shows "queue_ok env (snd (ClaimNextQueuedScanAnyScope env provider st))" "queue_ok env (snd (ClaimNextQueuedScan env ctx provider st))"
proof -
  have "queue_ok env (snd (claimNextQueuedScanLocked env scope provider st))" for scope
    using claim_cases [OF assms, of scope provider] by (auto split: prod.splits sum.splits)
  with assms show "queue_ok env (snd (ClaimNextQueuedScanAnyScope env provider st))" "queue_ok env (snd (ClaimNextQueuedScan env ctx provider st))"
    by (auto simp: ClaimNextQueuedScanAnyScope_def ClaimNextQueuedScan_def split: sum.splits)
qed

lemma queue_step_ok: "queue_step env st st' \<Longrightarrow> inj (out_uuid env) \<Longrightarrow> queue_ok env st \<Longrightarrow> queue_ok env st'"
proof (induction rule: queue_step.induct)
  case (event st ctx scanID level message metadata)
  from queue_ok_same [OF event(2) AppendScanEvent_frame [OF prod.collapse [symmetric]]] show ?case .
qed (simp_all add: CreateScan_ok queueing_ok claims_ok BindScanSource_ok ending_ok)

lemma empty_scans_ok: "queue_ok env empty_scans"
  by (simp add: queue_ok_def empty_scans_def)

subsection \<open>The bound of the queue\<close>

lemma count_scans_new:
  assumes "qs_scans st' = map_put (scn_ID r) r (qs_scans st)" "scn_ID r \<notin> fst ` set (qs_scans st)"
  shows "count_scans P st' = count_scans P st + (if P r then 1 else 0)"
  using assms by (simp add: count_scans_def map_put_fresh has_key_dom)

lemma new_scan_counts:
  assumes "RequireScope ctx = Inr scope"
    and "scn_TenantID r = sc_TenantID (Normalize_Scope scope)" "scn_WorkspaceID r = sc_WorkspaceID (Normalize_Scope scope)"
    and "scn_ProjectID r = trim_space (src_ProjectID (Normalize_ScanSource source))"
    and "scn_ConnectorID r = trim_space (src_ConnectorID (Normalize_ScanSource source))"
    and "scn_Provider r = trim_space provider" "scn_Status r = ''queued''" "\<not> scn_DeadLettered r"
  shows "counts_queued scope (trim_space provider) (Normalize_ScanSource source) r"
    "counts_pending scope (trim_space provider) (Normalize_ScanSource source) r"
proof -
  have m: "MatchScope scope (scn_TenantID r) (scn_WorkspaceID r)"
    using assms(2,3) by (simp add: MatchScope_def Let_def)
  have s: "scanSourceMatches r (Normalize_ScanSource source)"
    using assms(4,5) by (simp add: scanSourceMatches_def Normalize_ScanSource_def)
  show "counts_queued scope (trim_space provider) (Normalize_ScanSource source) r"
    "counts_pending scope (trim_space provider) (Normalize_ScanSource source) r"
    using m s assms(6-8) by (simp_all add: counts_queued_def counts_pending_def provider_matches_def)
qed

text \<open>A queued scan is found under its identifier, the counts grow by one, and no other record changes.\<close>

definition queued_one :: "Context \<Rightarrow> ScanRecord \<Rightarrow> ScanStore \<Rightarrow> ScanStore \<Rightarrow> bool" where
  "queued_one ctx r st st' \<longleftrightarrow> scn_Status r = ''queued'' \<and> map_of (qs_scans st) (scn_ID r) = None
    \<and> GetScan ctx (scn_ID r) st' = Inr r \<and> map_of (qs_scans st') = (map_of (qs_scans st))(scn_ID r \<mapsto> r)"

lemma queue_scan_counts:
  assumes "queue_ok env st" "inj (out_uuid env)" "RequireScope ctx = Inr scope"
    and "queue_scan env ctx scope provider (Normalize_ScanSource source) queuedAt st = (res, st')"
  shows "\<exists>r. res = Inr r \<and> queued_one ctx r st st'
    \<and> count_scans (counts_queued scope (trim_space provider) (Normalize_ScanSource source)) st' =
        Suc (count_scans (counts_queued scope (trim_space provider) (Normalize_ScanSource source)) st)
    \<and> count_scans (counts_pending scope (trim_space provider) (Normalize_ScanSource source)) st' =
        Suc (count_scans (counts_pending scope (trim_space provider) (Normalize_ScanSource source)) st)"
  using assms(4)
proof (rule queue_scan_facts)
  fix r
  assume r: "res = Inr r" "scn_ID r = out_uuid env (qs_reads st)" "qs_scans st' = map_put (scn_ID r) r (qs_scans st)"
    "qs_scanIDs st' = qs_scanIDs st @ [scn_ID r]" "qs_reads st' = Suc (qs_reads st)"
    "scn_TenantID r = sc_TenantID (Normalize_Scope scope)" "scn_WorkspaceID r = sc_WorkspaceID (Normalize_Scope scope)"
    "scn_ProjectID r = trim_space (src_ProjectID (Normalize_ScanSource source))"
    "scn_ConnectorID r = trim_space (src_ConnectorID (Normalize_ScanSource source))"
    "scn_Provider r = trim_space provider" "scn_Status r = ''queued''" "\<not> scn_DeadLettered r" "scan_record_ok r"
  note fresh = queue_ok_new(2) [OF assms(1,2) r(2,13,3-5)]
  note counts = new_scan_counts [OF assms(3) r(6-12)]
  have "MatchScope scope (scn_TenantID r) (scn_WorkspaceID r)" using counts(1) by (simp add: counts_queued_def)
  with r(3) assms(3) have "GetScan ctx (scn_ID r) st' = Inr r" by (simp add: GetScan_def scan_in_scope_def)
  moreover from fresh have "map_of (qs_scans st) (scn_ID r) = None" by (simp add: map_of_eq_None_iff)
  ultimately show ?thesis
    using r(1,3,11) counts count_scans_new [OF r(3) fresh] by (intro exI [of _ r]) (simp add: queued_one_def)
qed

subsection \<open>Properties\<close>


definition sample_outside :: Outside where
  "sample_outside = \<lparr>out_uuid = (\<lambda>n. replicate n CHR ''u''), out_now = (\<lambda>n. int n), out_ctx_err = (\<lambda>_. None)\<rparr>"

definition sample_ctx :: Context where
  "sample_ctx = WithScope None \<lparr>sc_TenantID = ''acme'', sc_WorkspaceID = ''prod''\<rparr>"

lemma sample_outside_inj: "inj (out_uuid sample_outside)"
  by (auto simp: sample_outside_def inj_def dest: arg_cong [where f = length])


text \<open>
  C15: A claim takes a queued scan that is due, in the scope and of the provider asked for, marks it running
  and changes no other record. No scan that certainly is due started earlier, and when none is claimed there is
  none. Two claims never return the same scan, as long as nothing queues it again between them.
\<close>

theorem claim_takes_oldest_due:
  assumes "queue_ok env st"
  shows "case claimNextQueuedScanLocked env scope provider st of
      (Inr r, st') \<Rightarrow>
        (\<exists>q. map_of (qs_scans st) (scn_ID r) = Some q \<and> r = run_record q
          \<and> claim_candidate scope (trim_space provider) q \<and> was_due env (qs_reads st) q
          \<and> (\<forall>i q'. map_of (qs_scans st) i = Some q' \<and> claim_candidate scope (trim_space provider) q' \<and> surely_due env q' \<longrightarrow>
               scn_StartedAt q \<le> scn_StartedAt q'))
        \<and> map_of (qs_scans st') = (map_of (qs_scans st))(scn_ID r \<mapsto> r)
        \<and> (\<forall>scope' provider' r' st''. claimNextQueuedScanLocked env scope' provider' st' = (Inr r', st'') \<longrightarrow> scn_ID r' \<noteq> scn_ID r)
    | (Inl e, st') \<Rightarrow> e = Sentinel ErrNotFound \<and> qs_scans st' = qs_scans st
        \<and> (\<forall>i q'. map_of (qs_scans st) i = Some q' \<and> claim_candidate scope (trim_space provider) q' \<longrightarrow> \<not> surely_due env q')"
proof -
  obtain res st' where c: "claimNextQueuedScanLocked env scope provider st = (res, st')" by (metis surj_pair)
  note cases = claim_cases [OF assms, of scope provider, unfolded c]
  show ?thesis
  proof (cases res)
    case (Inl e)
    with cases show ?thesis by (auto simp: c)
  next
    case (Inr r)
    with cases have ok: "queue_ok env st'" and put: "qs_scans st' = map_put (scn_ID r) r (qs_scans st)"
      and running: "scn_Status r = ''running''" by (auto simp: run_record_def)
    have "scn_ID r' \<noteq> scn_ID r" if "claimNextQueuedScanLocked env scope' provider' st' = (Inr r', st'')" for scope' provider' r' st''
    proof
      assume "scn_ID r' = scn_ID r"
      with claim_cases [OF ok, of scope' provider'] that put have "claim_candidate scope' (trim_space provider') r" by auto
      with running show False by (simp add: claim_candidate_def)
    qed
    with Inr cases put show ?thesis by (auto simp: c)
  qed
qed

definition sample_queue :: ScanStore where
  "sample_queue = snd (CreateQueuedScan sample_outside sample_ctx ''aws'' 4
     (snd (CreateQueuedScan sample_outside sample_ctx ''aws'' 5 empty_scans)))"

lemma sample_queue_ok: "queue_ok sample_outside sample_queue"
  unfolding sample_queue_def CreateQueuedScan_def
  by (intro queueing_ok(1) empty_scans_ok sample_outside_inj)

text \<open>Of two queued scans the one that started first is claimed, then the other, then none.\<close>

theorem claim_takes_oldest_due_witness:
  "\<exists>r st'. claimNextQueuedScanLocked sample_outside None ''aws'' sample_queue = (Inr r, st') \<and> scn_StartedAt r = 4
     \<and> map_of (qs_scans st') = (map_of (qs_scans sample_queue))(scn_ID r \<mapsto> r)"
proof -
  have "case claimNextQueuedScanLocked sample_outside None ''aws'' sample_queue of
      (Inr r, st') \<Rightarrow> scn_StartedAt r = 4 | (Inl _, st') \<Rightarrow> False" by code_simp
  with claim_takes_oldest_due [OF sample_queue_ok, of None "''aws''"] show ?thesis
    by (cases "claimNextQueuedScanLocked sample_outside None ''aws'' sample_queue") (auto split: sum.splits)
qed

text \<open>
  C40: The queue is bounded. A scan is queued within a limit exactly when fewer than that many (one, for a limit
  that is not positive) matching scans are queued, and without a limit exactly when no matching scan is
  queued or running; the counts then grow by one and no other record changes. A refused request changes nothing.
\<close>

theorem queue_is_bounded:
  assumes "queue_ok env st" "inj (out_uuid env)"
    and "CountQueuedScansWithSource ctx provider source st = Inr n" "CountPendingScansWithSource ctx provider source st = Inr m"
  shows "(case CreateQueuedScanWithinLimitWithSource env ctx provider source queuedAt maxPending st of
            (Inr r, st') \<Rightarrow> n < max 1 maxPending \<and> queued_one ctx r st st'
              \<and> CountQueuedScansWithSource ctx provider source st' = Inr (n + 1)
          | (Inl e, st') \<Rightarrow> e = Sentinel ErrQueueLimitReached \<and> max 1 maxPending \<le> n \<and> st' = st)
    \<and> (case CreateQueuedScanIfNoPendingWithSource env ctx provider source queuedAt st of
            (Inr r, st') \<Rightarrow> m = 0 \<and> queued_one ctx r st st' \<and> CountPendingScansWithSource ctx provider source st' = Inr 1
          | (Inl e, st') \<Rightarrow> e = Sentinel ErrPendingScanExists \<and> 0 < m \<and> st' = st)"
proof -
  from assms(3) obtain scope where s: "RequireScope ctx = Inr scope"
    by (cases "RequireScope ctx") (auto simp: CountQueuedScansWithSource_def)
  let ?src = "Normalize_ScanSource source" and ?p = "trim_space provider"
  have idem: "Normalize_ScanSource ?src = ?src" by (simp add: Normalize_ScanSource_def)
  from assms(3,4) s have n: "n = int (count_scans (counts_queued scope ?p ?src) st)"
    and m: "m = int (count_scans (counts_pending scope ?p ?src) st)"
    by (simp_all add: CountQueuedScansWithSource_def CountPendingScansWithSource_def)
  obtain res st' where q: "queue_scan env ctx scope provider ?src queuedAt st = (res, st')" by (metis surj_pair)
  from queue_scan_counts [OF assms(1,2) s q] obtain r where r: "res = Inr r" "queued_one ctx r st st'"
    "count_scans (counts_queued scope ?p ?src) st' = Suc (count_scans (counts_queued scope ?p ?src) st)"
    "count_scans (counts_pending scope ?p ?src) st' = Suc (count_scans (counts_pending scope ?p ?src) st)" by blast
  have pend: "list_ex (\<lambda>(_, record). counts_pending scope ?p ?src record) (qs_scans st) \<longleftrightarrow> 0 < m"
    by (auto simp: m count_scans_def list_ex_iff filter_empty_conv split_beta)
  show ?thesis
    using q r n m pend by (simp add: CreateQueuedScanWithinLimitWithSource_def CreateQueuedScanIfNoPendingWithSource_def s
      CountQueuedScansWithSource_def CountPendingScansWithSource_def Let_def)
qed

text \<open>One scan is queued: a second one fits a limit of two, but not one of one.\<close>

theorem queue_is_bounded_witness:
  "(let st = snd (CreateQueuedScan sample_outside sample_ctx ''aws'' 5 empty_scans) in
     CreateQueuedScanWithinLimitWithSource sample_outside sample_ctx ''aws'' no_source 6 1 st = (Inl (Sentinel ErrQueueLimitReached), st)
     \<and> (\<exists>r st'. CreateQueuedScanWithinLimitWithSource sample_outside sample_ctx ''aws'' no_source 6 2 st = (Inr r, st')
         \<and> CountQueuedScansWithSource sample_ctx ''aws'' no_source st' = Inr 2))"
proof -
  let ?st = "snd (CreateQueuedScan sample_outside sample_ctx ''aws'' 5 empty_scans)"
  have ok: "queue_ok sample_outside ?st"
    unfolding CreateQueuedScan_def by (intro queueing_ok(1) empty_scans_ok sample_outside_inj)
  have n: "CountQueuedScansWithSource sample_ctx ''aws'' no_source ?st = Inr 1"
    and m: "CountPendingScansWithSource sample_ctx ''aws'' no_source ?st = Inr 1" by code_simp+
  note bounded = queue_is_bounded [OF ok sample_outside_inj n m]
  have "CreateQueuedScanWithinLimitWithSource sample_outside sample_ctx ''aws'' no_source 6 1 ?st = (Inl (Sentinel ErrQueueLimitReached), ?st)"
    using bounded [where queuedAt = 6 and maxPending = 1, THEN conjunct1] by (auto split: prod.splits sum.splits)
  moreover have "\<exists>r st'. CreateQueuedScanWithinLimitWithSource sample_outside sample_ctx ''aws'' no_source 6 2 ?st = (Inr r, st')
         \<and> CountQueuedScansWithSource sample_ctx ''aws'' no_source st' = Inr 2"
    using bounded [where queuedAt = 6 and maxPending = 2, THEN conjunct1] by (auto split: prod.splits sum.splits)
  ultimately show ?thesis by (simp add: Let_def)
qed

end
