(* ===== verification/Scan_Source.thy ===== *)
theory Scan_Source
  imports Scan_Queue
begin

section \<open>The source and the scanner of a scan (internal/api/service.go, github_connect.go)\<close>

text \<open>
  Which project and connector a scan is for: the check of a request, and, just before a queued scan runs,
  the selection of an AWS connector, the binding of the record to it and the choice of the scanner. The store's
  projects and connectors, the AWS validation (\<^verbatim>\<open>refreshAWSConnectionForScan\<close>), the connection built from a
  connector and the scanner factory are arguments (\<open>ScanSources\<close>); connectors keep the fields read here. A
  scanner is what one run of it gives: the phases it reports (none, for one that is not \<^verbatim>\<open>PhaseAwareScanner\<close>) and
  its result. Assets and findings are of any type.
\<close>

record TenancyProject =
  tp_WorkspaceID :: string
  tp_ProjectID :: string

record TenancyConnector =
  tc_TenantID :: string
  tc_WorkspaceID :: string
  tc_ProjectID :: string
  tc_ConnectorID :: string
  tc_Type :: string
  tc_Status :: string
  tc_Disabled :: bool
  tc_UpdatedAt :: time

record TenancyConnectorWithState =
  tcs_Connector :: TenancyConnector
  tcs_State_TenantID :: string
  tcs_State_WorkspaceID :: string

record 'x ScanResult =
  res_Assets :: int
  res_RawAssets :: "'x list"
  res_SourceErrors :: "SourceError list"
  res_Bundle_Identities :: "'x list"
  res_Findings :: "'x list"

type_synonym 'x Scanner = "Context \<Rightarrow> string list \<times> 'x ScanResult result"

record ('x, 'c) ScanSources =
  so_GetProject :: "Context \<Rightarrow> string \<Rightarrow> string \<Rightarrow> TenancyProject result"
  so_GetTenancyConnector :: "Context \<Rightarrow> string \<Rightarrow> string \<Rightarrow> string \<Rightarrow> TenancyConnectorWithState result"
  so_ListTenancyConnectors :: "Context \<Rightarrow> string \<Rightarrow> string \<Rightarrow> string \<Rightarrow> int \<Rightarrow> TenancyConnectorWithState list result"
  so_ListTenancyConnectorsUnscoped :: "Context \<Rightarrow> string \<Rightarrow> int \<Rightarrow> TenancyConnectorWithState list result"
  so_ListEligible :: "(Context \<Rightarrow> string \<Rightarrow> string \<Rightarrow> string \<Rightarrow> int \<Rightarrow> TenancyConnectorWithState list result) option"
  so_ListEligibleUnscoped :: "(Context \<Rightarrow> string \<Rightarrow> int \<Rightarrow> TenancyConnectorWithState list result) option"
  so_connection :: "Context \<Rightarrow> TenancyConnectorWithState \<Rightarrow> 'c"
  so_Connected :: "'c \<Rightarrow> bool"
  so_validates :: bool
  so_refreshAWSConnection :: "Context \<Rightarrow> ScanSource \<Rightarrow> ScanSource \<times> go_error option"
  so_AWSScannerFactory :: "(Context \<Rightarrow> 'c \<Rightarrow> 'x Scanner option result) option"
  so_Scanner :: "'x Scanner"
  so_Provider :: string
  so_DefaultScope :: Scope

definition ConnectorTypeAWS :: string where
  "ConnectorTypeAWS = ''aws''"

definition ConnectorStatusDisconnected :: string where
  "ConnectorStatusDisconnected = ''disconnected''"

definition scopeContext :: "('x, 'c) ScanSources \<Rightarrow> Context \<Rightarrow> Context" where
  "scopeContext svc ctx = WithDefaultScope ctx (so_DefaultScope svc)"

subsection \<open>The source of a request\<close>

record ScanRequest =
  srq_ProjectID :: string
  srq_ConnectorID :: string

definition requireScopedProject ::
  "('x, 'c) ScanSources \<Rightarrow> Context \<Rightarrow> string \<Rightarrow> string \<Rightarrow> (TenancyProject \<times> Scope) result" where
  "requireScopedProject svc ctx workspaceID projectID =
    (let ctx = scopeContext svc ctx
     in rbind (RequireScope ctx) (\<lambda>scope.
        rbind (ResolveScopedWorkspaceID scope workspaceID) (\<lambda>normalizedWorkspaceID.
        let normalizedProjectID = trim_space projectID
        in if normalizedProjectID = '''' then Inl (Sentinel ErrInvalidGitHubConnectionRequest)
           else rbind (so_GetProject svc ctx normalizedWorkspaceID normalizedProjectID) (\<lambda>project.
             Inr (project, \<lparr>sc_TenantID = sc_TenantID scope, sc_WorkspaceID = normalizedWorkspaceID\<rparr>)))))"

text \<open>The project and the connector of a source, with the errors a scan request gives for a missing one.\<close>

definition scan_project :: "('x, 'c) ScanSources \<Rightarrow> Context \<Rightarrow> string \<Rightarrow> TenancyProject result" where
  "scan_project svc ctx projectID =
    (case requireScopedProject svc ctx '''' projectID of
       Inl err \<Rightarrow>
         (if errors_is err ErrInvalidGitHubConnectionRequest \<or> errors_is err ErrNotFound then Inl (Sentinel ErrInvalidScanRequest)
          else Inl err)
     | Inr (project, _) \<Rightarrow> Inr project)"

definition scan_connector ::
  "('x, 'c) ScanSources \<Rightarrow> Context \<Rightarrow> TenancyProject \<Rightarrow> string \<Rightarrow> TenancyConnectorWithState result" where
  "scan_connector svc ctx project connectorID =
    (case so_GetTenancyConnector svc ctx (tp_WorkspaceID project) (tp_ProjectID project) connectorID of
       Inl err \<Rightarrow> (if errors_is err ErrNotFound then Inl (Sentinel ErrInvalidScanRequest) else Inl err)
     | Inr stored \<Rightarrow>
         (if tc_Type (tcs_Connector stored) \<noteq> ConnectorTypeAWS then Inl (Sentinel ErrInvalidScanRequest) else Inr stored))"

definition resolveScanSource :: "('x, 'c) ScanSources \<Rightarrow> Context \<Rightarrow> ScanRequest \<Rightarrow> ScanSource result" where
  "resolveScanSource svc ctx request =
    (let source = Normalize_ScanSource \<lparr>src_ProjectID = srq_ProjectID request, src_ConnectorID = srq_ConnectorID request\<rparr>
     in if Empty_ScanSource source then Inr no_source
        else if norm_key (so_Provider svc) \<noteq> ConnectorTypeAWS then Inr no_source
        else if src_ProjectID source = '''' then Inl (Sentinel ErrInvalidScanRequest)
        else rbind (scan_project svc ctx (src_ProjectID source)) (\<lambda>project.
          let source = source\<lparr>src_ProjectID := tp_ProjectID project\<rparr>
          in if src_ConnectorID source = '''' then Inr source
             else rbind (scan_connector svc ctx project (src_ConnectorID source)) (\<lambda>_. Inr source)))"

subsection \<open>The selection of a connector\<close>

definition connector_eligible :: "TenancyConnectorWithState \<Rightarrow> bool" where
  "connector_eligible item =
    (\<not> (tc_Disabled (tcs_Connector item) \<or> tc_Status (tcs_Connector item) = ConnectorStatusDisconnected))"

definition filterEligibleAWSConnectors ::
  "TenancyConnectorWithState list \<Rightarrow> int \<Rightarrow> TenancyConnectorWithState list" where
  "filterEligibleAWSConnectors items limit = limit_list limit (filter connector_eligible items)"

definition listEligibleAWSConnectors ::
  "('x, 'c) ScanSources \<Rightarrow> Context \<Rightarrow> string \<Rightarrow> string \<Rightarrow> int \<Rightarrow> TenancyConnectorWithState list result" where
  "listEligibleAWSConnectors svc ctx workspaceID projectID limit =
    (case so_ListEligible svc of
       Some list_eligible \<Rightarrow> list_eligible ctx workspaceID projectID ConnectorTypeAWS limit
     | None \<Rightarrow>
        rbind (so_ListTenancyConnectors svc ctx workspaceID projectID ConnectorTypeAWS 1000)
          (\<lambda>items. Inr (filterEligibleAWSConnectors items limit)))"

definition listEligibleAWSConnectorsUnscoped ::
  "('x, 'c) ScanSources \<Rightarrow> Context \<Rightarrow> int \<Rightarrow> TenancyConnectorWithState list result" where
  "listEligibleAWSConnectorsUnscoped svc ctx limit =
    (case so_ListEligibleUnscoped svc of
       Some list_eligible \<Rightarrow> list_eligible ctx ConnectorTypeAWS limit
     | None \<Rightarrow>
        rbind (so_ListTenancyConnectorsUnscoped svc ctx ConnectorTypeAWS 1000)
          (\<lambda>items. Inr (filterEligibleAWSConnectors items limit)))"

text \<open>Newest first, the identifier decides between equal times; the sort is stable and in place.\<close>

definition sort_connectors :: "TenancyConnectorWithState list \<Rightarrow> TenancyConnectorWithState list" where
  "sort_connectors items = sort_key (\<lambda>i. (- tc_UpdatedAt (tcs_Connector i), tc_ConnectorID (tcs_Connector i))) items"

definition firstActiveAWSConnector ::
  "('x, 'c) ScanSources \<Rightarrow> Context \<Rightarrow> TenancyConnectorWithState list \<Rightarrow> TenancyConnectorWithState option" where
  "firstActiveAWSConnector svc ctx items =
    find (\<lambda>item. connector_eligible item \<and> so_Connected svc (so_connection svc ctx item)) (sort_connectors items)"

definition firstActiveAWSConnection ::
  "('x, 'c) ScanSources \<Rightarrow> Context \<Rightarrow> TenancyConnectorWithState list \<Rightarrow> 'c option" where
  "firstActiveAWSConnection svc ctx items = map_option (so_connection svc ctx) (firstActiveAWSConnector svc ctx items)"

text \<open>The scope of the selected connector, from the connector, its state row or the worker.\<close>

definition first_set :: "string \<Rightarrow> string \<Rightarrow> string" where
  "first_set a b = (if trim_space a = '''' then b else a)"

definition connector_scope :: "TenancyConnectorWithState \<Rightarrow> Scope \<Rightarrow> Scope" where
  "connector_scope item currentScope =
    Normalize_Scope
      \<lparr>sc_TenantID = first_set (first_set (tc_TenantID (tcs_Connector item)) (tcs_State_TenantID item)) (sc_TenantID currentScope),
       sc_WorkspaceID = first_set (first_set (tc_WorkspaceID (tcs_Connector item)) (tcs_State_WorkspaceID item)) (sc_WorkspaceID currentScope)\<rparr>"

text \<open>
  Without an active connector the first of the list is selected, in the order that
  \<^verbatim>\<open>firstActiveAWSConnector\<close> left it in.
\<close>

definition refreshAWSScanRecordConnection ::
  "('x, 'c) ScanSources \<Rightarrow> Context \<Rightarrow> ScanRecord \<Rightarrow> ScanSource \<times> Scope \<times> go_error option" where
  "refreshAWSScanRecordConnection svc ctx record =
    (let currentScope = ScopeFromContext ctx;
         source = Normalize_ScanSource \<lparr>src_ProjectID = scn_ProjectID record, src_ConnectorID = scn_ConnectorID record\<rparr>
     in if src_ProjectID source \<noteq> '''' then
          (let (refreshed, err) = so_refreshAWSConnection svc ctx source in (refreshed, currentScope, err))
        else if \<not> so_validates svc then (source, currentScope, None)
        else case listEligibleAWSConnectorsUnscoped svc ctx 25 of
          Inl err \<Rightarrow> (source, currentScope, Some (Wrapped ''list aws connectors for scheduled scan: '' err ''''))
        | Inr items \<Rightarrow>
            (case sort_connectors items of
               [] \<Rightarrow> (source, currentScope, None)
             | first # rest \<Rightarrow>
                (let selectedItem = (case firstActiveAWSConnector svc ctx items of Some selected \<Rightarrow> selected | None \<Rightarrow> first)
                 in if trim_space (tc_ConnectorID (tcs_Connector selectedItem)) \<noteq> '''' then
                      (let selectedScope = connector_scope selectedItem currentScope;
                           (refreshed, err) = so_refreshAWSConnection svc (WithScope ctx selectedScope)
                             \<lparr>src_ProjectID = tc_ProjectID (tcs_Connector selectedItem),
                              src_ConnectorID = tc_ConnectorID (tcs_Connector selectedItem)\<rparr>
                       in (refreshed, selectedScope, err))
                    else (source, currentScope, None))))"

definition bindAWSScanRecordSource ::
  "Context \<Rightarrow> ScanRecord \<Rightarrow> ScanSource \<Rightarrow> ScanStore \<Rightarrow> (ScanRecord \<times> Context \<times> go_error option) \<times> ScanStore" where
  "bindAWSScanRecordSource ctx record source st =
    (let normalizedSource = Normalize_ScanSource source
     in if Empty_ScanSource normalizedSource then ((record, ctx, None), st)
        else
          (let scope = ScopeFromContext ctx;
               needsBinding = (scn_ProjectID record \<noteq> src_ProjectID normalizedSource
                 \<or> scn_ConnectorID record \<noteq> src_ConnectorID normalizedSource
                 \<or> \<not> MatchScope scope (scn_TenantID record) (scn_WorkspaceID record));
               record = record\<lparr>scn_ProjectID := src_ProjectID normalizedSource, scn_ConnectorID := src_ConnectorID normalizedSource,
                 scn_TenantID := sc_TenantID scope, scn_WorkspaceID := sc_WorkspaceID scope\<rparr>
           in if \<not> needsBinding \<or> trim_space (scn_ID record) = '''' then ((record, ctx, None), st)
              else case BindScanSource ctx (scn_ID record) normalizedSource st of
                (Inl err, st) \<Rightarrow> ((record, ctx, Some (Wrapped ''bind aws scan source: '' err '''')), st)
              | (Inr bound, st) \<Rightarrow>
                  ((bound, WithScope ctx \<lparr>sc_TenantID = scn_TenantID bound, sc_WorkspaceID = scn_WorkspaceID bound\<rparr>, None), st)))"

definition activeAWSConnectionForScan :: "('x, 'c) ScanSources \<Rightarrow> Context \<Rightarrow> ScanRecord \<Rightarrow> 'c option result" where
  "activeAWSConnectionForScan svc ctx record =
    (let source = Normalize_ScanSource \<lparr>src_ProjectID = scn_ProjectID record, src_ConnectorID = scn_ConnectorID record\<rparr>
     in if src_ProjectID source \<noteq> '''' then
          rbind (scan_project svc ctx (src_ProjectID source)) (\<lambda>project.
            if src_ConnectorID source \<noteq> '''' then
              rbind (scan_connector svc ctx project (src_ConnectorID source)) (\<lambda>stored.
                if \<not> connector_eligible stored then
                  Inl (ErrorText (''aws connector '' @ quote_string (src_ConnectorID source) @ '' is disabled or disconnected''))
                else
                  (let status = so_connection svc ctx stored
                   in if \<not> so_Connected svc status then
                        Inl (ErrorText (''aws connector '' @ quote_string (src_ConnectorID source) @ '' is not active in project ''
                          @ quote_string (tp_ProjectID project)))
                      else Inr (Some status)))
            else
              (case listEligibleAWSConnectors svc ctx (tp_WorkspaceID project) (tp_ProjectID project) 25 of
                 Inl err \<Rightarrow> Inl (Wrapped ''list scoped aws connectors: '' err '''')
               | Inr items \<Rightarrow>
                  (case firstActiveAWSConnection svc ctx items of
                     None \<Rightarrow> Inl (ErrorText (''no eligible aws connector for project '' @ quote_string (tp_ProjectID project)))
                   | Some status \<Rightarrow> Inr (Some status))))
        else
          (case listEligibleAWSConnectorsUnscoped svc ctx 25 of
             Inl err \<Rightarrow> Inl (Wrapped ''list aws connectors: '' err '''')
           | Inr items \<Rightarrow> Inr (firstActiveAWSConnection svc ctx items)))"

subsection \<open>The scanner\<close>

definition scannerForScan ::
  "('x, 'c) ScanSources \<Rightarrow> Context \<Rightarrow> ScanRecord \<Rightarrow> ScanStore \<Rightarrow> ('x Scanner result \<times> ScanRecord) \<times> ScanStore" where
  "scannerForScan svc ctx record st =
    (let provider = norm_key (scn_Provider record);
         provider = (if provider = '''' then norm_key (so_Provider svc) else provider)
     in case so_AWSScannerFactory svc of
          None \<Rightarrow> ((Inr (so_Scanner svc), record), st)
        | Some factory \<Rightarrow>
           if provider \<noteq> ''aws'' then ((Inr (so_Scanner svc), record), st)
           else
             (let (refreshedSource, selectedScope, refreshErr) = refreshAWSScanRecordConnection svc ctx record;
                  selectedCtx = WithScope ctx selectedScope;
                  ((boundRecord, selectedCtx, err), st) = bindAWSScanRecordSource selectedCtx record refreshedSource st
              in case err of
                   Some err \<Rightarrow> ((Inl err, boundRecord), st)
                 | None \<Rightarrow>
                    (case refreshErr of
                       Some err \<Rightarrow> ((Inl err, boundRecord), st)
                     | None \<Rightarrow>
                        (let boundRecord = boundRecord\<lparr>scn_ProjectID := src_ProjectID refreshedSource,
                               scn_ConnectorID := src_ConnectorID refreshedSource\<rparr>
                         in case activeAWSConnectionForScan svc selectedCtx boundRecord of
                              Inl err \<Rightarrow> ((Inl err, boundRecord), st)
                            | Inr None \<Rightarrow> ((Inr (so_Scanner svc), boundRecord), st)
                            | Inr (Some connection) \<Rightarrow>
                               (case factory selectedCtx connection of
                                  Inl err \<Rightarrow> ((Inl (Wrapped ''initialize aws connector scanner: '' err ''''), boundRecord), st)
                                | Inr None \<Rightarrow>
                                   ((Inl (ErrorText ''aws connector scanner factory returned nil scanner''), boundRecord), st)
                                | Inr (Some scanner) \<Rightarrow> ((Inr scanner, boundRecord), st))))))"

end
