(* ===== verification/Scheduler.thy ===== *)
theory Scheduler
  imports Go_Base
begin

section \<open>Locks and the periodic runner (internal/scheduler/lock.go, runner.go)\<close>

text \<open>
  A keyed lock that guards scans and scheduled triggers, and the runner that calls a trigger on every
  tick, at most one run per key at a time, with retries and backoff. A successful \<^verbatim>\<open>TryAcquire\<close>
  returns a closure with its own \<^verbatim>\<open>released\<close> flag; the model numbers the closures in the order they
  are created, and \<open>lk_handles\<close> holds the key and the flag of each. The mutex makes every call atomic.
  The trigger, the callbacks and the lock are arguments of the runner's functions: the trigger gets the
  number of the attempt and the state of the world. Whether the context is done while the runner waits
  is an argument too (\<open>done_at\<close>). Durations are nanoseconds.
\<close>

subsection \<open>The interface of a keyed lock\<close>

text \<open>
  What the runner relies on: an acquired key is held until its handle is released, a held key cannot be
  acquired, and a release frees the handle's key and no other. Two keys with the same name are one lock.
\<close>

locale keyed_lock =
  fixes acquire :: "'l \<Rightarrow> string \<Rightarrow> ('h \<times> 'l) option"
    and release :: "'h \<Rightarrow> 'l \<Rightarrow> 'l"
    and name :: "string \<Rightarrow> string"
    and held :: "'l \<Rightarrow> string \<Rightarrow> bool"
    and owner :: "'l \<Rightarrow> 'h \<Rightarrow> string \<Rightarrow> bool"
    and inv :: "'l \<Rightarrow> bool"
  assumes acquire_None: "acquire l k = None \<longleftrightarrow> held l k"
    and acquire_held: "inv l \<Longrightarrow> acquire l k = Some (h, l') \<Longrightarrow>
      inv l' \<and> owner l' h k \<and> (\<forall>j. held l' j \<longleftrightarrow> name j = name k \<or> held l j)"
    and release_frees: "inv l \<Longrightarrow> owner l h k \<Longrightarrow>
      inv (release h l) \<and> (\<forall>j. held (release h l) j \<longleftrightarrow> name j \<noteq> name k \<and> held l j)"
    and held_name: "name j = name k \<Longrightarrow> held l j = held l k"
begin

text \<open>A run bracketed by acquire and release leaves the set of held keys as it was.\<close>

lemma bracket_restores:
  assumes "inv l" "acquire l k = Some (h, l')"
  shows "inv (release h l')" "held (release h l') j \<longleftrightarrow> held l j"
proof -
  from acquire_held [OF assms] have a: "inv l'" "owner l' h k" "\<And>j. held l' j \<longleftrightarrow> name j = name k \<or> held l j" by blast+
  from assms(2) acquire_None have "\<not> held l k" by (metis option.distinct(1))
  then have "name j = name k \<Longrightarrow> \<not> held l j" using held_name by blast
  with release_frees [OF a(1,2)] a(3) show "inv (release h l')" "held (release h l') j \<longleftrightarrow> held l j" by auto
qed

lemma excluded_while_held:
  assumes "inv l" "acquire l k = Some (h, l')" "name j = name k"
  shows "acquire l' j = None"
  using acquire_held [OF assms(1,2)] assms(3) by (simp add: acquire_None)

end

subsection \<open>The in-memory lock\<close>

record InMemoryLocker =
  lk_locks :: "string list"
  lk_handles :: "(string \<times> bool) list"

definition NewInMemoryLocker :: InMemoryLocker where
  "NewInMemoryLocker = \<lparr>lk_locks = [], lk_handles = []\<rparr>"

definition lock_name :: "string \<Rightarrow> string" where
  "lock_name key = (if key = '''' then ''default'' else key)"

definition TryAcquire :: "InMemoryLocker \<Rightarrow> string \<Rightarrow> (nat \<times> InMemoryLocker) option" where
  "TryAcquire l key =
    (if lock_name key \<in> set (lk_locks l) then None
     else Some (length (lk_handles l),
       l\<lparr>lk_locks := lock_name key # lk_locks l, lk_handles := lk_handles l @ [(lock_name key, False)]\<rparr>))"

text \<open>The closure: a second call does nothing.\<close>

definition Release :: "nat \<Rightarrow> InMemoryLocker \<Rightarrow> InMemoryLocker" where
  "Release h l =
    (if h < length (lk_handles l) then
       let (key, released) = lk_handles l ! h
       in if released then l
          else l\<lparr>lk_locks := removeAll key (lk_locks l), lk_handles := (lk_handles l)[h := (key, True)]\<rparr>
     else l)"

inductive lock_step :: "InMemoryLocker \<Rightarrow> InMemoryLocker \<Rightarrow> bool" where
  acquired: "TryAcquire l key = Some (h, l') \<Longrightarrow> lock_step l l'"
| released: "h < length (lk_handles l) \<Longrightarrow> lock_step l (Release h l)"

definition live_keys :: "InMemoryLocker \<Rightarrow> string list" where
  "live_keys l = map fst (filter (\<lambda>(k, released). \<not> released) (lk_handles l))"

text \<open>The locked keys are the keys of the handles not released yet, each once.\<close>

definition locker_ok :: "InMemoryLocker \<Rightarrow> bool" where
  "locker_ok l \<longleftrightarrow> distinct (live_keys l) \<and> set (live_keys l) = set (lk_locks l)"

lemma live_key_at: "h < length (lk_handles l) \<Longrightarrow> lk_handles l ! h = (k, False) \<Longrightarrow> k \<in> set (live_keys l)"
  by (force simp: live_keys_def in_set_conv_nth)

lemma live_keys_release:
  assumes "h < length hs" "hs ! h = (k, False)" "distinct (map fst (filter (\<lambda>(k, r). \<not> r) hs))"
  shows "map fst (filter (\<lambda>(k, r). \<not> r) (hs[h := (k, True)])) = removeAll k (map fst (filter (\<lambda>(k, r). \<not> r) hs))"
  using assms
proof (induction hs arbitrary: h)
  case (Cons x hs)
  obtain j r where x: "x = (j, r)" by (cases x)
  show ?case
  proof (cases h)
    case 0
    with Cons.prems x have "k \<notin> set (map fst (filter (\<lambda>(k, r). \<not> r) hs))" by simp
    with 0 Cons.prems x show ?thesis by (simp only: removeAll_id list_update_code nth_Cons_0) simp
  next
    case (Suc i)
    with Cons.prems have i: "i < length hs" "hs ! i = (k, False)" by simp_all
    then have "(k, False) \<in> set hs" by (metis nth_mem)
    then have "k \<in> set (map fst (filter (\<lambda>(k, r). \<not> r) hs))" by force
    with Cons.prems x have "r \<or> j \<noteq> k" by (cases r) auto
    with Cons.IH [OF i] Cons.prems x Suc show ?thesis by (cases r) simp_all
  qed
qed simp

lemma TryAcquire_ok:
  assumes "locker_ok l" "TryAcquire l key = Some (h, l')"
  shows "locker_ok l'" "h = length (lk_handles l)" "lk_handles l' = lk_handles l @ [(lock_name key, False)]"
    "lk_locks l' = lock_name key # lk_locks l" "lock_name key \<notin> set (lk_locks l)"
proof -
  from assms(2) show "h = length (lk_handles l)" "lk_handles l' = lk_handles l @ [(lock_name key, False)]"
    "lk_locks l' = lock_name key # lk_locks l" "lock_name key \<notin> set (lk_locks l)"
    by (auto simp: TryAcquire_def split: if_splits)
  then have "live_keys l' = live_keys l @ [lock_name key]" "lk_locks l' = lock_name key # lk_locks l"
    "lock_name key \<notin> set (lk_locks l)" by (simp_all add: live_keys_def)
  with assms(1) show "locker_ok l'" by (simp add: locker_ok_def)
qed

lemma Release_ok:
  assumes "locker_ok l"
  shows "locker_ok (Release h l)"
    and "h < length (lk_handles l) \<Longrightarrow> lk_handles l ! h = (k, False) \<Longrightarrow> set (lk_locks (Release h l)) = set (lk_locks l) - {k}"
proof -
  have live: "live_keys (Release h l) = removeAll k (live_keys l)" "set (lk_locks (Release h l)) = set (lk_locks l) - {k}"
    if "h < length (lk_handles l)" "lk_handles l ! h = (k, False)" for k
    using live_keys_release [OF that] assms that by (auto simp: Release_def live_keys_def locker_ok_def)
  then show "h < length (lk_handles l) \<Longrightarrow> lk_handles l ! h = (k, False) \<Longrightarrow> set (lk_locks (Release h l)) = set (lk_locks l) - {k}"
    by blast
  show "locker_ok (Release h l)"
  proof (cases "h < length (lk_handles l) \<and> \<not> snd (lk_handles l ! h)")
    case True
    then have at: "h < length (lk_handles l)" "lk_handles l ! h = (fst (lk_handles l ! h), False)" by (auto simp: prod_eq_iff)
    from live [OF at] assms show ?thesis by (auto simp: locker_ok_def distinct_removeAll)
  next
    case False
    with assms show ?thesis by (auto simp: Release_def Let_def split: prod.splits)
  qed
qed

lemma lock_step_ok: "lock_step l l' \<Longrightarrow> locker_ok l \<Longrightarrow> locker_ok l'"
  by (induction rule: lock_step.induct) (auto intro: Release_ok TryAcquire_ok(1))

lemma NewInMemoryLocker_ok: "locker_ok NewInMemoryLocker"
  by (simp add: locker_ok_def live_keys_def NewInMemoryLocker_def)

lemma lock_reachable_ok: "lock_step\<^sup>*\<^sup>* NewInMemoryLocker l \<Longrightarrow> locker_ok l"
proof (induction rule: rtranclp_induct)
  case base
  show ?case by (rule NewInMemoryLocker_ok)
next
  case (step l l')
  from lock_step_ok [OF step(2,3)] show ?case .
qed

definition owns_key :: "InMemoryLocker \<Rightarrow> nat \<Rightarrow> string \<Rightarrow> bool" where
  "owns_key l h key \<longleftrightarrow> h < length (lk_handles l) \<and> lk_handles l ! h = (lock_name key, False)"

definition locked_key :: "InMemoryLocker \<Rightarrow> string \<Rightarrow> bool" where
  "locked_key l key \<longleftrightarrow> lock_name key \<in> set (lk_locks l)"

lemma memory_lock_laws:
  "TryAcquire l k = None \<longleftrightarrow> locked_key l k"
  "locker_ok l \<Longrightarrow> TryAcquire l k = Some (h, l') \<Longrightarrow>
     locker_ok l' \<and> owns_key l' h k \<and> (\<forall>j. locked_key l' j \<longleftrightarrow> lock_name j = lock_name k \<or> locked_key l j)"
  "locker_ok l \<Longrightarrow> owns_key l h k \<Longrightarrow>
     locker_ok (Release h l) \<and> (\<forall>j. locked_key (Release h l) j \<longleftrightarrow> lock_name j \<noteq> lock_name k \<and> locked_key l j)"
proof -
  show "TryAcquire l k = None \<longleftrightarrow> locked_key l k" by (simp add: TryAcquire_def locked_key_def)
  show "locker_ok l' \<and> owns_key l' h k \<and> (\<forall>j. locked_key l' j \<longleftrightarrow> lock_name j = lock_name k \<or> locked_key l j)"
    if "locker_ok l" "TryAcquire l k = Some (h, l')"
    using TryAcquire_ok [OF that] by (auto simp: owns_key_def locked_key_def)
  show "locker_ok (Release h l) \<and> (\<forall>j. locked_key (Release h l) j \<longleftrightarrow> lock_name j \<noteq> lock_name k \<and> locked_key l j)"
    if "locker_ok l" "owns_key l h k"
    using Release_ok [OF that(1)] that(2) by (auto simp: owns_key_def locked_key_def)
qed

interpretation memory_lock: keyed_lock TryAcquire Release lock_name locked_key owns_key locker_ok
  by unfold_locales (fact memory_lock_laws, fact memory_lock_laws, fact memory_lock_laws, simp add: locked_key_def)

subsection \<open>The runner\<close>

text \<open>
  The runner acts on a state of its surroundings: the lock, what the trigger changes, the callbacks and
  the clock. \<^verbatim>\<open>Locker\<close> is an interface: a successful acquisition returns the closure that releases.
\<close>

type_synonym 's Locker = "string \<Rightarrow> 's \<Rightarrow> ('s \<Rightarrow> 's) option \<times> 's"

record 's Runner =
  ru_interval :: int
  ru_key :: string
  ru_locker :: "'s Locker option"
  ru_trigger :: "('s \<Rightarrow> go_error option \<times> 's) option"
  ru_max_attempts :: int
  ru_retry_backoff :: int
  ru_on_dead_letter :: "(go_error \<Rightarrow> 's \<Rightarrow> 's) option"
  ru_on_error :: "(go_error \<Rightarrow> 's \<Rightarrow> 's) option"

definition nanos_per_second :: int where
  "nanos_per_second = 1000000000"

definition runner_key :: "'s Runner \<Rightarrow> string" where
  "runner_key r = (if ru_key r = '''' then ''scan'' else ru_key r)"

definition runner_attempts :: "'s Runner \<Rightarrow> nat" where
  "runner_attempts r = (if ru_max_attempts r \<le> 0 then 1 else nat (ru_max_attempts r))"

definition runner_backoff :: "'s Runner \<Rightarrow> int" where
  "runner_backoff r = (if ru_retry_backoff r \<le> 0 then nanos_per_second else ru_retry_backoff r)"

definition next_backoff :: "int \<Rightarrow> int" where
  "next_backoff backoff =
    (let doubled = wrap64 (backoff * 2)
     in if doubled > 30 * nanos_per_second then 30 * nanos_per_second else doubled)"

text \<open>
  \<open>wait d\<close> is the \<^verbatim>\<open>select\<close> on a timer of \<open>d\<close> and \<^verbatim>\<open>ctx.Done()\<close>: the error of the context when
  that case is taken. \<open>left\<close> is the number of attempts after this one.
\<close>

datatype attempt_end = Returned "go_error option" | Exhausted go_error

fun run_attempts ::
  "('s \<Rightarrow> go_error option \<times> 's) \<Rightarrow> (int \<Rightarrow> 's \<Rightarrow> go_error option \<times> 's) \<Rightarrow> nat \<Rightarrow> int \<Rightarrow> 's \<Rightarrow> attempt_end \<times> 's"
  where
  "run_attempts trigger wait left backoff s =
    (case trigger s of
       (None, s1) \<Rightarrow> (Returned None, s1)
     | (Some err, s1) \<Rightarrow>
         (case left of
            0 \<Rightarrow> (Exhausted err, s1)
          | Suc rest \<Rightarrow>
              (case wait backoff s1 of
                 (Some stopped, s2) \<Rightarrow> (Returned (Some stopped), s2)
               | (None, s2) \<Rightarrow> run_attempts trigger wait rest (next_backoff backoff) s2)))"

declare run_attempts.simps [simp del]

definition run_locked ::
  "'s Runner \<Rightarrow> ('s \<Rightarrow> go_error option \<times> 's) \<Rightarrow> (int \<Rightarrow> 's \<Rightarrow> go_error option \<times> 's) \<Rightarrow> 's \<Rightarrow> go_error option \<times> 's"
  where
  "run_locked r trigger wait s =
    (case run_attempts trigger wait (runner_attempts r - 1) (runner_backoff r) s of
       (Returned e, s1) \<Rightarrow> (e, s1)
     | (Exhausted e, s1) \<Rightarrow>
         (Some e, case ru_on_dead_letter r of None \<Rightarrow> s1 | Some callback \<Rightarrow> callback e s1))"

definition RunOnce :: "'s Runner \<Rightarrow> (int \<Rightarrow> 's \<Rightarrow> go_error option \<times> 's) \<Rightarrow> 's \<Rightarrow> go_error option \<times> 's" where
  "RunOnce r wait s =
    (case ru_trigger r of
       None \<Rightarrow> (Some (ErrorText ''runner trigger is required''), s)
     | Some trigger \<Rightarrow>
         (case ru_locker r of
            None \<Rightarrow> run_locked r trigger wait s
          | Some try_acquire \<Rightarrow>
              (case try_acquire (runner_key r) s of
                 (None, s1) \<Rightarrow> (Some (Sentinel ErrAlreadyRunning), s1)
               | (Some release, s1) \<Rightarrow>
                   (let (e, s2) = run_locked r trigger wait s1 in (e, release s2)))))"

text \<open>The loop of \<^verbatim>\<open>Start\<close> over the events its \<^verbatim>\<open>select\<close> takes; it runs on when they end.\<close>

datatype loop_event = Tick | ContextDone go_error

datatype loop_state = Running | Stopped go_error

fun start_loop ::
  "'s Runner \<Rightarrow> (int \<Rightarrow> 's \<Rightarrow> go_error option \<times> 's) \<Rightarrow> loop_event list \<Rightarrow> 's \<Rightarrow> loop_state \<times> 's" where
  "start_loop r wait [] s = (Running, s)"
| "start_loop r wait (ContextDone e # events) s = (Stopped e, s)"
| "start_loop r wait (Tick # events) s =
    (case RunOnce r wait s of
       (None, s1) \<Rightarrow> start_loop r wait events s1
     | (Some err, s1) \<Rightarrow>
         if errors_is err ErrAlreadyRunning then start_loop r wait events s1
         else if errors_is err ErrContextCanceled \<or> errors_is err ErrContextDeadlineExceeded then (Stopped err, s1)
         else (case ru_on_error r of
                 None \<Rightarrow> (Stopped err, s1)
               | Some callback \<Rightarrow> start_loop r wait events (callback err s1)))"

definition Start ::
  "'s Runner \<Rightarrow> (int \<Rightarrow> 's \<Rightarrow> go_error option \<times> 's) \<Rightarrow> loop_event list \<Rightarrow> 's \<Rightarrow> loop_state \<times> 's" where
  "Start r wait events s =
    (if ru_interval r \<le> 0 then (Stopped (ErrorText ''runner interval must be greater than zero''), s)
     else case ru_trigger r of
       None \<Rightarrow> (Stopped (ErrorText ''runner trigger is required''), s)
     | Some _ \<Rightarrow> start_loop r wait events s)"

subsection \<open>The in-memory lock as the runner's lock, and a runner that is observed\<close>

text \<open>
  The surroundings of an observed run: the log of what the runner did and the lock. The outcome of the
  trigger is a function of the number of attempts made, and no wait is interrupted.
\<close>

datatype run_event = Tried | Waited int | DeadLettered go_error

type_synonym observed = "run_event list \<times> InMemoryLocker"

definition memory_locker :: "observed Locker" where
  "memory_locker key s =
    (case TryAcquire (snd s) key of
       None \<Rightarrow> (None, s)
     | Some (h, l) \<Rightarrow> (Some (apsnd (Release h)), (fst s, l)))"

definition observed_trigger :: "(nat \<Rightarrow> go_error option) \<Rightarrow> observed \<Rightarrow> go_error option \<times> observed" where
  "observed_trigger outcome s = (outcome (count_list (fst s) Tried), (fst s @ [Tried], snd s))"

definition observed_wait :: "int \<Rightarrow> observed \<Rightarrow> go_error option \<times> observed" where
  "observed_wait d s = (None, (fst s @ [Waited d], snd s))"

definition observed_dead_letter :: "go_error \<Rightarrow> observed \<Rightarrow> observed" where
  "observed_dead_letter e s = (fst s @ [DeadLettered e], snd s)"

definition observed_runner :: "(nat \<Rightarrow> go_error option) \<Rightarrow> observed Runner \<Rightarrow> observed Runner" where
  "observed_runner outcome r =
    r\<lparr>ru_locker := Some memory_locker, ru_trigger := Some (observed_trigger outcome),
      ru_on_dead_letter := Some observed_dead_letter\<rparr>"

text \<open>The log of \<open>n\<close> failed attempts followed by a last one, with the wait after each failed one.\<close>

fun retry_log :: "int \<Rightarrow> nat \<Rightarrow> run_event list" where
  "retry_log b 0 = [Tried]"
| "retry_log b (Suc n) = Tried # Waited b # retry_log (next_backoff b) n"

lemma retry_log_tried: "count_list (retry_log b n) Tried = Suc n"
  by (induction b n rule: retry_log.induct) auto

lemma next_backoff_bounds:
  assumes "0 < b" "b \<le> 30 * nanos_per_second"
  shows "0 < next_backoff b" "next_backoff b \<le> 30 * nanos_per_second" "b \<le> next_backoff b"
  using assms by (auto simp: next_backoff_def Let_def wrap64_def nanos_per_second_def)

lemma retry_log_waits:
  "0 < b \<Longrightarrow> b \<le> 30 * nanos_per_second \<Longrightarrow> Waited d \<in> set (retry_log b n) \<Longrightarrow> 0 < d \<and> d \<le> 30 * nanos_per_second"
proof (induction b n rule: retry_log.induct)
  case (2 b n)
  from next_backoff_bounds [OF 2(2,3)] 2 show ?case by auto
qed simp

lemma observed_apply:
  "observed_trigger outcome (log, l) = (outcome (count_list log Tried), (log @ [Tried], l))"
  "observed_wait d (log, l) = (None, (log @ [Waited d], l))"
  by (simp_all add: observed_trigger_def observed_wait_def)

lemma observed_runner_simps [simp]:
  "runner_key (observed_runner outcome r) = runner_key r" "runner_attempts (observed_runner outcome r) = runner_attempts r"
  "runner_backoff (observed_runner outcome r) = runner_backoff r"
  "ru_on_dead_letter (observed_runner outcome r) = Some observed_dead_letter"
  "ru_locker (observed_runner outcome r) = Some memory_locker"
  "ru_trigger (observed_runner outcome r) = Some (observed_trigger outcome)"
  by (simp_all add: runner_key_def runner_attempts_def runner_backoff_def observed_runner_def)

lemma attempts_all_fail:
  assumes "\<forall>j\<le>n. outcome (count_list log Tried + j) \<noteq> None" "outcome (count_list log Tried + n) = Some e"
  shows "run_attempts (observed_trigger outcome) observed_wait n b (log, l) = (Exhausted e, (log @ retry_log b n, l))"
  using assms
proof (induction n arbitrary: b log)
  case 0
  then show ?case by (subst run_attempts.simps) (simp add: observed_apply)
next
  case (Suc n)
  from Suc.prems(1) obtain e0 where e0: "outcome (count_list log Tried) = Some e0" by (auto dest: spec [of _ 0])
  have "\<forall>j\<le>n. outcome (count_list (log @ [Tried, Waited b]) Tried + j) \<noteq> None"
  proof (intro allI impI)
    fix j
    assume "j \<le> n"
    with spec [OF Suc.prems(1), of "Suc j"] show "outcome (count_list (log @ [Tried, Waited b]) Tried + j) \<noteq> None" by simp
  qed
  from Suc.IH [OF this] Suc.prems(2) e0 show ?case
    by (subst run_attempts.simps) (simp add: observed_apply)
qed

lemma attempts_succeed:
  assumes "\<forall>j<k. outcome (count_list log Tried + j) \<noteq> None" "outcome (count_list log Tried + k) = None" "k \<le> n"
  shows "run_attempts (observed_trigger outcome) observed_wait n b (log, l) = (Returned None, (log @ retry_log b k, l))"
  using assms
proof (induction k arbitrary: b n log)
  case 0
  then show ?case by (subst run_attempts.simps) (simp add: observed_apply)
next
  case (Suc k)
  from Suc.prems(1) obtain e0 where e0: "outcome (count_list log Tried) = Some e0" by (auto dest: spec [of _ 0])
  from Suc.prems(3) obtain m where m: "n = Suc m" "k \<le> m" by (cases n) auto
  have "\<forall>j<k. outcome (count_list (log @ [Tried, Waited b]) Tried + j) \<noteq> None"
  proof (intro allI impI)
    fix j
    assume "j < k"
    with spec [OF Suc.prems(1), of "Suc j"] show "outcome (count_list (log @ [Tried, Waited b]) Tried + j) \<noteq> None" by simp
  qed
  from Suc.IH [OF this _ m(2)] Suc.prems(2) e0 m show ?case
    by (subst run_attempts.simps) (simp add: observed_apply)
qed

lemma RunOnce_observed:
  assumes "TryAcquire l (runner_key r) = Some (h, l')"
  shows "RunOnce (observed_runner outcome r) observed_wait ([], l) =
    (let (e, s) = run_locked (observed_runner outcome r) (observed_trigger outcome) observed_wait ([], l') in (e, apsnd (Release h) s))"
  using assms by (simp add: RunOnce_def memory_locker_def)

lemma runner_attempts_pos: "0 < runner_attempts r"
  by (simp add: runner_attempts_def)

lemma runner_backoff_pos: "0 < runner_backoff r"
  by (simp add: runner_backoff_def nanos_per_second_def)

lemma RunOnce_held:
  assumes "locked_key l (runner_key r)"
  shows "RunOnce (observed_runner outcome r) observed_wait (log, l) = (Some (Sentinel ErrAlreadyRunning), (log, l))"
proof -
  from assms have "TryAcquire l (runner_key r) = None" using memory_lock_laws(1) by blast
  then show ?thesis by (simp add: RunOnce_def memory_locker_def)
qed

lemma start_loop_held:
  assumes "locked_key l (runner_key r)"
  shows "start_loop (observed_runner outcome r) observed_wait (replicate n Tick) (log, l) = (Running, (log, l))"
  by (induction n) (simp_all add: RunOnce_held [OF assms])

text \<open>
  A runner whose lock is held by another run is idle but alive: any number of ticks changes neither
  the log nor the lock, and \<^verbatim>\<open>Start\<close> goes on.
\<close>

lemma held_runner_idles:
  assumes "locked_key l (runner_key r)" "0 < ru_interval r"
  shows "Start (observed_runner outcome r) observed_wait (replicate n Tick) (log, l) = (Running, (log, l))"
  using assms start_loop_held [OF assms(1)] by (simp add: Start_def) (simp add: observed_runner_def)

subsection \<open>Properties\<close>

text \<open>
  The in-memory lock is exclusive: after any sequence of acquisitions and releases, each key has at
  most one closure that is not released yet, and an attempt to acquire a key fails exactly when there is one;
  calling a closure again changes nothing.
\<close>

theorem memory_lock_exclusive:
  assumes "lock_step\<^sup>*\<^sup>* NewInMemoryLocker l"
  shows "distinct (live_keys l)
    \<and> (TryAcquire l key = None \<longleftrightarrow> lock_name key \<in> set (live_keys l))
    \<and> Release h (Release h l) = Release h l"
proof (intro conjI)
  from lock_reachable_ok [OF assms] have ok: "locker_ok l" .
  then show "distinct (live_keys l)" "TryAcquire l key = None \<longleftrightarrow> lock_name key \<in> set (live_keys l)"
    by (auto simp: locker_ok_def TryAcquire_def)
  show "Release h (Release h l) = Release h l" by (auto simp: Release_def Let_def split: prod.splits)
qed

definition locked_a :: InMemoryLocker where
  "locked_a = \<lparr>lk_locks = [''a''], lk_handles = [(''a'', False)]\<rparr>"

theorem memory_lock_exclusive_witness:
  "TryAcquire locked_a ''a'' = None \<and> ''a'' \<in> set (live_keys locked_a) \<and> TryAcquire (Release 0 locked_a) ''a'' \<noteq> None"
proof -
  have "lock_step NewInMemoryLocker locked_a"
    by (rule acquired [of _ "''a''" 0]) (simp add: TryAcquire_def NewInMemoryLocker_def lock_name_def locked_a_def)
  then have reach: "lock_step\<^sup>*\<^sup>* NewInMemoryLocker locked_a" ..
  moreover have "lock_step locked_a (Release 0 locked_a)" by (rule released) (simp add: locked_a_def)
  ultimately have "lock_step\<^sup>*\<^sup>* NewInMemoryLocker (Release 0 locked_a)" by (rule rtranclp.rtrancl_into_rtrancl)
  note after = memory_lock_exclusive [OF this, of "''a''"]
  moreover have "live_keys (Release 0 locked_a) = []" by (simp add: live_keys_def Release_def locked_a_def)
  moreover note memory_lock_exclusive [OF reach, of "''a''"]
  moreover have "''a'' \<in> set (live_keys locked_a)" "lock_name ''a'' = ''a''"
    by (simp_all add: live_keys_def locked_a_def lock_name_def)
  ultimately show ?thesis by simp
qed

text \<open>
  C39: One run of the runner under the in-memory lock. If every attempt fails it makes \<open>MaxAttempts\<close>
  attempts (one when that is not positive), waits between them, calls the dead-letter callback once with the
  last error, at the end, and returns that error; if the \<open>k\<close>-th attempt is the first to succeed it stops
  there and returns no error. No wait exceeds 30 seconds unless the configured first one does. In every
  case the lock is as it was before, whatever keys others hold; and while the key is held the runner does nothing.
\<close>

theorem run_once_retries:
  assumes "locker_ok l" and fails: "\<forall>j<k. outcome j \<noteq> None" and k: "k \<le> runner_attempts r"
    and last: "k < runner_attempts r \<Longrightarrow> outcome k = None"
  shows "if locked_key l (runner_key r)
    then RunOnce (observed_runner outcome r) observed_wait ([], l) = (Some (Sentinel ErrAlreadyRunning), ([], l))
    else (\<exists>l'. locker_ok l' \<and> locked_key l' = locked_key l \<and>
      RunOnce (observed_runner outcome r) observed_wait ([], l) =
        (if k < runner_attempts r then (None, (retry_log (runner_backoff r) k, l'))
         else (outcome (k - 1), (retry_log (runner_backoff r) (k - 1) @ [DeadLettered (the (outcome (k - 1)))], l'))))
      \<and> (ru_retry_backoff r \<le> 30 * nanos_per_second \<longrightarrow>
          (\<forall>d. Waited d \<in> set (retry_log (runner_backoff r) k) \<longrightarrow> 0 < d \<and> d \<le> 30 * nanos_per_second))"
proof (cases "locked_key l (runner_key r)")
  case False
  then obtain h l1 where acq: "TryAcquire l (runner_key r) = Some (h, l1)"
    using memory_lock_laws(1) by (metis option.exhaust surj_pair)
  note res = memory_lock.bracket_restores [OF assms(1) acq]
  note run = RunOnce_observed [OF acq, of outcome] run_locked_def
  have "RunOnce (observed_runner outcome r) observed_wait ([], l) =
      (if k < runner_attempts r then (None, (retry_log (runner_backoff r) k, Release h l1))
       else (outcome (k - 1), (retry_log (runner_backoff r) (k - 1) @ [DeadLettered (the (outcome (k - 1)))], Release h l1)))"
  proof (cases "k < runner_attempts r")
    case True
    with attempts_succeed [of k outcome "[]" "runner_attempts r - 1" "runner_backoff r" l1] fails last
    show ?thesis by (simp add: run)
  next
    case False
    with k have n: "k = runner_attempts r" by simp
    with runner_attempts_pos [of r] fails obtain e where e: "outcome (k - 1) = Some e" by (metis diff_less less_one option.exhaust)
    have "\<forall>j\<le>runner_attempts r - 1. outcome j \<noteq> None" using fails n runner_attempts_pos [of r] by auto
    with attempts_all_fail [of "runner_attempts r - 1" outcome "[]" e "runner_backoff r" l1] e n
    show ?thesis by (simp add: run observed_dead_letter_def)
  qed
  moreover have "locked_key (Release h l1) = locked_key l" using res(2) by blast
  moreover have "0 < d \<and> d \<le> 30 * nanos_per_second"
    if "ru_retry_backoff r \<le> 30 * nanos_per_second" "Waited d \<in> set (retry_log (runner_backoff r) k)" for d
    using retry_log_waits [OF runner_backoff_pos [of r] _ that(2)] that(1)
    by (simp add: runner_backoff_def nanos_per_second_def split: if_splits)
  ultimately show ?thesis using False res(1) by auto
qed (simp add: RunOnce_held)

definition scan_runner :: "observed Runner" where
  "scan_runner =
    \<lparr>ru_interval = 60 * nanos_per_second, ru_key = '''', ru_locker = None, ru_trigger = None, ru_max_attempts = 3,
     ru_retry_backoff = 20 * nanos_per_second, ru_on_dead_letter = None, ru_on_error = None\<rparr>"

text \<open>Three failed attempts: the waits are 20 and 30 seconds.\<close>

theorem run_once_retries_witness:
  "\<exists>l'. locked_key l' = locked_key NewInMemoryLocker \<and>
     RunOnce (observed_runner (\<lambda>_. Some (ErrorText ''timeout'')) scan_runner) observed_wait ([], NewInMemoryLocker) =
     (Some (ErrorText ''timeout''),
      ([Tried, Waited 20000000000, Tried, Waited 30000000000, Tried, DeadLettered (ErrorText ''timeout'')], l'))"
proof -
  have n: "runner_attempts scan_runner = 3" "runner_backoff scan_runner = 20000000000"
    by (simp_all add: runner_attempts_def runner_backoff_def scan_runner_def nanos_per_second_def)
  have log: "retry_log 20000000000 2 = [Tried, Waited 20000000000, Tried, Waited 30000000000, Tried]"
    by (simp add: numeral_2_eq_2 next_backoff_def wrap64_def nanos_per_second_def)
  have free: "\<not> locked_key NewInMemoryLocker (runner_key scan_runner)" by (simp add: locked_key_def NewInMemoryLocker_def)
  from run_once_retries [OF NewInMemoryLocker_ok, of 3 "\<lambda>_. Some (ErrorText ''timeout'')" scan_runner] free log n
  show ?thesis by auto
qed

end
