(* ===== verification/Scan_Worker.thy ===== *)
theory Scan_Worker
  imports Scan_Source Scheduler Authz_Roles
begin

section \<open>Queueing, running and retrying scans (internal/api/service.go)\<close>

text \<open>
  The service's side of the scan queue: a request or a replay is queued, the worker claims one scan at a time
  under the provider's lock, refuses it when its workspace is not active, runs the scanner, stores what it
  found, and ends the scan, requeues it with a backoff or dead-letters it. The artifacts and findings
  stores, the lookup of a workspace, the AWS baseline check and the enrichment of findings are
  arguments. Metrics, alert delivery and tracing spans are left out; they do not touch the queue. The
  lock has a state of its own beside the store.
\<close>

record ('x, 'c, 'l) ScanService =
  sv_sources :: "('x, 'c) ScanSources"
  sv_Locker :: "'l Locker option"
  sv_LockNamespace :: string
  sv_ScanQueueMaxPending :: int
  sv_GetWorkspace :: "Context \<Rightarrow> string \<Rightarrow> TenancyWorkspace result"
  sv_UpsertArtifacts :: "Context \<Rightarrow> string \<Rightarrow> 'x ScanResult \<Rightarrow> go_error option"
  sv_UpsertFindings :: "Context \<Rightarrow> string \<Rightarrow> 'x list \<Rightarrow> go_error option"
  sv_enrichFindings :: "'x list \<Rightarrow> 'x list"
  sv_ensureBaseline :: "Context \<Rightarrow> string \<Rightarrow> ScanSource \<Rightarrow> ScanSource result"
  sv_trace :: "string \<times> string"

abbreviation svc_Provider :: "('x, 'c, 'l) ScanService \<Rightarrow> string" where
  "svc_Provider svc \<equiv> so_Provider (sv_sources svc)"

abbreviation svc_scope :: "('x, 'c, 'l) ScanService \<Rightarrow> Context \<Rightarrow> Context" where
  "svc_scope svc \<equiv> scopeContext (sv_sources svc)"

type_synonym metadata = "(string, meta) gomap"

definition withQueueTraceContext :: "('x, 'c, 'l) ScanService \<Rightarrow> Context \<Rightarrow> Context" where
  "withQueueTraceContext svc ctx =
    (let traceParent = trim_space (fst (sv_trace svc)); traceState = trim_space (snd (sv_trace svc))
     in if traceParent = '''' \<and> traceState = '''' then ctx else WithQueueTraceContext ctx traceParent traceState)"

definition lockKey :: "('x, 'c, 'l) ScanService \<Rightarrow> string \<Rightarrow> string" where
  "lockKey svc key =
    (let normalizedKey = trim_space key; namespace = trim_space (sv_LockNamespace svc)
     in if namespace = '''' then normalizedKey
        else if normalizedKey = '''' then namespace
        else namespace @ '':'' @ normalizedKey)"

subsection \<open>Events\<close>

definition appendScanEvent ::
  "Outside \<Rightarrow> ('x, 'c, 'l) ScanService \<Rightarrow> Context \<Rightarrow> string \<Rightarrow> string \<Rightarrow> string \<Rightarrow> metadata \<Rightarrow> ScanStore \<Rightarrow> ScanStore" where
  "appendScanEvent env svc ctx scanID level message metadata st =
    snd (AppendScanEvent env (svc_scope svc ctx) scanID level message metadata st)"

definition appendScanLifecycleEvent ::
  "Outside \<Rightarrow> ('x, 'c, 'l) ScanService \<Rightarrow> Context \<Rightarrow> string \<Rightarrow> string \<Rightarrow> metadata \<Rightarrow> ScanStore \<Rightarrow> ScanStore" where
  "appendScanLifecycleEvent env svc ctx scanID state metadata st =
    appendScanEvent env svc ctx scanID ''info'' ''scan lifecycle transition''
      (foldl (\<lambda>payload (key, value). map_put key value payload) [(''state'', MetaText state)] metadata) st"

subsection \<open>Queueing and replay\<close>

definition effective_max_pending :: "('x, 'c, 'l) ScanService \<Rightarrow> int" where
  "effective_max_pending svc = (if sv_ScanQueueMaxPending svc \<le> 0 then 1 else sv_ScanQueueMaxPending svc)"

text \<open>The two ways to queue, and the errors of the API for a full queue; \<open>what\<close> prefixes any other error.\<close>

definition queue_or_reject ::
  "Outside \<Rightarrow> ('x, 'c, 'l) ScanService \<Rightarrow> Context \<Rightarrow> string \<Rightarrow> ScanSource \<Rightarrow> string \<Rightarrow> ScanStore \<Rightarrow> ScanRecord result \<times> ScanStore"
  where
  "queue_or_reject env svc ctx provider source what st =
    (let (now, st) = read_clock env st
     in if effective_max_pending svc = 1 then
          (case CreateQueuedScanIfNoPendingWithSource env ctx provider source now st of
             (Inl err, st) \<Rightarrow>
               (if errors_is err ErrPendingScanExists then (Inl (Sentinel ErrScanInProgress), st)
                else (Inl (Wrapped what err ''''), st))
           | (Inr record, st) \<Rightarrow> (Inr record, st))
        else
          (case CreateQueuedScanWithinLimitWithSource env ctx provider source now (effective_max_pending svc) st of
             (Inl err, st) \<Rightarrow>
               (if errors_is err ErrQueueLimitReached then (Inl (Sentinel ErrScanQueueFull), st)
                else (Inl (Wrapped what err ''''), st))
           | (Inr record, st) \<Rightarrow> (Inr record, st)))"

definition EnqueueScan ::
  "Outside \<Rightarrow> ('x, 'c, 'l) ScanService \<Rightarrow> Context \<Rightarrow> ScanRequest list \<Rightarrow> ScanStore \<Rightarrow> ScanRecord result \<times> ScanStore" where
  "EnqueueScan env svc ctx requests st =
    (let ctx = withQueueTraceContext svc (svc_scope svc ctx);
         request = (case requests of [] \<Rightarrow> \<lparr>srq_ProjectID = '''', srq_ConnectorID = ''''\<rparr> | r # _ \<Rightarrow> r)
     in case resolveScanSource (sv_sources svc) ctx request of
          Inl err \<Rightarrow> (Inl err, st)
        | Inr source \<Rightarrow>
           (case sv_ensureBaseline svc ctx (svc_Provider svc) source of
              Inl err \<Rightarrow> (Inl err, st)
            | Inr source \<Rightarrow>
               (case queue_or_reject env svc ctx (svc_Provider svc) source ''enqueue scan: '' st of
                  (Inl err, st) \<Rightarrow> (Inl err, st)
                | (Inr record, st) \<Rightarrow>
                   (let queuedCount = CountQueuedScansAnyScope (svc_Provider svc) st;
                        st = appendScanLifecycleEvent env svc ctx (scn_ID record) ''queued''
                          [(''provider'', MetaText (svc_Provider svc)), (''project_id'', MetaText (scn_ProjectID record)),
                           (''connector_id'', MetaText (scn_ConnectorID record))] st;
                        st = appendScanEvent env svc ctx (scn_ID record) ''info'' ''scan queued for worker execution''
                          [(''provider'', MetaText (svc_Provider svc)), (''project_id'', MetaText (scn_ProjectID record)),
                           (''connector_id'', MetaText (scn_ConnectorID record)), (''queue_depth'', MetaInt queuedCount),
                           (''queue_limit'', MetaInt (effective_max_pending svc))] st
                    in (Inr record, st)))))"

definition ReplayScan ::
  "Outside \<Rightarrow> ('x, 'c, 'l) ScanService \<Rightarrow> Context \<Rightarrow> string \<Rightarrow> ScanStore \<Rightarrow> ScanRecord result \<times> ScanStore" where
  "ReplayScan env svc ctx scanID st =
    (let ctx = svc_scope svc ctx
     in case GetScan ctx scanID st of
          Inl err \<Rightarrow> (Inl err, st)
        | Inr source \<Rightarrow>
           (if \<not> scn_DeadLettered source \<and> scn_Status source \<noteq> ''failed'' then (Inl (Sentinel ErrScanReplayUnavailable), st)
            else case sv_ensureBaseline svc ctx (scn_Provider source)
                   \<lparr>src_ProjectID = scn_ProjectID source, src_ConnectorID = scn_ConnectorID source\<rparr> of
              Inl err \<Rightarrow> (Inl err, st)
            | Inr sourceContext \<Rightarrow>
               (case queue_or_reject env svc ctx (scn_Provider source) sourceContext ''replay scan: '' st of
                  (Inl err, st) \<Rightarrow> (Inl err, st)
                | (Inr replay, st) \<Rightarrow>
                   (let queuedCount = CountQueuedScansAnyScope (scn_Provider source) st;
                        st = appendScanEvent env svc ctx (scn_ID source) ''info'' ''scan replay queued''
                          [(''replay_scan_id'', MetaText (scn_ID replay)), (''provider'', MetaText (scn_Provider source))] st;
                        st = appendScanLifecycleEvent env svc ctx (scn_ID replay) ''queued''
                          [(''provider'', MetaText (scn_Provider replay)), (''replayed_from_scan'', MetaText (scn_ID source)),
                           (''source_dead_letter'', MetaBool (scn_DeadLettered source)), (''source_status'', MetaText (scn_Status source)),
                           (''failure_category'', MetaText (scn_FailureCategory source))] st;
                        st = appendScanEvent env svc ctx (scn_ID replay) ''info'' ''scan replay queued from failed scan''
                          [(''source_scan_id'', MetaText (scn_ID source)), (''source_status'', MetaText (scn_Status source)),
                           (''failure_category'', MetaText (scn_FailureCategory source)), (''queue_depth'', MetaInt queuedCount),
                           (''queue_limit'', MetaInt (effective_max_pending svc))] st
                    in (Inr replay, st)))))"

subsection \<open>Terminal writes\<close>

text \<open>
  A write under a cancelled or expired context is made, or made again, under a fresh one with the same scope.
\<close>

definition shouldRetryTerminalWrite :: "go_error option \<Rightarrow> bool" where
  "shouldRetryTerminalWrite err =
    (case err of None \<Rightarrow> False | Some e \<Rightarrow> errors_is e ErrContextCanceled \<or> errors_is e ErrContextDeadlineExceeded)"

definition terminalWriteContext :: "('x, 'c, 'l) ScanService \<Rightarrow> Context \<Rightarrow> Context" where
  "terminalWriteContext svc ctx = WithScope (Some Background) (ScopeFromContext (svc_scope svc ctx))"

definition terminal_write ::
  "Outside \<Rightarrow> ('x, 'c, 'l) ScanService \<Rightarrow> Context \<Rightarrow> (Context \<Rightarrow> ScanStore \<Rightarrow> go_error option \<times> ScanStore)
    \<Rightarrow> ScanStore \<Rightarrow> go_error option \<times> ScanStore" where
  "terminal_write env svc ctx write_scan st =
    (let (ctxErr, st) = read_ctx_err env st;
         writeCtx = (if shouldRetryTerminalWrite ctxErr then terminalWriteContext svc ctx else ctx);
         (err, st) = write_scan writeCtx st
     in if \<not> shouldRetryTerminalWrite err then (err, st)
        else write_scan (terminalWriteContext svc ctx) st)"

definition completeScanTerminal ::
  "Outside \<Rightarrow> ('x, 'c, 'l) ScanService \<Rightarrow> Context \<Rightarrow> string \<Rightarrow> string \<Rightarrow> time \<Rightarrow> int \<Rightarrow> int \<Rightarrow> string \<Rightarrow> ScanStore
    \<Rightarrow> go_error option \<times> ScanStore" where
  "completeScanTerminal env svc ctx scanID status finishedAt assetCount findingCount errorMessage st =
    terminal_write env svc ctx (\<lambda>c. CompleteScan c scanID status finishedAt assetCount findingCount errorMessage) st"

definition scheduleScanRetry ::
  "Outside \<Rightarrow> ('x, 'c, 'l) ScanService \<Rightarrow> Context \<Rightarrow> string \<Rightarrow> time \<Rightarrow> int \<Rightarrow> int \<Rightarrow> string \<Rightarrow> string \<Rightarrow> time \<Rightarrow> ScanStore
    \<Rightarrow> go_error option \<times> ScanStore" where
  "scheduleScanRetry env svc ctx scanID queuedAt retryCount maxRetryCount failureCategory errorMessage nextRetryAt st =
    terminal_write env svc ctx
      (\<lambda>c. ScheduleScanRetry c scanID queuedAt retryCount maxRetryCount failureCategory errorMessage nextRetryAt) st"

definition deadLetterQueuedScan ::
  "Outside \<Rightarrow> ('x, 'c, 'l) ScanService \<Rightarrow> Context \<Rightarrow> string \<Rightarrow> time \<Rightarrow> int \<Rightarrow> int \<Rightarrow> int \<Rightarrow> int \<Rightarrow> string \<Rightarrow> string \<Rightarrow> ScanStore
    \<Rightarrow> go_error option \<times> ScanStore" where
  "deadLetterQueuedScan env svc ctx scanID finishedAt retryCount maxRetryCount assetCount findingCount failureCategory errorMessage st =
    terminal_write env svc ctx
      (\<lambda>c. DeadLetterScan c scanID finishedAt retryCount maxRetryCount assetCount findingCount failureCategory errorMessage) st"

text \<open>The gate for scans queued before their workspace was suspended or deleted.\<close>

definition skipScanIfWorkspaceInactive ::
  "Outside \<Rightarrow> ('x, 'c, 'l) ScanService \<Rightarrow> Context \<Rightarrow> ScanRecord \<Rightarrow> ScanStore \<Rightarrow> bool result \<times> ScanStore" where
  "skipScanIfWorkspaceInactive env svc ctx record st =
    (let workspaceID = trim_space (scn_WorkspaceID record); tenantID = trim_space (scn_TenantID record)
     in if workspaceID = '''' \<or> tenantID = '''' then (Inr False, st)
        else case sv_GetWorkspace svc ctx workspaceID of
          Inl err \<Rightarrow>
            (if errors_is err ErrNotFound then (Inr False, st) else (Inl (Wrapped ''workspace lifecycle gate: '' err ''''), st))
        | Inr workspace \<Rightarrow>
            (if ws_Status workspace = ''active'' \<and> ws_DeletedAt workspace = None then (Inr False, st)
             else
               (let reason = ''workspace lifecycle is '' @ ws_Status workspace @ ''; scan refused (see #1420)'';
                    st = appendScanLifecycleEvent env svc ctx (scn_ID record) ''failed''
                      [(''provider'', MetaText (scn_Provider record)), (''reason'', MetaText ''workspace_inactive''),
                       (''workspace_status'', MetaText (ws_Status workspace))] st;
                    st = appendScanEvent env svc ctx (scn_ID record) ''warn'' reason
                      [(''workspace_status'', MetaText (ws_Status workspace))] st;
                    (now, st) = read_clock env st;
                    (err, st) = completeScanTerminal env svc ctx (scn_ID record) ''failed'' now 0 0 reason st
                in case err of
                     Some err \<Rightarrow> (Inl (Wrapped ''mark scan failed for inactive workspace: '' err ''''), st)
                   | None \<Rightarrow> (Inr True, st))))"

subsection \<open>Failures\<close>

record scanFailurePolicy =
  sfp_Category :: string
  sfp_Retryable :: bool

datatype scan_stage = StageConnectorSetup | StageExecution | StageArtifactsStore | StageFindingsStore | StageFinalize

fun stage_text :: "scan_stage \<Rightarrow> string" where
  "stage_text StageConnectorSetup = ''connector_setup''"
| "stage_text StageExecution = ''execution''"
| "stage_text StageArtifactsStore = ''artifacts_persist''"
| "stage_text StageFindingsStore = ''findings_persist''"
| "stage_text StageFinalize = ''finalize''"

definition containsFailureToken :: "string \<Rightarrow> string list \<Rightarrow> bool" where
  "containsFailureToken message tokens = list_ex (\<lambda>token. contains_string message (norm_key token)) tokens"

definition classifyScanFailure :: "scan_stage \<Rightarrow> go_error \<Rightarrow> scanFailurePolicy" where
  "classifyScanFailure stage failure =
    (let message = norm_key (error_text failure)
     in if stage = StageArtifactsStore \<or> stage = StageFindingsStore then \<lparr>sfp_Category = ''persistence'', sfp_Retryable = False\<rparr>
        else if stage = StageFinalize then \<lparr>sfp_Category = ''finalization'', sfp_Retryable = False\<rparr>
        else if containsFailureToken message [''rate limit'', ''too many requests'', ''throttle'', ''throttl''] then
          \<lparr>sfp_Category = ''provider_throttle'', sfp_Retryable = True\<rparr>
        else if containsFailureToken message [''access denied'', ''forbidden'', ''unauthorized'', ''expired token'',
            ''invalid credentials'', ''assume role'', ''permission denied''] then
          \<lparr>sfp_Category = ''provider_auth'', sfp_Retryable = False\<rparr>
        else if containsFailureToken message [''timeout'', ''deadline exceeded'', ''temporary'', ''temporarily'', ''connection reset'',
            ''connection refused'', ''i/o timeout'', ''eof'', ''service unavailable'', ''unavailable''] then
          \<lparr>sfp_Category = ''provider_transient'', sfp_Retryable = True\<rparr>
        else if containsFailureToken message [''invalid'', ''malformed'', ''unsupported'', ''not configured'', ''missing'',
            ''not found'', ''nil scanner''] then
          \<lparr>sfp_Category = ''provider_configuration'', sfp_Retryable = False\<rparr>
        else if stage = StageConnectorSetup then \<lparr>sfp_Category = ''connector_setup'', sfp_Retryable = False\<rparr>
        else \<lparr>sfp_Category = ''provider_execution'', sfp_Retryable = True\<rparr>)"

definition effectiveScanRetryLimit :: "ScanRecord \<Rightarrow> int" where
  "effectiveScanRetryLimit record =
    (if scn_MaxRetryCount record < 0 then 0
     else if scn_MaxRetryCount record = 0 then DefaultScanMaxRetryCount
     else scn_MaxRetryCount record)"

definition defaultScanRetryBaseDelay :: int where
  "defaultScanRetryBaseDelay = 30 * nanos_per_second"

definition defaultScanRetryMaxDelay :: int where
  "defaultScanRetryMaxDelay = 15 * 60 * nanos_per_second"

text \<open>The loop runs for the attempts below the retry count; \<open>left\<close> counts the ones to come.\<close>

fun retry_backoff_loop :: "nat \<Rightarrow> int \<Rightarrow> int" where
  "retry_backoff_loop 0 backoff = (if backoff > defaultScanRetryMaxDelay then defaultScanRetryMaxDelay else backoff)"
| "retry_backoff_loop (Suc left) backoff =
    (let backoff = wrap64 (backoff * 2)
     in if backoff \<ge> defaultScanRetryMaxDelay then defaultScanRetryMaxDelay else retry_backoff_loop left backoff)"

definition scanRetryBackoff :: "int \<Rightarrow> int" where
  "scanRetryBackoff retryCount =
    (if retryCount \<le> 0 then defaultScanRetryBaseDelay
     else retry_backoff_loop (nat (retryCount - 1)) defaultScanRetryBaseDelay)"

definition handleScanFailure ::
  "Outside \<Rightarrow> ('x, 'c, 'l) ScanService \<Rightarrow> Context \<Rightarrow> ScanRecord \<Rightarrow> bool \<Rightarrow> scan_stage \<Rightarrow> int \<Rightarrow> int \<Rightarrow> go_error \<Rightarrow> string
    \<Rightarrow> ScanStore \<Rightarrow> go_error option \<times> ScanStore" where
  "handleScanFailure env svc ctx record allowRetry stage assetCount findingCount failure eventMessage st =
    (let (now, st) = read_clock env st;
         policy = classifyScanFailure stage failure;
         metadata = [(''error'', MetaText (error_text failure)), (''failure_category'', MetaText (sfp_Category policy)),
           (''failure_stage'', MetaText (stage_text stage)), (''retryable'', MetaBool (allowRetry \<and> sfp_Retryable policy)),
           (''retry_count'', MetaInt (scn_RetryCount record)), (''max_retry_count'', MetaInt (effectiveScanRetryLimit record)),
           (''dead_lettered'', MetaBool False), (''asset_count'', MetaInt assetCount), (''finding_count'', MetaInt findingCount)];
         st = appendScanLifecycleEvent env svc ctx (scn_ID record) ''failed'' metadata st
     in if \<not> allowRetry then
          completeScanTerminal env svc ctx (scn_ID record) ''failed'' now assetCount findingCount (error_text failure)
            (appendScanEvent env svc ctx (scn_ID record) ''error'' eventMessage metadata st)
        else
          (let maxRetryCount = effectiveScanRetryLimit record
           in if sfp_Retryable policy \<and> scn_RetryCount record < maxRetryCount then
                (let nextRetryCount = scn_RetryCount record + 1;
                     nextRetryAt = now + scanRetryBackoff nextRetryCount;
                     metadata = map_put ''retry_count'' (MetaInt nextRetryCount) metadata;
                     metadata = map_put ''next_retry_at'' (MetaTime nextRetryAt) metadata;
                     st = appendScanEvent env svc ctx (scn_ID record) ''warn'' eventMessage metadata st;
                     (err, st) = scheduleScanRetry env svc ctx (scn_ID record) now nextRetryCount maxRetryCount
                       (sfp_Category policy) (error_text failure) nextRetryAt st
                 in case err of
                      Some e \<Rightarrow> (Some e, st)
                    | None \<Rightarrow>
                       (let st = appendScanLifecycleEvent env svc ctx (scn_ID record) ''queued''
                              [(''provider'', MetaText (scn_Provider record)), (''retry_count'', MetaInt nextRetryCount),
                               (''max_retry_count'', MetaInt maxRetryCount), (''next_retry_at'', MetaTime nextRetryAt),
                               (''failure_category'', MetaText (sfp_Category policy)), (''requeued_for_retry'', MetaBool True)] st;
                            st = appendScanEvent env svc ctx (scn_ID record) ''info'' ''scan requeued with backoff''
                              [(''retry_count'', MetaInt nextRetryCount), (''max_retry_count'', MetaInt maxRetryCount),
                               (''next_retry_at'', MetaTime nextRetryAt), (''failure_category'', MetaText (sfp_Category policy))] st
                        in (None, st)))
              else
                (let metadata = map_put ''retryable'' (MetaBool False) (map_put ''dead_lettered'' (MetaBool True) metadata);
                     st = appendScanEvent env svc ctx (scn_ID record) ''error'' eventMessage metadata st;
                     (err, st) = deadLetterQueuedScan env svc ctx (scn_ID record) now (scn_RetryCount record) maxRetryCount
                       assetCount findingCount (sfp_Category policy) (error_text failure) st
                 in case err of
                      Some e \<Rightarrow> (Some e, st)
                    | None \<Rightarrow>
                       (None, appendScanEvent env svc ctx (scn_ID record) ''error'' ''scan moved to dead-letter queue''
                          [(''retry_count'', MetaInt (scn_RetryCount record)), (''max_retry_count'', MetaInt maxRetryCount),
                           (''failure_category'', MetaText (sfp_Category policy)), (''dead_lettered'', MetaBool True)] st))))"

subsection \<open>One run\<close>

record RunScanResult =
  rsr_Scan :: ScanRecord
  rsr_Assets :: int
  rsr_FindingCount :: int
  rsr_PartialSourceRun :: bool

definition zero_scan_record :: ScanRecord where
  "zero_scan_record = \<lparr>scn_ID = '''', scn_TenantID = '''', scn_WorkspaceID = '''', scn_ProjectID = '''', scn_ConnectorID = '''',
     scn_Provider = '''', scn_Status = '''', scn_StartedAt = zero_time, scn_FinishedAt = None, scn_AssetCount = 0,
     scn_FindingCount = 0, scn_ErrorMessage = '''', scn_RetryCount = 0, scn_MaxRetryCount = 0, scn_FailureCategory = '''',
     scn_NextRetryAt = None, scn_DeadLettered = False, scn_DeadLetteredAt = None, scn_TraceParent = '''', scn_TraceState = ''''\<rparr>"

definition zero_run_result :: RunScanResult where
  "zero_run_result = \<lparr>rsr_Scan = zero_scan_record, rsr_Assets = 0, rsr_FindingCount = 0, rsr_PartialSourceRun = False\<rparr>"

text \<open>The reaction of a run to an error: the failure is handled, and only a run without retry returns it.\<close>

definition fail_run ::
  "Outside \<Rightarrow> ('x, 'c, 'l) ScanService \<Rightarrow> Context \<Rightarrow> ScanRecord \<Rightarrow> bool \<Rightarrow> scan_stage \<Rightarrow> int \<Rightarrow> int \<Rightarrow> go_error \<Rightarrow> string
    \<Rightarrow> go_error \<Rightarrow> ScanStore \<Rightarrow> RunScanResult result \<times> ScanStore" where
  "fail_run env svc ctx record allowRetry stage assetCount findingCount failure eventMessage returned st =
    (case handleScanFailure env svc ctx record allowRetry stage assetCount findingCount failure eventMessage st of
       (Some handleErr, st) \<Rightarrow> (Inl handleErr, st)
     | (None, st) \<Rightarrow> (if allowRetry then (Inr zero_run_result, st) else (Inl returned, st)))"

definition analyzing_event ::
  "Outside \<Rightarrow> ('x, 'c, 'l) ScanService \<Rightarrow> Context \<Rightarrow> ScanRecord \<Rightarrow> ScanStore \<Rightarrow> ScanStore" where
  "analyzing_event env svc ctx record st =
    appendScanEvent env svc ctx (scn_ID record) ''info'' ''analyzing collected evidence''
      [(''phase'', MetaText ''analyzing''), (''provider'', MetaText (scn_Provider record))] st"

definition maxSourceErrorsInEvent :: int where
  "maxSourceErrorsInEvent = 25"

definition truncateSourceErrors :: "SourceError list \<Rightarrow> int \<Rightarrow> SourceError list" where
  "truncateSourceErrors errors limit =
    (if errors = [] then [] else if limit \<le> 0 \<or> int (length errors) \<le> limit then errors else take (nat limit) errors)"

definition partial_events ::
  "Outside \<Rightarrow> ('x, 'c, 'l) ScanService \<Rightarrow> Context \<Rightarrow> ScanRecord \<Rightarrow> SourceError list \<Rightarrow> ScanStore \<Rightarrow> ScanStore" where
  "partial_events env svc ctx record errors st =
    (if 0 < length errors then
       appendScanLifecycleEvent env svc ctx (scn_ID record) ''partial'' [(''source_error_count'', MetaInt (int (length errors)))]
         (appendScanEvent env svc ctx (scn_ID record) ''warn'' ''scan completed with partial source errors''
           [(''source_error_count'', MetaInt (int (length errors))),
            (''source_errors'', MetaSourceErrors (truncateSourceErrors errors maxSourceErrorsInEvent))] st)
     else st)"

text \<open>The end of a run that collected: artifacts, findings, the record.\<close>

definition finish_run ::
  "Outside \<Rightarrow> ('x, 'c, 'l) ScanService \<Rightarrow> Context \<Rightarrow> ScanRecord \<Rightarrow> bool \<Rightarrow> 'x ScanResult \<Rightarrow> ScanStore
    \<Rightarrow> RunScanResult result \<times> ScanStore" where
  "finish_run env svc ctx record allowRetry result0 st =
    (let result1 = result0\<lparr>res_Findings := sv_enrichFindings svc (res_Findings result0)\<rparr>;
         findings = int (length (res_Findings result1));
         st = partial_events env svc ctx record (res_SourceErrors result1) st
     in case sv_UpsertArtifacts svc ctx (scn_ID record) result1 of
          Some err \<Rightarrow> fail_run env svc ctx record allowRetry StageArtifactsStore (res_Assets result1) 0 err
            ''scan failed while persisting artifacts'' (Wrapped ''persist artifacts: '' err '''') st
        | None \<Rightarrow>
           (let st = appendScanEvent env svc ctx (scn_ID record) ''info'' ''artifacts persisted''
                  [(''raw_assets'', MetaInt (int (length (res_RawAssets result1)))),
                   (''identities'', MetaInt (int (length (res_Bundle_Identities result1))))] st
            in case sv_UpsertFindings svc ctx (scn_ID record) (res_Findings result1) of
                 Some err \<Rightarrow> fail_run env svc ctx record allowRetry StageFindingsStore (res_Assets result1) 0 err
                   ''scan failed while persisting findings'' (Wrapped ''persist findings: '' err '''') st
               | None \<Rightarrow>
                  (let st = appendScanEvent env svc ctx (scn_ID record) ''info'' ''findings persisted''
                         [(''findings'', MetaInt findings)] st;
                       (now, st) = read_clock env st;
                       (err, st) = completeScanTerminal env svc ctx (scn_ID record) ''succeeded'' now (res_Assets result1) findings '''' st
                   in case err of
                        Some err \<Rightarrow> fail_run env svc ctx record allowRetry StageFinalize (res_Assets result1) findings err
                          ''scan failed while finalizing scan record'' (Wrapped ''complete scan record: '' err '''') st
                      | None \<Rightarrow>
                         (let (finished, st) = read_clock env st;
                              record = record\<lparr>scn_Status := ''succeeded'', scn_FinishedAt := Some finished,
                                scn_AssetCount := res_Assets result1, scn_FindingCount := findings\<rparr>;
                              st = appendScanLifecycleEvent env svc ctx (scn_ID record) ''succeeded''
                                [(''assets'', MetaInt (res_Assets result1)), (''findings'', MetaInt findings),
                                 (''partial_source_run'', MetaBool (0 < length (res_SourceErrors result1)))] st;
                              st = appendScanEvent env svc ctx (scn_ID record) ''info'' ''scan completed''
                                [(''assets'', MetaInt (res_Assets result1)), (''findings'', MetaInt findings)] st
                          in (Inr \<lparr>rsr_Scan = record, rsr_Assets = res_Assets result1, rsr_FindingCount = findings,
                                rsr_PartialSourceRun = (0 < length (res_SourceErrors result1))\<rparr>, st)))))"

definition runScanWithRecord ::
  "Outside \<Rightarrow> ('x, 'c, 'l) ScanService \<Rightarrow> Context \<Rightarrow> ScanRecord \<Rightarrow> bool \<Rightarrow> ScanStore \<Rightarrow> RunScanResult result \<times> ScanStore" where
  "runScanWithRecord env svc ctx record allowRetry st =
    (let ctx = svc_scope svc ctx;
         ((scanner, record), st) = scannerForScan (sv_sources svc) ctx record st;
         ctx = WithScope ctx \<lparr>sc_TenantID = scn_TenantID record, sc_WorkspaceID = scn_WorkspaceID record\<rparr>
     in case scanner of
          Inl err \<Rightarrow> fail_run env svc ctx record allowRetry StageConnectorSetup 0 0 err
            ''scan failed while preparing provider connector'' err st
        | Inr scanner \<Rightarrow>
           (let st = appendScanEvent env svc ctx (scn_ID record) ''info'' ''collecting provider evidence''
                  [(''phase'', MetaText ''collecting''), (''provider'', MetaText (scn_Provider record))] st;
                (phases, result1) = scanner ctx;
                analyzed = filter (\<lambda>phase. phase = ''analyzing'') phases;
                st = foldl (\<lambda>st _. analyzing_event env svc ctx record st) st analyzed
            in case result1 of
                 Inl err \<Rightarrow> fail_run env svc ctx record allowRetry StageExecution 0 0 err
                   ''scan failed during collection/analysis'' err st
               | Inr result1 \<Rightarrow>
                   finish_run env svc ctx record allowRetry result1
                     (if analyzed = [] then analyzing_event env svc ctx record st else st)))"

subsection \<open>The worker\<close>

definition with_lock ::
  "('x, 'c, 'l) ScanService \<Rightarrow> string \<Rightarrow> 'r \<Rightarrow> (ScanStore \<Rightarrow> 'r \<times> ScanStore) \<Rightarrow> 'l \<times> ScanStore \<Rightarrow> 'r \<times> 'l \<times> ScanStore" where
  "with_lock svc key busy body s =
    (case sv_Locker svc of
       None \<Rightarrow> (let (r, st) = body (snd s) in (r, fst s, st))
     | Some try_acquire \<Rightarrow>
        (case try_acquire (lockKey svc key) (fst s) of
           (None, l) \<Rightarrow> (busy, l, snd s)
         | (Some release, l) \<Rightarrow> (let (r, st) = body (snd s) in (r, release l, st))))"

definition process_next ::
  "Outside \<Rightarrow> ('x, 'c, 'l) ScanService \<Rightarrow> Context \<Rightarrow> ScanStore \<Rightarrow> (bool \<times> go_error option) \<times> ScanStore" where
  "process_next env svc ctx st =
    (case ClaimNextQueuedScanAnyScope env (svc_Provider svc) st of
       (Inl err, st) \<Rightarrow>
         (if errors_is err ErrNotFound then ((False, None), st)
          else ((False, Some (Wrapped ''claim queued scan: '' err '''')), st))
     | (Inr record, st) \<Rightarrow>
        (let recordScopeCtx = WithScope ctx \<lparr>sc_TenantID = scn_TenantID record, sc_WorkspaceID = scn_WorkspaceID record\<rparr>
         in case skipScanIfWorkspaceInactive env svc recordScopeCtx record st of
              (Inl skipErr, st) \<Rightarrow> ((True, Some skipErr), st)
            | (Inr True, st) \<Rightarrow> ((True, None), st)
            | (Inr False, st) \<Rightarrow>
               (let st = appendScanLifecycleEvent env svc recordScopeCtx (scn_ID record) ''running''
                      [(''provider'', MetaText (scn_Provider record))] st;
                    st = appendScanEvent env svc recordScopeCtx (scn_ID record) ''info'' ''queued scan started''
                      [(''provider'', MetaText (scn_Provider record))] st
                in case runScanWithRecord env svc recordScopeCtx record True st of
                     (Inl runErr, st) \<Rightarrow> ((True, Some runErr), st)
                   | (Inr _, st) \<Rightarrow> ((True, None), st))))"

definition ProcessNextQueuedScan ::
  "Outside \<Rightarrow> ('x, 'c, 'l) ScanService \<Rightarrow> Context \<Rightarrow> 'l \<times> ScanStore \<Rightarrow> (bool \<times> go_error option) \<times> 'l \<times> ScanStore" where
  "ProcessNextQueuedScan env svc ctx s =
    with_lock svc (''scan:'' @ svc_Provider svc) (False, None) (process_next env svc (svc_scope svc ctx)) s"

definition run_scan ::
  "Outside \<Rightarrow> ('x, 'c, 'l) ScanService \<Rightarrow> Context \<Rightarrow> ScanStore \<Rightarrow> RunScanResult result \<times> ScanStore" where
  "run_scan env svc ctx st =
    (let (now, st) = read_clock env st
     in case CreateScan env ctx (svc_Provider svc) now st of
          (Inl err, st) \<Rightarrow> (Inl err, st)
        | (Inr record, st) \<Rightarrow>
           (let st = appendScanLifecycleEvent env svc ctx (scn_ID record) ''queued'' [(''provider'', MetaText (svc_Provider svc))] st;
                st = appendScanLifecycleEvent env svc ctx (scn_ID record) ''running'' [(''provider'', MetaText (svc_Provider svc))] st;
                st = appendScanEvent env svc ctx (scn_ID record) ''info'' ''scan started'' [(''provider'', MetaText (svc_Provider svc))] st
            in runScanWithRecord env svc ctx record False st))"

definition RunScan ::
  "Outside \<Rightarrow> ('x, 'c, 'l) ScanService \<Rightarrow> Context \<Rightarrow> 'l \<times> ScanStore \<Rightarrow> RunScanResult result \<times> 'l \<times> ScanStore" where
  "RunScan env svc ctx s =
    with_lock svc (''scan:'' @ svc_Provider svc) (Inl (Sentinel ErrScanInProgress)) (run_scan env svc (svc_scope svc ctx)) s"

subsection \<open>The batch of the worker (internal/worker/worker.go)\<close>

text \<open>
  \<^verbatim>\<open>runBatch\<close>: the number of failed jobs and the first error. An error does not end the batch, an idle
  queue does. Both queues of \<^verbatim>\<open>processAPIQueueBatch\<close> run concurrently on states of their own.
\<close>

fun run_batch ::
  "nat \<Rightarrow> ('s \<Rightarrow> (bool \<times> go_error option) \<times> 's) \<Rightarrow> nat \<times> go_error option \<Rightarrow> 's \<Rightarrow> (nat \<times> go_error option) \<times> 's" where
  "run_batch 0 process result1 s = (result1, s)"
| "run_batch (Suc left) process (failures, firstErr) s =
    (case process s of
       ((_, Some err), s) \<Rightarrow>
         run_batch left process (Suc failures, case firstErr of None \<Rightarrow> Some err | Some e \<Rightarrow> Some e) s
     | ((processed, None), s) \<Rightarrow>
         (if processed then run_batch left process (failures, firstErr) s else ((failures, firstErr), s)))"

definition processAPIQueueBatch ::
  "int \<Rightarrow> ('s \<Rightarrow> (bool \<times> go_error option) \<times> 's) \<Rightarrow> ('r \<Rightarrow> (bool \<times> go_error option) \<times> 'r) \<Rightarrow> 's \<times> 'r
    \<Rightarrow> go_error option \<times> 's \<times> 'r" where
  "processAPIQueueBatch batchSize processScan processRepoScan sr =
    (let size = nat (if batchSize \<le> 0 then 1 else batchSize);
         ((scanFailures, scanErr), s) = run_batch size processScan (0, None) (fst sr);
         ((repoFailures, repoErr), r) = run_batch size processRepoScan (0, None) (snd sr);
         failures = scanFailures + repoFailures;
         firstErr = (case scanErr of Some e \<Rightarrow> Some e | None \<Rightarrow> repoErr)
     in (case firstErr of
           Some e \<Rightarrow>
             (if 0 < failures then
                Some (Wrapped (''api queue batch failed for '' @ int_string (int failures) @ '' job(s): '') e '''')
              else None)
         | None \<Rightarrow> None, s, r))"

subsection \<open>What a run may change\<close>

text \<open>
  The weight of a record is the number of runs it can still take. A write is \<open>within\<close> a bound for a scan
  when it touches no other scan and leaves that one's weight where it was or below the bound.
\<close>

definition scan_weight :: "ScanRecord \<Rightarrow> nat" where
  "scan_weight r =
    (if scn_Status r = ''queued'' \<and> \<not> scn_DeadLettered r then Suc (nat (effectiveScanRetryLimit r - scn_RetryCount r)) else 0)"

definition backlog :: "ScanStore \<Rightarrow> nat" where
  "backlog st = sum_list (map (\<lambda>(_, r). scan_weight r) (qs_scans st))"

definition within :: "Outside \<Rightarrow> string \<Rightarrow> nat \<Rightarrow> ScanStore \<Rightarrow> ScanStore \<Rightarrow> bool" where
  "within env sid b st st' \<longleftrightarrow> (queue_ok env st \<longrightarrow> queue_ok env st') \<and> fst ` set (qs_scans st') = fst ` set (qs_scans st)
    \<and> (\<forall>j. j \<noteq> sid \<longrightarrow> map_of (qs_scans st') j = map_of (qs_scans st) j)
    \<and> (\<forall>r'. map_of (qs_scans st') sid = Some r' \<longrightarrow>
         (\<exists>r. map_of (qs_scans st) sid = Some r \<and> scan_weight r' \<le> max (scan_weight r) b))"

lemma within_refl [simp]: "within env sid b st st"
  by (simp add: within_def)

lemma within_trans:
  assumes "within env sid b s t" "within env sid b t u"
  shows "within env sid b s u"
proof -
  have "\<exists>r. map_of (qs_scans s) sid = Some r \<and> scan_weight r'' \<le> max (scan_weight r) b" if u: "map_of (qs_scans u) sid = Some r''" for r''
  proof -
    from assms(2) u obtain r' where r': "map_of (qs_scans t) sid = Some r'" "scan_weight r'' \<le> max (scan_weight r') b"
      by (auto simp: within_def)
    with assms(1) obtain r where "map_of (qs_scans s) sid = Some r" "scan_weight r' \<le> max (scan_weight r) b" by (auto simp: within_def)
    with r'(2) show ?thesis by auto
  qed
  with assms show ?thesis by (auto simp: within_def)
qed

lemma within_same:
  "qs_scans st' = qs_scans st \<Longrightarrow> qs_scanIDs st' = qs_scanIDs st \<Longrightarrow> qs_reads st \<le> qs_reads st' \<Longrightarrow> within env sid b st st'"
  using queue_ok_same by (auto simp: within_def)

lemma read_clock_frame: "read_clock env st = (t, st') \<Longrightarrow> qs_scans st' = qs_scans st \<and> within env sid b st st'"
  by (auto simp: read_clock_def intro: within_same)

lemma read_ctx_err_frame: "read_ctx_err env st = (t, st') \<Longrightarrow> qs_scans st' = qs_scans st \<and> within env sid b st st'"
  by (auto simp: read_ctx_err_def intro: within_same)

lemma event_frame [simp]:
  "qs_scans (appendScanEvent env svc ctx id' level message md st) = qs_scans st"
  "qs_scanIDs (appendScanEvent env svc ctx id' level message md st) = qs_scanIDs st"
  "qs_reads st \<le> qs_reads (appendScanEvent env svc ctx id' level message md st)"
  using AppendScanEvent_frame [OF prod.collapse [symmetric]] by (simp_all add: appendScanEvent_def)

lemma lifecycle_frame [simp]:
  "qs_scans (appendScanLifecycleEvent env svc ctx id' state md st) = qs_scans st"
  "qs_scanIDs (appendScanLifecycleEvent env svc ctx id' state md st) = qs_scanIDs st"
  "qs_reads st \<le> qs_reads (appendScanLifecycleEvent env svc ctx id' state md st)"
  by (simp_all add: appendScanLifecycleEvent_def)

lemma within_events [simp]:
  "within env sid b st (appendScanEvent env svc ctx id' level message md st)"
  "within env sid b st (appendScanLifecycleEvent env svc ctx id' state md st)"
  by (simp_all add: within_same)

lemma within_event_after [simp]:
  "within env sid b s st \<Longrightarrow> within env sid b s (appendScanEvent env svc ctx id' level message md st)"
  "within env sid b s st \<Longrightarrow> within env sid b s (appendScanLifecycleEvent env svc ctx id' state md st)"
  subgoal by (erule within_trans) (rule within_events(1))
  subgoal by (erule within_trans) (rule within_events(2))
  done

lemma within_put:
  assumes "map_of (qs_scans st) sid = Some r" "scan_weight r' \<le> max (scan_weight r) b"
    and "queue_ok env st \<Longrightarrow> queue_ok env (st\<lparr>qs_scans := map_put sid r' (qs_scans st)\<rparr>)"
  shows "within env sid b st (st\<lparr>qs_scans := map_put sid r' (qs_scans st)\<rparr>)"
proof -
  from assms(1) have "sid \<in> fst ` set (qs_scans st)" by (metis map_of_eq_None_iff option.distinct(1))
  then have "fst ` set (map_put sid r' (qs_scans st)) = fst ` set (qs_scans st)"
    by (simp add: map_put_def dom_update insert_absorb)
  with assms show ?thesis by (simp add: within_def)
qed

lemma update_scan_within:
  assumes "update_scan ctx sid f st = (e, st')" "\<And>r. scan_weight (f r) \<le> b"
    and "queue_ok env st \<Longrightarrow> queue_ok env (snd (update_scan ctx sid f st))"
  shows "within env sid b st st'"
proof (cases "GetScan ctx sid st")
  case (Inl err)
  with assms(1) show ?thesis by (simp add: update_scan_def within_refl)
next
  case (Inr r)
  then have "map_of (qs_scans st) sid = Some r" by (rule GetScan_Inr)
  moreover from assms(1) Inr have st': "st' = st\<lparr>qs_scans := map_put sid (f r) (qs_scans st)\<rparr>" by (simp add: update_scan_def)
  moreover from assms(3) Inr have "queue_ok env st \<Longrightarrow> queue_ok env (st\<lparr>qs_scans := map_put sid (f r) (qs_scans st)\<rparr>)"
    by (simp add: update_scan_def)
  moreover from assms(2) have "scan_weight (f r) \<le> max (scan_weight r) b" by (simp add: le_max_iff_disj)
  ultimately show ?thesis using within_put by blast
qed

lemma terminal_write_within:
  assumes "terminal_write env svc ctx write_scan st = (e, st')"
    and "\<And>c s e s'. write_scan c s = (e, s') \<Longrightarrow> within env sid b s s'"
  shows "within env sid b st st'"
proof -
  obtain ce s1 where r: "read_ctx_err env st = (ce, s1)" by (metis surj_pair)
  let ?c = "if shouldRetryTerminalWrite ce then terminalWriteContext svc ctx else ctx"
  obtain e2 s2 where w: "write_scan ?c s1 = (e2, s2)" by (metis surj_pair)
  have one: "within env sid b st s2" using within_trans [OF conjunct2 [OF read_ctx_err_frame [OF r]] assms(2) [OF w]] .
  show ?thesis
  proof (cases "shouldRetryTerminalWrite e2")
    case False
    with assms(1) r w one show ?thesis by (simp add: terminal_write_def)
  next
    case True
    with assms(1) r w have "write_scan (terminalWriteContext svc ctx) s2 = (e, st')" by (simp add: terminal_write_def)
    from within_trans [OF one assms(2) [OF this]] show ?thesis .
  qed
qed

lemma completeScanTerminal_within:
  assumes "completeScanTerminal env svc ctx sid status finishedAt assets findings message st = (e, st')" "status \<noteq> ''queued''"
  shows "within env sid b st st'"
  using assms(1) unfolding completeScanTerminal_def
proof (rule terminal_write_within)
  fix c s e s'
  assume "CompleteScan c sid status finishedAt assets findings message s = (e, s')"
  moreover note ending_ok(1) [of env s c sid status finishedAt assets findings message]
  ultimately show "within env sid b s s'"
    unfolding CompleteScan_def using assms(2) by (elim update_scan_within) (auto simp: scan_weight_def)
qed

lemma deadLetterQueuedScan_within:
  assumes "deadLetterQueuedScan env svc ctx sid finishedAt c m assets findings category message st = (e, st')" "0 \<le> c"
  shows "within env sid b st st'"
  using assms(1) unfolding deadLetterQueuedScan_def
proof (rule terminal_write_within)
  fix ctx s e s'
  assume "DeadLetterScan ctx sid finishedAt c m assets findings category message s = (e, s')"
  moreover note ending_ok(3) [OF _ assms(2), of env s ctx sid finishedAt m assets findings category message]
  ultimately show "within env sid b s s'"
    unfolding DeadLetterScan_def by (elim update_scan_within) (auto simp: scan_weight_def)
qed

lemma scheduleScanRetry_within:
  assumes "scheduleScanRetry env svc ctx sid queuedAt (c + 1) m category message nextRetryAt st = (e, st')" "0 \<le> c" "c < m"
  shows "within env sid (nat (m - c)) st st'"
  using assms(1) unfolding scheduleScanRetry_def
proof (rule terminal_write_within)
  fix ctx s e s'
  assume "ScheduleScanRetry ctx sid queuedAt (c + 1) m category message nextRetryAt s = (e, s')"
  moreover have "0 \<le> c + 1" using assms(2) by simp
  note ending_ok(2) [OF _ this, of env s ctx sid queuedAt m category message nextRetryAt]
  ultimately show "within env sid (nat (m - c)) s s'"
    unfolding ScheduleScanRetry_def using assms(2,3)
    by (elim update_scan_within) (auto simp: scan_weight_def effectiveScanRetryLimit_def)
qed

text \<open>A handled failure leaves at most one run less than the record had; with none left the scan is over.\<close>

definition runs_left :: "ScanRecord \<Rightarrow> nat" where
  "runs_left r = nat (effectiveScanRetryLimit r - scn_RetryCount r)"

text \<open>The write a handled failure makes; the rest of the handler appends events.\<close>

definition failure_write ::
  "Outside \<Rightarrow> ('x, 'c, 'l) ScanService \<Rightarrow> Context \<Rightarrow> ScanRecord \<Rightarrow> bool \<Rightarrow> scan_stage \<Rightarrow> int \<Rightarrow> int \<Rightarrow> go_error \<Rightarrow> time
    \<Rightarrow> ScanStore \<Rightarrow> go_error option \<times> ScanStore" where
  "failure_write env svc ctx record allowRetry stage assets findings failure now st =
    (let policy = classifyScanFailure stage failure; limit = effectiveScanRetryLimit record; c = scn_RetryCount record
     in if \<not> allowRetry then completeScanTerminal env svc ctx (scn_ID record) ''failed'' now assets findings (error_text failure) st
        else if sfp_Retryable policy \<and> c < limit then
          scheduleScanRetry env svc ctx (scn_ID record) now (c + 1) limit (sfp_Category policy) (error_text failure)
            (now + scanRetryBackoff (c + 1)) st
        else deadLetterQueuedScan env svc ctx (scn_ID record) now c limit assets findings (sfp_Category policy) (error_text failure) st)"

definition same_scans :: "ScanStore \<Rightarrow> ScanStore \<Rightarrow> bool" where
  "same_scans st st' \<longleftrightarrow> qs_scans st' = qs_scans st \<and> qs_scanIDs st' = qs_scanIDs st \<and> qs_reads st \<le> qs_reads st'"

lemma same_scans_simps [simp]:
  "same_scans st st"
  "same_scans s st \<Longrightarrow> same_scans s (appendScanEvent env svc ctx i level message md st)"
  "same_scans s st \<Longrightarrow> same_scans s (appendScanLifecycleEvent env svc ctx i state md st)"
  by (auto simp: same_scans_def intro: order_trans [OF _ event_frame(3)] order_trans [OF _ lifecycle_frame(3)])

lemma same_scans_within: "same_scans st st' \<Longrightarrow> within env sid b st st'"
  by (simp add: same_scans_def within_same)

lemma handleScanFailure_write:
  assumes "handleScanFailure env svc ctx record allowRetry stage assets findings failure message st = (e, st')"
  shows "\<exists>s1 s2. same_scans st s1 \<and> same_scans s2 st'
    \<and> failure_write env svc ctx record allowRetry stage assets findings failure (out_now env (qs_reads st)) s1 = (e, s2)"
proof -
  define now where "now = out_now env (qs_reads st)"
  define s1 where "s1 = st\<lparr>qs_reads := Suc (qs_reads st)\<rparr>"
  have r: "read_clock env st = (now, s1)" by (simp add: read_clock_def now_def s1_def)
  have s1: "same_scans st s1" by (simp add: same_scans_def s1_def)
  define md where "md = [(''error'', MetaText (error_text failure)), (''failure_category'', MetaText (sfp_Category (classifyScanFailure stage failure))),
           (''failure_stage'', MetaText (stage_text stage)), (''retryable'', MetaBool (allowRetry \<and> sfp_Retryable (classifyScanFailure stage failure))),
           (''retry_count'', MetaInt (scn_RetryCount record)), (''max_retry_count'', MetaInt (effectiveScanRetryLimit record)),
           (''dead_lettered'', MetaBool False), (''asset_count'', MetaInt assets), (''finding_count'', MetaInt findings)]"
  define s2 where "s2 = appendScanLifecycleEvent env svc ctx (scn_ID record) ''failed'' md s1"
  have s2: "same_scans st s2" by (simp add: s2_def s1)
  define again where "again \<longleftrightarrow> sfp_Retryable (classifyScanFailure stage failure) \<and> scn_RetryCount record < effectiveScanRetryLimit record"
  define ev where "ev level md = appendScanEvent env svc ctx (scn_ID record) level message md s2" for level md
  have ev: "same_scans st (ev level md)" for level md by (simp add: ev_def s2)
  let ?fw = "failure_write env svc ctx record allowRetry stage assets findings failure now"
  note unfolded = assms [unfolded handleScanFailure_def Let_def r prod.case, folded md_def, folded s2_def again_def ev_def]
  have "\<exists>s3 s4. same_scans st s3 \<and> same_scans s4 st' \<and> ?fw s3 = (e, s4)"
  proof (cases allowRetry)
    case False
    with unfolded have "?fw (ev ''error'' md) = (e, st')" by (simp add: failure_write_def)
    with ev show ?thesis by (intro exI [of _ "ev ''error'' md"] exI [of _ st'] conjI) simp_all
  next
    case True
    define md2 where "md2 = (if again then map_put ''next_retry_at'' (MetaTime (now + scanRetryBackoff (scn_RetryCount record + 1)))
        (map_put ''retry_count'' (MetaInt (scn_RetryCount record + 1)) md)
      else map_put ''retryable'' (MetaBool False) (map_put ''dead_lettered'' (MetaBool True) md))"
    define s3 where "s3 = ev (if again then ''warn'' else ''error'') md2"
    obtain e4 s4 where w: "?fw s3 = (e4, s4)" by (metis surj_pair)
    have "e4 = e \<and> same_scans s4 st'"
    proof (cases again)
      case yes: True
      from w yes True have "scheduleScanRetry env svc ctx (scn_ID record) now (scn_RetryCount record + 1) (effectiveScanRetryLimit record)
        (sfp_Category (classifyScanFailure stage failure)) (error_text failure) (now + scanRetryBackoff (scn_RetryCount record + 1))
        (ev ''warn'' md2) = (e4, s4)" by (simp add: failure_write_def Let_def again_def s3_def)
      with unfolded True yes show ?thesis by (cases e4) (auto simp: md2_def)
    next
      case no: False
      from w no True have "deadLetterQueuedScan env svc ctx (scn_ID record) now (scn_RetryCount record) (effectiveScanRetryLimit record)
        assets findings (sfp_Category (classifyScanFailure stage failure)) (error_text failure) (ev ''error'' md2) = (e4, s4)"
        by (simp add: failure_write_def Let_def again_def s3_def del: de_Morgan_conj)
      with unfolded True no show ?thesis by (cases e4) (auto simp: md2_def)
    qed
    with w ev show ?thesis unfolding s3_def by blast
  qed
  then show ?thesis by (simp add: now_def)
qed

lemma handleScanFailure_within:
  assumes "handleScanFailure env svc ctx record allowRetry stage assets findings failure message st = (e, st')"
    and "0 \<le> scn_RetryCount record"
  shows "within env (scn_ID record) (runs_left record) st st'"
proof -
  from handleScanFailure_write [OF assms(1)] obtain s1 s2 where s: "same_scans st s1" "same_scans s2 st'"
    "failure_write env svc ctx record allowRetry stage assets findings failure (out_now env (qs_reads st)) s1 = (e, s2)" by blast
  have "within env (scn_ID record) (runs_left record) s1 s2"
    using s(3) assms(2) scheduleScanRetry_within [of env svc ctx "scn_ID record" "out_now env (qs_reads st)" "scn_RetryCount record"
        "effectiveScanRetryLimit record"]
    by (auto simp: failure_write_def Let_def runs_left_def completeScanTerminal_within deadLetterQueuedScan_within split: if_splits)
  from within_trans [OF within_trans [OF same_scans_within [OF s(1)] this] same_scans_within [OF s(2)]] show ?thesis .
qed

lemma fail_run_within:
  assumes "fail_run env svc ctx record allowRetry stage assets findings failure message returned st = (res, st')" "0 \<le> scn_RetryCount record"
  shows "within env (scn_ID record) (runs_left record) st st'"
proof -
  obtain e s where h: "handleScanFailure env svc ctx record allowRetry stage assets findings failure message st = (e, s)" by (metis surj_pair)
  with assms(1) have "st' = s" by (auto simp: fail_run_def split: option.splits if_splits)
  with handleScanFailure_within [OF h assms(2)] show ?thesis by simp
qed

lemma finish_run_within:
  assumes "finish_run env svc ctx record allowRetry result0 st = (res, st')" "0 \<le> scn_RetryCount record"
  shows "within env (scn_ID record) (runs_left record) st st'"
proof -
  let ?w = "within env (scn_ID record) (runs_left record)"
  define r where "r = result0\<lparr>res_Findings := sv_enrichFindings svc (res_Findings result0)\<rparr>"
  define s1 where "s1 = partial_events env svc ctx record (res_SourceErrors r) st"
  have s1: "?w st s1" by (simp add: s1_def partial_events_def)
  define s2 where "s2 = appendScanEvent env svc ctx (scn_ID record) ''info'' ''artifacts persisted''
                  [(''raw_assets'', MetaInt (int (length (res_RawAssets r)))),
                   (''identities'', MetaInt (int (length (res_Bundle_Identities r))))] s1"
  have s2: "?w st s2" unfolding s2_def by (rule within_event_after(1) [OF s1])
  define s3 where "s3 = appendScanEvent env svc ctx (scn_ID record) ''info'' ''findings persisted''
                         [(''findings'', MetaInt (int (length (res_Findings r))))] s2"
  have s3: "?w st s3" unfolding s3_def by (rule within_event_after(1) [OF s2])
  obtain now s4 where r4: "read_clock env s3 = (now, s4)" by (metis surj_pair)
  obtain e s5 where c: "completeScanTerminal env svc ctx (scn_ID record) ''succeeded'' now (res_Assets r) (int (length (res_Findings r))) '''' s4 = (e, s5)"
    by (metis surj_pair)
  have s5: "?w st s5"
    using within_trans [OF within_trans [OF s3 conjunct2 [OF read_clock_frame [OF r4]]] completeScanTerminal_within [OF c]] by simp
  note unfolded = assms(1) [unfolded finish_run_def Let_def, folded r_def, folded s1_def, folded s2_def, folded s3_def, unfolded r4 prod.case c]
  show ?thesis
  proof (cases "sv_UpsertArtifacts svc ctx (scn_ID record) r")
    case (Some err)
    with unfolded show ?thesis using fail_run_within [OF _ assms(2)] within_trans [OF s1] by fastforce
  next
    case a: None
    show ?thesis
    proof (cases "sv_UpsertFindings svc ctx (scn_ID record) (res_Findings r)")
      case (Some err)
      with a unfolded show ?thesis using fail_run_within [OF _ assms(2)] within_trans [OF s2] by fastforce
    next
      case f: None
      show ?thesis
      proof (cases e)
        case (Some err)
        with a f unfolded show ?thesis using fail_run_within [OF _ assms(2)] within_trans [OF s5] by fastforce
      next
        case None
        obtain fin s6 where r6: "read_clock env s5 = (fin, s6)" by (metis surj_pair)
        have s6: "?w st s6" using within_trans [OF s5 conjunct2 [OF read_clock_frame [OF r6]]] .
        with None a f unfolded r6 show ?thesis by auto
      qed
    qed
  qed
qed

text \<open>The record a run uses is still the claimed one in what counts for the retries.\<close>

definition same_run :: "ScanRecord \<Rightarrow> ScanRecord \<Rightarrow> bool" where
  "same_run r q \<longleftrightarrow> scn_ID r = scn_ID q \<and> scn_RetryCount r = scn_RetryCount q \<and> scn_MaxRetryCount r = scn_MaxRetryCount q"

lemma BindScanSource_same:
  assumes "BindScanSource ctx sid source st = (res, st')" "map_of (qs_scans st) sid = Some record" "scn_ID record = sid"
  shows "within env sid b st st'" "res = Inr r \<Longrightarrow> same_run r record"
proof -
  from BindScanSource_ok [of env st ctx sid source] assms(1) have ok: "queue_ok env st \<Longrightarrow> queue_ok env st'" by simp
  consider "st' = st" "\<And>r. res \<noteq> Inr r"
    | r' where "res = Inr r'" "st' = st\<lparr>qs_scans := map_put sid r' (qs_scans st)\<rparr>" "same_run r' record" "scan_weight r' = scan_weight record"
    using assms by (auto simp: BindScanSource_def Let_def same_run_def scan_weight_def effectiveScanRetryLimit_def
      split: sum.splits option.splits if_splits)
  then have "within env sid b st st' \<and> (\<forall>r. res = Inr r \<longrightarrow> same_run r record)"
  proof cases
    case (2 r')
    with ok have "within env sid b st st'" by (simp only: 2(2), intro within_put [OF assms(2)]) simp_all
    with 2 show ?thesis by simp
  qed simp
  then show "within env sid b st st'" "res = Inr r \<Longrightarrow> same_run r record" by simp_all
qed

lemma bindAWSScanRecordSource_same:
  assumes "bindAWSScanRecordSource ctx record source st = ((record', ctx', err), st')" "map_of (qs_scans st) (scn_ID record) = Some record"
  shows "within env (scn_ID record) b st st' \<and> same_run record' record"
proof -
  define bound where "bound = record\<lparr>scn_ProjectID := src_ProjectID (Normalize_ScanSource source), scn_ConnectorID := src_ConnectorID (Normalize_ScanSource source),
                 scn_TenantID := sc_TenantID (ScopeFromContext ctx), scn_WorkspaceID := sc_WorkspaceID (ScopeFromContext ctx)\<rparr>"
  have bound: "same_run bound record" "same_run record record" "scn_ID bound = scn_ID record" by (simp_all add: bound_def same_run_def)
  obtain r s where b: "BindScanSource ctx (scn_ID record) (Normalize_ScanSource source) st = (r, s)" by (metis surj_pair)
  note same = BindScanSource_same [OF b assms(2) refl]
  note unfolded = assms(1) [unfolded bindAWSScanRecordSource_def Let_def, folded bound_def, unfolded bound(3) b]
  consider "st' = st" "record' = record" | "st' = st" "record' = bound" | "st' = s" "record' = bound" | r' where "st' = s" "r = Inr r'" "record' = r'"
    using unfolded by (cases r) (auto split: if_splits)
  then show ?thesis using bound same by cases auto
qed

lemma scannerForScan_same:
  assumes "scannerForScan src ctx record st = ((scanner, record'), st')" "map_of (qs_scans st) (scn_ID record) = Some record"
  shows "within env (scn_ID record) b st st' \<and> same_run record' record"
proof -
  obtain source scope rerr where r: "refreshAWSScanRecordConnection src ctx record = (source, scope, rerr)" by (metis surj_pair)
  obtain rec2 ctx2 err s where b: "bindAWSScanRecordSource (WithScope ctx scope) record source st = ((rec2, ctx2, err), s)" by (metis surj_pair)
  note same = bindAWSScanRecordSource_same [OF b assms(2), of env b]
  have own: "same_run record record" by (simp add: same_run_def)
  have rec3: "same_run (rec2\<lparr>scn_ProjectID := p, scn_ConnectorID := c\<rparr>) record" for p c
    using same by (simp add: same_run_def)
  note unfolded = assms(1) [unfolded scannerForScan_def Let_def r prod.case b]
  from unfolded have "(st' = st \<and> record' = record) \<or> (st' = s \<and> record' = rec2) \<or>
      (st' = s \<and> record' = rec2\<lparr>scn_ProjectID := src_ProjectID source, scn_ConnectorID := src_ConnectorID source\<rparr>)"
    by (auto split: option.splits sum.splits if_splits)
  then show ?thesis using same own rec3 by auto
qed

lemma same_run_left: "same_run r q \<Longrightarrow> runs_left r = runs_left q"
  by (simp add: same_run_def runs_left_def effectiveScanRetryLimit_def)

lemma analyzing_within: "within env sid b st (foldl (\<lambda>st _. analyzing_event env svc ctx record st) st xs)"
proof (induction xs rule: rev_induct)
  case (snoc x xs)
  then show ?case by (simp add: analyzing_event_def)
qed simp

lemma runScanWithRecord_within:
  assumes "runScanWithRecord env svc ctx record allowRetry st = (res, st')" "map_of (qs_scans st) (scn_ID record) = Some record"
    and "0 \<le> scn_RetryCount record"
  shows "within env (scn_ID record) (runs_left record) st st'"
proof -
  let ?w = "within env (scn_ID record) (runs_left record)"
  obtain scanner rec2 s1 where sc: "scannerForScan (sv_sources svc) (svc_scope svc ctx) record st = ((scanner, rec2), s1)" by (metis surj_pair)
  from scannerForScan_same [OF sc assms(2), of env "runs_left record"] have s1: "?w st s1" and same: "same_run rec2 record" by blast+
  then have id2: "scn_ID rec2 = scn_ID record" "0 \<le> scn_RetryCount rec2" "runs_left rec2 = runs_left record"
    using assms(3) same_run_left [OF same] by (simp_all add: same_run_def)
  let ?ctx = "WithScope (svc_scope svc ctx) \<lparr>sc_TenantID = scn_TenantID rec2, sc_WorkspaceID = scn_WorkspaceID rec2\<rparr>"
  note failed = fail_run_within [OF _ id2(2), unfolded id2(1,3)]
  note finished = finish_run_within [OF _ id2(2), unfolded id2(1,3)]
  show ?thesis
  proof (cases scanner)
    case (Inl err)
    with assms(1) sc have "fail_run env svc ?ctx rec2 allowRetry StageConnectorSetup 0 0 err
            ''scan failed while preparing provider connector'' err s1 = (res, st')" by (simp add: runScanWithRecord_def Let_def)
    from within_trans [OF s1 failed [OF this]] show ?thesis .
  next
    case (Inr sca)
    obtain phases r1 where run: "sca ?ctx = (phases, r1)" by (metis surj_pair)
    let ?an = "filter (\<lambda>phase. phase = ''analyzing'') phases"
    define s2 where "s2 = foldl (\<lambda>st _. analyzing_event env svc ?ctx rec2 st)
      (appendScanEvent env svc ?ctx (scn_ID rec2) ''info'' ''collecting provider evidence''
        [(''phase'', MetaText ''collecting''), (''provider'', MetaText (scn_Provider rec2))] s1) ?an"
    have s2: "?w st s2" unfolding s2_def by (rule within_trans [OF _ analyzing_within]) (simp add: s1)
    note unfolded = assms(1) [unfolded runScanWithRecord_def Let_def sc prod.case Inr sum.case run, folded s2_def]
    show ?thesis
    proof (cases r1)
      case (Inl err)
      with unfolded have "fail_run env svc ?ctx rec2 allowRetry StageExecution 0 0 err ''scan failed during collection/analysis'' err s2 = (res, st')"
        by simp
      from within_trans [OF s2 failed [OF this]] show ?thesis .
    next
      case (Inr ok)
      let ?s3 = "if ?an = [] then analyzing_event env svc ?ctx rec2 s2 else s2"
      have s3: "?w st ?s3" using s2 by (simp add: analyzing_event_def)
      from Inr unfolded have "finish_run env svc ?ctx rec2 allowRetry ok ?s3 = (res, st')" by simp
      from within_trans [OF s3 finished [OF this]] show ?thesis .
    qed
  qed
qed

lemma skipScanIfWorkspaceInactive_within:
  assumes "skipScanIfWorkspaceInactive env svc ctx record st = (res, st')"
  shows "within env (scn_ID record) b st st'" "res = Inr False \<Longrightarrow> st' = st"
proof -
  have "within env (scn_ID record) b st st' \<and> (res = Inr False \<longrightarrow> st' = st)"
  proof (cases "st' = st")
    case False
    then obtain ws where ws: "sv_GetWorkspace svc ctx (trim_space (scn_WorkspaceID record)) = Inr ws"
      using assms by (auto simp: skipScanIfWorkspaceInactive_def Let_def split: sum.splits if_splits)
    define reason where "reason = ''workspace lifecycle is '' @ ws_Status ws @ ''; scan refused (see #1420)''"
    define s1 where "s1 = appendScanEvent env svc ctx (scn_ID record) ''warn'' reason [(''workspace_status'', MetaText (ws_Status ws))]
      (appendScanLifecycleEvent env svc ctx (scn_ID record) ''failed''
        [(''provider'', MetaText (scn_Provider record)), (''reason'', MetaText ''workspace_inactive''),
         (''workspace_status'', MetaText (ws_Status ws))] st)"
    have s1: "within env (scn_ID record) b st s1" by (simp add: s1_def)
    obtain now s2 where r: "read_clock env s1 = (now, s2)" by (metis surj_pair)
    obtain e s3 where c: "completeScanTerminal env svc ctx (scn_ID record) ''failed'' now 0 0 reason s2 = (e, s3)" by (metis surj_pair)
    have s3: "within env (scn_ID record) b st s3"
      using within_trans [OF within_trans [OF s1 conjunct2 [OF read_clock_frame [OF r]]] completeScanTerminal_within [OF c]] by simp
    note unfolded = assms [unfolded skipScanIfWorkspaceInactive_def Let_def ws sum.case, folded reason_def, folded s1_def, unfolded r prod.case c]
    from unfolded False have "st' = s3" "res \<noteq> Inr False" by (auto split: if_splits option.splits)
    with s3 show ?thesis by simp
  qed (use assms in auto)
  then show "within env (scn_ID record) b st st'" "res = Inr False \<Longrightarrow> st' = st" by blast+
qed

subsection \<open>The queue drains\<close>

lemma backlog_as_sum:
  assumes "distinct (map fst (qs_scans st))"
  shows "backlog st = (\<Sum>i\<in>fst ` set (qs_scans st). scan_weight (the (map_of (qs_scans st) i)))"
proof -
  have "(\<lambda>(_, r). scan_weight r) x = scan_weight (the (map_of (qs_scans st) (fst x)))" if "x \<in> set (qs_scans st)" for x
  proof -
    obtain i r where x: "x = (i, r)" by (metis surj_pair)
    with that assms have "map_of (qs_scans st) i = Some r" by simp
    with x show ?thesis by simp
  qed
  then have "map (\<lambda>(_, r). scan_weight r) (qs_scans st) = map (\<lambda>i. scan_weight (the (map_of (qs_scans st) i))) (map fst (qs_scans st))"
    by (simp add: case_prod_unfold)
  then have "backlog st = sum_list (map (\<lambda>i. scan_weight (the (map_of (qs_scans st) i))) (map fst (qs_scans st)))"
    by (simp only: backlog_def)
  also have "\<dots> = (\<Sum>i\<in>set (map fst (qs_scans st)). scan_weight (the (map_of (qs_scans st) i)))"
    by (rule sum_list_distinct_conv_sum_set [OF assms])
  finally show ?thesis by simp
qed

lemma backlog_change:
  assumes "distinct (map fst (qs_scans st))" "distinct (map fst (qs_scans st'))" "fst ` set (qs_scans st') = fst ` set (qs_scans st)"
    and "\<And>j. j \<noteq> sid \<Longrightarrow> map_of (qs_scans st') j = map_of (qs_scans st) j"
    and "map_of (qs_scans st) sid = Some r" "map_of (qs_scans st') sid = Some r'"
  shows "backlog st' + scan_weight r = backlog st + scan_weight r'"
proof -
  let ?d = "fst ` set (qs_scans st)"
  from assms(5) have sid: "sid \<in> ?d" by (metis map_of_eq_None_iff option.distinct(1))
  have "(\<Sum>i\<in>?d - {sid}. scan_weight (the (map_of (qs_scans st') i))) = (\<Sum>i\<in>?d - {sid}. scan_weight (the (map_of (qs_scans st) i)))"
    by (rule sum.cong) (use assms(4) in auto)
  with sid assms(5,6) show ?thesis
    by (simp add: backlog_as_sum [OF assms(1)] backlog_as_sum [OF assms(2)] assms(3) sum.remove [of ?d sid])
qed

lemma within_backlog:
  assumes "within env sid b st st'" "queue_ok env st" "map_of (qs_scans st) sid = Some r"
  shows "backlog st' + scan_weight r \<le> backlog st + max (scan_weight r) b"
proof -
  from assms(1) have dom: "fst ` set (qs_scans st') = fst ` set (qs_scans st)" by (simp add: within_def)
  from assms(3) dom obtain r' where r': "map_of (qs_scans st') sid = Some r'"
    by (metis map_of_eq_None_iff not_None_eq)
  from assms(1,3) r' have "scan_weight r' \<le> max (scan_weight r) b" by (auto simp: within_def)
  moreover have "backlog st' + scan_weight r = backlog st + scan_weight r'"
  proof (rule backlog_change [OF _ _ dom _ assms(3) r'])
    show "distinct (map fst (qs_scans st))" "distinct (map fst (qs_scans st'))"
      using assms(1,2) unfolding within_def queue_ok_def by blast+
    show "\<And>j. j \<noteq> sid \<Longrightarrow> map_of (qs_scans st') j = map_of (qs_scans st) j" using assms(1) by (simp add: within_def)
  qed
  ultimately show ?thesis by simp
qed

text \<open>The claim of a scan, as a change of the store.\<close>

lemma claim_run:
  assumes "queue_ok env st" "ClaimNextQueuedScanAnyScope env provider st = (Inr record, st1)"
  obtains q where "map_of (qs_scans st) (scn_ID record) = Some q" "scn_Status q = ''queued''" "\<not> scn_DeadLettered q" "record = run_record q"
    "qs_scans st1 = map_put (scn_ID record) record (qs_scans st)" "queue_ok env st1" "scan_record_ok record"
    "map_of (qs_scans st1) (scn_ID record) = Some record" "backlog st1 + Suc (runs_left record) = backlog st"
proof -
  from claim_cases [OF assms(1), of None provider] assms(2) obtain q where
    q: "map_of (qs_scans st) (scn_ID record) = Some q" "claim_candidate None (trim_space provider) q" "record = run_record q"
      "qs_scans st1 = map_put (scn_ID record) record (qs_scans st)" "queue_ok env st1"
    by (auto simp: ClaimNextQueuedScanAnyScope_def)
  have at: "map_of (qs_scans st1) (scn_ID record) = Some record" by (simp add: q(4))
  from q(1) have "scn_ID record \<in> fst ` set (qs_scans st)" by (metis map_of_eq_None_iff option.distinct(1))
  then have dom: "fst ` set (qs_scans st1) = fst ` set (qs_scans st)" by (simp add: q(4) map_put_def dom_update insert_absorb)
  have "backlog st1 + scan_weight q = backlog st + scan_weight record"
  proof (rule backlog_change [OF _ _ dom _ q(1) at])
    show "distinct (map fst (qs_scans st))" "distinct (map fst (qs_scans st1))"
      using assms(1) q(5) unfolding queue_ok_def by blast+
    show "\<And>j. j \<noteq> scn_ID record \<Longrightarrow> map_of (qs_scans st1) j = map_of (qs_scans st) j" by (simp add: q(4))
  qed
  moreover have "scan_weight record = 0" "scan_weight q = Suc (runs_left record)"
    using q(2) by (simp_all add: q(3) scan_weight_def run_record_def runs_left_def effectiveScanRetryLimit_def claim_candidate_def)
  ultimately have "backlog st1 + Suc (runs_left record) = backlog st" by simp
  moreover from q(2) have "scn_Status q = ''queued''" "\<not> scn_DeadLettered q" by (simp_all add: claim_candidate_def)
  moreover from queue_ok_lookup [OF q(5) at] have "scan_record_ok record" by simp
  ultimately show ?thesis using q(1,3,4,5) at by (intro that [of q])
qed

lemma process_next_progress:
  assumes "queue_ok env st" "process_next env svc ctx st = ((processed, err), st')"
  shows "queue_ok env st'" "processed \<Longrightarrow> backlog st' < backlog st"
    "\<not> processed \<Longrightarrow> err = None \<and> qs_scans st' = qs_scans st
      \<and> (\<forall>i q. map_of (qs_scans st) i = Some q \<and> claim_candidate None (trim_space (svc_Provider svc)) q \<longrightarrow> \<not> surely_due env q)"
proof -
  obtain res st1 where c: "ClaimNextQueuedScanAnyScope env (svc_Provider svc) st = (res, st1)" by (metis surj_pair)
  have "queue_ok env st' \<and> (processed \<longrightarrow> backlog st' < backlog st) \<and> (\<not> processed \<longrightarrow> err = None \<and> qs_scans st' = qs_scans st
      \<and> (\<forall>i q. map_of (qs_scans st) i = Some q \<and> claim_candidate None (trim_space (svc_Provider svc)) q \<longrightarrow> \<not> surely_due env q))"
  proof (cases res)
    case (Inl e)
    with claim_cases [OF assms(1), of None "svc_Provider svc"] c
    have "e = Sentinel ErrNotFound" "queue_ok env st1" "qs_scans st1 = qs_scans st"
      "\<forall>i q. map_of (qs_scans st) i = Some q \<and> claim_candidate None (trim_space (svc_Provider svc)) q \<longrightarrow> \<not> surely_due env q"
      by (auto simp: ClaimNextQueuedScanAnyScope_def)
    with assms(2) c Inl show ?thesis by (auto simp: process_next_def)
  next
    case (Inr rc)
    from claim_run [OF assms(1) c [unfolded Inr]] obtain q where q: "queue_ok env st1" "scan_record_ok rc"
      "map_of (qs_scans st1) (scn_ID rc) = Some rc" "backlog st1 + Suc (runs_left rc) = backlog st" "rc = run_record q"
      by blast
    let ?ctx = "WithScope ctx \<lparr>sc_TenantID = scn_TenantID rc, sc_WorkspaceID = scn_WorkspaceID rc\<rparr>"
    obtain sres st2 where s: "skipScanIfWorkspaceInactive env svc ?ctx rc st1 = (sres, st2)" by (metis surj_pair)
    note skip = skipScanIfWorkspaceInactive_within [OF s]
    have "processed \<and> within env (scn_ID rc) (runs_left rc) st1 st'"
    proof (cases "sres = Inr False")
      case False
      then have "sres = Inr True \<or> (\<exists>e. sres = Inl e)" by (cases sres) auto
      with assms(2) c Inr s have "processed \<and> st' = st2" by (auto simp: process_next_def Let_def)
      with skip(1) show ?thesis by simp
    next
      case True
      define st3 where "st3 = appendScanEvent env svc ?ctx (scn_ID rc) ''info'' ''queued scan started''
        [(''provider'', MetaText (scn_Provider rc))]
        (appendScanLifecycleEvent env svc ?ctx (scn_ID rc) ''running'' [(''provider'', MetaText (scn_Provider rc))] st2)"
      have st3: "within env (scn_ID rc) (runs_left rc) st1 st3" "map_of (qs_scans st3) (scn_ID rc) = Some rc"
        using q(3) skip(2) True by (simp_all add: st3_def)
      obtain rres st4 where r: "runScanWithRecord env svc ?ctx rc True st3 = (rres, st4)" by (metis surj_pair)
      have "0 \<le> scn_RetryCount rc" using q(2) by (simp add: scan_record_ok_def)
      from runScanWithRecord_within [OF r st3(2) this] have "within env (scn_ID rc) (runs_left rc) st3 st4" .
      from within_trans [OF st3(1) this] have "within env (scn_ID rc) (runs_left rc) st1 st4" .
      moreover note unfolded = assms(2) [unfolded process_next_def Let_def c Inr prod.case sum.case s True bool.case, folded st3_def, unfolded r]
      then have "processed \<and> st' = st4" by (cases rres) auto
      ultimately show ?thesis by simp
    qed
    moreover have "scan_weight rc = 0" by (simp add: q(5) scan_weight_def run_record_def)
    ultimately show ?thesis using within_backlog [of env "scn_ID rc" "runs_left rc" st1 st' rc] q by (auto simp: within_def)
  qed
  then show "queue_ok env st'" "processed \<Longrightarrow> backlog st' < backlog st"
    "\<not> processed \<Longrightarrow> err = None \<and> qs_scans st' = qs_scans st
      \<and> (\<forall>i q. map_of (qs_scans st) i = Some q \<and> claim_candidate None (trim_space (svc_Provider svc)) q \<longrightarrow> \<not> surely_due env q)" by blast+
qed

subsection \<open>Under the in-memory lock\<close>

definition scan_locker :: "InMemoryLocker Locker" where
  "scan_locker key l = (case TryAcquire l key of None \<Rightarrow> (None, l) | Some (h, l') \<Rightarrow> (Some (Release h), l'))"

lemma with_lock_free:
  assumes "sv_Locker svc = Some scan_locker" "locker_ok l" "\<not> locked_key l (lockKey svc key)" "body st = (r, st')"
  obtains l' where "with_lock svc key busy body (l, st) = (r, l', st')" "locker_ok l'" "locked_key l' = locked_key l"
proof -
  from assms(3) obtain h l1 where acq: "TryAcquire l (lockKey svc key) = Some (h, l1)"
    using memory_lock_laws(1) by (metis option.exhaust surj_pair)
  note res = memory_lock.bracket_restores [OF assms(2) acq]
  have "with_lock svc key busy body (l, st) = (r, Release h l1, st')"
    using assms(1,4) acq by (simp add: with_lock_def scan_locker_def)
  with res that show ?thesis by blast
qed

lemma with_lock_busy:
  assumes "sv_Locker svc = Some scan_locker" "locked_key l (lockKey svc key)"
  shows "with_lock svc key busy body (l, st) = (busy, l, st)"
proof -
  from assms(2) have "TryAcquire l (lockKey svc key) = None" using memory_lock_laws(1) by blast
  with assms(1) show ?thesis by (simp add: with_lock_def scan_locker_def)
qed

definition no_due_scan :: "Outside \<Rightarrow> string \<Rightarrow> ScanStore \<Rightarrow> bool" where
  "no_due_scan env provider st \<longleftrightarrow>
    (\<forall>i q. map_of (qs_scans st) i = Some q \<and> claim_candidate None (trim_space provider) q \<longrightarrow> \<not> surely_due env q)"

lemma batch_drains:
  assumes "queue_ok env st" "locker_ok l" "\<not> locked_key l (lockKey svc (''scan:'' @ svc_Provider svc))"
    and "sv_Locker svc = Some scan_locker" "backlog st < n"
  shows "\<exists>res l' st'. run_batch n (ProcessNextQueuedScan env svc ctx) acc (l, st) = (res, l', st') \<and> queue_ok env st'
    \<and> locker_ok l' \<and> locked_key l' = locked_key l \<and> backlog st' \<le> backlog st \<and> no_due_scan env (svc_Provider svc) st'"
  using assms
proof (induction n arbitrary: l st acc)
  case (Suc n)
  obtain processed err st1 where p: "process_next env svc (svc_scope svc ctx) st = ((processed, err), st1)" by (metis surj_pair)
  note progress = process_next_progress [OF Suc.prems(1) p]
  obtain l1 where l1: "ProcessNextQueuedScan env svc ctx (l, st) = ((processed, err), l1, st1)" "locker_ok l1" "locked_key l1 = locked_key l"
    unfolding ProcessNextQueuedScan_def using with_lock_free [where body = "process_next env svc (svc_scope svc ctx)", OF Suc.prems(4,2,3) p] by blast
  obtain f e where acc: "acc = (f, e)" by (metis surj_pair)
  show ?case
  proof (cases processed)
    case False
    with progress(3) have "err = None" "no_due_scan env (svc_Provider svc) st1" "backlog st1 = backlog st"
      by (auto simp: no_due_scan_def backlog_def)
    with False l1 progress(1) acc show ?thesis by simp
  next
    case True
    with progress(2) Suc.prems(5) have less: "backlog st1 < n" "backlog st1 \<le> backlog st" by simp_all
    from l1(3) Suc.prems(3) have free: "\<not> locked_key l1 (lockKey svc (''scan:'' @ svc_Provider svc))" by simp
    note IH = Suc.IH [OF progress(1) l1(2) free Suc.prems(4) less(1)]
    obtain acc' where "run_batch (Suc n) (ProcessNextQueuedScan env svc ctx) acc (l, st) = run_batch n (ProcessNextQueuedScan env svc ctx) acc' (l1, st1)"
      using True l1(1) acc by (cases err) auto
    with IH [of acc'] less(2) l1(3) show ?thesis by (metis order_trans)
  qed
qed simp

subsection \<open>The state after a handled failure\<close>

lemma update_scan_hit:
  assumes "RequireScope ctx = Inr scope" "map_of (qs_scans st) sid = Some r" "MatchScope scope (scn_TenantID r) (scn_WorkspaceID r)"
  shows "update_scan ctx sid f st = (None, st\<lparr>qs_scans := map_put sid (f r) (qs_scans st)\<rparr>)"
  using assms by (simp add: update_scan_def GetScan_def scan_in_scope_def)

lemma terminal_scope:
  assumes "RequireScope ctx = Inr scope"
  shows "RequireScope (terminalWriteContext svc ctx) = Inr scope"
proof -
  from assms obtain s where s: "LookupScope ctx = Some s" "scope = Normalize_Scope s"
    by (auto simp: RequireScope_def split: option.splits)
  from s(1) have n: "Normalize_Scope s = s" by (auto simp: LookupScope_def split: option.splits)
  from s n show ?thesis
    by (simp add: terminalWriteContext_def scopeContext_def WithDefaultScope_def ScopeFromContext_def)
qed

lemma terminal_write_hit:
  assumes "RequireScope ctx = Inr scope" "map_of (qs_scans st) sid = Some r" "MatchScope scope (scn_TenantID r) (scn_WorkspaceID r)"
  shows "\<exists>st'. terminal_write env svc ctx (\<lambda>c. update_scan c sid f) st = (None, st') \<and> qs_scans st' = map_put sid (f r) (qs_scans st)"
proof -
  obtain e s1 where r: "read_ctx_err env st = (e, s1)" by (metis surj_pair)
  then have s1: "qs_scans s1 = qs_scans st" using read_ctx_err_frame by blast
  let ?c = "if shouldRetryTerminalWrite e then terminalWriteContext svc ctx else ctx"
  have "RequireScope ?c = Inr scope" by (simp add: assms(1) terminal_scope)
  from update_scan_hit [OF this _ assms(3), of s1 sid f] assms(2) s1
  have "update_scan ?c sid f s1 = (None, s1\<lparr>qs_scans := map_put sid (f r) (qs_scans st)\<rparr>)" by simp
  with r show ?thesis by (simp add: terminal_write_def shouldRetryTerminalWrite_def)
qed

text \<open>The record after a failure, by the error and the retries it had.\<close>

definition failed_record :: "ScanRecord \<Rightarrow> bool \<Rightarrow> scan_stage \<Rightarrow> int \<Rightarrow> int \<Rightarrow> go_error \<Rightarrow> time \<Rightarrow> ScanRecord \<Rightarrow> ScanRecord" where
  "failed_record record allowRetry stage assets findings failure now r =
    (let policy = classifyScanFailure stage failure; limit = effectiveScanRetryLimit record; c = scn_RetryCount record
     in if allowRetry \<and> sfp_Retryable policy \<and> c < limit then
          r\<lparr>scn_Status := ''queued'', scn_StartedAt := now, scn_FinishedAt := None, scn_ErrorMessage := error_text failure,
            scn_RetryCount := c + 1, scn_MaxRetryCount := limit, scn_FailureCategory := trim_space (sfp_Category policy),
            scn_NextRetryAt := Some (now + scanRetryBackoff (c + 1)), scn_DeadLettered := False, scn_DeadLetteredAt := None\<rparr>
        else if allowRetry then
          r\<lparr>scn_Status := ''failed'', scn_FinishedAt := Some now, scn_ErrorMessage := error_text failure, scn_RetryCount := c,
            scn_MaxRetryCount := limit, scn_AssetCount := assets, scn_FindingCount := findings,
            scn_FailureCategory := trim_space (sfp_Category policy), scn_NextRetryAt := None,
            scn_DeadLettered := True, scn_DeadLetteredAt := Some now\<rparr>
        else
          r\<lparr>scn_Status := ''failed'', scn_FinishedAt := Some now, scn_AssetCount := assets, scn_FindingCount := findings,
            scn_ErrorMessage := error_text failure, scn_FailureCategory := '''', scn_NextRetryAt := None,
            scn_DeadLettered := False, scn_DeadLetteredAt := None\<rparr>)"

lemma handleScanFailure_record:
  assumes "RequireScope ctx = Inr scope" "map_of (qs_scans st) (scn_ID record) = Some r"
    and "MatchScope scope (scn_TenantID r) (scn_WorkspaceID r)"
  shows "\<exists>st'. handleScanFailure env svc ctx record allowRetry stage assets findings failure message st = (None, st')
    \<and> map_of (qs_scans st') = (map_of (qs_scans st))(scn_ID record \<mapsto>
        failed_record record allowRetry stage assets findings failure (out_now env (qs_reads st)) r)"
proof -
  let ?now = "out_now env (qs_reads st)"
  obtain e st' where h: "handleScanFailure env svc ctx record allowRetry stage assets findings failure message st = (e, st')"
    by (metis surj_pair)
  from handleScanFailure_write [OF h] obtain s1 s2 where s: "same_scans st s1" "same_scans s2 st'"
    "failure_write env svc ctx record allowRetry stage assets findings failure ?now s1 = (e, s2)" by blast
  from s(1) assms(2) have at: "map_of (qs_scans s1) (scn_ID record) = Some r" by (simp add: same_scans_def)
  note hit = terminal_write_hit [OF assms(1) at assms(3), of env svc]
  have "\<exists>s3. failure_write env svc ctx record allowRetry stage assets findings failure ?now s1 = (None, s3)
    \<and> qs_scans s3 = map_put (scn_ID record) (failed_record record allowRetry stage assets findings failure ?now r) (qs_scans s1)"
    unfolding failure_write_def Let_def completeScanTerminal_def scheduleScanRetry_def deadLetterQueuedScan_def
      CompleteScan_def ScheduleScanRetry_def DeadLetterScan_def
    using hit by (auto simp: failed_record_def Let_def)
  with s h show ?thesis by (auto simp: same_scans_def)
qed

text \<open>The backoff in closed form.\<close>

lemma retry_backoff_loop_closed:
  assumes "0 < b" "b \<le> defaultScanRetryMaxDelay"
  shows "retry_backoff_loop n b = min (b * 2 ^ n) defaultScanRetryMaxDelay"
  using assms
proof (induction n arbitrary: b)
  case 0
  then show ?case by simp
next
  case (Suc n)
  have w: "wrap64 (b * 2) = b * 2"
    using Suc.prems by (simp add: wrap64_def defaultScanRetryMaxDelay_def nanos_per_second_def)
  show ?case
  proof (cases "b * 2 \<ge> defaultScanRetryMaxDelay")
    case True
    have "b * 2 * 1 \<le> b * 2 * 2 ^ n" using Suc.prems(1) by (intro mult_left_mono) simp_all
    with True have "defaultScanRetryMaxDelay \<le> b * (2 * 2 ^ n)" by (simp add: mult.assoc)
    with True w show ?thesis by (simp add: Let_def)
  next
    case False
    with Suc.IH [of "b * 2"] Suc.prems w show ?thesis by (simp add: Let_def mult.assoc)
  qed
qed

subsection \<open>The gate\<close>

text \<open>The gate reads nothing of the service but the workspaces and the default scope.\<close>

lemma skip_cong:
  assumes "sv_GetWorkspace svc2 = sv_GetWorkspace svc" "so_DefaultScope (sv_sources svc2) = so_DefaultScope (sv_sources svc)"
  shows "skipScanIfWorkspaceInactive env svc2 ctx rc st = skipScanIfWorkspaceInactive env svc ctx rc st"
proof -
  have e: "appendScanEvent env svc2 = appendScanEvent env svc"
    by (intro ext) (simp add: appendScanEvent_def scopeContext_def assms)
  have l: "appendScanLifecycleEvent env svc2 = appendScanLifecycleEvent env svc"
    by (intro ext) (simp add: appendScanLifecycleEvent_def e)
  have t: "terminalWriteContext svc2 = terminalWriteContext svc"
    by (intro ext) (simp add: terminalWriteContext_def scopeContext_def assms)
  have c: "completeScanTerminal env svc2 = completeScanTerminal env svc"
    by (intro ext) (simp only: completeScanTerminal_def terminal_write_def t)
  show ?thesis unfolding skipScanIfWorkspaceInactive_def e l c assms(1) by (rule refl)
qed

lemma skip_inactive:
  assumes "RequireScope ctx = Inr scope" "map_of (qs_scans st) (scn_ID rc) = Some rc" "MatchScope scope (scn_TenantID rc) (scn_WorkspaceID rc)"
    and "scan_record_ok rc" "sv_GetWorkspace svc ctx (scn_WorkspaceID rc) = Inr ws" "ws_Status ws \<noteq> ''active'' \<or> ws_DeletedAt ws \<noteq> None"
  shows "\<exists>st' finished. skipScanIfWorkspaceInactive env svc ctx rc st = (Inr True, st')
    \<and> map_of (qs_scans st') = (map_of (qs_scans st))(scn_ID rc \<mapsto> rc\<lparr>scn_Status := ''failed'', scn_FinishedAt := Some finished,
        scn_AssetCount := 0, scn_FindingCount := 0,
        scn_ErrorMessage := ''workspace lifecycle is '' @ ws_Status ws @ ''; scan refused (see #1420)'',
        scn_FailureCategory := '''', scn_NextRetryAt := None, scn_DeadLettered := False, scn_DeadLetteredAt := None\<rparr>)"
proof -
  define reason where "reason = ''workspace lifecycle is '' @ ws_Status ws @ ''; scan refused (see #1420)''"
  define s1 where "s1 = appendScanEvent env svc ctx (scn_ID rc) ''warn'' reason [(''workspace_status'', MetaText (ws_Status ws))]
      (appendScanLifecycleEvent env svc ctx (scn_ID rc) ''failed''
        [(''provider'', MetaText (scn_Provider rc)), (''reason'', MetaText ''workspace_inactive''),
         (''workspace_status'', MetaText (ws_Status ws))] st)"
  obtain now s2 where r: "read_clock env s1 = (now, s2)" by (metis surj_pair)
  then have "qs_scans s2 = qs_scans st" using read_clock_frame [OF r] by (simp add: s1_def)
  with assms(2) have at: "map_of (qs_scans s2) (scn_ID rc) = Some rc" and same: "qs_scans s2 = qs_scans st" by simp_all
  obtain s3 where c: "completeScanTerminal env svc ctx (scn_ID rc) ''failed'' now 0 0 reason s2 = (None, s3)"
    and s3: "qs_scans s3 = map_put (scn_ID rc) (rc\<lparr>scn_Status := ''failed'', scn_FinishedAt := Some now,
        scn_AssetCount := 0, scn_FindingCount := 0, scn_ErrorMessage := reason,
        scn_FailureCategory := '''', scn_NextRetryAt := None, scn_DeadLettered := False, scn_DeadLetteredAt := None\<rparr>) (qs_scans s2)"
    using terminal_write_hit [OF assms(1) at assms(3), of env svc] unfolding completeScanTerminal_def CompleteScan_def by blast
  from assms(4) have ids: "trim_space (scn_WorkspaceID rc) = scn_WorkspaceID rc" "scn_WorkspaceID rc \<noteq> ''''"
    "trim_space (scn_TenantID rc) = scn_TenantID rc" "scn_TenantID rc \<noteq> ''''" by (simp_all add: scan_record_ok_def)
  have gate: "\<not> (ws_Status ws = ''active'' \<and> ws_DeletedAt ws = None)" using assms(6) by blast
  have "skipScanIfWorkspaceInactive env svc ctx rc st = (Inr True, s3)"
    unfolding skipScanIfWorkspaceInactive_def Let_def
    using ids gate assms(5) r c by (simp only: s1_def reason_def ids if_False sum.case prod.case option.case HOL.simp_thms)
  with s3 same show ?thesis unfolding reason_def by (intro exI [of _ s3] exI [of _ now]) simp
qed

subsection \<open>Properties\<close>

definition scan_ctx :: "Context \<Rightarrow> ScanRecord \<Rightarrow> Context" where
  "scan_ctx ctx record = WithScope ctx \<lparr>sc_TenantID = scn_TenantID record, sc_WorkspaceID = scn_WorkspaceID record\<rparr>"

lemma scan_ctx_scope:
  assumes "scan_record_ok record"
  shows "RequireScope (scan_ctx ctx record) = Inr \<lparr>sc_TenantID = scn_TenantID record, sc_WorkspaceID = scn_WorkspaceID record\<rparr>"
    "MatchScope \<lparr>sc_TenantID = scn_TenantID record, sc_WorkspaceID = scn_WorkspaceID record\<rparr> (scn_TenantID record) (scn_WorkspaceID record)"
  using assms by (simp_all add: scan_ctx_def scan_record_ok_def Normalize_Scope_def MatchScope_def Let_def)

text \<open>
  C6: The worker drains its queue. A batch with more slots than the queue has runs left, under the free lock,
  ends on an idle queue: no queued scan that surely is due remains, whatever the scanner, the stores and
  the other calls returned. Every job that is taken uses up a run, so a failing scan is not retried for ever.
\<close>

theorem worker_batch_drains:
  assumes "queue_ok env st" "locker_ok l" "\<not> locked_key l (lockKey svc (''scan:'' @ so_Provider (sv_sources svc)))"
    and "sv_Locker svc = Some scan_locker" "backlog st < n"
  shows "\<exists>res l' st'. run_batch n (ProcessNextQueuedScan env svc ctx) (0, None) (l, st) = (res, l', st')
    \<and> queue_ok env st' \<and> locked_key l' = locked_key l \<and> backlog st' \<le> backlog st
    \<and> no_due_scan env (so_Provider (sv_sources svc)) st'"
  using batch_drains [OF assms, of ctx "(0, None)"] by blast

text \<open>A service whose scanner always times out, for one workspace.\<close>

definition no_connectors :: "(nat, nat) ScanSources" where
  "no_connectors =
    \<lparr>so_GetProject = (\<lambda>_ _ _. Inl (Sentinel ErrNotFound)), so_GetTenancyConnector = (\<lambda>_ _ _ _. Inl (Sentinel ErrNotFound)),
     so_ListTenancyConnectors = (\<lambda>_ _ _ _ _. Inr []), so_ListTenancyConnectorsUnscoped = (\<lambda>_ _ _. Inr []),
     so_ListEligible = None, so_ListEligibleUnscoped = None, so_connection = (\<lambda>_ _. 0), so_Connected = (\<lambda>_. False),
     so_validates = False, so_refreshAWSConnection = (\<lambda>_ s. (s, None)), so_AWSScannerFactory = None,
     so_Scanner = (\<lambda>_. ([], Inl (ErrorText ''request timeout''))), so_Provider = ''aws'',
     so_DefaultScope = \<lparr>sc_TenantID = ''acme'', sc_WorkspaceID = ''prod''\<rparr>\<rparr>"

definition failing_service :: "(nat, nat, InMemoryLocker) ScanService" where
  "failing_service =
    \<lparr>sv_sources = no_connectors, sv_Locker = Some scan_locker, sv_LockNamespace = '''', sv_ScanQueueMaxPending = 5,
     sv_GetWorkspace = (\<lambda>_ w. Inr (plain_workspace ''acme'' w ''suspended'')),
     sv_UpsertArtifacts = (\<lambda>_ _ _. None), sv_UpsertFindings = (\<lambda>_ _ _. None), sv_enrichFindings = (\<lambda>fs. fs),
     sv_ensureBaseline = (\<lambda>_ _ s. Inr s), sv_trace = ('''', '''')\<rparr>"

theorem worker_batch_drains_witness:
  "backlog sample_queue = 8 \<and>
   (\<exists>res l' st'. run_batch 9 (ProcessNextQueuedScan sample_outside failing_service None) (0, None) (NewInMemoryLocker, sample_queue) = (res, l', st')
     \<and> no_due_scan sample_outside ''aws'' st')"
proof -
  have b: "backlog sample_queue = 8" by code_simp
  have free: "\<not> locked_key NewInMemoryLocker k" for k by (simp add: locked_key_def NewInMemoryLocker_def)
  have svc: "sv_Locker failing_service = Some scan_locker" "so_Provider (sv_sources failing_service) = ''aws''"
    by (simp_all add: failing_service_def no_connectors_def)
  from b have "backlog sample_queue < 9" by simp
  from worker_batch_drains [OF sample_queue_ok NewInMemoryLocker_ok free svc(1) this, of None] svc(2) b
  show ?thesis by auto
qed

text \<open>
  C17: What a failure does to a scan. A retryable error of a queued scan with retries left requeues it, one
  more retry used, not before the backoff; any other error of a queued scan dead-letters it with its count of
  retries; without retries the scan is failed. No other scan changes, even when the context was cancelled.
\<close>

theorem failure_disposition:
  assumes "RequireScope ctx = Inr scope" "map_of (qs_scans st) (scn_ID record) = Some r"
    and "MatchScope scope (scn_TenantID r) (scn_WorkspaceID r)"
  shows "let (e, st') = handleScanFailure env svc ctx record allowRetry stage assets findings failure message st;
           now = out_now env (qs_reads st)
    in e = None \<and> (\<exists>r'. map_of (qs_scans st') = (map_of (qs_scans st))(scn_ID record \<mapsto> r')
         \<and> (if allowRetry \<and> sfp_Retryable (classifyScanFailure stage failure) \<and> scn_RetryCount record < effectiveScanRetryLimit record
            then scn_Status r' = ''queued'' \<and> \<not> scn_DeadLettered r' \<and> scn_RetryCount r' = scn_RetryCount record + 1
              \<and> scn_NextRetryAt r' = Some (now + scanRetryBackoff (scn_RetryCount record + 1))
            else scn_Status r' = ''failed'' \<and> scn_DeadLettered r' = allowRetry \<and> scn_NextRetryAt r' = None
              \<and> (allowRetry \<longrightarrow> scn_RetryCount r' = scn_RetryCount record)))"
proof -
  from handleScanFailure_record [OF assms, of env svc allowRetry stage assets findings failure message] obtain st' where
    h: "handleScanFailure env svc ctx record allowRetry stage assets findings failure message st = (None, st')"
    and m: "map_of (qs_scans st') = (map_of (qs_scans st))(scn_ID record \<mapsto>
        failed_record record allowRetry stage assets findings failure (out_now env (qs_reads st)) r)" by blast
  show ?thesis
    unfolding h Let_def prod.case
    by (intro conjI exI [of _ "failed_record record allowRetry stage assets findings failure (out_now env (qs_reads st)) r"])
      (auto simp: m failed_record_def Let_def)
qed

definition sample_scan :: ScanRecord where
  "sample_scan = the (map_of (qs_scans sample_queue) (hd (qs_scanIDs sample_queue)))"

theorem failure_disposition_witness:
  "let (e, st') = handleScanFailure sample_outside failing_service sample_ctx sample_scan True StageExecution 0 0
     (ErrorText ''Access Denied'') ''failed'' sample_queue
   in e = None \<and> scn_DeadLettered (the (map_of (qs_scans st') (scn_ID sample_scan)))"
proof -
  have scope: "RequireScope sample_ctx = Inr \<lparr>sc_TenantID = ''acme'', sc_WorkspaceID = ''prod''\<rparr>" by code_simp
  have at: "map_of (qs_scans sample_queue) (scn_ID sample_scan) = Some sample_scan" by code_simp
  have own: "MatchScope \<lparr>sc_TenantID = ''acme'', sc_WorkspaceID = ''prod''\<rparr> (scn_TenantID sample_scan) (scn_WorkspaceID sample_scan)" by code_simp
  have "\<not> sfp_Retryable (classifyScanFailure StageExecution (ErrorText ''Access Denied''))" by code_simp
  with failure_disposition [OF scope at own, of sample_outside failing_service True StageExecution 0 0 "ErrorText ''Access Denied''" "''failed''"]
  show ?thesis by (auto simp: Let_def split: prod.splits)
qed

text \<open>
  The retry delay doubles from 30 seconds with each retry and stops at 15 minutes.
\<close>

theorem retry_backoff_doubles:
  assumes "1 \<le> n"
  shows "scanRetryBackoff n = min (30 * nanos_per_second * 2 ^ nat (n - 1)) (15 * 60 * nanos_per_second)"
proof -
  have b: "0 < defaultScanRetryBaseDelay" "defaultScanRetryBaseDelay \<le> defaultScanRetryMaxDelay"
    by (simp_all add: defaultScanRetryBaseDelay_def defaultScanRetryMaxDelay_def nanos_per_second_def)
  from assms retry_backoff_loop_closed [OF b, of "nat (n - 1)"] show ?thesis
    by (simp add: scanRetryBackoff_def) (simp add: defaultScanRetryBaseDelay_def defaultScanRetryMaxDelay_def)
qed

theorem retry_backoff_doubles_witness:
  "scanRetryBackoff 3 = 120 * nanos_per_second \<and> scanRetryBackoff 6 = 15 * 60 * nanos_per_second"
  using retry_backoff_doubles [of 3] retry_backoff_doubles [of 6] by (simp add: nanos_per_second_def)

text \<open>
  C23: A scan claimed in a workspace that is suspended or deleted is never run: the worker marks it failed, so
  that it is not claimed again, says why, and touches no other scan; a service with any other scanner, AWS
  connectors or artifact and finding stores does exactly the same.
\<close>

theorem inactive_workspace_never_scanned:
  assumes "queue_ok env st" "ClaimNextQueuedScanAnyScope env (so_Provider (sv_sources svc)) st = (Inr rc, st1)"
    and "sv_GetWorkspace svc (scan_ctx ctx rc) (scn_WorkspaceID rc) = Inr ws" "ws_Status ws \<noteq> ''active'' \<or> ws_DeletedAt ws \<noteq> None"
  shows "\<exists>st' r'. process_next env svc ctx st = ((True, None), st')
    \<and> map_of (qs_scans st') = (map_of (qs_scans st))(scn_ID rc \<mapsto> r') \<and> scn_Status r' = ''failed'' \<and> \<not> scn_DeadLettered r'
    \<and> scn_ErrorMessage r' = ''workspace lifecycle is '' @ ws_Status ws @ ''; scan refused (see #1420)''
    \<and> (\<forall>scanner factory artifacts findings.
         process_next env (svc\<lparr>sv_sources := (sv_sources svc)\<lparr>so_Scanner := scanner, so_AWSScannerFactory := factory\<rparr>,
           sv_UpsertArtifacts := artifacts, sv_UpsertFindings := findings\<rparr>) ctx st = ((True, None), st'))"
proof -
  from claim_run [OF assms(1,2)] obtain q where q: "queue_ok env st1" "scan_record_ok rc" "map_of (qs_scans st1) (scn_ID rc) = Some rc"
    "qs_scans st1 = map_put (scn_ID rc) rc (qs_scans st)" by blast
  note hit = skip_inactive [OF scan_ctx_scope(1) [OF q(2)] q(3) scan_ctx_scope(2) [OF q(2)] q(2)]
  from hit [of svc ctx ws env] assms(3,4) obtain st' finished where
    skip: "skipScanIfWorkspaceInactive env svc (scan_ctx ctx rc) rc st1 = (Inr True, st')"
    and m: "map_of (qs_scans st') = (map_of (qs_scans st1))(scn_ID rc \<mapsto> rc\<lparr>scn_Status := ''failed'', scn_FinishedAt := Some finished,
        scn_AssetCount := 0, scn_FindingCount := 0,
        scn_ErrorMessage := ''workspace lifecycle is '' @ ws_Status ws @ ''; scan refused (see #1420)'',
        scn_FailureCategory := '''', scn_NextRetryAt := None, scn_DeadLettered := False, scn_DeadLetteredAt := None\<rparr>)" by blast
  have one: "process_next env svc ctx st = ((True, None), st')"
    using assms(2) skip by (simp add: process_next_def Let_def scan_ctx_def)
  have other: "process_next env (svc\<lparr>sv_sources := (sv_sources svc)\<lparr>so_Scanner := scanner, so_AWSScannerFactory := factory\<rparr>,
      sv_UpsertArtifacts := artifacts, sv_UpsertFindings := findings\<rparr>) ctx st = ((True, None), st')" for scanner factory artifacts findings
  proof -
    let ?svc = "svc\<lparr>sv_sources := (sv_sources svc)\<lparr>so_Scanner := scanner, so_AWSScannerFactory := factory\<rparr>,
      sv_UpsertArtifacts := artifacts, sv_UpsertFindings := findings\<rparr>"
    have "skipScanIfWorkspaceInactive env ?svc (scan_ctx ctx rc) rc st1 = skipScanIfWorkspaceInactive env svc (scan_ctx ctx rc) rc st1"
      by (rule skip_cong) simp_all
    with assms(2) skip show ?thesis by (simp add: process_next_def Let_def scan_ctx_def)
  qed
  show ?thesis by (rule exI [of _ st'], rule exI) (use one other m q(4) in auto)
qed

theorem inactive_workspace_never_scanned_witness:
  "\<exists>st' r'. process_next sample_outside failing_service None sample_queue = ((True, None), st')
     \<and> r' \<in> snd ` set (qs_scans st') \<and> scn_Status r' = ''failed''
     \<and> scn_ErrorMessage r' = ''workspace lifecycle is suspended; scan refused (see #1420)''"
proof -
  have "case ClaimNextQueuedScanAnyScope sample_outside ''aws'' sample_queue of (Inr rc, _) \<Rightarrow> True | _ \<Rightarrow> False" by code_simp
  then obtain rc st1 where c: "ClaimNextQueuedScanAnyScope sample_outside (so_Provider (sv_sources failing_service)) sample_queue = (Inr rc, st1)"
    by (auto simp: failing_service_def no_connectors_def split: prod.splits sum.splits)
  let ?ws = "plain_workspace ''acme'' (scn_WorkspaceID rc) ''suspended''"
  have ws: "sv_GetWorkspace failing_service (scan_ctx None rc) (scn_WorkspaceID rc) = Inr ?ws" by (simp add: failing_service_def)
  from inactive_workspace_never_scanned [OF sample_queue_ok c ws] obtain st' r' where
    p: "process_next sample_outside failing_service None sample_queue = ((True, None), st')"
    and m: "map_of (qs_scans st') = (map_of (qs_scans sample_queue))(scn_ID rc \<mapsto> r')"
    and r': "scn_Status r' = ''failed''" "scn_ErrorMessage r' = ''workspace lifecycle is suspended; scan refused (see #1420)''" by (auto simp: plain_workspace_def)
  from m have "map_of (qs_scans st') (scn_ID rc) = Some r'" by simp
  then have "r' \<in> snd ` set (qs_scans st')" by (auto dest!: map_of_SomeD intro: rev_image_eqI)
  with p r' show ?thesis by blast
qed

subsection \<open>Replay\<close>

text \<open>What queueing gives: an error and the same scans, or a new queued scan beside them.\<close>

definition fresh_scan :: "string \<Rightarrow> ScanStore \<Rightarrow> ScanStore \<Rightarrow> ScanRecord \<Rightarrow> bool" where
  "fresh_scan provider st st' r \<longleftrightarrow> scn_Provider r = trim_space provider \<and> scn_Status r = ''queued'' \<and> scn_RetryCount r = 0
    \<and> map_of (qs_scans st) (scn_ID r) = None \<and> qs_scans st' = map_put (scn_ID r) r (qs_scans st)"

lemma queue_scan_fresh:
  assumes "queue_ok env st" "inj (out_uuid env)" "queue_scan env ctx scope provider source queuedAt st = (res, st')"
  shows "\<exists>r. res = Inr r \<and> fresh_scan provider st st' r"
  using assms(3)
proof (rule queue_scan_facts)
  fix r
  assume f: "res = Inr r" "scn_ID r = out_uuid env (qs_reads st)" "qs_scans st' = map_put (scn_ID r) r (qs_scans st)"
    "qs_scanIDs st' = qs_scanIDs st @ [scn_ID r]" "qs_reads st' = Suc (qs_reads st)" "scan_record_ok r"
    "scn_Provider r = trim_space provider" "scn_Status r = ''queued''" "scn_RetryCount r = 0"
  from queue_ok_new(2) [OF assms(1,2) f(2,6,3-5)] have "map_of (qs_scans st) (scn_ID r) = None"
    by (simp add: map_of_eq_None_iff)
  with f show ?thesis by (simp add: fresh_scan_def)
qed

lemma queueing_fresh:
  assumes "queue_ok env st" "inj (out_uuid env)"
    and "(\<exists>e. X = (Inl e, st)) \<or> (\<exists>scope s. RequireScope ctx = Inr scope \<and> X = queue_scan env ctx scope provider s queuedAt st)"
  shows "(\<exists>e. X = (Inl e, st)) \<or> (\<exists>r st'. X = (Inr r, st') \<and> fresh_scan provider st st' r)"
  using assms(3)
proof
  assume "\<exists>scope s. RequireScope ctx = Inr scope \<and> X = queue_scan env ctx scope provider s queuedAt st"
  then obtain scope s where X: "queue_scan env ctx scope provider s queuedAt st = (fst X, snd X)" by auto
  from queue_scan_fresh [OF assms(1,2) this] show ?thesis by (metis prod.collapse)
qed blast

lemma queue_or_reject_cases:
  assumes "queue_ok env st" "inj (out_uuid env)" "queue_or_reject env svc ctx provider source what st = (res, st')"
  shows "(\<exists>e. res = Inl e \<and> qs_scans st' = qs_scans st) \<or> (\<exists>r. res = Inr r \<and> fresh_scan provider st st' r)"
proof -
  obtain now s1 where r: "read_clock env st = (now, s1)" by (metis surj_pair)
  then have s1: "qs_scans s1 = qs_scans st" and ok: "queue_ok env s1"
    using read_clock_frame [OF r, of "''''" 0] assms(1) by (simp_all add: within_def)
  have fresh: "fresh_scan provider s1 st' x = fresh_scan provider st st' x" for x by (simp add: fresh_scan_def s1)
  show ?thesis
  proof (cases "effective_max_pending svc = 1")
    case True
    from queueing_fresh [OF ok assms(2) queueing_cases(3) [of env ctx provider source now s1]] assms(3) r True s1 fresh
    show ?thesis by (elim disjE exE) (auto simp: queue_or_reject_def split: if_splits)
  next
    case False
    from queueing_fresh [OF ok assms(2) queueing_cases(2) [of env ctx provider source now "effective_max_pending svc" s1]] assms(3) r False s1 fresh
    show ?thesis by (elim disjE exE) (auto simp: queue_or_reject_def split: if_splits)
  qed
qed

text \<open>
  Only a scan that failed or was dead-lettered is replayed, in the caller's scope, and the replay is
  a new scan: queued under an identifier of its own, with its retries unused; the source and every other scan stay
  as they are. A refused replay changes no scan.
\<close>

theorem replay_makes_a_fresh_scan:
  assumes "queue_ok env st" "inj (out_uuid env)"
  shows "case ReplayScan env svc ctx scanID st of
      (Inr replay, st') \<Rightarrow>
        (\<exists>source. GetScan (scopeContext (sv_sources svc) ctx) scanID st = Inr source
          \<and> (scn_DeadLettered source \<or> scn_Status source = ''failed'') \<and> scn_Provider replay = trim_space (scn_Provider source))
        \<and> scn_Status replay = ''queued'' \<and> scn_RetryCount replay = 0 \<and> map_of (qs_scans st) (scn_ID replay) = None
        \<and> map_of (qs_scans st') = (map_of (qs_scans st))(scn_ID replay \<mapsto> replay)
    | (Inl e, st') \<Rightarrow> qs_scans st' = qs_scans st"
proof (cases "GetScan (svc_scope svc ctx) scanID st")
  case (Inl e)
  then show ?thesis by (simp add: ReplayScan_def Let_def)
next
  case (Inr source)
  let ?ctx = "svc_scope svc ctx"
  let ?base = "sv_ensureBaseline svc ?ctx (scn_Provider source)
    \<lparr>src_ProjectID = scn_ProjectID source, src_ConnectorID = scn_ConnectorID source\<rparr>"
  show ?thesis
  proof (cases "(\<not> scn_DeadLettered source \<and> scn_Status source \<noteq> ''failed'') \<or> (\<exists>e. ?base = Inl e)")
    case True
    with Inr show ?thesis by (auto simp: ReplayScan_def Let_def)
  next
    case False
    then obtain sourceContext where base: "?base = Inr sourceContext" by (cases ?base) auto
    obtain res s2 where q: "queue_or_reject env svc ?ctx (scn_Provider source) sourceContext ''replay scan: '' st = (res, s2)"
      by (metis surj_pair)
    from queue_or_reject_cases [OF assms q] False Inr base q show ?thesis
      by (elim disjE exE) (auto simp: ReplayScan_def Let_def fresh_scan_def)
  qed
qed

theorem replay_makes_a_fresh_scan_witness:
  "let st = snd (DeadLetterScan sample_ctx ''u'' 9 3 3 0 0 ''provider_auth'' ''Access Denied'' sample_queue) in
     \<exists>replay st'. ReplayScan sample_outside failing_service sample_ctx ''u'' st = (Inr replay, st')
       \<and> scn_Status replay = ''queued'' \<and> map_of (qs_scans st') ''u'' = map_of (qs_scans st) ''u''"
proof -
  let ?st = "snd (DeadLetterScan sample_ctx ''u'' 9 3 3 0 0 ''provider_auth'' ''Access Denied'' sample_queue)"
  have "case ReplayScan sample_outside failing_service sample_ctx ''u'' ?st of (Inr replay, _) \<Rightarrow> scn_ID replay \<noteq> ''u'' | _ \<Rightarrow> False" by code_simp
  moreover have "queue_ok sample_outside ?st" by (rule ending_ok(3) [OF sample_queue_ok]) simp
  from replay_makes_a_fresh_scan [OF this sample_outside_inj, of failing_service sample_ctx "''u''"]
  have "case ReplayScan sample_outside failing_service sample_ctx ''u'' ?st of
      (Inr replay, st') \<Rightarrow> scn_Status replay = ''queued'' \<and> map_of (qs_scans st') = (map_of (qs_scans ?st))(scn_ID replay \<mapsto> replay)
    | (Inl e, st') \<Rightarrow> qs_scans st' = qs_scans ?st" by (auto split: prod.splits sum.splits)
  ultimately show ?thesis by (auto simp: Let_def split: prod.splits sum.splits)
qed

subsection \<open>What the gate does not see\<close>

text \<open>
  The gate looks at the workspace the scan was queued in. A scan without a project gets its connector, and with it
  its workspace, only when it runs (\<open>bindAWSScanRecordSource\<close>); that workspace is not looked at. Here the scan is
  queued in the active workspace prod and runs to its end in the suspended workspace frozen.
\<close>

definition frozen_connector :: TenancyConnectorWithState where
  "frozen_connector =
    \<lparr>tcs_Connector = \<lparr>tc_TenantID = ''acme'', tc_WorkspaceID = ''frozen'', tc_ProjectID = ''p1'', tc_ConnectorID = ''c1'',
       tc_Type = ''aws'', tc_Status = ''active'', tc_Disabled = False, tc_UpdatedAt = 1\<rparr>,
     tcs_State_TenantID = ''acme'', tcs_State_WorkspaceID = ''frozen''\<rparr>"

definition frozen_service :: "(nat, nat, InMemoryLocker) ScanService" where
  "frozen_service = failing_service
    \<lparr>sv_sources := no_connectors
       \<lparr>so_GetProject := (\<lambda>_ w p. Inr \<lparr>tp_WorkspaceID = w, tp_ProjectID = p\<rparr>),
        so_GetTenancyConnector := (\<lambda>_ _ _ _. Inr frozen_connector),
        so_ListEligibleUnscoped := Some (\<lambda>_ _ _. Inr [frozen_connector]), so_Connected := (\<lambda>_. True), so_validates := True,
        so_AWSScannerFactory := Some (\<lambda>_ _. Inr (Some (\<lambda>_. ([], Inr \<lparr>res_Assets = 1, res_RawAssets = [1], res_SourceErrors = [],
          res_Bundle_Identities = [], res_Findings = []\<rparr>))))\<rparr>,
     sv_GetWorkspace := (\<lambda>_ w. Inr (plain_workspace ''acme'' w (if w = ''prod'' then ''active'' else ''suspended'')))\<rparr>"

lemma gate_misses_bound_workspace:
  "case process_next sample_outside frozen_service None sample_queue of
     ((processed, err), st') \<Rightarrow> processed \<and> err = None
       \<and> list_ex (\<lambda>(_, r). scn_WorkspaceID r = ''frozen'' \<and> scn_Status r = ''succeeded'') (qs_scans st')"
  by code_simp

end
