(* ===== verification/Account_Store.thy ===== *)
theory Account_Store
  imports Tenancy_Records
begin

section \<open>Accounts, identities and sessions (internal/db/memory_auth.go, internal/userpurge)\<close>

text \<open>
  The in-memory store of human accounts, the provider identities bound to them and the browser
  sessions; \<open>AccountTables\<close> has the maps of \<^verbatim>\<open>MemoryStore\<close> these operations and the workspace
  operations touch. An operation is a function of the tables that gives an error, and then the tables
  stay as they are, or its result and the new tables: each runs under the store's mutex and returns
  before its first write on every error path. Audit records are not modelled. Entries are visited in
  the order of the list, which stands for any order; \<^verbatim>\<open>sort.Slice\<close> is a stable sort.

  The lifecycle of an account is active, deactivated, deleted with a grace period, purged. \<open>accounts_ok\<close>
  is the invariant of the tables, \<open>account_step\<close> the operations as a step relation.
\<close>

record AccountTables =
  ma_organizations :: "(string, TenancyOrganization) gomap"
  ma_workspaces :: "(string, TenancyWorkspace) gomap"
  ma_members :: "(string, TenancyWorkspaceMember) gomap"
  ma_users :: "(string, User) gomap"
  ma_userIdentityByID :: "(string, UserIdentity) gomap"
  ma_userIdentityByProviderSubject :: "(string, string) gomap"
  ma_sessions :: "(string, Session) gomap"

definition empty_tables :: AccountTables where
  "empty_tables = \<lparr>ma_organizations = [], ma_workspaces = [], ma_members = [], ma_users = [], ma_userIdentityByID = [],
     ma_userIdentityByProviderSubject = [], ma_sessions = []\<rparr>"

text \<open>The loops \<^verbatim>\<open>for k, v := range m { if P { delete(m, k) } }\<close> and \<^verbatim>\<open>for k, v := range m { ...; m[k] = f(v) }\<close>.\<close>

definition delete_where :: "('k \<Rightarrow> 'v \<Rightarrow> bool) \<Rightarrow> ('k, 'v) gomap \<Rightarrow> ('k, 'v) gomap" where
  "delete_where P m = filter (\<lambda>(k, v). \<not> P k v) m"

definition update_where :: "('v \<Rightarrow> bool) \<Rightarrow> ('v \<Rightarrow> 'v) \<Rightarrow> ('k, 'v) gomap \<Rightarrow> ('k, 'v) gomap" where
  "update_where P f m = map (\<lambda>(k, v). (k, if P v then f v else v)) m"

subsection \<open>Accounts\<close>

definition put_user :: "User \<Rightarrow> AccountTables \<Rightarrow> AccountTables" where
  "put_user user m = m\<lparr>ma_users := map_put (us_ID user) user (ma_users m)\<rparr>"

definition email_taken :: "User \<Rightarrow> AccountTables \<Rightarrow> bool" where
  "email_taken user m = list_ex (\<lambda>(id, existing). us_PrimaryEmail existing = us_PrimaryEmail user \<and> id \<noteq> us_ID user) (ma_users m)"

definition UpsertUser :: "AccountEnv \<Rightarrow> User \<Rightarrow> AccountTables \<Rightarrow> (User \<times> AccountTables) result" where
  "UpsertUser env user m =
    rbind (NormalizeUserForWrite env user) (\<lambda>normalized.
      if email_taken normalized m then Inl (Sentinel ErrConflict)
      else Inr (normalized, put_user normalized m))"

definition UpdateUserProfile :: "AccountEnv \<Rightarrow> User \<Rightarrow> AccountTables \<Rightarrow> (User \<times> AccountTables) result" where
  "UpdateUserProfile env user m =
    rbind (NormalizeUserForWrite env user) (\<lambda>normalized.
      case map_of (ma_users m) (us_ID normalized) of
        None \<Rightarrow> Inl (Sentinel ErrNotFound)
      | Some existing \<Rightarrow>
         (if email_taken normalized m then Inl (Sentinel ErrConflict)
          else
            let existing = existing\<lparr>us_PrimaryEmail := us_PrimaryEmail normalized, us_DisplayName := us_DisplayName normalized,
                  us_AvatarURL := us_AvatarURL normalized, us_UpdatedAt := us_UpdatedAt normalized,
                  us_DeletedAt := us_DeletedAt normalized\<rparr>
            in Inr (existing, m\<lparr>ma_users := map_put (us_ID normalized) existing (ma_users m)\<rparr>)))"

definition UpdateCurrentUserProfile ::
  "string \<Rightarrow> string option \<Rightarrow> string option \<Rightarrow> time \<Rightarrow> AccountTables \<Rightarrow> (User \<times> AccountTables) result" where
  "UpdateCurrentUserProfile userID displayName avatarURL updatedAt m =
    (let userID = trim_space userID
     in case map_of (ma_users m) userID of
          None \<Rightarrow> Inl (Sentinel ErrNotFound)
        | Some existing \<Rightarrow>
           (if us_Status existing \<noteq> ''active'' then Inl (Sentinel ErrNotFound)
            else
              let existing = (case displayName of None \<Rightarrow> existing | Some name \<Rightarrow> existing\<lparr>us_DisplayName := trim_space name\<rparr>);
                  existing = (case avatarURL of None \<Rightarrow> existing | Some url \<Rightarrow> existing\<lparr>us_AvatarURL := trim_space url\<rparr>);
                  existing = existing\<lparr>us_UpdatedAt := updatedAt\<rparr>
              in Inr (existing, m\<lparr>ma_users := map_put userID existing (ma_users m)\<rparr>)))"

definition GetUser :: "string \<Rightarrow> AccountTables \<Rightarrow> User result" where
  "GetUser userID m =
    (case map_of (ma_users m) (trim_space userID) of None \<Rightarrow> Inl (Sentinel ErrNotFound) | Some user \<Rightarrow> Inr user)"

definition GetUserByPrimaryEmail :: "string \<Rightarrow> AccountTables \<Rightarrow> User result" where
  "GetUserByPrimaryEmail email m =
    (let normalizedEmail = norm_key email
     in case find (\<lambda>user. us_PrimaryEmail user = normalizedEmail) (map snd (ma_users m)) of
          None \<Rightarrow> Inl (Sentinel ErrNotFound)
        | Some user \<Rightarrow> Inr user)"

text \<open>The common part of the status writers: look the row up, change it, store it.\<close>

definition change_user :: "string \<Rightarrow> (User \<Rightarrow> User result) \<Rightarrow> AccountTables \<Rightarrow> (User \<times> AccountTables) result" where
  "change_user userID f m =
    (case map_of (ma_users m) userID of
       None \<Rightarrow> Inl (Sentinel ErrNotFound)
     | Some user \<Rightarrow> rbind (f user) (\<lambda>user. Inr (user, m\<lparr>ma_users := map_put userID user (ma_users m)\<rparr>)))"

definition SetUserStatus :: "string \<Rightarrow> string \<Rightarrow> time \<Rightarrow> AccountTables \<Rightarrow> (User \<times> AccountTables) result" where
  "SetUserStatus userID status now m =
    (let normalizedStatus = norm_key status
     in if normalizedStatus \<notin> set validUserStatuses then Inl (ErrorText ''invalid user status'')
        else change_user (trim_space userID) (\<lambda>user. Inr (user\<lparr>us_Status := normalizedStatus, us_UpdatedAt := now\<rparr>)) m)"

definition SoftDeleteUser :: "string \<Rightarrow> time \<Rightarrow> AccountTables \<Rightarrow> (User \<times> AccountTables) result" where
  "SoftDeleteUser userID now m =
    change_user (trim_space userID) (\<lambda>user. Inr (user\<lparr>
      us_DeletedAt := (if us_DeletedAt user = None then Some now else us_DeletedAt user),
      us_Status := ''deleted'', us_UpdatedAt := now\<rparr>)) m"

definition CancelUserDeletion :: "string \<Rightarrow> time \<Rightarrow> AccountTables \<Rightarrow> (User \<times> AccountTables) result" where
  "CancelUserDeletion userID now m =
    change_user (trim_space userID) (\<lambda>user. Inr (user\<lparr>us_Status := ''active'', us_DeletedAt := None, us_UpdatedAt := now\<rparr>)) m"

definition pending_user :: "time \<Rightarrow> User \<Rightarrow> bool" where
  "pending_user cutoff user =
    (case us_DeletedAt user of
       None \<Rightarrow> False
     | Some deletedAt \<Rightarrow> us_Status user = ''deleted'' \<and> deletedAt < cutoff
         \<and> \<not> IsHardDeletedTombstoneEmailForUser (us_PrimaryEmail user) (us_ID user))"

definition deleted_at :: "time option \<Rightarrow> time" where
  "deleted_at t = (case t of None \<Rightarrow> zero_time | Some d \<Rightarrow> d)"

definition page_limit :: "int \<Rightarrow> int \<Rightarrow> int" where
  "page_limit standard limit = (if limit \<le> 0 then standard else limit)"

definition ListUsersPendingHardDelete :: "time \<Rightarrow> int \<Rightarrow> AccountTables \<Rightarrow> User list" where
  "ListUsersPendingHardDelete deletedBefore limit m =
    limit_list (page_limit 100 limit)
      (sort_key (\<lambda>user. (deleted_at (us_DeletedAt user), us_ID user)) (filter (pending_user deletedBefore) (map snd (ma_users m))))"

text \<open>The identities of an account go, each with the subjects that are mapped to it.\<close>

definition delete_identities :: "string \<Rightarrow> AccountTables \<Rightarrow> AccountTables" where
  "delete_identities userID m =
    (let gone = map fst (filter (\<lambda>(_, identity). ui_UserID identity = userID) (ma_userIdentityByID m))
     in m\<lparr>ma_userIdentityByID := delete_where (\<lambda>_ identity. ui_UserID identity = userID) (ma_userIdentityByID m),
          ma_userIdentityByProviderSubject := delete_where (\<lambda>_ mappedID. mappedID \<in> set gone) (ma_userIdentityByProviderSubject m)\<rparr>)"

definition HardDeleteUser :: "string \<Rightarrow> time \<Rightarrow> AccountTables \<Rightarrow> (User \<times> AccountTables) result" where
  "HardDeleteUser userID now m =
    (let userID = trim_space userID
     in case map_of (ma_users m) userID of
          None \<Rightarrow> Inl (Sentinel ErrNotFound)
        | Some user \<Rightarrow>
           (if us_Status user \<noteq> ''deleted'' \<or> us_DeletedAt user = None then
              Inl (ErrorText (''hard delete: user '' @ userID @ '' is not pending deletion (status='' @ quote_string (us_Status user) @ '')''))
            else
              let user = user\<lparr>us_PrimaryEmail := HardDeletedTombstoneEmail userID, us_DisplayName := '''', us_AvatarURL := '''',
                    us_Status := ''deleted'', us_UpdatedAt := now\<rparr>;
                  m = m\<lparr>ma_users := map_put userID user (ma_users m)\<rparr>;
                  m = delete_identities userID m;
                  m = m\<lparr>ma_sessions := delete_where (\<lambda>_ session. ss_UserID session = userID) (ma_sessions m)\<rparr>;
                  m = m\<lparr>ma_members := delete_where (\<lambda>_ member. mb_UserUUID member = userID) (ma_members m)\<rparr>
              in Inr (user, m)))"

subsection \<open>Provider identities\<close>

definition UpsertUserIdentity :: "AccountEnv \<Rightarrow> UserIdentity \<Rightarrow> AccountTables \<Rightarrow> (UserIdentity \<times> AccountTables) result" where
  "UpsertUserIdentity env identity m =
    rbind (NormalizeUserIdentityForWrite env identity) (\<lambda>normalized.
      if \<not> has_key (ma_users m) (ui_UserID normalized) then Inl (Sentinel ErrNotFound)
      else
        let lookupKey = userIdentityLookupKey (ui_Provider normalized) (ui_Subject normalized);
            byID = (case map_of (ma_userIdentityByProviderSubject m) lookupKey of
                None \<Rightarrow> ma_userIdentityByID m
              | Some existingID \<Rightarrow>
                  (if existingID \<noteq> ui_ID normalized then map_del existingID (ma_userIdentityByID m) else ma_userIdentityByID m));
            bySubject = delete_where (\<lambda>key existingID. existingID = ui_ID normalized \<and> key \<noteq> lookupKey)
                (ma_userIdentityByProviderSubject m)
        in Inr (normalized, m\<lparr>ma_userIdentityByID := map_put (ui_ID normalized) normalized byID,
             ma_userIdentityByProviderSubject := map_put lookupKey (ui_ID normalized) bySubject\<rparr>))"

definition GetUserIdentity :: "string \<Rightarrow> string \<Rightarrow> AccountTables \<Rightarrow> UserIdentity result" where
  "GetUserIdentity provider subject m =
    (case map_of (ma_userIdentityByProviderSubject m) (userIdentityLookupKey provider subject) of
       None \<Rightarrow> Inl (Sentinel ErrNotFound)
     | Some identityID \<Rightarrow>
        (case map_of (ma_userIdentityByID m) identityID of None \<Rightarrow> Inl (Sentinel ErrNotFound) | Some identity \<Rightarrow> Inr identity))"

definition GetUserIdentityBySubject :: "string \<Rightarrow> AccountTables \<Rightarrow> UserIdentity result" where
  "GetUserIdentityBySubject subject m =
    (let normalizedSubject = trim_space subject
     in if normalizedSubject = '''' then Inl (Sentinel ErrNotFound)
        else
          case sort_key (\<lambda>identity. (ui_UserID identity, ui_ID identity))
              (filter (\<lambda>identity. trim_space (ui_Subject identity) = normalizedSubject) (map snd (ma_userIdentityByID m))) of
            [] \<Rightarrow> Inl (Sentinel ErrNotFound)
          | item # items \<Rightarrow>
             (if list_ex (\<lambda>identity. ui_UserID identity \<noteq> ui_UserID item) items then Inl (Sentinel ErrConflict)
              else Inr item))"

text \<open>Loops that look for the one matching row and refuse a second one.\<close>

fun only_match :: "('a \<Rightarrow> bool) \<Rightarrow> 'a option \<Rightarrow> 'a list \<Rightarrow> 'a result" where
  "only_match P found [] = (case found of None \<Rightarrow> Inl (Sentinel ErrNotFound) | Some x \<Rightarrow> Inr x)"
| "only_match P found (x # xs) =
    (if P x then (if found \<noteq> None then Inl (Sentinel ErrConflict) else only_match P (Some x) xs)
     else only_match P found xs)"

definition GetUserIdentityByProviderUserID :: "string \<Rightarrow> string \<Rightarrow> AccountTables \<Rightarrow> UserIdentity result" where
  "GetUserIdentityByProviderUserID provider userID m =
    only_match (\<lambda>identity. ui_Provider identity = norm_key provider \<and> ui_UserID identity = trim_space userID) None
      (map snd (ma_userIdentityByID m))"

definition ListUserIdentitiesByProvider :: "string \<Rightarrow> int \<Rightarrow> AccountTables \<Rightarrow> UserIdentity list" where
  "ListUserIdentitiesByProvider provider limit m =
    limit_list limit (sort_key (\<lambda>identity. - ui_CreatedAt identity)
      (filter (\<lambda>identity. ui_Provider identity = norm_key provider) (map snd (ma_userIdentityByID m))))"

definition DeleteUserIdentity :: "string \<Rightarrow> string \<Rightarrow> AccountTables \<Rightarrow> AccountTables result" where
  "DeleteUserIdentity provider subject m =
    (case map_of (ma_userIdentityByProviderSubject m) (userIdentityLookupKey provider subject) of
       None \<Rightarrow> Inl (Sentinel ErrNotFound)
     | Some identityID \<Rightarrow>
         Inr (m\<lparr>ma_userIdentityByProviderSubject := delete_where (\<lambda>_ mappedID. mappedID = identityID) (ma_userIdentityByProviderSubject m),
              ma_userIdentityByID := map_del identityID (ma_userIdentityByID m)\<rparr>))"

subsection \<open>Sessions\<close>

definition user_live :: "User \<Rightarrow> bool" where
  "user_live user \<longleftrightarrow> us_DeletedAt user = None \<and> us_Status user = ''active''"

definition put_session :: "string \<Rightarrow> Session \<Rightarrow> AccountTables \<Rightarrow> AccountTables" where
  "put_session key session m = m\<lparr>ma_sessions := map_put key session (ma_sessions m)\<rparr>"

definition CreateSession :: "AccountEnv \<Rightarrow> Session \<Rightarrow> AccountTables \<Rightarrow> (Session \<times> AccountTables) result" where
  "CreateSession env session m =
    rbind (NormalizeSessionForWrite env session) (\<lambda>normalized.
      case map_of (ma_users m) (ss_UserID normalized) of
        None \<Rightarrow> Inl (Sentinel ErrNotFound)
      | Some user \<Rightarrow>
         (if \<not> user_live user then Inl (Sentinel ErrNotFound)
          else
            let normalized = normalized\<lparr>ss_User := Some user\<rparr>
            in Inr (normalized, put_session (sessionHashKey (ss_ID normalized)) normalized m)))"

text \<open>\<^verbatim>\<open>RevokedAt != nil || !IdleExpiresAt.After(now) || !AbsoluteExpiresAt.After(now)\<close>, negated.\<close>

definition session_live :: "time \<Rightarrow> Session \<Rightarrow> bool" where
  "session_live now session \<longleftrightarrow> ss_RevokedAt session = None \<and> now < ss_IdleExpiresAt session \<and> now < ss_AbsoluteExpiresAt session"

definition touchSessionInternal :: "string \<Rightarrow> time \<Rightarrow> bool \<Rightarrow> AccountTables \<Rightarrow> (Session \<times> AccountTables) result" where
  "touchSessionInternal sessionIDHash now allowPendingDeletion m =
    (let key = sessionHashKey sessionIDHash
     in case map_of (ma_sessions m) key of
          None \<Rightarrow> Inl (Sentinel ErrNotFound)
        | Some session \<Rightarrow>
           (if \<not> session_live now session then Inl (Sentinel ErrNotFound)
            else case map_of (ma_users m) (ss_UserID session) of
              None \<Rightarrow> Inl (Sentinel ErrNotFound)
            | Some user \<Rightarrow>
               (if \<not> user_live user \<and> \<not> allowPendingDeletion then Inl (Sentinel ErrNotFound)
                else if \<not> user_live user \<and> (us_Status user \<noteq> ''deleted'' \<or> us_DeletedAt user = None) then
                  Inl (Sentinel ErrNotFound)
                else
                  let nextIdle = now + SessionIdleTimeout;
                      nextIdle = (if ss_AbsoluteExpiresAt session < nextIdle then ss_AbsoluteExpiresAt session else nextIdle);
                      session = session\<lparr>ss_LastSeenAt := now, ss_IdleExpiresAt := nextIdle, ss_User := Some user\<rparr>
                  in Inr (session, put_session key session m))))"

definition TouchSession :: "string \<Rightarrow> time \<Rightarrow> AccountTables \<Rightarrow> (Session \<times> AccountTables) result" where
  "TouchSession sessionIDHash now m = touchSessionInternal sessionIDHash now False m"

definition TouchSessionAllowingPendingDeletion :: "string \<Rightarrow> time \<Rightarrow> AccountTables \<Rightarrow> (Session \<times> AccountTables) result" where
  "TouchSessionAllowingPendingDeletion sessionIDHash now m = touchSessionInternal sessionIDHash now True m"

definition UpdateSessionContext ::
  "string \<Rightarrow> string \<Rightarrow> string \<Rightarrow> string \<Rightarrow> string \<Rightarrow> time \<Rightarrow> AccountTables \<Rightarrow> (Session \<times> AccountTables) result" where
  "UpdateSessionContext userID sessionIDHash orgID workspaceID projectID now m =
    (let key = sessionHashKey sessionIDHash
     in case map_of (ma_sessions m) key of
          None \<Rightarrow> Inl (Sentinel ErrNotFound)
        | Some session \<Rightarrow>
           (if ss_UserID session \<noteq> trim_space userID \<or> \<not> session_live now session then Inl (Sentinel ErrNotFound)
            else case map_of (ma_users m) (ss_UserID session) of
              None \<Rightarrow> Inl (Sentinel ErrNotFound)
            | Some user \<Rightarrow>
               (if \<not> user_live user then Inl (Sentinel ErrNotFound)
                else
                  let session = session\<lparr>ss_CurrentOrgID := trim_space orgID, ss_CurrentWorkspaceID := trim_space workspaceID,
                        ss_CurrentProjectID := trim_space projectID, ss_LastSeenAt := now, ss_User := Some user\<rparr>
                  in Inr (session, put_session key session m))))"

definition ListUserSessions :: "string \<Rightarrow> time \<Rightarrow> int \<Rightarrow> AccountTables \<Rightarrow> Session list" where
  "ListUserSessions userID now limit m =
    limit_list (page_limit 100 limit) (sort_key (\<lambda>session. - ss_LastSeenAt session)
      (filter (\<lambda>session. ss_UserID session = trim_space userID \<and> session_live now session) (map snd (ma_sessions m))))"

definition ListUserSessionHistory :: "string \<Rightarrow> int \<Rightarrow> AccountTables \<Rightarrow> Session list" where
  "ListUserSessionHistory userID limit m =
    limit_list limit (sort_key (\<lambda>session. - ss_LastSeenAt session)
      (filter (\<lambda>session. ss_UserID session = trim_space userID) (map snd (ma_sessions m))))"

definition RevokeUserSession :: "string \<Rightarrow> string \<Rightarrow> time \<Rightarrow> AccountTables \<Rightarrow> (Session \<times> AccountTables) result" where
  "RevokeUserSession userID sessionIDHash revokedAt m =
    (let key = sessionHashKey sessionIDHash
     in case map_of (ma_sessions m) key of
          None \<Rightarrow> Inl (Sentinel ErrNotFound)
        | Some session \<Rightarrow>
           (if ss_UserID session \<noteq> trim_space userID \<or> ss_RevokedAt session \<noteq> None then Inl (Sentinel ErrNotFound)
            else
              let session = session\<lparr>ss_RevokedAt := Some revokedAt\<rparr>
              in Inr (session, put_session key session m)))"

text \<open>The loop of the two bulk revocations, with the sessions it selects.\<close>

definition revoke_sessions :: "(Session \<Rightarrow> bool) \<Rightarrow> time \<Rightarrow> AccountTables \<Rightarrow> int \<times> AccountTables" where
  "revoke_sessions selected revokedAt m =
    (int (length (filter selected (map snd (ma_sessions m)))),
     m\<lparr>ma_sessions := update_where selected (\<lambda>session. session\<lparr>ss_RevokedAt := Some revokedAt\<rparr>) (ma_sessions m)\<rparr>)"

definition RevokeOtherUserSessions :: "string \<Rightarrow> string \<Rightarrow> time \<Rightarrow> AccountTables \<Rightarrow> int \<times> AccountTables" where
  "RevokeOtherUserSessions userID currentSessionIDHash revokedAt m =
    revoke_sessions (\<lambda>session. ss_UserID session = trim_space userID \<and> ss_RevokedAt session = None
      \<and> ss_ID session \<noteq> currentSessionIDHash) revokedAt m"

definition RevokeAllUserSessions :: "string \<Rightarrow> time \<Rightarrow> AccountTables \<Rightarrow> int \<times> AccountTables" where
  "RevokeAllUserSessions userID revokedAt m =
    revoke_sessions (\<lambda>session. ss_UserID session = trim_space userID \<and> ss_RevokedAt session = None) revokedAt m"


subsection \<open>Laws of the loops over maps\<close>

lemma distinct_delete_where: "distinct (map fst m) \<Longrightarrow> distinct (map fst (delete_where P m))"
  by (induction m) (auto simp: delete_where_def)

lemma map_of_delete_where:
  "distinct (map fst m) \<Longrightarrow> map_of (delete_where P m) k =
    (case map_of m k of None \<Rightarrow> None | Some v \<Rightarrow> if P k v then None else Some v)"
proof (induction m)
  case (Cons e m)
  then have "fst e = k \<Longrightarrow> map_of m k = None" by (auto simp: map_of_eq_None_iff)
  with Cons show ?case by (auto simp: delete_where_def split: option.splits)
qed (simp add: delete_where_def)

lemma delete_where_Some:
  "distinct (map fst m) \<Longrightarrow> map_of (delete_where P m) k = Some v \<longleftrightarrow> map_of m k = Some v \<and> \<not> P k v"
  by (simp add: map_of_delete_where del: map_of_eq_Some_iff split: option.splits) blast

lemma set_delete_where: "set (delete_where P m) = {(k, v) \<in> set m. \<not> P k v}"
  by (auto simp: delete_where_def)

lemma keys_update_where [simp]: "map fst (update_where P f m) = map fst m"
  by (induction m) (auto simp: update_where_def)

lemma map_of_update_where [simp]: "map_of (update_where P f m) k = map_option (\<lambda>v. if P v then f v else v) (map_of m k)"
  by (induction m) (auto simp: update_where_def)

subsection \<open>The invariant of the tables\<close>

definition users_ok :: "AccountTables \<Rightarrow> bool" where
  "users_ok m \<longleftrightarrow> distinct (map fst (ma_users m)) \<and> (\<forall>i u. map_of (ma_users m) i = Some u \<longrightarrow> us_ID u = i)"

text \<open>Two accounts share an address only when it is the tombstone of one of them.\<close>

definition emails_ok :: "AccountTables \<Rightarrow> bool" where
  "emails_ok m \<longleftrightarrow> (\<forall>i j u v. map_of (ma_users m) i = Some u \<longrightarrow> map_of (ma_users m) j = Some v \<longrightarrow>
    us_PrimaryEmail u = us_PrimaryEmail v \<longrightarrow>
    i = j \<or> us_PrimaryEmail u = HardDeletedTombstoneEmail i \<or> us_PrimaryEmail u = HardDeletedTombstoneEmail j)"

definition identity_key :: "UserIdentity \<Rightarrow> string" where
  "identity_key x = userIdentityLookupKey (ui_Provider x) (ui_Subject x)"

text \<open>The index by provider and subject is exactly the identities, and each belongs to an account.\<close>

definition identities_ok :: "AccountTables \<Rightarrow> bool" where
  "identities_ok m \<longleftrightarrow> distinct (map fst (ma_userIdentityByID m)) \<and> distinct (map fst (ma_userIdentityByProviderSubject m))
    \<and> (\<forall>i x. map_of (ma_userIdentityByID m) i = Some x \<longrightarrow> ui_ID x = i \<and> has_key (ma_users m) (ui_UserID x))
    \<and> (\<forall>k i. map_of (ma_userIdentityByProviderSubject m) k = Some i \<longleftrightarrow>
         (\<exists>x. map_of (ma_userIdentityByID m) i = Some x \<and> identity_key x = k))"

definition sessions_ok :: "AccountTables \<Rightarrow> bool" where
  "sessions_ok m \<longleftrightarrow> distinct (map fst (ma_sessions m))
    \<and> (\<forall>k s. map_of (ma_sessions m) k = Some s \<longrightarrow> k = sessionHashKey (ss_ID s) \<and> has_key (ma_users m) (ss_UserID s))"

definition accounts_ok :: "AccountTables \<Rightarrow> bool" where
  "accounts_ok m \<longleftrightarrow> users_ok m \<and> emails_ok m \<and> identities_ok m \<and> sessions_ok m"

lemma accounts_ok_empty: "accounts_ok empty_tables"
  by (simp add: accounts_ok_def users_ok_def emails_ok_def identities_ok_def sessions_ok_def empty_tables_def)

text \<open>Writing one account: the address may be one that no other account has, or the account's tombstone.\<close>

lemma put_user_ok:
  assumes "accounts_ok m" "us_ID u = i"
    and "us_PrimaryEmail u = HardDeletedTombstoneEmail i \<or>
      (\<forall>j v. map_of (ma_users m) j = Some v \<longrightarrow> us_PrimaryEmail v = us_PrimaryEmail u \<longrightarrow>
        j = i \<or> us_PrimaryEmail u = HardDeletedTombstoneEmail j)"
    and "ma_users m' = map_put i u (ma_users m)" "ma_userIdentityByID m' = ma_userIdentityByID m"
    and "ma_userIdentityByProviderSubject m' = ma_userIdentityByProviderSubject m" "ma_sessions m' = ma_sessions m"
  shows "accounts_ok m'"
proof -
  have "users_ok m'" using assms(1,2,4) by (auto simp: accounts_ok_def users_ok_def distinct_put)
  moreover have "emails_ok m'"
    unfolding emails_ok_def
  proof (intro allI impI)
    fix j k v w
    assume *: "map_of (ma_users m') j = Some v" "map_of (ma_users m') k = Some w" "us_PrimaryEmail v = us_PrimaryEmail w"
    show "j = k \<or> us_PrimaryEmail v = HardDeletedTombstoneEmail j \<or> us_PrimaryEmail v = HardDeletedTombstoneEmail k"
      using * assms(1,3) unfolding assms(4)
      by (auto simp: accounts_ok_def emails_ok_def split: if_splits)
  qed
  moreover have "identities_ok m'" "sessions_ok m'"
    using assms(1,4-7) by (auto simp: accounts_ok_def identities_ok_def sessions_ok_def)
  ultimately show ?thesis by (simp add: accounts_ok_def)
qed

lemma email_free:
  assumes "users_ok m" "\<not> email_taken u m" "map_of (ma_users m) j = Some v" "us_PrimaryEmail v = us_PrimaryEmail u"
  shows "j = us_ID u"
proof (rule ccontr)
  assume "j \<noteq> us_ID u"
  moreover from assms(3) have "(j, v) \<in> set (ma_users m)" by (rule map_of_SomeD)
  ultimately show False using assms(2,4) unfolding email_taken_def list_ex_iff by fastforce
qed

lemma UpsertUser_ok:
  assumes "accounts_ok m" "UpsertUser env user m = Inr (x, m')"
  shows "accounts_ok m'"
proof -
  from assms(2) have f: "\<not> email_taken x m" "m' = put_user x m"
    by (auto simp: UpsertUser_def rbind_Inr_iff split: if_splits)
  from assms(1) have u: "users_ok m" by (simp add: accounts_ok_def)
  show ?thesis
    by (rule put_user_ok [OF assms(1), of x "us_ID x"]) (use email_free [OF u f(1)] f(2) in \<open>auto simp: put_user_def\<close>)
qed

lemma UpdateUserProfile_ok:
  assumes "accounts_ok m" "UpdateUserProfile env user m = Inr (x, m')"
  shows "accounts_ok m'"
proof -
  from assms(2) obtain n e where f: "map_of (ma_users m) (us_ID n) = Some e" "\<not> email_taken n m"
    "us_ID x = us_ID e" "us_PrimaryEmail x = us_PrimaryEmail n" "m' = m\<lparr>ma_users := map_put (us_ID n) x (ma_users m)\<rparr>"
    by (auto simp: UpdateUserProfile_def rbind_Inr_iff Let_def split: if_splits option.splits)
  from assms(1) have u: "users_ok m" by (simp add: accounts_ok_def)
  with f(1,3) have i: "us_ID x = us_ID n" by (simp add: users_ok_def)
  show ?thesis
    by (rule put_user_ok [OF assms(1) i]) (use email_free [OF u f(2)] f(4,5) in auto)
qed

text \<open>Operations that keep the address of the account they change.\<close>

lemma keep_email_ok:
  assumes "accounts_ok m" "map_of (ma_users m) i = Some u" "us_ID x = us_ID u" "us_PrimaryEmail x = us_PrimaryEmail u"
  shows "accounts_ok (m\<lparr>ma_users := map_put i x (ma_users m)\<rparr>)"
proof -
  have i: "us_ID x = i" using assms(1-3) by (simp add: accounts_ok_def users_ok_def)
  show ?thesis
  proof (cases "us_PrimaryEmail x = HardDeletedTombstoneEmail i")
    case True
    show ?thesis by (rule put_user_ok [OF assms(1) i]) (simp_all add: True)
  next
    case False
    then have "\<forall>j v. map_of (ma_users m) j = Some v \<longrightarrow> us_PrimaryEmail v = us_PrimaryEmail x \<longrightarrow>
      j = i \<or> us_PrimaryEmail x = HardDeletedTombstoneEmail j"
      using assms(1,2,4) by (auto simp: accounts_ok_def emails_ok_def)
    then show ?thesis by (intro put_user_ok [OF assms(1) i]) simp_all
  qed
qed

lemma change_user_ok:
  assumes "accounts_ok m" "change_user i f m = Inr (x, m')"
    and "\<And>u y. f u = Inr y \<Longrightarrow> us_ID y = us_ID u \<and> us_PrimaryEmail y = us_PrimaryEmail u"
  shows "accounts_ok m'"
proof -
  from assms(2) obtain u where u: "map_of (ma_users m) i = Some u" "f u = Inr x" "m' = m\<lparr>ma_users := map_put i x (ma_users m)\<rparr>"
    by (auto simp: change_user_def rbind_Inr_iff split: option.splits)
  with assms(3) [OF u(2)] show ?thesis by (auto intro: keep_email_ok [OF assms(1)])
qed

lemma status_ops_ok:
  assumes "accounts_ok m"
  shows "SetUserStatus i status now m = Inr (x, m') \<Longrightarrow> accounts_ok m'"
    "SoftDeleteUser i now m = Inr (x, m') \<Longrightarrow> accounts_ok m'"
    "CancelUserDeletion i now m = Inr (x, m') \<Longrightarrow> accounts_ok m'"
  by (auto simp: SetUserStatus_def SoftDeleteUser_def CancelUserDeletion_def Let_def split: if_splits
    elim!: change_user_ok [OF assms])

lemma UpdateCurrentUserProfile_ok:
  assumes "accounts_ok m" "UpdateCurrentUserProfile i name url now m = Inr (x, m')"
  shows "accounts_ok m'"
proof -
  from assms(2) obtain u where u: "map_of (ma_users m) (trim_space i) = Some u" "us_ID x = us_ID u"
    "us_PrimaryEmail x = us_PrimaryEmail u" "m' = m\<lparr>ma_users := map_put (trim_space i) x (ma_users m)\<rparr>"
    by (auto simp: UpdateCurrentUserProfile_def Let_def split: option.splits if_splits)
  then show ?thesis by (auto intro: keep_email_ok [OF assms(1)])
qed


text \<open>Deleting the identities of an account leaves those of the others, and an exact index.\<close>

lemma map_of_deleted_identities:
  assumes "identities_ok m"
  shows "map_of (ma_userIdentityByID (delete_identities u m)) i =
    (case map_of (ma_userIdentityByID m) i of None \<Rightarrow> None | Some x \<Rightarrow> if ui_UserID x = u then None else Some x)"
  using assms by (simp add: identities_ok_def delete_identities_def Let_def map_of_delete_where)

lemma deleted_identities_ok:
  assumes "identities_ok m"
  shows "identities_ok (delete_identities u m)"
proof -
  let ?gone = "map fst (filter (\<lambda>(_, identity). ui_UserID identity = u) (ma_userIdentityByID m))"
  let ?m = "delete_identities u m"
  note ok = assms [unfolded identities_ok_def]
  have gone: "i \<in> set ?gone \<longleftrightarrow> (\<exists>x. map_of (ma_userIdentityByID m) i = Some x \<and> ui_UserID x = u)" for i
  proof -
    have "i \<in> set ?gone \<longleftrightarrow> (\<exists>x. (i, x) \<in> set (ma_userIdentityByID m) \<and> ui_UserID x = u)" by force
    then show ?thesis using ok by simp
  qed
  have idx: "map_of (ma_userIdentityByProviderSubject ?m) k =
      (case map_of (ma_userIdentityByProviderSubject m) k of None \<Rightarrow> None | Some i \<Rightarrow> if i \<in> set ?gone then None else Some i)" for k
  proof -
    from ok have "distinct (map fst (ma_userIdentityByProviderSubject m))" by blast
    from map_of_delete_where [OF this, of "\<lambda>_ e. e \<in> set ?gone" k] show ?thesis
      by (cases "map_of (ma_userIdentityByProviderSubject m) k") (simp_all add: delete_identities_def Let_def)
  qed
  have "map_of (ma_userIdentityByProviderSubject ?m) k = Some i \<longleftrightarrow>
      (\<exists>x. map_of (ma_userIdentityByID ?m) i = Some x \<and> identity_key x = k)" for k i
  proof -
    have "map_of (ma_userIdentityByProviderSubject ?m) k = Some i \<longleftrightarrow>
        map_of (ma_userIdentityByProviderSubject m) k = Some i \<and> i \<notin> set ?gone"
      unfolding idx by (cases "map_of (ma_userIdentityByProviderSubject m) k") auto
    also have "\<dots> \<longleftrightarrow> (\<exists>x. map_of (ma_userIdentityByID m) i = Some x \<and> identity_key x = k \<and> ui_UserID x \<noteq> u)"
    proof -
      have "map_of (ma_userIdentityByProviderSubject m) k = Some i \<longleftrightarrow>
          (\<exists>x. map_of (ma_userIdentityByID m) i = Some x \<and> identity_key x = k)" using ok by blast
      then show ?thesis unfolding gone by (cases "map_of (ma_userIdentityByID m) i") auto
    qed
    finally show ?thesis by (auto simp: map_of_deleted_identities [OF assms] split: option.splits)
  qed
  moreover have "distinct (map fst (ma_userIdentityByID ?m))" "distinct (map fst (ma_userIdentityByProviderSubject ?m))"
    using ok by (simp_all add: delete_identities_def Let_def distinct_delete_where)
  moreover have "ma_users ?m = ma_users m" by (simp add: delete_identities_def Let_def)
  ultimately show ?thesis
    using ok by (auto simp: identities_ok_def map_of_deleted_identities [OF assms] split: option.splits if_splits)
qed

lemma delete_identities_frame [simp]:
  "ma_users (delete_identities u m) = ma_users m" "ma_sessions (delete_identities u m) = ma_sessions m"
  "ma_members (delete_identities u m) = ma_members m" "ma_workspaces (delete_identities u m) = ma_workspaces m"
  "ma_organizations (delete_identities u m) = ma_organizations m"
  by (simp_all add: delete_identities_def Let_def)

lemma identities_ok_cong:
  assumes "identities_ok m" "ma_userIdentityByID m' = ma_userIdentityByID m"
    and "ma_userIdentityByProviderSubject m' = ma_userIdentityByProviderSubject m"
    and "\<And>i. has_key (ma_users m) i \<Longrightarrow> has_key (ma_users m') i"
  shows "identities_ok m'"
  using assms by (auto simp: identities_ok_def)

text \<open>What a purge does, in one place.\<close>

lemma HardDeleteUser_Inr:
  assumes "HardDeleteUser userID now m = Inr (x, m')"
  obtains u i where "i = trim_space userID" "map_of (ma_users m) i = Some u" "us_Status u = ''deleted''" "us_DeletedAt u \<noteq> None"
    "x = u\<lparr>us_PrimaryEmail := HardDeletedTombstoneEmail i, us_DisplayName := '''', us_AvatarURL := '''', us_UpdatedAt := now\<rparr>"
    "ma_users m' = map_put i x (ma_users m)"
    "ma_userIdentityByID m' = ma_userIdentityByID (delete_identities i m)"
    "ma_userIdentityByProviderSubject m' = ma_userIdentityByProviderSubject (delete_identities i m)"
    "ma_sessions m' = delete_where (\<lambda>_ s. ss_UserID s = i) (ma_sessions m)"
    "ma_members m' = delete_where (\<lambda>_ b. mb_UserUUID b = i) (ma_members m)"
    "ma_workspaces m' = ma_workspaces m" "ma_organizations m' = ma_organizations m"
  using assms by (auto simp: HardDeleteUser_def delete_identities_def Let_def split: option.splits if_splits intro!: that)

lemma HardDeleteUser_ok:
  assumes "accounts_ok m" "HardDeleteUser userID now m = Inr (x, m')"
  shows "accounts_ok m'"
proof -
  from assms(2) obtain u i where f: "map_of (ma_users m) i = Some u"
    "x = u\<lparr>us_PrimaryEmail := HardDeletedTombstoneEmail i, us_DisplayName := '''', us_AvatarURL := '''', us_UpdatedAt := now\<rparr>"
    "ma_users m' = map_put i x (ma_users m)"
    "ma_userIdentityByID m' = ma_userIdentityByID (delete_identities i m)"
    "ma_userIdentityByProviderSubject m' = ma_userIdentityByProviderSubject (delete_identities i m)"
    "ma_sessions m' = delete_where (\<lambda>_ s. ss_UserID s = i) (ma_sessions m)"
    by (rule HardDeleteUser_Inr)
  let ?m = "m\<lparr>ma_users := map_put i x (ma_users m)\<rparr>"
  have "us_ID x = i" using assms(1) f(1,2) by (simp add: accounts_ok_def users_ok_def)
  then have ok: "accounts_ok ?m" using f(2) by (intro put_user_ok [OF assms(1)]) simp_all
  have "users_ok m'" "emails_ok m'" using ok f(3) by (simp_all add: accounts_ok_def users_ok_def emails_ok_def)
  moreover have "identities_ok m'"
  proof (rule identities_ok_cong)
    show "identities_ok (delete_identities i m)" using assms(1) by (simp add: accounts_ok_def deleted_identities_ok)
  qed (simp_all add: f(3-5))
  moreover have "sessions_ok m'"
    using assms(1) f(3,6) by (auto simp: accounts_ok_def sessions_ok_def distinct_delete_where map_of_delete_where
      split: option.splits if_splits)
  ultimately show ?thesis by (simp add: accounts_ok_def)
qed

lemma UpsertUserIdentity_ok:
  assumes "accounts_ok m" "UpsertUserIdentity env identity m = Inr (x, m')"
  shows "accounts_ok m'"
proof -
  define L where "L = identity_key x"
  define I where "I = ui_ID x"
  define byID where "byID = (case map_of (ma_userIdentityByProviderSubject m) L of None \<Rightarrow> ma_userIdentityByID m
    | Some e \<Rightarrow> if e \<noteq> I then map_del e (ma_userIdentityByID m) else ma_userIdentityByID m)"
  define byPS where "byPS = delete_where (\<lambda>k e. e = I \<and> k \<noteq> L) (ma_userIdentityByProviderSubject m)"
  from assms(2) have f: "has_key (ma_users m) (ui_UserID x)"
    "m' = m\<lparr>ma_userIdentityByID := map_put I x byID, ma_userIdentityByProviderSubject := map_put L I byPS\<rparr>"
    unfolding byID_def byPS_def L_def I_def identity_key_def
    by (auto simp: UpsertUserIdentity_def rbind_Inr_iff Let_def split: if_splits)
  note ok = assms(1) [unfolded accounts_ok_def identities_ok_def]
  have d: "distinct (map fst (map_put I x byID))" "distinct (map fst (map_put L I byPS))"
    using ok by (auto simp: byID_def byPS_def distinct_put distinct_del distinct_delete_where split: option.splits)
  have by_id: "map_of byID i = Some y \<longleftrightarrow>
      map_of (ma_userIdentityByID m) i = Some y \<and> (i = I \<or> map_of (ma_userIdentityByProviderSubject m) L \<noteq> Some i)" for i y
    by (auto simp: byID_def split: option.splits if_splits)
  have by_ps: "map_of byPS k = Some i \<longleftrightarrow> map_of (ma_userIdentityByProviderSubject m) k = Some i \<and> (i \<noteq> I \<or> k = L)" for k i
    using ok by (auto simp: byPS_def delete_where_Some simp del: map_of_eq_Some_iff)
  have idx: "map_of (ma_userIdentityByProviderSubject m) k = Some i \<longleftrightarrow>
      (\<exists>y. map_of (ma_userIdentityByID m) i = Some y \<and> identity_key y = k)" for k i
    using ok by blast
  have "map_of (map_put L I byPS) k = Some i \<longleftrightarrow> (\<exists>y. map_of (map_put I x byID) i = Some y \<and> identity_key y = k)" for k i
    by (auto simp: by_id by_ps idx L_def)
  moreover have "\<forall>i y. map_of (map_put I x byID) i = Some y \<longrightarrow> ui_ID y = i \<and> has_key (ma_users m) (ui_UserID y)"
    using ok f(1) by (auto simp: by_id I_def)
  ultimately have "identities_ok m'" using d by (simp add: identities_ok_def f(2))
  with assms(1) f(2) show ?thesis by (simp add: accounts_ok_def users_ok_def emails_ok_def sessions_ok_def)
qed

lemma DeleteUserIdentity_ok:
  assumes "accounts_ok m" "DeleteUserIdentity provider subject m = Inr m'"
  shows "accounts_ok m'"
proof -
  from assms(2) obtain i where f:
    "m' = m\<lparr>ma_userIdentityByProviderSubject := delete_where (\<lambda>_ e. e = i) (ma_userIdentityByProviderSubject m),
      ma_userIdentityByID := map_del i (ma_userIdentityByID m)\<rparr>"
    by (auto simp: DeleteUserIdentity_def split: option.splits)
  note ok = assms(1) [unfolded accounts_ok_def identities_ok_def]
  have "map_of (delete_where (\<lambda>_ e. e = i) (ma_userIdentityByProviderSubject m)) k = Some j \<longleftrightarrow>
      map_of (ma_userIdentityByProviderSubject m) k = Some j \<and> j \<noteq> i" for k j
    using ok by (simp add: delete_where_Some del: map_of_eq_Some_iff)
  with ok have "identities_ok m'"
    by (auto simp: identities_ok_def f distinct_del distinct_delete_where)
  with assms(1) f show ?thesis by (simp add: accounts_ok_def users_ok_def emails_ok_def sessions_ok_def)
qed

lemma put_session_ok:
  assumes "accounts_ok m" "k = sessionHashKey (ss_ID s)" "has_key (ma_users m) (ss_UserID s)"
  shows "accounts_ok (put_session k s m)"
  using assms by (auto simp: accounts_ok_def users_ok_def emails_ok_def identities_ok_def sessions_ok_def put_session_def distinct_put)

lemma CreateSession_Inr:
  assumes "CreateSession env session m = Inr (s, m')"
  obtains u where "ss_ID s = ss_ID session" "map_of (ma_users m) (ss_UserID s) = Some u" "user_live u" "ss_User s = Some u"
    "ss_IdleExpiresAt s = ss_IdleExpiresAt session" "ss_AbsoluteExpiresAt s = ss_AbsoluteExpiresAt session"
    "ss_RevokedAt s = ss_RevokedAt session" "m' = put_session (sessionHashKey (ss_ID s)) s m"
proof -
  from assms obtain n u where n: "NormalizeSessionForWrite env session = Inr n" "map_of (ma_users m) (ss_UserID n) = Some u"
    "user_live u" "s = n\<lparr>ss_User := Some u\<rparr>" "m' = put_session (sessionHashKey (ss_ID s)) s m"
    by (auto simp: CreateSession_def rbind_Inr_iff Let_def split: option.splits if_splits)
  show ?thesis by (rule that [of u]) (use n normalized_session [OF n(1)] in simp_all)
qed

lemma touch_Inr:
  assumes "touchSessionInternal h now lenient m = Inr (s', m')"
  obtains s u where "map_of (ma_sessions m) (sessionHashKey h) = Some s" "session_live now s"
    "map_of (ma_users m) (ss_UserID s) = Some u"
    "user_live u \<or> (lenient \<and> us_Status u = ''deleted'' \<and> us_DeletedAt u \<noteq> None)"
    "s' = s\<lparr>ss_LastSeenAt := now, ss_IdleExpiresAt := min (now + SessionIdleTimeout) (ss_AbsoluteExpiresAt s), ss_User := Some u\<rparr>"
    "m' = put_session (sessionHashKey h) s' m"
  using assms by (auto simp: touchSessionInternal_def Let_def min_def split: option.splits if_splits intro!: that)

lemma context_Inr:
  assumes "UpdateSessionContext userID h org ws project now m = Inr (s', m')"
  obtains s u where "map_of (ma_sessions m) (sessionHashKey h) = Some s" "session_live now s"
    "map_of (ma_users m) (ss_UserID s) = Some u" "user_live u" "ss_UserID s = trim_space userID"
    "s' = s\<lparr>ss_CurrentOrgID := trim_space org, ss_CurrentWorkspaceID := trim_space ws, ss_CurrentProjectID := trim_space project,
      ss_LastSeenAt := now, ss_User := Some u\<rparr>"
    "m' = put_session (sessionHashKey h) s' m"
  using assms by (auto simp: UpdateSessionContext_def Let_def split: option.splits if_splits intro!: that)

lemma revoke_Inr:
  assumes "RevokeUserSession userID h revokedAt m = Inr (s', m')"
  obtains s where "map_of (ma_sessions m) (sessionHashKey h) = Some s" "ss_RevokedAt s = None" "ss_UserID s = trim_space userID"
    "s' = s\<lparr>ss_RevokedAt := Some revokedAt\<rparr>" "m' = put_session (sessionHashKey h) s' m"
  using assms by (auto simp: RevokeUserSession_def Let_def split: option.splits if_splits intro!: that)

lemma session_row_ok:
  assumes "accounts_ok m" "map_of (ma_sessions m) k = Some s"
  shows "k = sessionHashKey (ss_ID s)" "has_key (ma_users m) (ss_UserID s)"
  using assms by (auto simp: accounts_ok_def sessions_ok_def)

lemma session_ops_ok:
  assumes "accounts_ok m"
  shows "CreateSession env session m = Inr (s', m') \<Longrightarrow> accounts_ok m'"
    "touchSessionInternal h now lenient m = Inr (s', m') \<Longrightarrow> accounts_ok m'"
    "UpdateSessionContext userID h org ws project now m = Inr (s', m') \<Longrightarrow> accounts_ok m'"
    "RevokeUserSession userID h now m = Inr (s', m') \<Longrightarrow> accounts_ok m'"
proof -
  assume "CreateSession env session m = Inr (s', m')"
  then show "accounts_ok m'" by (rule CreateSession_Inr) (simp add: put_session_ok [OF assms] has_key_iff)
next
  assume "touchSessionInternal h now lenient m = Inr (s', m')"
  then show "accounts_ok m'" by (rule touch_Inr) (use session_row_ok [OF assms] in \<open>force intro: put_session_ok [OF assms]\<close>)
next
  assume "UpdateSessionContext userID h org ws project now m = Inr (s', m')"
  then show "accounts_ok m'" by (rule context_Inr) (use session_row_ok [OF assms] in \<open>force intro: put_session_ok [OF assms]\<close>)
next
  assume "RevokeUserSession userID h now m = Inr (s', m')"
  then show "accounts_ok m'" by (rule revoke_Inr) (use session_row_ok [OF assms] in \<open>force intro: put_session_ok [OF assms]\<close>)
qed

lemma revoke_sessions_ok:
  assumes "revoke_sessions P now m = (n, m')" "accounts_ok m"
  shows "accounts_ok m'"
proof -
  have m': "m' = m\<lparr>ma_sessions := update_where P (\<lambda>s. s\<lparr>ss_RevokedAt := Some now\<rparr>) (ma_sessions m)\<rparr>"
    using assms(1) by (simp add: revoke_sessions_def)
  have "users_ok m'" "emails_ok m'" "identities_ok m'"
    using assms(2) by (simp_all add: m' accounts_ok_def users_ok_def emails_ok_def identities_ok_def)
  moreover have "sessions_ok m'"
    using assms(2) by (auto simp: m' accounts_ok_def sessions_ok_def simp del: map_of_eq_Some_iff)
  ultimately show ?thesis by (simp add: accounts_ok_def)
qed

subsection \<open>The operations as steps\<close>

text \<open>The label of a step is the hash of the session it creates, if it creates one.\<close>

inductive account_step :: "string option \<Rightarrow> AccountTables \<Rightarrow> AccountTables \<Rightarrow> bool" where
  upsert_user: "UpsertUser env user m = Inr (u, m') \<Longrightarrow> account_step None m m'"
| update_profile: "UpdateUserProfile env user m = Inr (u, m') \<Longrightarrow> account_step None m m'"
| update_current: "UpdateCurrentUserProfile i name url now m = Inr (u, m') \<Longrightarrow> account_step None m m'"
| set_status: "SetUserStatus i status now m = Inr (u, m') \<Longrightarrow> account_step None m m'"
| soft_delete: "SoftDeleteUser i now m = Inr (u, m') \<Longrightarrow> account_step None m m'"
| cancel_deletion: "CancelUserDeletion i now m = Inr (u, m') \<Longrightarrow> account_step None m m'"
| hard_delete: "HardDeleteUser i now m = Inr (u, m') \<Longrightarrow> account_step None m m'"
| upsert_identity: "UpsertUserIdentity env x m = Inr (y, m') \<Longrightarrow> account_step None m m'"
| delete_identity: "DeleteUserIdentity provider subject m = Inr m' \<Longrightarrow> account_step None m m'"
| create_session: "CreateSession env s m = Inr (t, m') \<Longrightarrow> account_step (Some (ss_ID s)) m m'"
| touch: "touchSessionInternal h now lenient m = Inr (t, m') \<Longrightarrow> account_step None m m'"
| set_context: "UpdateSessionContext i h org ws project now m = Inr (t, m') \<Longrightarrow> account_step None m m'"
| revoke: "RevokeUserSession i h now m = Inr (t, m') \<Longrightarrow> account_step None m m'"
| revoke_others: "RevokeOtherUserSessions i h now m = (n, m') \<Longrightarrow> account_step None m m'"
| revoke_all: "RevokeAllUserSessions i now m = (n, m') \<Longrightarrow> account_step None m m'"

inductive account_run :: "(string option \<Rightarrow> bool) \<Rightarrow> AccountTables \<Rightarrow> AccountTables \<Rightarrow> bool" for allowed where
  stay: "account_run allowed m m"
| go: "account_run allowed m m' \<Longrightarrow> account_step label m' m'' \<Longrightarrow> allowed label \<Longrightarrow> account_run allowed m m''"

lemma account_step_ok:
  assumes "account_step label m m'" "accounts_ok m"
  shows "accounts_ok m'"
  using assms
proof (cases rule: account_step.cases)
  case (revoke_others i h now n)
  then show ?thesis by (auto simp: RevokeOtherUserSessions_def intro: revoke_sessions_ok [OF _ assms(2)])
next
  case (revoke_all i now n)
  then show ?thesis by (auto simp: RevokeAllUserSessions_def intro: revoke_sessions_ok [OF _ assms(2)])
qed (use assms(2) in \<open>blast intro: UpsertUser_ok UpdateUserProfile_ok UpdateCurrentUserProfile_ok status_ops_ok HardDeleteUser_ok
  UpsertUserIdentity_ok DeleteUserIdentity_ok session_ops_ok\<close>)+

lemma account_run_ok: "account_run allowed m m' \<Longrightarrow> accounts_ok m \<Longrightarrow> accounts_ok m'"
  by (induction rule: account_run.induct) (auto intro: account_step_ok)

subsection \<open>The life of a session\<close>

text \<open>What is left of a session: nothing, or the same owner and absolute expiry, revoked if it was.\<close>

definition session_survives :: "string \<Rightarrow> Session \<Rightarrow> AccountTables \<Rightarrow> bool" where
  "session_survives h s m \<longleftrightarrow> (\<forall>t. map_of (ma_sessions m) (sessionHashKey h) = Some t \<longrightarrow>
    ss_UserID t = ss_UserID s \<and> ss_AbsoluteExpiresAt t = ss_AbsoluteExpiresAt s \<and> (ss_RevokedAt s \<noteq> None \<longrightarrow> ss_RevokedAt t \<noteq> None))"

lemma user_ops_sessions:
  "UpsertUser env user m = Inr (u, m') \<Longrightarrow> ma_sessions m' = ma_sessions m"
  "UpdateUserProfile env user m = Inr (u, m') \<Longrightarrow> ma_sessions m' = ma_sessions m"
  "UpdateCurrentUserProfile i name url now m = Inr (u, m') \<Longrightarrow> ma_sessions m' = ma_sessions m"
  "SetUserStatus i status now m = Inr (u, m') \<Longrightarrow> ma_sessions m' = ma_sessions m"
  "SoftDeleteUser i now m = Inr (u, m') \<Longrightarrow> ma_sessions m' = ma_sessions m"
  "CancelUserDeletion i now m = Inr (u, m') \<Longrightarrow> ma_sessions m' = ma_sessions m"
  "UpsertUserIdentity env x m = Inr (y, m') \<Longrightarrow> ma_sessions m' = ma_sessions m"
  "DeleteUserIdentity provider subject m = Inr m' \<Longrightarrow> ma_sessions m' = ma_sessions m"
  by (auto simp: UpsertUser_def put_user_def UpdateUserProfile_def UpdateCurrentUserProfile_def SetUserStatus_def SoftDeleteUser_def
    CancelUserDeletion_def change_user_def UpsertUserIdentity_def DeleteUserIdentity_def rbind_Inr_iff Let_def
    split: option.splits if_splits)

lemma survives_put:
  assumes "session_survives h s m" "map_of (ma_sessions m) (sessionHashKey g) = Some t" "ss_UserID t' = ss_UserID t"
    "ss_AbsoluteExpiresAt t' = ss_AbsoluteExpiresAt t" "ss_RevokedAt t \<noteq> None \<longrightarrow> ss_RevokedAt t' \<noteq> None"
  shows "session_survives h s (put_session (sessionHashKey g) t' m)"
  using assms by (auto simp: session_survives_def put_session_def simp del: map_of_eq_Some_iff)

lemma survives_revocations:
  assumes "revoke_sessions P now m = (n, m')" "session_survives h s m"
  shows "session_survives h s m'"
  using assms by (auto simp: session_survives_def revoke_sessions_def simp del: map_of_eq_Some_iff)

lemma survives_step:
  assumes "account_step label m m'" "label \<noteq> Some h" "accounts_ok m" "session_survives h s m"
  shows "session_survives h s m'"
  using assms(1)
proof (cases rule: account_step.cases)
  case (hard_delete i now u)
  have "distinct (map fst (ma_sessions m))" using assms(3) by (simp add: accounts_ok_def sessions_ok_def)
  then show ?thesis
    using hard_delete(2) assms(4) by (elim HardDeleteUser_Inr) (simp add: session_survives_def delete_where_Some del: map_of_eq_Some_iff)
next
  case (create_session env s0 t)
  then have "ss_ID t \<noteq> h" using assms(2) by (auto elim: CreateSession_Inr)
  with create_session(2) assms(4) show ?thesis by (elim CreateSession_Inr) (simp add: session_survives_def put_session_def)
next
  case (touch g now lenient t)
  from touch(2) show ?thesis by (rule touch_Inr) (use survives_put [OF assms(4)] in simp)
next
  case (set_context i g org ws project now t)
  from set_context(2) show ?thesis by (rule context_Inr) (use survives_put [OF assms(4)] in simp)
next
  case (revoke i g now t)
  from revoke(2) show ?thesis by (rule revoke_Inr) (use survives_put [OF assms(4)] in simp)
next
  case (revoke_others i g now n)
  from survives_revocations [OF revoke_others(2) [unfolded RevokeOtherUserSessions_def] assms(4)] show ?thesis .
next
  case (revoke_all i now n)
  from survives_revocations [OF revoke_all(2) [unfolded RevokeAllUserSessions_def] assms(4)] show ?thesis .
qed (use assms(4) user_ops_sessions in \<open>simp_all add: session_survives_def\<close>)

lemma survives_run:
  assumes "account_run (\<lambda>label. label \<noteq> Some h) m m'" "accounts_ok m" "session_survives h s m"
  shows "session_survives h s m'"
  using assms
proof (induction rule: account_run.induct)
  case (go m m' label m'')
  with account_run_ok [OF go.hyps(1)] survives_step [OF go.hyps(2,3)] show ?case by blast
qed


lemma tombstone_trimmed: "trim_space (HardDeletedTombstoneEmail i) = HardDeletedTombstoneEmail i"
  by (simp add: HardDeletedTombstoneEmail_def trim_space_def is_space_def)

subsection \<open>Properties\<close>

text \<open>A clock, a UUID source and a few accounts to evaluate the operations on.\<close>

definition demo_env :: AccountEnv where
  "demo_env = \<lparr>env_Now = 100, env_JsonValid = (\<lambda>_. True), env_Sha256Hex = (\<lambda>s. s), env_NewUUID = ''new'',
     env_UuidParses = (\<lambda>_. True)\<rparr>"

definition demo_hash :: string where
  "demo_hash = replicate 32 CHR ''k''"

definition demo_identity :: "string \<Rightarrow> string \<Rightarrow> UserIdentity" where
  "demo_identity userID subject = \<lparr>ui_ID = '''', ui_UserID = userID, ui_Provider = ''WorkOS'', ui_Subject = subject,
     ui_Email = '''', ui_EmailVerified = True, ui_RawClaims = '''', ui_LastAuthenticatedAt = 0, ui_CreatedAt = 0\<rparr>"

definition demo_session :: "string \<Rightarrow> Session" where
  "demo_session userID = \<lparr>ss_ID = demo_hash, ss_UserID = userID, ss_CurrentOrgID = '''', ss_CurrentWorkspaceID = '''',
     ss_CurrentProjectID = '''', ss_AuthMethod = ''workos'', ss_IP = '''', ss_UserAgent = '''', ss_IdleExpiresAt = 1000,
     ss_AbsoluteExpiresAt = 5000, ss_LastSeenAt = 0, ss_RevokedAt = None, ss_CreatedAt = 0, ss_User = None\<rparr>"

text \<open>Accounts ann and bob; ann has an identity and a session.\<close>

definition after_op :: "AccountTables \<Rightarrow> ('a \<times> AccountTables) result \<Rightarrow> AccountTables" where
  "after_op m r = (case r of Inl _ \<Rightarrow> m | Inr (_, m') \<Rightarrow> m')"

lemma run_after:
  assumes "account_run P m n" "\<And>x n'. r = Inr (x, n') \<Longrightarrow> account_step label n n'" "P label"
  shows "account_run P m (after_op n r)"
  using assms by (cases r) (auto simp: after_op_def intro: account_run.go)

definition demo_tables :: AccountTables where
  "demo_tables =
    (let m = after_op empty_tables (UpsertUser demo_env (plain_user ''ann'' ''Ann@acme.test'' '''') empty_tables);
         m = after_op m (UpsertUser demo_env (plain_user ''bob'' ''bob@acme.test'' '''') m);
         m = after_op m (UpsertUserIdentity demo_env (demo_identity ''ann'' ''sub-1'') m)
     in after_op m (CreateSession demo_env (demo_session ''ann'') m))"

lemma demo_tables_run: "account_run (\<lambda>_. True) empty_tables demo_tables"
  unfolding demo_tables_def Let_def
  by (rule run_after [OF run_after [OF run_after [OF run_after [OF account_run.stay]]]]) (blast intro: account_step.intros)+

lemma demo_tables_ok: "accounts_ok demo_tables"
  using account_run_ok [OF demo_tables_run accounts_ok_empty] .

text \<open>
  C32: one account per identity. After any sequence of operations, a provider and subject resolve exactly
  to the stored identity with that provider and subject, there is only one, and the account it names
  exists; two accounts have the same address only if it is the purge tombstone of one of them.
\<close>

theorem identity_names_one_account:
  assumes "account_run (\<lambda>_. True) empty_tables m"
  shows "(GetUserIdentity provider subject m = Inr x \<longleftrightarrow>
      (\<exists>i. map_of (ma_userIdentityByID m) i = Some x \<and> identity_key x = userIdentityLookupKey provider subject))
    \<and> (GetUserIdentity provider subject m = Inr x \<longrightarrow> has_key (ma_users m) (ui_UserID x))
    \<and> (map_of (ma_users m) i = Some u \<and> map_of (ma_users m) j = Some v \<and> us_PrimaryEmail u = us_PrimaryEmail v \<longrightarrow>
        i = j \<or> us_PrimaryEmail u = HardDeletedTombstoneEmail i \<or> us_PrimaryEmail u = HardDeletedTombstoneEmail j)"
proof -
  have ok: "accounts_ok m" using account_run_ok [OF assms accounts_ok_empty] .
  note f = ok [unfolded accounts_ok_def identities_ok_def]
  let ?k = "userIdentityLookupKey provider subject"
  have idx: "map_of (ma_userIdentityByProviderSubject m) k = Some i \<longleftrightarrow>
      (\<exists>x. map_of (ma_userIdentityByID m) i = Some x \<and> identity_key x = k)" for k i using f by blast
  have get: "GetUserIdentity provider subject m = Inr x \<longleftrightarrow>
      (\<exists>i. map_of (ma_userIdentityByProviderSubject m) ?k = Some i \<and> map_of (ma_userIdentityByID m) i = Some x)"
    by (auto simp: GetUserIdentity_def simp del: map_of_eq_Some_iff split: option.splits)
  have "GetUserIdentity provider subject m = Inr x \<longleftrightarrow>
      (\<exists>i. map_of (ma_userIdentityByID m) i = Some x \<and> identity_key x = ?k)"
    unfolding get idx by auto
  moreover have "\<exists>i. map_of (ma_userIdentityByID m) i = Some x \<Longrightarrow> has_key (ma_users m) (ui_UserID x)" using f by blast
  moreover have "emails_ok m" using f by blast
  ultimately show ?thesis unfolding get emails_ok_def by blast
qed

theorem identity_names_one_account_witness:
  "\<exists>x. GetUserIdentity ''workos'' '' sub-1 '' demo_tables = Inr x \<and> has_key (ma_users demo_tables) (ui_UserID x)"
proof -
  have "is_ok (GetUserIdentity ''workos'' '' sub-1 '' demo_tables)" by code_simp
  then obtain x where x: "GetUserIdentity ''workos'' '' sub-1 '' demo_tables = Inr x" by (auto simp: is_ok_iff)
  with identity_names_one_account [OF demo_tables_run, of "''workos''" "'' sub-1 ''" x] show ?thesis by blast
qed

text \<open>
  C16: sessions end. Take a stored session and any later state, reached without creating a session under
  the same hash. If the hash is still served at some time, then the session was not revoked, the time is
  before the absolute expiry fixed at its creation, which no renewal moves, its owner is still the same
  live account, and the idle expiry becomes the smaller of one idle window from now and that expiry.
\<close>

theorem session_never_outlives:
  assumes "accounts_ok m" "map_of (ma_sessions m) (sessionHashKey h) = Some s"
    and "account_run (\<lambda>label. label \<noteq> Some h) m m'" "TouchSession h now m' = Inr (t, m'')"
  shows "ss_RevokedAt s = None \<and> now < ss_AbsoluteExpiresAt s \<and> ss_AbsoluteExpiresAt t = ss_AbsoluteExpiresAt s
    \<and> ss_UserID t = ss_UserID s \<and> ss_IdleExpiresAt t = min (now + SessionIdleTimeout) (ss_AbsoluteExpiresAt s)
    \<and> (\<exists>u. map_of (ma_users m') (ss_UserID s) = Some u \<and> user_live u)"
proof -
  have "session_survives h s m" using assms(2) by (simp add: session_survives_def)
  from survives_run [OF assms(3,1) this] have s: "session_survives h s m'" .
  from assms(4) [unfolded TouchSession_def] obtain r u where r: "map_of (ma_sessions m') (sessionHashKey h) = Some r"
    "session_live now r" "map_of (ma_users m') (ss_UserID r) = Some u" "user_live u"
    "t = r\<lparr>ss_LastSeenAt := now, ss_IdleExpiresAt := min (now + SessionIdleTimeout) (ss_AbsoluteExpiresAt r), ss_User := Some u\<rparr>"
    by (rule touch_Inr) auto
  with s show ?thesis by (auto simp: session_survives_def session_live_def)
qed

theorem session_never_outlives_witness:
  "\<exists>s t m''. map_of (ma_sessions demo_tables) (sessionHashKey demo_hash) = Some s
     \<and> TouchSession demo_hash 900 demo_tables = Inr (t, m'') \<and> ss_IdleExpiresAt t = 5000 \<and> (900::int) < ss_AbsoluteExpiresAt s"
proof -
  have "case (map_of (ma_sessions demo_tables) (sessionHashKey demo_hash), TouchSession demo_hash 900 demo_tables) of
     (Some s, Inr (t, m'')) \<Rightarrow> ss_AbsoluteExpiresAt s = 5000 | _ \<Rightarrow> False" by code_simp
  then obtain s t m'' where st: "map_of (ma_sessions demo_tables) (sessionHashKey demo_hash) = Some s"
    "TouchSession demo_hash 900 demo_tables = Inr (t, m'')" "ss_AbsoluteExpiresAt s = 5000"
    by (auto split: option.splits sum.splits prod.splits)
  from session_never_outlives [OF demo_tables_ok st(1) account_run.stay st(2)] st show ?thesis
    by (auto simp: SessionIdleTimeout_def)
qed

text \<open>
  C25: a purge removes every trace of one account and of no other. After \<open>HardDeleteUser\<close> the row is
  still there with the address replaced by its tombstone and the name and picture emptied; no identity,
  session or membership refers to the account, so no subject and no cookie leads to it; all rows of other
  accounts are as before; the account is never listed for purging again, and purging it again succeeds.
\<close>

theorem hard_delete_removes_account:
  assumes "accounts_ok m" "HardDeleteUser userID now m = Inr (x, m')" "i = trim_space userID"
  shows "map_of (ma_users m') = (map_of (ma_users m))(i \<mapsto> x) \<and> us_PrimaryEmail x = HardDeletedTombstoneEmail i
      \<and> us_DisplayName x = '''' \<and> us_AvatarURL x = ''''
    \<and> map_of (ma_userIdentityByID m') = (\<lambda>k. case map_of (ma_userIdentityByID m) k of None \<Rightarrow> None | Some y \<Rightarrow> if ui_UserID y = i then None else Some y)
    \<and> map_of (ma_sessions m') = (\<lambda>k. case map_of (ma_sessions m) k of None \<Rightarrow> None | Some s \<Rightarrow> if ss_UserID s = i then None else Some s)
    \<and> set (ma_members m') = {(k, b) \<in> set (ma_members m). mb_UserUUID b \<noteq> i}
    \<and> (\<forall>provider subject y. GetUserIdentity provider subject m' = Inr y \<longrightarrow> ui_UserID y \<noteq> i)
    \<and> (\<forall>h t s m''. touchSessionInternal h t lenient m' = Inr (s, m'') \<longrightarrow> ss_UserID s \<noteq> i)
    \<and> (\<forall>cutoff limit. x \<notin> set (ListUsersPendingHardDelete cutoff limit m'))
    \<and> (\<exists>y m''. HardDeleteUser userID later m' = Inr (y, m'') \<and> y = x\<lparr>us_UpdatedAt := later\<rparr>)"
proof -
  from assms(2,3) obtain u where f: "map_of (ma_users m) i = Some u" "us_Status u = ''deleted''" "us_DeletedAt u \<noteq> None"
    "x = u\<lparr>us_PrimaryEmail := HardDeletedTombstoneEmail i, us_DisplayName := '''', us_AvatarURL := '''', us_UpdatedAt := now\<rparr>"
    "ma_users m' = map_put i x (ma_users m)"
    "ma_userIdentityByID m' = ma_userIdentityByID (delete_identities i m)"
    "ma_sessions m' = delete_where (\<lambda>_ s. ss_UserID s = i) (ma_sessions m)"
    "ma_members m' = delete_where (\<lambda>_ b. mb_UserUUID b = i) (ma_members m)"
    by (elim HardDeleteUser_Inr) auto
  have "identities_ok m" "distinct (map fst (ma_sessions m))" using assms(1) by (simp_all add: accounts_ok_def sessions_ok_def)
  note ids = map_of_deleted_identities [OF this(1), of i] and sess = map_of_delete_where [OF this(2), of "\<lambda>_ s. ss_UserID s = i"]
  have "us_ID x = i" using assms(1) f(1,4) by (simp add: accounts_ok_def users_ok_def)
  moreover have tomb: "IsHardDeletedTombstoneEmailForUser (HardDeletedTombstoneEmail i) i"
    by (simp add: IsHardDeletedTombstoneEmailForUser_def equal_fold_def tombstone_trimmed)
  ultimately have p: "\<not> pending_user c x" for c using f(4) by (simp add: pending_user_def split: option.split)
  have 1: "map_of (ma_users m') = (map_of (ma_users m))(i \<mapsto> x)" by (simp add: f(5))
  have 2: "map_of (ma_userIdentityByID m') =
      (\<lambda>k. case map_of (ma_userIdentityByID m) k of None \<Rightarrow> None | Some y \<Rightarrow> if ui_UserID y = i then None else Some y)"
    unfolding f(6) by (rule ext) (rule ids)
  have 3: "map_of (ma_sessions m') = (\<lambda>k. case map_of (ma_sessions m) k of None \<Rightarrow> None | Some s \<Rightarrow> if ss_UserID s = i then None else Some s)"
    unfolding f(7) by (rule ext) (rule sess)
  have 4: "set (ma_members m') = {(k, b) \<in> set (ma_members m). mb_UserUUID b \<noteq> i}" by (auto simp: f(8) set_delete_where)
  have 5: "GetUserIdentity provider subject m' = Inr y \<Longrightarrow> ui_UserID y \<noteq> i" for provider subject y
    by (auto simp: GetUserIdentity_def 2 simp del: map_of_eq_Some_iff split: option.splits if_splits)
  have 6: "touchSessionInternal h t lenient m' = Inr (s, m'') \<Longrightarrow> ss_UserID s \<noteq> i" for h t s m''
    by (erule touch_Inr) (auto simp: 3 simp del: map_of_eq_Some_iff split: option.splits if_splits)
  have 7: "x \<notin> set (ListUsersPendingHardDelete cutoff limit m')" for cutoff limit
    using p [of cutoff] set_limit_list by (fastforce simp: ListUsersPendingHardDelete_def)
  have 8: "\<exists>y m''. HardDeleteUser userID later m' = Inr (y, m'') \<and> y = x\<lparr>us_UpdatedAt := later\<rparr>"
    using f(2-4) by (simp add: HardDeleteUser_def Let_def 1 assms(3) [symmetric])
  show ?thesis using 1 2 3 4 5 6 7 8 f(4) by (intro conjI allI impI) simp_all
qed

definition demo_deleted :: AccountTables where
  "demo_deleted = after_op demo_tables (SoftDeleteUser ''ann'' 200 demo_tables)"

lemma demo_deleted_run: "account_run (\<lambda>_. True) empty_tables demo_deleted"
  unfolding demo_deleted_def by (rule run_after [OF demo_tables_run]) (blast intro: account_step.intros)+

lemma demo_deleted_ok: "accounts_ok demo_deleted"
  using account_run_ok [OF demo_deleted_run accounts_ok_empty] .

theorem hard_delete_removes_account_witness:
  "\<exists>x m'. HardDeleteUser '' ann'' 300 demo_deleted = Inr (x, m') \<and> us_PrimaryEmail x = ''deleted-user+ann@accounts.invalid''
     \<and> map_of (ma_users m') ''bob'' = map_of (ma_users demo_deleted) ''bob''
     \<and> (\<forall>y. GetUserIdentity ''workos'' ''sub-1'' m' = Inr y \<longrightarrow> ui_UserID y \<noteq> ''ann'')
     \<and> x \<notin> set (ListUsersPendingHardDelete 1000 0 m')"
proof -
  have "is_ok (HardDeleteUser '' ann'' 300 demo_deleted)" by code_simp
  then obtain x m' where h: "HardDeleteUser '' ann'' 300 demo_deleted = Inr (x, m')" by (auto simp: is_ok_iff)
  have "trim_space '' ann'' = ''ann''" "HardDeletedTombstoneEmail ''ann'' = ''deleted-user+ann@accounts.invalid''" by code_simp+
  with h hard_delete_removes_account [OF demo_deleted_ok h refl] show ?thesis by auto
qed

end
