(* ===== verification/Tenancy_Store.thy ===== *)
theory Tenancy_Store
  imports Account_Store Authz_Roles
begin

section \<open>Organizations, workspaces and members (internal/db/memory_tenancy.go)\<close>

text \<open>
  The tenancy half of the in-memory store, on the same \<open>AccountTables\<close>: organizations, workspaces with
  their lifecycle (active, suspended, deleted with a grace period) and workspace members. Every
  operation reads its tenant from the context and accepts only the workspace of the active scope. An
  operation gives an error, and then the tables stay as they are, or a result and the new tables.
  \<open>account_store\<close> is the store interface of the authorization middleware (\<open>Authz_Roles\<close>) on these
  tables. The operations that remove a whole workspace are in \<open>Workspace_Purge\<close>.
\<close>

definition scoped_workspace :: "Context \<Rightarrow> string \<Rightarrow> (Scope \<times> string) result" where
  "scoped_workspace ctx workspaceID =
    rbind (RequireScope ctx) (\<lambda>scope. rbind (ResolveScopedWorkspaceID scope workspaceID) (\<lambda>resolved. Inr (scope, resolved)))"

subsection \<open>Organizations\<close>

definition UpsertOrganization :: "AccountEnv \<Rightarrow> Context \<Rightarrow> TenancyOrganization \<Rightarrow> AccountTables \<Rightarrow> AccountTables result" where
  "UpsertOrganization env ctx organization m =
    rbind (RequireScope ctx) (\<lambda>scope.
    rbind (NormalizeTenancyOrganizationForWrite env (organization\<lparr>og_TenantID := sc_TenantID scope\<rparr>)) (\<lambda>normalized.
      Inr (m\<lparr>ma_organizations := map_put (og_TenantID normalized) normalized (ma_organizations m)\<rparr>)))"

definition GetOrganization :: "Context \<Rightarrow> AccountTables \<Rightarrow> TenancyOrganization result" where
  "GetOrganization ctx m =
    rbind (RequireScope ctx) (\<lambda>scope.
      case map_of (ma_organizations m) (sc_TenantID scope) of
        None \<Rightarrow> Inl (Sentinel ErrNotFound)
      | Some organization \<Rightarrow> Inr organization)"

subsection \<open>Workspaces\<close>

text \<open>An existing row keeps its lifecycle fields.\<close>

definition preserve_lifecycle :: "TenancyWorkspace option \<Rightarrow> TenancyWorkspace \<Rightarrow> TenancyWorkspace" where
  "preserve_lifecycle existing normalized =
    (case existing of
       None \<Rightarrow> normalized
     | Some existing \<Rightarrow> normalized\<lparr>ws_Status := ws_Status existing, ws_SuspendedAt := ws_SuspendedAt existing,
         ws_DeletedAt := ws_DeletedAt existing, ws_CreatedAt := ws_CreatedAt existing\<rparr>)"

definition UpsertWorkspace :: "AccountEnv \<Rightarrow> Context \<Rightarrow> TenancyWorkspace \<Rightarrow> AccountTables \<Rightarrow> AccountTables result" where
  "UpsertWorkspace env ctx workspace m =
    rbind (scoped_workspace ctx (ws_WorkspaceID workspace)) (\<lambda>(scope, resolved).
    rbind (NormalizeTenancyWorkspaceForWrite env (workspace\<lparr>ws_TenantID := sc_TenantID scope, ws_WorkspaceID := resolved\<rparr>))
      (\<lambda>normalized.
      if \<not> has_key (ma_organizations m) (ws_TenantID normalized) then Inl (Sentinel ErrNotFound)
      else
        let key = tenancyWorkspaceKey (ws_TenantID normalized) (ws_WorkspaceID normalized)
        in Inr (m\<lparr>ma_workspaces := map_put key (preserve_lifecycle (map_of (ma_workspaces m) key) normalized) (ma_workspaces m)\<rparr>)))"

definition GetWorkspace :: "Context \<Rightarrow> string \<Rightarrow> AccountTables \<Rightarrow> TenancyWorkspace result" where
  "GetWorkspace ctx workspaceID m =
    rbind (scoped_workspace ctx workspaceID) (\<lambda>(scope, resolved).
      case map_of (ma_workspaces m) (tenancyWorkspaceKey (sc_TenantID scope) resolved) of
        None \<Rightarrow> Inl (Sentinel ErrNotFound)
      | Some workspace \<Rightarrow> Inr workspace)"

definition ListWorkspaces :: "Context \<Rightarrow> int \<Rightarrow> AccountTables \<Rightarrow> TenancyWorkspace list result" where
  "ListWorkspaces ctx limit m =
    rbind (RequireScope ctx) (\<lambda>scope.
      Inr (limit_list (page_limit 20 limit) (sort_key (\<lambda>w. - ws_CreatedAt w)
        (filter (\<lambda>w. ws_TenantID w = sc_TenantID scope) (map snd (ma_workspaces m))))))"

text \<open>The common part of the lifecycle writers: find the workspace of the scope, change it, store it.\<close>

definition change_workspace ::
  "Context \<Rightarrow> string \<Rightarrow> (TenancyWorkspace \<Rightarrow> TenancyWorkspace result) \<Rightarrow> AccountTables \<Rightarrow> (TenancyWorkspace \<times> AccountTables) result" where
  "change_workspace ctx workspaceID f m =
    rbind (scoped_workspace ctx workspaceID) (\<lambda>(scope, resolved).
      let key = tenancyWorkspaceKey (sc_TenantID scope) resolved
      in case map_of (ma_workspaces m) key of
           None \<Rightarrow> Inl (Sentinel ErrNotFound)
         | Some workspace \<Rightarrow>
             rbind (f workspace) (\<lambda>workspace. Inr (workspace, m\<lparr>ma_workspaces := map_put key workspace (ma_workspaces m)\<rparr>)))"

definition SuspendWorkspace :: "Context \<Rightarrow> string \<Rightarrow> time \<Rightarrow> AccountTables \<Rightarrow> (TenancyWorkspace \<times> AccountTables) result" where
  "SuspendWorkspace ctx workspaceID now m =
    change_workspace ctx workspaceID (\<lambda>w.
      if ws_Status w = WorkspaceStatusDeleted \<or> ws_DeletedAt w \<noteq> None then Inl (Sentinel ErrConflict)
      else Inr (w\<lparr>ws_Status := WorkspaceStatusSuspended,
        ws_SuspendedAt := (if ws_SuspendedAt w = None then Some now else ws_SuspendedAt w), ws_UpdatedAt := now\<rparr>)) m"

definition ReactivateWorkspace :: "Context \<Rightarrow> string \<Rightarrow> time \<Rightarrow> AccountTables \<Rightarrow> (TenancyWorkspace \<times> AccountTables) result" where
  "ReactivateWorkspace ctx workspaceID now m =
    change_workspace ctx workspaceID (\<lambda>w.
      if ws_Status w \<noteq> WorkspaceStatusSuspended \<or> ws_DeletedAt w \<noteq> None then Inl (Sentinel ErrConflict)
      else Inr (w\<lparr>ws_Status := WorkspaceStatusActive, ws_SuspendedAt := None, ws_UpdatedAt := now\<rparr>)) m"

definition SoftDeleteWorkspace :: "Context \<Rightarrow> string \<Rightarrow> time \<Rightarrow> AccountTables \<Rightarrow> (TenancyWorkspace \<times> AccountTables) result" where
  "SoftDeleteWorkspace ctx workspaceID now m =
    change_workspace ctx workspaceID (\<lambda>w. Inr (w\<lparr>ws_Status := WorkspaceStatusDeleted,
      ws_DeletedAt := (if ws_DeletedAt w = None then Some now else ws_DeletedAt w), ws_UpdatedAt := now\<rparr>)) m"

definition CancelWorkspaceDeletion :: "Context \<Rightarrow> string \<Rightarrow> time \<Rightarrow> AccountTables \<Rightarrow> (TenancyWorkspace \<times> AccountTables) result" where
  "CancelWorkspaceDeletion ctx workspaceID now m =
    change_workspace ctx workspaceID (\<lambda>w. Inr (w\<lparr>ws_Status := WorkspaceStatusActive, ws_DeletedAt := None,
      ws_SuspendedAt := None, ws_UpdatedAt := now\<rparr>)) m"

definition pending_workspace :: "time \<Rightarrow> TenancyWorkspace \<Rightarrow> bool" where
  "pending_workspace cutoff w =
    (case ws_DeletedAt w of None \<Rightarrow> False | Some deletedAt \<Rightarrow> ws_Status w = WorkspaceStatusDeleted \<and> deletedAt < cutoff)"

definition ListWorkspacesPendingHardDelete :: "time \<Rightarrow> int \<Rightarrow> AccountTables \<Rightarrow> TenancyWorkspace list" where
  "ListWorkspacesPendingHardDelete deletedBefore limit m =
    limit_list (page_limit 100 limit)
      (sort_key (\<lambda>w. (deleted_at (ws_DeletedAt w), ws_WorkspaceID w)) (filter (pending_workspace deletedBefore) (map snd (ma_workspaces m))))"

subsection \<open>Members\<close>

definition UpsertWorkspaceMember ::
  "AccountEnv \<Rightarrow> Context \<Rightarrow> TenancyWorkspaceMember \<Rightarrow> AccountTables \<Rightarrow> AccountTables result" where
  "UpsertWorkspaceMember env ctx member m =
    rbind (scoped_workspace ctx (mb_WorkspaceID member)) (\<lambda>(scope, resolved).
    rbind (NormalizeTenancyWorkspaceMemberForWrite env (member\<lparr>mb_TenantID := sc_TenantID scope, mb_WorkspaceID := resolved\<rparr>))
      (\<lambda>normalized.
      if \<not> has_key (ma_workspaces m) (tenancyWorkspaceKey (mb_TenantID normalized) (mb_WorkspaceID normalized)) then
        Inl (Sentinel ErrNotFound)
      else Inr (m\<lparr>ma_members :=
        map_put (tenancyMemberKey (mb_TenantID normalized) (mb_WorkspaceID normalized) (mb_MemberID normalized)) normalized
          (ma_members m)\<rparr>)))"

definition GetWorkspaceMember :: "Context \<Rightarrow> string \<Rightarrow> string \<Rightarrow> AccountTables \<Rightarrow> TenancyWorkspaceMember result" where
  "GetWorkspaceMember ctx workspaceID memberID m =
    rbind (scoped_workspace ctx workspaceID) (\<lambda>(scope, resolved).
      case map_of (ma_members m) (tenancyMemberKey (sc_TenantID scope) resolved memberID) of
        None \<Rightarrow> Inl (Sentinel ErrNotFound)
      | Some member \<Rightarrow> Inr member)"

definition member_of :: "Scope \<Rightarrow> string \<Rightarrow> TenancyWorkspaceMember \<Rightarrow> bool" where
  "member_of scope workspaceID b \<longleftrightarrow> mb_TenantID b = sc_TenantID scope \<and> mb_WorkspaceID b = workspaceID"

definition GetWorkspaceMemberByUserUUID :: "Context \<Rightarrow> string \<Rightarrow> string \<Rightarrow> AccountTables \<Rightarrow> TenancyWorkspaceMember result" where
  "GetWorkspaceMemberByUserUUID ctx workspaceID userUUID m =
    rbind (scoped_workspace ctx workspaceID) (\<lambda>(scope, resolved).
      let normalizedUserUUID = trim_space userUUID
      in if \<not> has_key (ma_users m) normalizedUserUUID then Inl (Sentinel ErrNotFound)
         else only_match (\<lambda>b. member_of scope resolved b \<and> mb_UserUUID b = normalizedUserUUID) None (map snd (ma_members m)))"

definition GetWorkspaceMemberByUserID :: "Context \<Rightarrow> string \<Rightarrow> string \<Rightarrow> AccountTables \<Rightarrow> TenancyWorkspaceMember result" where
  "GetWorkspaceMemberByUserID ctx workspaceID userID m =
    rbind (scoped_workspace ctx workspaceID) (\<lambda>(scope, resolved).
      case find (\<lambda>b. member_of scope resolved b \<and> mb_UserID b = trim_space userID \<and> mb_UserUUID b = '''') (map snd (ma_members m)) of
        None \<Rightarrow> Inl (Sentinel ErrNotFound)
      | Some member \<Rightarrow> Inr member)"

text \<open>
  The two \<^verbatim>\<open>FindFirst\<close> loops keep the selected row, the zero row at first; a selected row with no
  \<^verbatim>\<open>UserUUID\<close> is replaced by the next one.
\<close>

definition select_newer :: "TenancyWorkspaceMember option \<Rightarrow> TenancyWorkspaceMember \<Rightarrow> TenancyWorkspaceMember option" where
  "select_newer selected b =
    (case selected of
       None \<Rightarrow> Some b
     | Some s \<Rightarrow> (if mb_UserUUID s = '''' \<or> mb_JoinedAt s < mb_JoinedAt b then Some b else selected))"

definition newest_member :: "TenancyWorkspaceMember list \<Rightarrow> TenancyWorkspaceMember result" where
  "newest_member bs =
    (case foldl select_newer None bs of
       None \<Rightarrow> Inl (Sentinel ErrNotFound)
     | Some s \<Rightarrow> (if mb_UserUUID s = '''' then Inl (Sentinel ErrNotFound) else Inr s))"

definition FindFirstWorkspaceMemberByUserUUID :: "string \<Rightarrow> AccountTables \<Rightarrow> TenancyWorkspaceMember result" where
  "FindFirstWorkspaceMemberByUserUUID userUUID m =
    newest_member (filter (\<lambda>b. mb_UserUUID b = trim_space userUUID \<and> mb_Status b = ''active'') (map snd (ma_members m)))"

definition FindFirstWorkspaceMemberByUserUUIDAndTenantID ::
  "string \<Rightarrow> string \<Rightarrow> AccountTables \<Rightarrow> TenancyWorkspaceMember result" where
  "FindFirstWorkspaceMemberByUserUUIDAndTenantID userUUID tenantID m =
    newest_member (filter (\<lambda>b. mb_UserUUID b = trim_space userUUID \<and> mb_TenantID b = trim_space tenantID \<and> mb_Status b = ''active'')
      (map snd (ma_members m)))"

definition ListWorkspaceMembershipsByUserUUIDAndTenantID ::
  "string \<Rightarrow> string \<Rightarrow> AccountTables \<Rightarrow> TenancyWorkspaceMember list" where
  "ListWorkspaceMembershipsByUserUUIDAndTenantID userUUID tenantID m =
    (if trim_space userUUID = '''' \<or> trim_space tenantID = '''' then []
     else sort_key mb_WorkspaceID
       (filter (\<lambda>b. mb_UserUUID b = trim_space userUUID \<and> mb_TenantID b = trim_space tenantID \<and> mb_Status b = ''active'')
         (map snd (ma_members m))))"

definition ListWorkspaceMembershipsByUserUUID :: "string \<Rightarrow> AccountTables \<Rightarrow> TenancyWorkspaceMember list" where
  "ListWorkspaceMembershipsByUserUUID userUUID m =
    (if trim_space userUUID = '''' then []
     else sort_key (\<lambda>b. (mb_TenantID b, mb_WorkspaceID b))
       (filter (\<lambda>b. mb_UserUUID b = trim_space userUUID \<and> mb_Status b = ''active'') (map snd (ma_members m))))"

definition ListWorkspaceMembers :: "Context \<Rightarrow> string \<Rightarrow> int \<Rightarrow> AccountTables \<Rightarrow> TenancyWorkspaceMember list result" where
  "ListWorkspaceMembers ctx workspaceID limit m =
    rbind (scoped_workspace ctx workspaceID) (\<lambda>(scope, resolved).
      Inr (limit_list (page_limit 100 limit) (sort_key mb_JoinedAt
        (filter (\<lambda>b. member_of scope resolved b \<and> \<not> (mb_UserUUID b \<noteq> '''' \<and>
            (case map_of (ma_users m) (mb_UserUUID b) of None \<Rightarrow> False | Some user \<Rightarrow> us_Status user \<noteq> ''active'')))
          (map snd (ma_members m))))))"

definition DeleteWorkspaceMember :: "Context \<Rightarrow> string \<Rightarrow> string \<Rightarrow> AccountTables \<Rightarrow> AccountTables result" where
  "DeleteWorkspaceMember ctx workspaceID memberID m =
    rbind (scoped_workspace ctx workspaceID) (\<lambda>(scope, resolved).
      let key = tenancyMemberKey (sc_TenantID scope) resolved memberID
      in if has_key (ma_members m) key then Inr (m\<lparr>ma_members := map_del key (ma_members m)\<rparr>)
         else Inl (Sentinel ErrNotFound))"

subsection \<open>Ownership\<close>

text \<open>
  The members counted by the stranding guard: active, and bound to an active account when bound at all.
  The second tests of the source for owner rows repeat these conditions and never apply.
\<close>

definition counts_for_stranding :: "Scope \<Rightarrow> string \<Rightarrow> AccountTables \<Rightarrow> TenancyWorkspaceMember \<Rightarrow> bool" where
  "counts_for_stranding scope workspaceID m b \<longleftrightarrow> member_of scope workspaceID b \<and> mb_Status b = ''active''
    \<and> (mb_UserUUID b = '''' \<or> (case map_of (ma_users m) (mb_UserUUID b) of None \<Rightarrow> False | Some user \<Rightarrow> us_Status user = ''active''))"

definition ListWorkspaceStrandedActiveMembers ::
  "Context \<Rightarrow> string \<Rightarrow> string \<Rightarrow> AccountTables \<Rightarrow> TenancyWorkspaceMember list result" where
  "ListWorkspaceStrandedActiveMembers ctx workspaceID userUUID m =
    (let normalizedUserUUID = trim_space userUUID
     in if normalizedUserUUID = '''' then Inr []
        else rbind (scoped_workspace ctx workspaceID) (\<lambda>(scope, resolved).
          if \<not> has_key (ma_workspaces m) (tenancyWorkspaceKey (sc_TenantID scope) resolved) then Inl (Sentinel ErrNotFound)
          else
            let counted = filter (counts_for_stranding scope resolved m) (map snd (ma_members m));
                callerIsOwner = list_ex (\<lambda>b. mb_UserUUID b = normalizedUserUUID \<and> mb_Role b = ''owner'') counted;
                otherActive = filter (\<lambda>b. mb_UserUUID b \<noteq> normalizedUserUUID) counted;
                otherLiveOwners = filter (\<lambda>b. mb_Role b = ''owner'') otherActive
            in if \<not> callerIsOwner \<or> otherLiveOwners \<noteq> [] \<or> otherActive = [] then Inr []
               else Inr (sort_key mb_MemberID otherActive)))"

definition owner_row :: "TenancyWorkspaceMember \<Rightarrow> bool" where
  "owner_row b \<longleftrightarrow> mb_Status b = ''active'' \<and> mb_Role b = ''owner''"

definition member_workspace_key :: "TenancyWorkspaceMember \<Rightarrow> string" where
  "member_workspace_key b = tenancyWorkspaceKey (mb_TenantID b) (mb_WorkspaceID b)"

definition ListSoleOwnerWorkspaces :: "string \<Rightarrow> AccountTables \<Rightarrow> TenancyWorkspace list" where
  "ListSoleOwnerWorkspaces userUUID m =
    (let normalizedUserUUID = trim_space userUUID;
         owners = filter owner_row (map snd (ma_members m));
         userOwns = collect_unique (\<lambda>b. if mb_UserUUID b = normalizedUserUUID then Some (member_workspace_key b) else None) [] owners;
         otherLive = filter (\<lambda>b. mb_UserUUID b \<noteq> normalizedUserUUID
           \<and> (case map_of (ma_users m) (mb_UserUUID b) of None \<Rightarrow> True | Some owner \<Rightarrow> us_Status owner = ''active'')) owners
     in if normalizedUserUUID = '''' then []
        else sort_key ws_WorkspaceID
          (List.map_filter (\<lambda>key. if list_ex (\<lambda>b. member_workspace_key b = key) otherLive then None
             else case map_of (ma_workspaces m) key of
               None \<Rightarrow> None
             | Some w \<Rightarrow> (if ws_Status w = WorkspaceStatusDeleted \<or> ws_DeletedAt w \<noteq> None then None else Some w)) userOwns))"

subsection \<open>The store the authorization middleware reads\<close>

definition account_store ::
  "AccountTables \<Rightarrow> (Context \<Rightarrow> string \<Rightarrow> string \<Rightarrow> string \<Rightarrow> AuthzEntityAttributes result) \<Rightarrow> AccountStore" where
  "account_store m attributes =
    \<lparr>as_GetWorkspaceMemberByUserUUID = (\<lambda>ctx workspaceID userUUID. GetWorkspaceMemberByUserUUID ctx workspaceID userUUID m),
     as_GetWorkspaceMemberByUserID = (\<lambda>ctx workspaceID userID. GetWorkspaceMemberByUserID ctx workspaceID userID m),
     as_GetUser = (\<lambda>_ userID. GetUser userID m),
     as_GetUserIdentity = (\<lambda>_ provider subject. GetUserIdentity provider subject m),
     as_GetUserIdentityBySubject = (\<lambda>_ subject. GetUserIdentityBySubject subject m),
     as_GetWorkspace = (\<lambda>ctx workspaceID. GetWorkspace ctx workspaceID m),
     as_GetAuthzEntityAttributes = attributes\<rparr>"


subsection \<open>Laws\<close>

lemma scoped_workspace_Inr:
  "scoped_workspace ctx w = Inr (scope, r) \<longleftrightarrow>
    RequireScope ctx = Inr scope \<and> r = sc_WorkspaceID scope \<and> (trim_space w = '''' \<or> trim_space w = r)"
  using RequireScope_normal [of ctx scope]
  by (auto simp: scoped_workspace_def rbind_Inr_iff ResolveScopedWorkspaceID_Inr_iff)

lemma RequireScope_trimmed:
  assumes "RequireScope ctx = Inr scope"
  shows "trim_space (sc_TenantID scope) = sc_TenantID scope" "trim_space (sc_WorkspaceID scope) = sc_WorkspaceID scope"
  using RequireScope_normal [OF assms] Normalize_Scope_trimmed [of scope] by simp_all

text \<open>The row of the active scope.\<close>

definition scope_key :: "Scope \<Rightarrow> string" where
  "scope_key scope = tenancyWorkspaceKey (sc_TenantID scope) (sc_WorkspaceID scope)"

lemma change_workspace_Inr:
  assumes "change_workspace ctx w f m = Inr (x, m')"
  obtains scope r where "RequireScope ctx = Inr scope" "map_of (ma_workspaces m) (scope_key scope) = Some r" "f r = Inr x"
    "m' = m\<lparr>ma_workspaces := map_put (scope_key scope) x (ma_workspaces m)\<rparr>"
proof -
  from assms obtain scope r where "scoped_workspace ctx w = Inr (scope, sc_WorkspaceID scope)"
    "map_of (ma_workspaces m) (scope_key scope) = Some r" "f r = Inr x"
    "m' = m\<lparr>ma_workspaces := map_put (scope_key scope) x (ma_workspaces m)\<rparr>"
    by (auto simp: change_workspace_def rbind_Inr_iff Let_def scope_key_def scoped_workspace_Inr split: option.splits)
  then show ?thesis by (intro that [of scope r]) (simp_all add: scoped_workspace_Inr)
qed

lemma UpsertWorkspace_Inr:
  assumes "UpsertWorkspace env ctx w m = Inr m'"
  obtains scope n where "RequireScope ctx = Inr scope" "wf_workspace n" "ws_TenantID n = sc_TenantID scope"
    "ws_WorkspaceID n = sc_WorkspaceID scope" "has_key (ma_organizations m) (sc_TenantID scope)"
    "ws_SuspendedAt n = ws_SuspendedAt w" "ws_DeletedAt n = ws_DeletedAt w"
    "trim_space (ws_Status w) = '''' \<Longrightarrow> ws_Status n = WorkspaceStatusActive"
    "m' = m\<lparr>ma_workspaces := map_put (scope_key scope) (preserve_lifecycle (map_of (ma_workspaces m) (scope_key scope)) n)
      (ma_workspaces m)\<rparr>"
proof -
  from assms obtain scope n where s: "RequireScope ctx = Inr scope"
    "NormalizeTenancyWorkspaceForWrite env (w\<lparr>ws_TenantID := sc_TenantID scope, ws_WorkspaceID := sc_WorkspaceID scope\<rparr>) = Inr n"
    and n: "has_key (ma_organizations m) (ws_TenantID n)"
    "m' = m\<lparr>ma_workspaces := map_put (tenancyWorkspaceKey (ws_TenantID n) (ws_WorkspaceID n))
      (preserve_lifecycle (map_of (ma_workspaces m) (tenancyWorkspaceKey (ws_TenantID n) (ws_WorkspaceID n))) n) (ma_workspaces m)\<rparr>"
    by (auto simp: UpsertWorkspace_def rbind_Inr_iff Let_def scoped_workspace_Inr split: if_splits)
  note f = normalized_workspace [OF s(2)] and t = RequireScope_trimmed [OF s(1)]
  show ?thesis by (rule that [OF s(1) f(1)]) (use n f t in \<open>simp_all add: scope_key_def\<close>)
qed

lemma UpsertWorkspaceMember_Inr:
  assumes "UpsertWorkspaceMember env ctx b m = Inr m'"
  obtains scope n where "RequireScope ctx = Inr scope" "wf_member n" "mb_TenantID n = sc_TenantID scope"
    "mb_WorkspaceID n = sc_WorkspaceID scope" "has_key (ma_workspaces m) (scope_key scope)"
    "m' = m\<lparr>ma_members := map_put (tenancyMemberKey (sc_TenantID scope) (sc_WorkspaceID scope) (mb_MemberID n)) n (ma_members m)\<rparr>"
proof -
  from assms obtain scope n where s: "RequireScope ctx = Inr scope"
    "NormalizeTenancyWorkspaceMemberForWrite env (b\<lparr>mb_TenantID := sc_TenantID scope, mb_WorkspaceID := sc_WorkspaceID scope\<rparr>) = Inr n"
    and n: "has_key (ma_workspaces m) (tenancyWorkspaceKey (mb_TenantID n) (mb_WorkspaceID n))"
    "m' = m\<lparr>ma_members := map_put (tenancyMemberKey (mb_TenantID n) (mb_WorkspaceID n) (mb_MemberID n)) n (ma_members m)\<rparr>"
    by (auto simp: UpsertWorkspaceMember_def rbind_Inr_iff Let_def scoped_workspace_Inr split: if_splits)
  note f = normalized_member [OF s(2)] and t = RequireScope_trimmed [OF s(1)]
  show ?thesis by (rule that [OF s(1) f(1)]) (use n f t in \<open>simp_all add: scope_key_def\<close>)
qed

lemma DeleteWorkspaceMember_Inr:
  assumes "DeleteWorkspaceMember ctx w memberID m = Inr m'"
  obtains scope where "RequireScope ctx = Inr scope"
    "m' = m\<lparr>ma_members := map_del (tenancyMemberKey (sc_TenantID scope) (sc_WorkspaceID scope) memberID) (ma_members m)\<rparr>"
  using assms by (auto simp: DeleteWorkspaceMember_def rbind_Inr_iff Let_def scoped_workspace_Inr split: if_splits intro: that)

subsection \<open>The invariant of the tenancy tables\<close>

text \<open>The status and the two dates of a workspace go together.\<close>

definition lifecycle_ok :: "TenancyWorkspace \<Rightarrow> bool" where
  "lifecycle_ok w \<longleftrightarrow> (ws_Status w = WorkspaceStatusDeleted \<longleftrightarrow> ws_DeletedAt w \<noteq> None)
    \<and> (ws_Status w = WorkspaceStatusSuspended \<longrightarrow> ws_SuspendedAt w \<noteq> None)
    \<and> (ws_Status w = WorkspaceStatusActive \<longrightarrow> ws_SuspendedAt w = None)"

definition tenancy_ok :: "AccountTables \<Rightarrow> bool" where
  "tenancy_ok m \<longleftrightarrow> distinct (map fst (ma_workspaces m)) \<and> distinct (map fst (ma_members m))
    \<and> (\<forall>k w. map_of (ma_workspaces m) k = Some w \<longrightarrow> wf_workspace w \<and> lifecycle_ok w
         \<and> k = tenancyWorkspaceKey (ws_TenantID w) (ws_WorkspaceID w) \<and> has_key (ma_organizations m) (ws_TenantID w))
    \<and> (\<forall>k b. map_of (ma_members m) k = Some b \<longrightarrow> wf_member b
         \<and> k = tenancyMemberKey (mb_TenantID b) (mb_WorkspaceID b) (mb_MemberID b)
         \<and> has_key (ma_workspaces m) (member_workspace_key b))"

lemma tenancy_ok_empty: "tenancy_ok empty_tables"
  by (simp add: tenancy_ok_def empty_tables_def)

text \<open>Writing the workspace of a scope, with its identifiers.\<close>

lemma put_workspace_ok:
  assumes "tenancy_ok m" "wf_workspace w" "lifecycle_ok w" "k = tenancyWorkspaceKey (ws_TenantID w) (ws_WorkspaceID w)"
    and "has_key (ma_organizations m) (ws_TenantID w)"
  shows "tenancy_ok (m\<lparr>ma_workspaces := map_put k w (ma_workspaces m)\<rparr>)"
  using assms by (simp add: tenancy_ok_def distinct_put)

lemma change_workspace_ok:
  assumes "tenancy_ok m" "change_workspace ctx w f m = Inr (x, m')"
    and "\<And>r y. f r = Inr y \<Longrightarrow> wf_workspace r \<Longrightarrow> lifecycle_ok r \<Longrightarrow>
      wf_workspace y \<and> lifecycle_ok y \<and> ws_TenantID y = ws_TenantID r \<and> ws_WorkspaceID y = ws_WorkspaceID r"
  shows "tenancy_ok m'"
proof -
  from assms(2) obtain k r where r: "map_of (ma_workspaces m) k = Some r" "f r = Inr x" "m' = m\<lparr>ma_workspaces := map_put k x (ma_workspaces m)\<rparr>"
    by (elim change_workspace_Inr) blast
  from assms(1) r(1) have w: "wf_workspace r" "lifecycle_ok r" "k = tenancyWorkspaceKey (ws_TenantID r) (ws_WorkspaceID r)"
    "has_key (ma_organizations m) (ws_TenantID r)" by (simp_all add: tenancy_ok_def del: map_of_eq_Some_iff)
  from assms(3) [OF r(2) w(1,2)] w(3,4) show ?thesis unfolding r(3) by (intro put_workspace_ok [OF assms(1)]) simp_all
qed

lemma lifecycle_ops_ok:
  assumes "tenancy_ok m"
  shows "SuspendWorkspace ctx w now m = Inr (x, m') \<Longrightarrow> tenancy_ok m'"
    "ReactivateWorkspace ctx w now m = Inr (x, m') \<Longrightarrow> tenancy_ok m'"
    "SoftDeleteWorkspace ctx w now m = Inr (x, m') \<Longrightarrow> tenancy_ok m'"
    "CancelWorkspaceDeletion ctx w now m = Inr (x, m') \<Longrightarrow> tenancy_ok m'"
  unfolding SuspendWorkspace_def ReactivateWorkspace_def SoftDeleteWorkspace_def CancelWorkspaceDeletion_def
  by (erule change_workspace_ok [OF assms], force simp: wf_workspace_def lifecycle_ok_def split: if_splits)+

text \<open>A creation that leaves the lifecycle to the store: no status and no dates.\<close>

definition plain_creation :: "TenancyWorkspace \<Rightarrow> bool" where
  "plain_creation w \<longleftrightarrow> trim_space (ws_Status w) = '''' \<and> ws_SuspendedAt w = None \<and> ws_DeletedAt w = None"

lemma UpsertWorkspace_ok:
  assumes "tenancy_ok m" "UpsertWorkspace env ctx w m = Inr m'" "plain_creation w"
  shows "tenancy_ok m'"
proof -
  from assms(2) obtain scope n where f: "wf_workspace n" "ws_TenantID n = sc_TenantID scope"
    "ws_WorkspaceID n = sc_WorkspaceID scope" "has_key (ma_organizations m) (sc_TenantID scope)"
    "ws_SuspendedAt n = ws_SuspendedAt w" "ws_DeletedAt n = ws_DeletedAt w"
    "trim_space (ws_Status w) = '''' \<Longrightarrow> ws_Status n = WorkspaceStatusActive"
    "m' = m\<lparr>ma_workspaces := map_put (scope_key scope) (preserve_lifecycle (map_of (ma_workspaces m) (scope_key scope)) n)
      (ma_workspaces m)\<rparr>"
    by (elim UpsertWorkspace_Inr) blast
  show ?thesis
  proof (cases "map_of (ma_workspaces m) (scope_key scope)")
    case None
    have "lifecycle_ok n" using f(5-7) assms(3) by (simp add: lifecycle_ok_def plain_creation_def)
    then show ?thesis unfolding f(8) None
      by (intro put_workspace_ok [OF assms(1)]) (use f(1-4) in \<open>simp_all add: preserve_lifecycle_def scope_key_def\<close>)
  next
    case (Some e)
    with assms(1) have e: "wf_workspace e" "lifecycle_ok e" by (simp_all add: tenancy_ok_def del: map_of_eq_Some_iff)
    show ?thesis unfolding f(8) Some
      by (intro put_workspace_ok [OF assms(1)])
        (use f(1-4) e in \<open>simp_all add: preserve_lifecycle_def scope_key_def wf_workspace_def lifecycle_ok_def\<close>)
  qed
qed

lemma UpsertWorkspaceMember_ok:
  assumes "tenancy_ok m" "UpsertWorkspaceMember env ctx b m = Inr m'"
  shows "tenancy_ok m'"
  using assms(2)
proof (rule UpsertWorkspaceMember_Inr)
  fix scope n
  assume f: "wf_member n" "mb_TenantID n = sc_TenantID scope" "mb_WorkspaceID n = sc_WorkspaceID scope"
    "has_key (ma_workspaces m) (scope_key scope)"
    "m' = m\<lparr>ma_members := map_put (tenancyMemberKey (sc_TenantID scope) (sc_WorkspaceID scope) (mb_MemberID n)) n (ma_members m)\<rparr>"
  show "tenancy_ok m'"
    using assms(1) f unfolding tenancy_ok_def
    by (simp add: distinct_put member_workspace_key_def scope_key_def del: map_of_eq_Some_iff)
qed

lemma fewer_members_ok:
  assumes "tenancy_ok m" "ma_organizations m' = ma_organizations m" "ma_workspaces m' = ma_workspaces m"
    and "distinct (map fst (ma_members m'))" "\<And>k b. map_of (ma_members m') k = Some b \<Longrightarrow> map_of (ma_members m) k = Some b"
  shows "tenancy_ok m'"
  using assms unfolding tenancy_ok_def by metis

lemma UpsertOrganization_ok:
  assumes "tenancy_ok m" "UpsertOrganization env ctx o' m = Inr m'"
  shows "tenancy_ok m'"
  using assms by (auto simp: UpsertOrganization_def rbind_Inr_iff tenancy_ok_def simp del: map_of_eq_Some_iff)


subsection \<open>The operations as steps\<close>

text \<open>The label of a step: an account operation, an operation in a scope, or a cancelled deletion in a scope.\<close>

datatype tenancy_label = AccountOp | ScopedOp Scope | CancelOp Scope

inductive tenancy_step :: "tenancy_label \<Rightarrow> AccountTables \<Rightarrow> AccountTables \<Rightarrow> bool" where
  account: "account_step l m m' \<Longrightarrow> tenancy_step AccountOp m m'"
| organization: "RequireScope ctx = Inr scope \<Longrightarrow> UpsertOrganization env ctx og m = Inr m' \<Longrightarrow> tenancy_step (ScopedOp scope) m m'"
| upsert: "RequireScope ctx = Inr scope \<Longrightarrow> plain_creation w \<Longrightarrow> UpsertWorkspace env ctx w m = Inr m' \<Longrightarrow>
    tenancy_step (ScopedOp scope) m m'"
| suspend: "RequireScope ctx = Inr scope \<Longrightarrow> SuspendWorkspace ctx wid now m = Inr (x, m') \<Longrightarrow> tenancy_step (ScopedOp scope) m m'"
| reactivate: "RequireScope ctx = Inr scope \<Longrightarrow> ReactivateWorkspace ctx wid now m = Inr (x, m') \<Longrightarrow> tenancy_step (ScopedOp scope) m m'"
| soft_delete: "RequireScope ctx = Inr scope \<Longrightarrow> SoftDeleteWorkspace ctx wid now m = Inr (x, m') \<Longrightarrow> tenancy_step (ScopedOp scope) m m'"
| cancel: "RequireScope ctx = Inr scope \<Longrightarrow> CancelWorkspaceDeletion ctx wid now m = Inr (x, m') \<Longrightarrow> tenancy_step (CancelOp scope) m m'"
| member: "RequireScope ctx = Inr scope \<Longrightarrow> UpsertWorkspaceMember env ctx b m = Inr m' \<Longrightarrow> tenancy_step (ScopedOp scope) m m'"
| unmember: "RequireScope ctx = Inr scope \<Longrightarrow> DeleteWorkspaceMember ctx wid memberID m = Inr m' \<Longrightarrow> tenancy_step (ScopedOp scope) m m'"

inductive tenancy_run :: "(tenancy_label \<Rightarrow> bool) \<Rightarrow> AccountTables \<Rightarrow> AccountTables \<Rightarrow> bool" for allowed where
  stay: "tenancy_run allowed m m"
| go: "tenancy_run allowed m m' \<Longrightarrow> tenancy_step label m' m'' \<Longrightarrow> allowed label \<Longrightarrow> tenancy_run allowed m m''"

lemma account_step_frame:
  assumes "account_step l m m'"
  shows "ma_organizations m' = ma_organizations m" "ma_workspaces m' = ma_workspaces m"
    "ma_members m' = ma_members m \<or> (\<exists>i. ma_members m' = delete_where (\<lambda>_ b. mb_UserUUID b = i) (ma_members m))"
proof -
  have "ma_organizations m' = ma_organizations m \<and> ma_workspaces m' = ma_workspaces m
    \<and> (ma_members m' = ma_members m \<or> (\<exists>i. ma_members m' = delete_where (\<lambda>_ b. mb_UserUUID b = i) (ma_members m)))"
    using assms
  proof (cases rule: account_step.cases)
    case (hard_delete i now u)
    then show ?thesis by (elim HardDeleteUser_Inr) auto
  next
    case (create_session env s t)
    from create_session(2) show ?thesis by (rule CreateSession_Inr) (simp add: put_session_def)
  next
    case (touch h now lenient t)
    from touch(2) show ?thesis by (rule touch_Inr) (simp add: put_session_def)
  next
    case (set_context i h org ws project now t)
    from set_context(2) show ?thesis by (rule context_Inr) (simp add: put_session_def)
  next
    case (revoke i h now t)
    from revoke(2) show ?thesis by (rule revoke_Inr) (simp add: put_session_def)
  qed (auto simp: UpsertUser_def put_user_def UpdateUserProfile_def UpdateCurrentUserProfile_def SetUserStatus_def SoftDeleteUser_def
    CancelUserDeletion_def change_user_def UpsertUserIdentity_def DeleteUserIdentity_def rbind_Inr_iff Let_def
    RevokeOtherUserSessions_def RevokeAllUserSessions_def revoke_sessions_def split: option.splits if_splits)
  then show "ma_organizations m' = ma_organizations m" "ma_workspaces m' = ma_workspaces m"
    "ma_members m' = ma_members m \<or> (\<exists>i. ma_members m' = delete_where (\<lambda>_ b. mb_UserUUID b = i) (ma_members m))" by blast+
qed

lemma account_step_tenancy_ok:
  assumes "account_step l m m'" "tenancy_ok m"
  shows "tenancy_ok m'"
proof (rule fewer_members_ok [OF assms(2) account_step_frame(1,2) [OF assms(1)]])
  have d: "distinct (map fst (ma_members m))" using assms(2) by (simp add: tenancy_ok_def)
  from account_step_frame(3) [OF assms(1)] d show "distinct (map fst (ma_members m'))"
    by (auto simp: distinct_delete_where)
  fix k b
  assume "map_of (ma_members m') k = Some b"
  with account_step_frame(3) [OF assms(1)] d show "map_of (ma_members m) k = Some b"
    by (auto simp: delete_where_Some simp del: map_of_eq_Some_iff)
qed

lemma tenancy_step_ok:
  assumes "tenancy_step label m m'" "tenancy_ok m"
  shows "tenancy_ok m'"
  using assms(1)
proof (cases rule: tenancy_step.cases)
  case (unmember ctx scope wid memberID)
  from assms(2) have d: "distinct (map fst (ma_members m))" by (simp add: tenancy_ok_def)
  from unmember(3) show ?thesis
    by (rule DeleteWorkspaceMember_Inr)
      (auto intro!: fewer_members_ok [OF assms(2)] simp: d distinct_del split: if_splits simp del: map_of_eq_Some_iff)
qed (blast intro: account_step_tenancy_ok UpsertOrganization_ok UpsertWorkspace_ok lifecycle_ops_ok UpsertWorkspaceMember_ok assms(2))+

lemma tenancy_run_ok: "tenancy_run allowed m m' \<Longrightarrow> tenancy_ok m \<Longrightarrow> tenancy_ok m'"
  by (induction rule: tenancy_run.induct) (auto intro: tenancy_step_ok)

text \<open>Organizations, workspaces and members are not account data.\<close>

lemma tenancy_ops_accounts:
  assumes "tenancy_step label m m'" "label \<noteq> AccountOp"
  shows "ma_users m' = ma_users m" "ma_userIdentityByID m' = ma_userIdentityByID m"
    "ma_userIdentityByProviderSubject m' = ma_userIdentityByProviderSubject m" "ma_sessions m' = ma_sessions m"
proof -
  have "ma_users m' = ma_users m \<and> ma_userIdentityByID m' = ma_userIdentityByID m
    \<and> ma_userIdentityByProviderSubject m' = ma_userIdentityByProviderSubject m \<and> ma_sessions m' = ma_sessions m"
    using assms(1)
  proof (cases rule: tenancy_step.cases)
    case (account l)
    with assms(2) show ?thesis by simp
  next
    case (upsert ctx scope w env)
    from upsert(4) show ?thesis by (rule UpsertWorkspace_Inr) simp
  next
    case (member ctx scope env b)
    from member(3) show ?thesis by (rule UpsertWorkspaceMember_Inr) simp
  next
    case (unmember ctx scope wid memberID)
    from unmember(3) show ?thesis by (rule DeleteWorkspaceMember_Inr) simp
  qed (auto simp: UpsertOrganization_def rbind_Inr_iff SuspendWorkspace_def ReactivateWorkspace_def SoftDeleteWorkspace_def
    CancelWorkspaceDeletion_def elim!: change_workspace_Inr)
  then show "ma_users m' = ma_users m" "ma_userIdentityByID m' = ma_userIdentityByID m"
    "ma_userIdentityByProviderSubject m' = ma_userIdentityByProviderSubject m" "ma_sessions m' = ma_sessions m" by blast+
qed

lemma tenancy_step_accounts_ok:
  assumes "tenancy_step label m m'" "accounts_ok m"
  shows "accounts_ok m'"
proof (cases "label = AccountOp")
  case True
  with assms show ?thesis by (auto elim: tenancy_step.cases intro: account_step_ok)
next
  case False
  note f = tenancy_ops_accounts [OF assms(1) False]
  show ?thesis using assms(2) unfolding accounts_ok_def users_ok_def emails_ok_def identities_ok_def sessions_ok_def f .
qed

lemma tenancy_run_accounts_ok: "tenancy_run allowed m m' \<Longrightarrow> accounts_ok m \<Longrightarrow> accounts_ok m'"
  by (induction rule: tenancy_run.induct) (auto intro: tenancy_step_accounts_ok)

subsection \<open>Isolation and lifecycle\<close>

text \<open>An operation in a scope writes at most the workspace row of that scope.\<close>

lemma tenancy_step_workspaces:
  assumes "tenancy_step label m m'"
  shows "ma_workspaces m' = ma_workspaces m \<or>
    (\<exists>scope x. (label = ScopedOp scope \<or> label = CancelOp scope) \<and> ma_workspaces m' = map_put (scope_key scope) x (ma_workspaces m)
      \<and> (\<forall>r. map_of (ma_workspaces m) (scope_key scope) = Some r \<longrightarrow> lifecycle_ok r \<longrightarrow> ws_Status r = WorkspaceStatusDeleted \<longrightarrow>
          label = ScopedOp scope \<longrightarrow> ws_Status x = ws_Status r \<and> ws_DeletedAt x = ws_DeletedAt r))"
  using assms
proof (cases rule: tenancy_step.cases)
  case (account l)
  then show ?thesis by (simp add: account_step_frame(2))
next
  case (organization ctx scope env og)
  then show ?thesis by (auto simp: UpsertOrganization_def rbind_Inr_iff)
next
  case (upsert ctx scope w env)
  from upsert(4) show ?thesis
  proof (rule UpsertWorkspace_Inr)
    fix scope' n
    assume "RequireScope ctx = Inr scope'"
      "m' = m\<lparr>ma_workspaces := map_put (scope_key scope') (preserve_lifecycle (map_of (ma_workspaces m) (scope_key scope')) n)
        (ma_workspaces m)\<rparr>"
    with upsert(1,2) show ?thesis by (auto simp: preserve_lifecycle_def)
  qed
next
  case (suspend ctx scope wid now x)
  then show ?thesis by (auto simp: SuspendWorkspace_def elim!: change_workspace_Inr split: if_splits)
next
  case (reactivate ctx scope wid now x)
  then show ?thesis by (auto simp: ReactivateWorkspace_def elim!: change_workspace_Inr split: if_splits)
next
  case (soft_delete ctx scope wid now x)
  then show ?thesis by (auto simp: SoftDeleteWorkspace_def lifecycle_ok_def elim!: change_workspace_Inr split: if_splits)
next
  case (cancel ctx scope wid now x)
  then show ?thesis by (auto simp: CancelWorkspaceDeletion_def elim!: change_workspace_Inr)
next
  case (member ctx scope env b)
  from member(3) show ?thesis by (rule UpsertWorkspaceMember_Inr) simp
next
  case (unmember ctx scope wid memberID)
  from unmember(3) show ?thesis by (rule DeleteWorkspaceMember_Inr) simp
qed

definition deleted_since :: "time \<Rightarrow> string \<Rightarrow> AccountTables \<Rightarrow> bool" where
  "deleted_since d k m \<longleftrightarrow> (\<exists>w. map_of (ma_workspaces m) k = Some w \<and> ws_Status w = WorkspaceStatusDeleted \<and> ws_DeletedAt w = Some d)"

lemma deleted_since_step:
  assumes "tenancy_step label m m'" "tenancy_ok m" "deleted_since d k m" "\<forall>scope. label = CancelOp scope \<longrightarrow> scope_key scope \<noteq> k"
  shows "deleted_since d k m'"
proof -
  from assms(3) obtain w where w: "map_of (ma_workspaces m) k = Some w" "ws_Status w = WorkspaceStatusDeleted" "ws_DeletedAt w = Some d"
    by (auto simp: deleted_since_def)
  with assms(2) have l: "lifecycle_ok w" by (simp add: tenancy_ok_def del: map_of_eq_Some_iff)
  from tenancy_step_workspaces [OF assms(1)] show ?thesis
  proof (elim disjE exE conjE)
    assume "ma_workspaces m' = ma_workspaces m"
    with w show ?thesis by (auto simp: deleted_since_def)
  next
    fix scope x
    assume x: "ma_workspaces m' = map_put (scope_key scope) x (ma_workspaces m)" "label = ScopedOp scope"
      "\<forall>r. map_of (ma_workspaces m) (scope_key scope) = Some r \<longrightarrow> lifecycle_ok r \<longrightarrow> ws_Status r = WorkspaceStatusDeleted \<longrightarrow>
          label = ScopedOp scope \<longrightarrow> ws_Status x = ws_Status r \<and> ws_DeletedAt x = ws_DeletedAt r"
    with w l show ?thesis by (cases "scope_key scope = k") (simp_all add: deleted_since_def del: map_of_eq_Some_iff)
  next
    fix scope x
    assume "ma_workspaces m' = map_put (scope_key scope) x (ma_workspaces m)" "label = CancelOp scope"
    with w assms(4) show ?thesis by (simp add: deleted_since_def del: map_of_eq_Some_iff)
  qed
qed

lemma deleted_since_run:
  assumes "tenancy_run (\<lambda>label. \<forall>scope. label = CancelOp scope \<longrightarrow> scope_key scope \<noteq> k) m m'" "tenancy_ok m" "deleted_since d k m"
  shows "deleted_since d k m'"
  using assms
proof (induction rule: tenancy_run.induct)
  case (go m m' label m'')
  with deleted_since_step [OF go.hyps(2) tenancy_run_ok [OF go.hyps(1)]] show ?case by blast
qed


subsection \<open>Rows returned by the reads\<close>

lemma only_match_Some: "only_match P (Some y) xs = (if filter P xs = [] then Inr y else Inl (Sentinel ErrConflict))"
  by (induction xs) auto

lemma only_match_Inr_iff: "only_match P None xs = Inr x \<longleftrightarrow> filter P xs = [x]"
  by (induction xs) (auto simp: only_match_Some)

lemma only_match_row: "only_match P None xs = Inr x \<Longrightarrow> x \<in> set xs \<and> P x"
  unfolding only_match_Inr_iff by (auto dest: filter_eq_ConsD)

lemma find_row: "find P xs = Some x \<Longrightarrow> x \<in> set xs \<and> P x"
  by (induction xs) (auto split: if_splits)

lemma stored_row:
  assumes "b \<in> snd ` set m" "distinct (map fst m)"
  obtains k where "map_of m k = Some b"
  using assms by auto

lemma stored_member:
  assumes "tenancy_ok m" "b \<in> snd ` set (ma_members m)"
  obtains k where "map_of (ma_members m) k = Some b" "wf_member b" "k = tenancyMemberKey (mb_TenantID b) (mb_WorkspaceID b) (mb_MemberID b)"
proof -
  from assms(1) have "distinct (map fst (ma_members m))" by (simp add: tenancy_ok_def)
  with stored_row [OF assms(2)] obtain k where k: "map_of (ma_members m) k = Some b" by metis
  with assms(1) show ?thesis by (intro that [OF k]) (simp_all add: tenancy_ok_def del: map_of_eq_Some_iff)
qed

lemma GetWorkspaceMemberByUserUUID_Inr:
  assumes "GetWorkspaceMemberByUserUUID ctx w uuid m = Inr b"
  shows "b \<in> snd ` set (ma_members m)" "mb_UserUUID b = trim_space uuid" "has_key (ma_users m) (trim_space uuid)"
    "\<exists>scope. RequireScope ctx = Inr scope \<and> member_of scope (sc_WorkspaceID scope) b"
  using assms only_match_row
  by (auto simp: GetWorkspaceMemberByUserUUID_def rbind_Inr_iff scoped_workspace_Inr Let_def split: if_splits dest!: only_match_row)

lemma GetWorkspaceMemberByUserID_Inr:
  assumes "GetWorkspaceMemberByUserID ctx w uid m = Inr b"
  shows "b \<in> snd ` set (ma_members m)" "mb_UserID b = trim_space uid" "mb_UserUUID b = ''''"
    "\<exists>scope. RequireScope ctx = Inr scope \<and> member_of scope (sc_WorkspaceID scope) b"
proof -
  from assms obtain scope where s: "RequireScope ctx = Inr scope"
    and f: "find (\<lambda>b. member_of scope (sc_WorkspaceID scope) b \<and> mb_UserID b = trim_space uid \<and> mb_UserUUID b = '''')
      (map snd (ma_members m)) = Some b"
    by (auto simp: GetWorkspaceMemberByUserID_def rbind_Inr_iff scoped_workspace_Inr split: option.split_asm)
  from find_row [OF f] s show "b \<in> snd ` set (ma_members m)" "mb_UserID b = trim_space uid" "mb_UserUUID b = ''''"
    "\<exists>scope. RequireScope ctx = Inr scope \<and> member_of scope (sc_WorkspaceID scope) b" by auto
qed

lemma scope_workspace_row:
  assumes "tenancy_ok m" "RequireScope ctx = Inr scope" "map_of (ma_workspaces m) (scope_key scope) = Some x"
  shows "ws_TenantID x = sc_TenantID scope" "ws_WorkspaceID x = sc_WorkspaceID scope"
proof -
  from assms(1,3) have "scope_key scope = tenancyWorkspaceKey (ws_TenantID x) (ws_WorkspaceID x)" "wf_workspace x"
    by (simp_all add: tenancy_ok_def del: map_of_eq_Some_iff)
  with RequireScope_trimmed [OF assms(2)] show "ws_TenantID x = sc_TenantID scope" "ws_WorkspaceID x = sc_WorkspaceID scope"
    by (simp_all add: scope_key_def wf_workspace_def)
qed

lemma scope_member_row:
  assumes "tenancy_ok m" "RequireScope ctx = Inr scope"
    and "map_of (ma_members m) (tenancyMemberKey (sc_TenantID scope) (sc_WorkspaceID scope) i) = Some b"
  shows "member_of scope (sc_WorkspaceID scope) b"
proof -
  from assms(1,3) have "tenancyMemberKey (sc_TenantID scope) (sc_WorkspaceID scope) i
      = tenancyMemberKey (mb_TenantID b) (mb_WorkspaceID b) (mb_MemberID b)" "wf_member b"
    by (simp_all add: tenancy_ok_def del: map_of_eq_Some_iff)
  with RequireScope_trimmed [OF assms(2)] show ?thesis by (simp add: member_of_def wf_member_def)
qed




text \<open>The rows behind a trusted membership of the stored tables.\<close>

lemma normal_member_words:
  assumes "wf_member b"
  shows "norm_key (mb_Role b) = mb_Role b" "norm_key (mb_Status b) = mb_Status b"
proof -
  have "list_all (\<lambda>r. norm_key r = r) (validTenancyMemberRoles @ validTenancyMemberStatuses)" by code_simp
  with assms show "norm_key (mb_Role b) = mb_Role b" "norm_key (mb_Status b) = mb_Status b"
    by (simp_all add: wf_member_def list_all_iff)
qed

lemma active_is_normal: "equal_fold (trim_space s) ''active'' \<longleftrightarrow> norm_key s = ''active''"
proof -
  have "to_lower ''active'' = ''active''" by code_simp
  then show ?thesis by (simp add: equal_fold_def norm_key_def)
qed

text \<open>
  An account stands behind a member row: the one the row is bound to, or, for a row that has only the
  provider subject, the one the subject's identity names.
\<close>

definition stands_behind :: "Context \<Rightarrow> AccountStore \<Rightarrow> AccountTables \<Rightarrow> string \<Rightarrow> TenancyWorkspaceMember \<Rightarrow> User \<Rightarrow> bool" where
  "stands_behind ctx store m subject b u \<longleftrightarrow> norm_key (us_Status u) = ''active''
    \<and> (map_of (ma_users m) (mb_UserUUID b) = Some u
       \<or> mb_UserUUID b = '''' \<and> mb_UserID b = trim_space subject
         \<and> (\<exists>x. lookupUserIdentityBySubject ctx store subject = Inr x \<and> GetUser (ui_UserID x) m = Inr u))"

definition backed_row :: "Context \<Rightarrow> AccountStore \<Rightarrow> AccountTables \<Rightarrow> Scope \<Rightarrow> string \<Rightarrow> TenancyWorkspaceMember \<Rightarrow> bool" where
  "backed_row ctx store m scope subject b \<longleftrightarrow> b \<in> snd ` set (ma_members m) \<and> member_of scope (sc_WorkspaceID scope) b
    \<and> norm_key (mb_Status b) = ''active'' \<and> (\<exists>u. stands_behind ctx store m subject b u)"

lemma GetUser_Inr: "GetUser i m = Inr u \<longleftrightarrow> map_of (ma_users m) (trim_space i) = Some u"
  by (simp add: GetUser_def split: option.split)

lemma active_account_row:
  assumes "tenancy_ok m" "RequireScope ctx = Inr scope" "GetWorkspaceMemberByUserUUID ctx w uuid m = Inr b"
    and "workspaceMemberAccountIsActive ctx (account_store m attributes) b = Inr True"
  shows "backed_row ctx store m scope subject b"
proof -
  note g = GetWorkspaceMemberByUserUUID_Inr [OF assms(3)]
  obtain k where "wf_member b" using stored_member [OF assms(1) g(1)] by metis
  then have t: "trim_space (mb_UserUUID b) = mb_UserUUID b" by (simp add: wf_member_def)
  from workspaceMemberAccountIsActive_Inr [OF assms(4)] obtain u where "norm_key (mb_Status b) = ''active''"
    "map_of (ma_users m) (mb_UserUUID b) = Some u" "norm_key (us_Status u) = ''active''"
    by (auto simp: account_store_def GetUser_Inr t active_is_normal)
  with g assms(2) show ?thesis by (auto simp: backed_row_def stands_behind_def)
qed

lemma legacy_row:
  assumes "RequireScope ctx = Inr scope" "legacy_membership ctx (account_store m attributes) w subject uuid = Inr (Some b)" "member_active b"
    and "lookupUserIdentityBySubject ctx store subject = Inr x" "ui_UserID x = uuid"
  shows "\<exists>r. backed_row ctx store m scope subject r \<and> mb_Role r = mb_Role b"
proof -
  from assms(2,3) obtain r u where r: "GetWorkspaceMemberByUserID ctx w subject m = Inr r" "GetUser uuid m = Inr u"
    "norm_key (us_Status u) = ''active''" "norm_key (mb_Status r) = ''active''" "b = r\<lparr>mb_UserUUID := us_ID u\<rparr>"
    by (auto simp: legacy_membership_def account_store_def active_is_normal split: sum.splits if_splits)
  from GetWorkspaceMemberByUserID_Inr [OF r(1)] r assms(1,4,5) show ?thesis
    by (intro exI [of _ r]) (auto simp: backed_row_def stands_behind_def)
qed

lemma member_active_norm: "member_active b \<longleftrightarrow> norm_key (mb_Status b) = ''active''"
  by (simp add: member_active_def active_is_normal)

lemma lookup_row:
  assumes "tenancy_ok m" "RequireScope ctx = Inr scope" "member_active b"
    and "lookupWorkspaceMemberForIdentity ctx (account_store m attributes) w subject (ui_UserID x) = Inr (Some b)"
    and "lookupUserIdentityBySubject ctx store subject = Inr x"
  shows "\<exists>r. backed_row ctx store m scope subject r \<and> mb_Role r = mb_Role b"
proof (cases "GetWorkspaceMemberByUserUUID ctx w (ui_UserID x) m")
  case (Inl err)
  then have "legacy_membership ctx (account_store m attributes) w subject (ui_UserID x) = Inr (Some b)"
    using assms(4) by (auto simp: lookupWorkspaceMemberForIdentity_def account_store_def split: if_splits sum.splits)
  from legacy_row [OF assms(2) this assms(3,5) refl] show ?thesis .
next
  case (Inr r)
  with assms(4) obtain active where a: "workspaceMemberAccountIsActive ctx (account_store m attributes) r = Inr active"
    "b = (if active then r else r\<lparr>mb_Status := ''suspended''\<rparr>)"
    by (auto simp: lookupWorkspaceMemberForIdentity_def account_store_def split: sum.splits)
  with assms(3) have active by (auto split: if_splits)
  with a active_account_row [OF assms(1,2) Inr] show ?thesis by auto
qed

lemma trusted_row:
  assumes "tenancy_ok m" "trustedWorkspaceMembership c (Some (account_store m attributes)) = Inr (Some b)" "member_active b"
    and "scope = ScopeFromContext (gc_Context c)" "ctx = WithScope (gc_Context c) scope" "subject = authContextString c ''auth.subject''"
  shows "\<exists>r. backed_row ctx (account_store m attributes) m scope subject r \<and> mb_Role r = mb_Role b"
proof -
  have s: "RequireScope ctx = Inr scope" by (simp add: assms(4,5))
  show ?thesis
  proof (cases "SubjectSource ctx = ''session''")
    case True
    with assms(2) obtain r where r: "GetWorkspaceMemberByUserUUID ctx (sc_WorkspaceID scope) subject m = Inr r"
      "b = (if trustedMembershipAccountIsActive ctx (account_store m attributes) r then r else r\<lparr>mb_Status := ''suspended''\<rparr>)"
      by (auto simp: trustedWorkspaceMembership_def Let_def account_store_def assms(4-6) split: if_splits sum.splits)
    with assms(3) have "trustedMembershipAccountIsActive ctx (account_store m attributes) r" "b = r" by (auto split: if_splits)
    with active_account_row [OF assms(1) s r(1)] show ?thesis
      by (auto simp: trustedMembershipAccountIsActive_def split: sum.splits)
  next
    case False
    with assms(2) obtain x where "lookupUserIdentityBySubject ctx (account_store m attributes) subject = Inr x"
      "lookupWorkspaceMemberForIdentity ctx (account_store m attributes) (sc_WorkspaceID scope) subject (ui_UserID x) = Inr (Some b)"
      by (auto simp: trustedWorkspaceMembership_def Let_def assms(4-6) split: if_splits sum.splits)
    with lookup_row [OF assms(1) s assms(3)] show ?thesis by blast
  qed
qed

text \<open>
  C11: workspace roles come from stored rows. Run on the tables of this store, the authorization
  middleware gives a request with a user subject the role owner, admin, analyst or viewer only if a
  stored member row of the request's own tenant and workspace is active and has that role, and an active
  account stands behind the row.
\<close>

theorem workspace_role_from_stored_rows:
  assumes "tenancy_ok m" "authContextString c ''auth.subject'' = subject" "subject \<noteq> ''''" "role \<in> set workspace_roles"
    and "role \<in> set (policyRolesFromAuthWithStore c writeKeys scopedKeys (Some (account_store m attributes)))"
    and "scope = ScopeFromContext (gc_Context c)"
  shows "\<exists>b u. b \<in> snd ` set (ma_members m) \<and> mb_TenantID b = sc_TenantID scope \<and> mb_WorkspaceID b = sc_WorkspaceID scope
    \<and> mb_Role b = role \<and> mb_Status b = ''active'' \<and> norm_key (us_Status u) = ''active''
    \<and> stands_behind (WithScope (gc_Context c) scope) (account_store m attributes) m subject b u"
proof -
  let ?store = "account_store m attributes"
  have ne: "role \<noteq> ''''" "role \<noteq> ''authenticated''" using assms(4) by (auto simp: workspace_roles_def)
  obtain found where found: "trustedWorkspaceMembership c (Some ?store) = Inr found"
    using assms(5) ne by (cases "trustedWorkspaceMembership c (Some ?store)") (simp_all add: policyRolesFromAuthWithStore_def Let_def)
  from assms(2,3) have s: "authContextString c ''auth.subject'' \<noteq> ''''" by simp
  from policyRoles_trusted [OF found s] assms(4,5) ne obtain b where b: "found = Some b" "member_active b" "norm_key (mb_Role b) = role"
    by (cases found) (auto split: if_splits)
  from trusted_row [OF assms(1) found [unfolded b(1)] b(2) assms(6) refl assms(2) [symmetric]] obtain r
    where r: "backed_row (WithScope (gc_Context c) scope) ?store m scope subject r" "mb_Role r = mb_Role b" by blast
  obtain k where "wf_member r" using stored_member [OF assms(1)] r(1) unfolding backed_row_def by metis
  note w = normal_member_words [OF this]
  from r(1) obtain u where u: "stands_behind (WithScope (gc_Context c) scope) ?store m subject r u" by (auto simp: backed_row_def)
  show ?thesis
    by (intro exI [of _ r] exI [of _ u] conjI) (use r w b(3) u in \<open>simp_all add: backed_row_def member_of_def stands_behind_def\<close>)
qed

text \<open>Tenant acme with workspace prod, of which ann is an analyst and bob an owner; prod was deleted at 500.\<close>

definition after_write :: "AccountTables \<Rightarrow> AccountTables result \<Rightarrow> AccountTables" where
  "after_write m r = (case r of Inl _ \<Rightarrow> m | Inr m' \<Rightarrow> m')"

lemma run_write:
  assumes "tenancy_run P m n" "\<And>n'. r = Inr n' \<Longrightarrow> tenancy_step label n n'" "P label"
  shows "tenancy_run P m (after_write n r)"
  using assms by (cases r) (auto simp: after_write_def intro: tenancy_run.go)

lemma run_op:
  assumes "tenancy_run P m n" "\<And>x n'. r = Inr (x, n') \<Longrightarrow> tenancy_step label n n'" "P label"
  shows "tenancy_run P m (after_op n r)"
  using assms by (cases r) (auto simp: after_op_def intro: tenancy_run.go)

definition demo_ctx :: Context where
  "demo_ctx = WithScope None \<lparr>sc_TenantID = ''acme'', sc_WorkspaceID = ''prod''\<rparr>"

definition demo_member :: "string \<Rightarrow> string \<Rightarrow> TenancyWorkspaceMember" where
  "demo_member userUUID role = \<lparr>mb_TenantID = '''', mb_WorkspaceID = '''', mb_MemberID = userUUID, mb_UserID = userUUID,
     mb_UserUUID = userUUID, mb_Email = '''', mb_Role = role, mb_Status = ''Active'', mb_JoinedAt = 0, mb_UpdatedAt = 0\<rparr>"

definition demo_tenancy :: AccountTables where
  "demo_tenancy =
    (let m = after_write demo_tables (UpsertOrganization demo_env demo_ctx
           \<lparr>og_TenantID = '''', og_DisplayName = ''Acme'', og_Slug = ''acme'', og_CreatedAt = 0, og_UpdatedAt = 0\<rparr> demo_tables);
         m = after_write m (UpsertWorkspace demo_env demo_ctx (plain_workspace '''' '''' ''''
           \<lparr>ws_DisplayName := ''Prod''\<rparr>) m);
         m = after_write m (UpsertWorkspaceMember demo_env demo_ctx (demo_member ''ann'' ''Analyst'') m)
     in after_write m (UpsertWorkspaceMember demo_env demo_ctx (demo_member ''bob'' ''owner'') m))"

lemma account_run_tenancy: "account_run P m m' \<Longrightarrow> tenancy_run (\<lambda>_. True) m m'"
  by (induction rule: account_run.induct) (auto intro: tenancy_run.intros tenancy_step.account)

lemma demo_scope: "RequireScope demo_ctx = Inr \<lparr>sc_TenantID = ''acme'', sc_WorkspaceID = ''prod''\<rparr>"
  by code_simp

lemma demo_tenancy_run: "tenancy_run (\<lambda>_. True) empty_tables demo_tenancy"
proof -
  have p: "plain_creation (plain_workspace '''' '''' ''''\<lparr>ws_DisplayName := ''Prod''\<rparr>)" by code_simp
  show ?thesis
    unfolding demo_tenancy_def Let_def
    by (rule run_write [OF run_write [OF run_write [OF run_write [OF account_run_tenancy [OF demo_tables_run]]]]])
      (blast intro: tenancy_step.intros demo_scope p)+
qed

lemma demo_tenancy_ok: "tenancy_ok demo_tenancy"
  using tenancy_run_ok [OF demo_tenancy_run tenancy_ok_empty] .

theorem workspace_role_from_stored_rows_witness:
  "\<exists>b. b \<in> snd ` set (ma_members demo_tenancy) \<and> mb_WorkspaceID b = ''prod'' \<and> mb_Role b = ''analyst'' \<and> mb_Status b = ''active''"
proof -
  let ?c = "session_request ''ann''" and ?attrs = "\<lambda>_ _ _ _. Inl (Sentinel ErrNotFound)"
  have s: "authContextString ?c ''auth.subject'' = ''ann''" by code_simp
  have r: "''analyst'' \<in> set workspace_roles" by (simp add: workspace_roles_def)
  have g: "''analyst'' \<in> set (policyRolesFromAuthWithStore ?c [] [] (Some (account_store demo_tenancy ?attrs)))" by code_simp
  have w: "sc_WorkspaceID (ScopeFromContext (gc_Context ?c)) = ''prod''" by code_simp
  from workspace_role_from_stored_rows [OF demo_tenancy_ok s _ r g refl] w show ?thesis by force
qed

definition demo_removed :: AccountTables where
  "demo_removed = after_op demo_tenancy (SoftDeleteWorkspace demo_ctx '''' 500 demo_tenancy)"

lemma demo_removed_run: "tenancy_run (\<lambda>label. \<forall>scope. label \<noteq> CancelOp scope) demo_tenancy demo_removed"
  unfolding demo_removed_def by (rule run_op [OF tenancy_run.stay]) (blast intro: tenancy_step.intros demo_scope)+

lemma demo_removed_ok: "tenancy_ok demo_removed"
  using tenancy_run_ok [OF demo_removed_run demo_tenancy_ok] .

definition demo_removed_again :: AccountTables where
  "demo_removed_again =
    (let m = after_write demo_removed (UpsertWorkspace demo_env demo_ctx (plain_workspace '''' '''' ''''\<lparr>ws_DisplayName := ''New''\<rparr>) demo_removed)
     in after_op m (SoftDeleteWorkspace demo_ctx '''' 900 m))"

lemma demo_removed_again_run: "tenancy_run (\<lambda>label. \<forall>scope. label = CancelOp scope \<longrightarrow> scope_key scope \<noteq> k) demo_removed demo_removed_again"
proof -
  have p: "plain_creation (plain_workspace '''' '''' ''''\<lparr>ws_DisplayName := ''New''\<rparr>)" by code_simp
  show ?thesis
    unfolding demo_removed_again_def Let_def
    by (rule run_op [OF run_write [OF tenancy_run.stay]]) (blast intro: tenancy_step.intros demo_scope p)+
qed



text \<open>
  The two ownership checks disagree about an owner row whose account does not exist: for
  \<open>ListSoleOwnerWorkspaces\<close> it is a live co-owner, for \<open>ListWorkspaceStrandedActiveMembers\<close> it does not
  count.
\<close>

definition demo_ghost :: AccountTables where
  "demo_ghost =
    after_write demo_tenancy (UpsertWorkspaceMember demo_env demo_ctx (demo_member ''ghost'' ''owner'') demo_tenancy)"

lemma ownership_checks_disagree:
  "ListSoleOwnerWorkspaces ''bob'' demo_ghost = []
   \<and> (case ListWorkspaceStrandedActiveMembers demo_ctx '''' ''bob'' demo_ghost of
        Inr [b] \<Rightarrow> mb_MemberID b = ''ann'' | _ \<Rightarrow> False)"
  by code_simp

end
