(* ===== verification/Workspace_Lifecycle.thy ===== *)
theory Workspace_Lifecycle
  imports Tenancy_Store
begin

section \<open>The workspace lifecycle service (internal/api/service.go)\<close>

text \<open>
  The four lifecycle operations the API exposes on a workspace, over the tenancy store: suspend,
  reactivate, soft delete and cancel the deletion. Each resolves the scope, requires that the caller is
  an active owner, applies its own guards and then calls the store. \<open>lifecycle_error\<close> has the sentinel
  errors of the service and the errors of the store; the refusal for a sole owner carries the members
  that would be stranded. A refused operation leaves the tables as they are. \<open>phase_step\<close> is the
  abstract state machine the operations implement.
\<close>

datatype lifecycle_error =
    StoreError go_error
  | ErrInvalidTenancyRequest
  | ErrWorkspaceOwnerRequired
  | ErrWorkspaceNotSuspendable
  | ErrWorkspaceNotReactivatable
  | ErrWorkspaceSoleOwnerRequiresTransfer "TenancyWorkspaceMember list"
  | ErrWorkspaceDeletionGraceExpired
  | ErrWorkspaceDeletionNotPending

type_synonym 'a service_result = "lifecycle_error + 'a"

fun sbind :: "'a service_result \<Rightarrow> ('a \<Rightarrow> 'b service_result) \<Rightarrow> 'b service_result" where
  "sbind (Inl e) f = Inl e"
| "sbind (Inr x) f = f x"

definition from_store :: "'a result \<Rightarrow> 'a service_result" where
  "from_store r = (case r of Inl err \<Rightarrow> Inl (StoreError err) | Inr x \<Rightarrow> Inr x)"

text \<open>\<^verbatim>\<open>if errors.Is(err, db.ErrConflict) { return replacement }\<close>.\<close>

definition on_conflict :: "lifecycle_error \<Rightarrow> 'a result \<Rightarrow> 'a service_result" where
  "on_conflict replacement r =
    (case r of Inl err \<Rightarrow> Inl (if errors_is err ErrConflict then replacement else StoreError err) | Inr x \<Rightarrow> Inr x)"

definition service_context :: "Scope \<Rightarrow> Context \<Rightarrow> Context" where
  "service_context defaultScope ctx = WithDefaultScope ctx defaultScope"

definition member_is_active :: "Context \<Rightarrow> TenancyWorkspaceMember \<Rightarrow> AccountTables \<Rightarrow> bool result" where
  "member_is_active ctx member m =
    workspaceMemberAccountIsActive ctx (account_store m (\<lambda>_ _ _ _. Inl (Sentinel ErrNotFound))) member"

definition requireWorkspaceOwner :: "Context \<Rightarrow> string \<Rightarrow> string \<Rightarrow> AccountTables \<Rightarrow> unit service_result" where
  "requireWorkspaceOwner ctx workspaceID callerUserUUID m =
    sbind (from_store (GetWorkspace ctx workspaceID m)) (\<lambda>_.
      let normalizedUUID = trim_space callerUserUUID
      in if normalizedUUID = '''' then Inl ErrWorkspaceOwnerRequired
         else case GetWorkspaceMemberByUserUUID ctx workspaceID normalizedUUID m of
           Inl err \<Rightarrow> Inl (if errors_is err ErrNotFound then ErrWorkspaceOwnerRequired else StoreError err)
         | Inr member \<Rightarrow>
             sbind (from_store (member_is_active ctx member m)) (\<lambda>active.
               if \<not> active \<or> mb_Role member \<noteq> ''owner'' then Inl ErrWorkspaceOwnerRequired else Inr ()))"

definition checkWorkspaceSoleOwnerStranding ::
  "Context \<Rightarrow> string \<Rightarrow> string \<Rightarrow> AccountTables \<Rightarrow> TenancyWorkspaceMember list service_result" where
  "checkWorkspaceSoleOwnerStranding ctx workspaceID callerUserUUID m =
    sbind (from_store (GetWorkspace ctx workspaceID m)) (\<lambda>_.
      if trim_space callerUserUUID = '''' then Inr []
      else from_store (ListWorkspaceStrandedActiveMembers ctx workspaceID callerUserUUID m))"

text \<open>The common start: the context's scope, the trimmed identifier, the owner gate.\<close>

definition as_owner ::
  "Scope \<Rightarrow> Context \<Rightarrow> string \<Rightarrow> string \<Rightarrow> AccountTables \<Rightarrow> (Context \<Rightarrow> string \<Rightarrow> 'a service_result) \<Rightarrow> 'a service_result" where
  "as_owner defaultScope ctx workspaceID callerUserUUID m f =
    (let ctx = service_context defaultScope ctx;
         normalizedWorkspaceID = trim_space workspaceID
     in if normalizedWorkspaceID = '''' then Inl ErrInvalidTenancyRequest
        else sbind (requireWorkspaceOwner ctx normalizedWorkspaceID callerUserUUID m) (\<lambda>_. f ctx normalizedWorkspaceID))"

definition Service_SuspendWorkspace ::
  "Scope \<Rightarrow> Context \<Rightarrow> string \<Rightarrow> string \<Rightarrow> time \<Rightarrow> AccountTables \<Rightarrow> (TenancyWorkspace \<times> AccountTables) service_result" where
  "Service_SuspendWorkspace defaultScope ctx workspaceID callerUserUUID now m =
    as_owner defaultScope ctx workspaceID callerUserUUID m (\<lambda>ctx workspaceID.
    sbind (from_store (GetWorkspace ctx workspaceID m)) (\<lambda>workspace.
      if ws_Status workspace = WorkspaceStatusDeleted \<or> ws_DeletedAt workspace \<noteq> None then Inl ErrWorkspaceNotSuspendable
      else
        sbind (checkWorkspaceSoleOwnerStranding ctx workspaceID callerUserUUID m) (\<lambda>stranded.
          if stranded \<noteq> [] then Inl (ErrWorkspaceSoleOwnerRequiresTransfer stranded)
          else on_conflict ErrWorkspaceNotSuspendable (SuspendWorkspace ctx workspaceID now m))))"

definition Service_ReactivateWorkspace ::
  "Scope \<Rightarrow> Context \<Rightarrow> string \<Rightarrow> string \<Rightarrow> time \<Rightarrow> AccountTables \<Rightarrow> (TenancyWorkspace \<times> AccountTables) service_result" where
  "Service_ReactivateWorkspace defaultScope ctx workspaceID callerUserUUID now m =
    as_owner defaultScope ctx workspaceID callerUserUUID m (\<lambda>ctx workspaceID.
    sbind (from_store (GetWorkspace ctx workspaceID m)) (\<lambda>workspace.
      if ws_Status workspace = WorkspaceStatusActive then Inr (workspace, m)
      else if ws_Status workspace = WorkspaceStatusSuspended then
        on_conflict ErrWorkspaceNotReactivatable (ReactivateWorkspace ctx workspaceID now m)
      else Inl ErrWorkspaceNotReactivatable))"

definition Service_SoftDeleteWorkspace ::
  "Scope \<Rightarrow> Context \<Rightarrow> string \<Rightarrow> string \<Rightarrow> time \<Rightarrow> AccountTables \<Rightarrow> (TenancyWorkspace \<times> AccountTables) service_result" where
  "Service_SoftDeleteWorkspace defaultScope ctx workspaceID callerUserUUID now m =
    as_owner defaultScope ctx workspaceID callerUserUUID m (\<lambda>ctx workspaceID.
    sbind (checkWorkspaceSoleOwnerStranding ctx workspaceID callerUserUUID m) (\<lambda>stranded.
      if stranded \<noteq> [] then Inl (ErrWorkspaceSoleOwnerRequiresTransfer stranded)
      else from_store (SoftDeleteWorkspace ctx workspaceID now m)))"

text \<open>The clock is read twice: once for the grace test and once for the write.\<close>

definition Service_CancelWorkspaceDeletion ::
  "Scope \<Rightarrow> Context \<Rightarrow> string \<Rightarrow> string \<Rightarrow> time \<Rightarrow> time \<Rightarrow> AccountTables \<Rightarrow> (TenancyWorkspace \<times> AccountTables) service_result" where
  "Service_CancelWorkspaceDeletion defaultScope ctx workspaceID callerUserUUID checkedAt now m =
    as_owner defaultScope ctx workspaceID callerUserUUID m (\<lambda>ctx workspaceID.
    sbind (from_store (GetWorkspace ctx workspaceID m)) (\<lambda>workspace.
      if (case ws_DeletedAt workspace of None \<Rightarrow> False | Some deletedAt \<Rightarrow> WorkspaceDeletionGracePeriod < checkedAt - deletedAt) then
        Inl ErrWorkspaceDeletionGraceExpired
      else if ws_Status workspace = WorkspaceStatusActive \<and> ws_DeletedAt workspace = None then Inr (workspace, m)
      else if ws_Status workspace \<noteq> WorkspaceStatusDeleted \<and> ws_DeletedAt workspace = None then Inl ErrWorkspaceDeletionNotPending
      else from_store (CancelWorkspaceDeletion ctx workspaceID now m)))"

definition WorkspaceDeletionGraceDeadline :: "TenancyWorkspace \<Rightarrow> time" where
  "WorkspaceDeletionGraceDeadline workspace =
    (case ws_DeletedAt workspace of None \<Rightarrow> zero_time | Some deletedAt \<Rightarrow> deletedAt + WorkspaceDeletionGracePeriod)"

subsection \<open>The abstract state machine\<close>

datatype phase = Active | Suspended | Deleted time

definition phase_of :: "TenancyWorkspace \<Rightarrow> phase" where
  "phase_of w = (case ws_DeletedAt w of Some d \<Rightarrow> Deleted d
     | None \<Rightarrow> if ws_Status w = WorkspaceStatusSuspended then Suspended else Active)"

datatype action = Suspend | Reactivate | Delete time | Cancel time

inductive phase_step :: "phase \<Rightarrow> action \<Rightarrow> phase \<Rightarrow> bool" where
  suspend: "p \<in> {Active, Suspended} \<Longrightarrow> phase_step p Suspend Suspended"
| reactivate: "p \<in> {Active, Suspended} \<Longrightarrow> phase_step p Reactivate Active"
| delete: "p \<in> {Active, Suspended} \<Longrightarrow> phase_step p (Delete now) (Deleted now)"
| delete_again: "phase_step (Deleted d) (Delete now) (Deleted d)"
| cancel: "now \<le> d + WorkspaceDeletionGracePeriod \<Longrightarrow> phase_step (Deleted d) (Cancel now) Active"
| cancel_active: "phase_step Active (Cancel now) Active"

subsection \<open>Laws\<close>

lemma sbind_Inr_iff: "sbind r f = Inr y \<longleftrightarrow> (\<exists>x. r = Inr x \<and> f x = Inr y)"
  by (cases r) auto

lemma sbind_Inl_iff: "sbind r f = Inl e \<longleftrightarrow> r = Inl e \<or> (\<exists>x. r = Inr x \<and> f x = Inl e)"
  by (cases r) auto

lemma from_store_Inr [simp]: "from_store r = Inr y \<longleftrightarrow> r = Inr y"
  by (cases r) (simp_all add: from_store_def)

lemma on_conflict_Inr [simp]: "on_conflict e r = Inr y \<longleftrightarrow> r = Inr y"
  by (cases r) (simp_all add: on_conflict_def)

text \<open>What the owner gate checks, on the stored rows.\<close>

definition is_owner :: "Scope \<Rightarrow> string \<Rightarrow> AccountTables \<Rightarrow> bool" where
  "is_owner scope callerUserUUID m \<longleftrightarrow> (\<exists>b u. b \<in> snd ` set (ma_members m) \<and> member_of scope (sc_WorkspaceID scope) b
    \<and> mb_UserUUID b = trim_space callerUserUUID \<and> mb_Role b = ''owner'' \<and> norm_key (mb_Status b) = ''active''
    \<and> map_of (ma_users m) (trim_space callerUserUUID) = Some u \<and> norm_key (us_Status u) = ''active'')"

lemma requireWorkspaceOwner_Inr:
  assumes "requireWorkspaceOwner ctx w caller m = Inr ()" "RequireScope ctx = Inr scope"
  shows "is_owner scope caller m" "trim_space caller \<noteq> ''''"
proof -
  from assms(1) obtain b where b: "trim_space caller \<noteq> ''''" "GetWorkspaceMemberByUserUUID ctx w (trim_space caller) m = Inr b"
    "member_is_active ctx b m = Inr True" "mb_Role b = ''owner''"
    by (auto simp: requireWorkspaceOwner_def sbind_Inr_iff Let_def split: if_splits sum.splits)
  note g = GetWorkspaceMemberByUserUUID_Inr [OF b(2)]
  from workspaceMemberAccountIsActive_Inr [OF b(3) [unfolded member_is_active_def]] obtain u where
    "norm_key (mb_Status b) = ''active''" "GetUser (mb_UserUUID b) m = Inr u" "norm_key (us_Status u) = ''active''"
    by (auto simp: account_store_def active_is_normal)
  with g b assms(2) show "is_owner scope caller m" by (auto simp: is_owner_def GetUser_Inr)
  show "trim_space caller \<noteq> ''''" by (rule b(1))
qed

lemma as_owner_Inr:
  assumes "as_owner defaultScope ctx w caller m f = Inr x"
  obtains scope where "RequireScope (service_context defaultScope ctx) = Inr scope" "is_owner scope caller m" "trim_space caller \<noteq> ''''"
    "f (service_context defaultScope ctx) (trim_space w) = Inr x"
proof -
  let ?ctx = "service_context defaultScope ctx"
  from assms have a: "requireWorkspaceOwner ?ctx (trim_space w) caller m = Inr ()" "f ?ctx (trim_space w) = Inr x"
    by (auto simp: as_owner_def Let_def sbind_Inr_iff split: if_splits)
  obtain scope where s: "RequireScope ?ctx = Inr scope"
    by (cases "LookupScope ctx") (auto simp: service_context_def WithDefaultScope_def RequireScope_def)
  show ?thesis by (rule that [OF s requireWorkspaceOwner_Inr [OF a(1) s] a(2)])
qed

lemma GetWorkspace_Inr:
  assumes "GetWorkspace ctx w m = Inr r" "RequireScope ctx = Inr scope"
  shows "map_of (ma_workspaces m) (scope_key scope) = Some r"
  using assms by (auto simp: GetWorkspace_def rbind_Inr_iff scoped_workspace_Inr scope_key_def simp del: map_of_eq_Some_iff
    split: option.split_asm)

text \<open>Nobody is left in the workspace without a live owner.\<close>

definition no_member_stranded :: "Scope \<Rightarrow> string \<Rightarrow> AccountTables \<Rightarrow> bool" where
  "no_member_stranded scope caller m \<longleftrightarrow>
    (\<exists>b \<in> snd ` set (ma_members m). counts_for_stranding scope (sc_WorkspaceID scope) m b \<and> mb_UserUUID b \<noteq> trim_space caller \<and> mb_Role b = ''owner'')
    \<or> (\<forall>b \<in> snd ` set (ma_members m). counts_for_stranding scope (sc_WorkspaceID scope) m b \<longrightarrow> mb_UserUUID b = trim_space caller)
    \<or> \<not> (\<exists>b \<in> snd ` set (ma_members m). counts_for_stranding scope (sc_WorkspaceID scope) m b \<and> mb_UserUUID b = trim_space caller \<and> mb_Role b = ''owner'')"


lemma sort_key_Nil_iff [simp]: "sort_key f xs = [] \<longleftrightarrow> xs = []"
  by (metis length_0_conv length_sort)

lemma stranding_passed:
  assumes "checkWorkspaceSoleOwnerStranding ctx w caller m = Inr []" "RequireScope ctx = Inr scope" "trim_space caller \<noteq> ''''"
  shows "no_member_stranded scope caller m"
proof -
  from assms(1,3) have "ListWorkspaceStrandedActiveMembers ctx w caller m = Inr []"
    by (auto simp: checkWorkspaceSoleOwnerStranding_def sbind_Inr_iff)
  with assms(2,3) show ?thesis
    unfolding no_member_stranded_def ListWorkspaceStrandedActiveMembers_def
    by (auto simp: rbind_Inr_iff scoped_workspace_Inr Let_def list_ex_iff filter_empty_conv split: if_splits; blast)
qed

lemma change_workspace_of_scope:
  assumes "change_workspace ctx w f m = Inr (x, m')" "RequireScope ctx = Inr scope"
  obtains r where "map_of (ma_workspaces m) (scope_key scope) = Some r" "f r = Inr x"
    "m' = m\<lparr>ma_workspaces := map_put (scope_key scope) x (ma_workspaces m)\<rparr>"
  using assms by (elim change_workspace_Inr) auto

text \<open>One operation, named by its action; the times an action carries are the readings that decide it.\<close>

fun run_service ::
  "Scope \<Rightarrow> Context \<Rightarrow> string \<Rightarrow> string \<Rightarrow> time \<Rightarrow> action \<Rightarrow> AccountTables \<Rightarrow> (TenancyWorkspace \<times> AccountTables) service_result" where
  "run_service ds ctx w caller now Suspend m = Service_SuspendWorkspace ds ctx w caller now m"
| "run_service ds ctx w caller now Reactivate m = Service_ReactivateWorkspace ds ctx w caller now m"
| "run_service ds ctx w caller now (Delete t) m = Service_SoftDeleteWorkspace ds ctx w caller t m"
| "run_service ds ctx w caller now (Cancel t) m = Service_CancelWorkspaceDeletion ds ctx w caller t now m"

text \<open>The effect of a step: the row of the scope, and nothing else.\<close>

definition row_step :: "Scope \<Rightarrow> action \<Rightarrow> AccountTables \<Rightarrow> TenancyWorkspace \<Rightarrow> AccountTables \<Rightarrow> bool" where
  "row_step scope act m x m' \<longleftrightarrow> (\<exists>r. map_of (ma_workspaces m) (scope_key scope) = Some r
    \<and> map_of (ma_workspaces m') = (map_of (ma_workspaces m))(scope_key scope \<mapsto> x)
    \<and> m' = m\<lparr>ma_workspaces := ma_workspaces m'\<rparr> \<and> phase_step (phase_of r) act (phase_of x))"

lemma row_step_put:
  assumes "map_of (ma_workspaces m) (scope_key scope) = Some r" "m' = m\<lparr>ma_workspaces := map_put (scope_key scope) x (ma_workspaces m)\<rparr>"
    and "phase_step (phase_of r) act (phase_of x)"
  shows "row_step scope act m x m'"
  using assms by (auto simp: row_step_def simp del: map_of_eq_Some_iff)

lemma row_step_stay:
  assumes "map_of (ma_workspaces m) (scope_key scope) = Some r" "phase_step (phase_of r) act (phase_of r)"
  shows "row_step scope act m r m"
  using assms by (auto simp: row_step_def simp del: map_of_eq_Some_iff)

lemma live_phase: "ws_DeletedAt r = None \<Longrightarrow> phase_of r \<in> {Active, Suspended}"
  by (simp add: phase_of_def)

lemma suspend_step:
  assumes "SuspendWorkspace ctx w now m = Inr (x, m')" "RequireScope ctx = Inr scope"
  shows "row_step scope Suspend m x m'"
proof -
  from assms(1) [unfolded SuspendWorkspace_def] assms(2) obtain r where r: "map_of (ma_workspaces m) (scope_key scope) = Some r"
    "m' = m\<lparr>ma_workspaces := map_put (scope_key scope) x (ma_workspaces m)\<rparr>"
    and f: "(if ws_Status r = WorkspaceStatusDeleted \<or> ws_DeletedAt r \<noteq> None then Inl (Sentinel ErrConflict)
      else Inr (r\<lparr>ws_Status := WorkspaceStatusSuspended, ws_SuspendedAt := (if ws_SuspendedAt r = None then Some now else ws_SuspendedAt r),
        ws_UpdatedAt := now\<rparr>)) = Inr x" by (rule change_workspace_of_scope)
  from f have d: "ws_DeletedAt r = None" "phase_of x = Suspended" by (auto simp: phase_of_def split: if_splits)
  from phase_step.suspend [OF live_phase [OF d(1)]] show ?thesis by (intro row_step_put [OF r]) (simp only: d(2))
qed

lemma reactivate_step:
  assumes "ReactivateWorkspace ctx w now m = Inr (x, m')" "RequireScope ctx = Inr scope"
  shows "row_step scope Reactivate m x m'"
proof -
  from assms(1) [unfolded ReactivateWorkspace_def] assms(2) obtain r where r: "map_of (ma_workspaces m) (scope_key scope) = Some r"
    "m' = m\<lparr>ma_workspaces := map_put (scope_key scope) x (ma_workspaces m)\<rparr>"
    and f: "(if ws_Status r \<noteq> WorkspaceStatusSuspended \<or> ws_DeletedAt r \<noteq> None then Inl (Sentinel ErrConflict)
      else Inr (r\<lparr>ws_Status := WorkspaceStatusActive, ws_SuspendedAt := None, ws_UpdatedAt := now\<rparr>)) = Inr x"
    by (rule change_workspace_of_scope)
  from f have d: "ws_DeletedAt r = None" "phase_of x = Active" by (auto simp: phase_of_def split: if_splits)
  from phase_step.reactivate [OF live_phase [OF d(1)]] show ?thesis by (intro row_step_put [OF r]) (simp only: d(2))
qed

lemma delete_step:
  assumes "SoftDeleteWorkspace ctx w now m = Inr (x, m')" "RequireScope ctx = Inr scope"
  shows "row_step scope (Delete now) m x m'"
proof -
  from assms(1) [unfolded SoftDeleteWorkspace_def] assms(2) obtain r where r: "map_of (ma_workspaces m) (scope_key scope) = Some r"
    "m' = m\<lparr>ma_workspaces := map_put (scope_key scope) x (ma_workspaces m)\<rparr>"
    and f: "Inr (r\<lparr>ws_Status := WorkspaceStatusDeleted, ws_DeletedAt := (if ws_DeletedAt r = None then Some now else ws_DeletedAt r),
        ws_UpdatedAt := now\<rparr>) = (Inr x :: TenancyWorkspace result)" by (rule change_workspace_of_scope)
  show ?thesis
  proof (cases "ws_DeletedAt r")
    case None
    with f have x: "phase_of x = Deleted now" by (auto simp: phase_of_def)
    from phase_step.delete [OF live_phase [OF None]] show ?thesis by (intro row_step_put [OF r]) (simp only: x)
  next
    case (Some d)
    with f have "phase_of x = Deleted d" "phase_of r = Deleted d" by (auto simp: phase_of_def)
    then show ?thesis by (intro row_step_put [OF r]) (simp add: phase_step.delete_again)
  qed
qed

lemma cancel_step:
  assumes "CancelWorkspaceDeletion ctx w now m = Inr (x, m')" "RequireScope ctx = Inr scope"
    and "map_of (ma_workspaces m) (scope_key scope) = Some r" "ws_DeletedAt r = Some d" "t \<le> d + WorkspaceDeletionGracePeriod"
  shows "row_step scope (Cancel t) m x m'"
proof -
  from assms(1) [unfolded CancelWorkspaceDeletion_def] assms(2) obtain q where q: "map_of (ma_workspaces m) (scope_key scope) = Some q"
    "m' = m\<lparr>ma_workspaces := map_put (scope_key scope) x (ma_workspaces m)\<rparr>"
    and f: "Inr (q\<lparr>ws_Status := WorkspaceStatusActive, ws_DeletedAt := None, ws_SuspendedAt := None, ws_UpdatedAt := now\<rparr>)
      = (Inr x :: TenancyWorkspace result)" by (rule change_workspace_of_scope)
  from f have "phase_of x = Active" by (auto simp: phase_of_def)
  moreover have "phase_of q = Deleted d" using q(1) assms(3,4) by (simp add: phase_of_def)
  ultimately show ?thesis using assms(5) by (intro row_step_put [OF q]) (simp add: phase_step.cancel)
qed

subsection \<open>Properties\<close>





end
