(* ===== verification/Workspace_Purge.thy ===== *)
theory Workspace_Purge
  imports Tenancy_Store Scan_Queue
begin

section \<open>Removing workspaces and accounts for good (internal/db/memory_tenancy.go, internal/workspacepurge, internal/userpurge)\<close>

text \<open>
  The operations of the in-memory store that remove everything under a tenant or a workspace, and the
  two workers that purge what has been deleted for longer than the grace period. \<open>PurgeStore\<close> has every
  map of \<^verbatim>\<open>MemoryStore\<close> they touch: the account tables, the authorization store and the scan queue are
  the states of their own theories; of the other records only the fields these operations read are kept
  (\<open>ScopedRow\<close>), and a map whose values are not read is the list of its keys. The three AWS onboarding
  and rollout maps hold workspace rows too. A loop \<^verbatim>\<open>for k, v := range m { if P { delete(m, k) } }\<close> is
  \<open>delete_where\<close>; the loops over the identifiers collected first delete disjoint entries and are written
  as one filter. \<open>scoped_rows\<close> lists the rows of a store with the tenant and workspace of each.

  The locale \<open>purge_pass\<close> is the contract of a store for a purge worker, with the laws of a whole pass; it
  is interpreted on accounts and on workspaces.
\<close>

record ScopedRow =
  sw_TenantID :: string
  sw_WorkspaceID :: string

record BaselineRow = ScopedRow +
  sw_ProjectID :: string

record OnboardingState =
  ob_OrgID :: string
  ob_WorkspaceID :: string
  ob_ProjectID :: string

record PurgeStore =
  px_accounts :: AccountTables
  px_projects :: "(string, ScopedRow) gomap"
  px_scanPolicies :: "(string, ScopedRow) gomap"
  px_connectors :: "(string, ScopedRow) gomap"
  px_connStates :: "string list"
  px_connSecrets :: "(string, ScopedRow) gomap"
  px_awsOnboardingAttempts :: "(string, ScopedRow) gomap"
  px_awsOrgRollouts :: "(string, ScopedRow) gomap"
  px_awsOrgRolloutTargets :: "(string, ScopedRow) gomap"
  px_awsCoverages :: "(string, ScopedRow) gomap"
  px_awsBaselines :: "(string, BaselineRow) gomap"
  px_scans :: ScanStore
  px_repoScans :: "(string, ScopedRow) gomap"
  px_rawAssets :: "string list"
  px_identities :: "string list"
  px_policies :: "string list"
  px_relationships :: "string list"
  px_permissions :: "string list"
  px_scanFindings :: "(string, string list) gomap"
  px_findings :: "string list"
  px_repoFindingIDs :: "(string, string list) gomap"
  px_repoFindings :: "string list"
  px_repoCursors :: "(string, ScopedRow) gomap"
  px_authz :: MemoryStore
  px_onboardingStates :: "(string, OnboardingState) gomap"
  px_triageStates :: "string list"
  px_triageEvents :: "string list"

subsection \<open>The rows of the tenancy tables\<close>

definition row_in :: "(string \<Rightarrow> string \<Rightarrow> bool) \<Rightarrow> 'a ScopedRow_scheme \<Rightarrow> bool" where
  "row_in P row = P (sw_TenantID row) (sw_WorkspaceID row)"

definition deleteAWSPlatformBaselineResultsLocked ::
  "string \<Rightarrow> string \<Rightarrow> string \<Rightarrow> (string, BaselineRow) gomap \<Rightarrow> (string, BaselineRow) gomap" where
  "deleteAWSPlatformBaselineResultsLocked tenantID workspaceID projectID m =
    delete_where (\<lambda>_ baseline. \<not> (tenantID \<noteq> '''' \<and> sw_TenantID baseline \<noteq> tenantID)
      \<and> \<not> (workspaceID \<noteq> '''' \<and> sw_WorkspaceID baseline \<noteq> workspaceID)
      \<and> \<not> (projectID \<noteq> '''' \<and> sw_ProjectID baseline \<noteq> projectID)) m"

text \<open>The loops the three removals share, for the rows whose tenant and workspace satisfy \<open>P\<close>.\<close>

definition delete_tenancy_rows :: "(string \<Rightarrow> string \<Rightarrow> bool) \<Rightarrow> PurgeStore \<Rightarrow> PurgeStore" where
  "delete_tenancy_rows P s =
    (let gone = map fst (filter (\<lambda>(_, row). row_in P row) (px_connectors s))
     in s\<lparr>px_accounts := (px_accounts s)\<lparr>ma_members := delete_where (\<lambda>_ b. P (mb_TenantID b) (mb_WorkspaceID b)) (ma_members (px_accounts s))\<rparr>,
        px_projects := delete_where (\<lambda>_ row. row_in P row) (px_projects s),
        px_scanPolicies := delete_where (\<lambda>_ row. row_in P row) (px_scanPolicies s),
        px_connectors := delete_where (\<lambda>_ row. row_in P row) (px_connectors s),
        px_connStates := filter (\<lambda>key. key \<notin> set gone) (px_connStates s),
        px_connSecrets := delete_where (\<lambda>_ row. row_in P row) (px_connSecrets s),
        px_awsCoverages := delete_where (\<lambda>_ row. row_in P row) (px_awsCoverages s)\<rparr>)"

definition DeleteOrganization :: "Context \<Rightarrow> PurgeStore \<Rightarrow> PurgeStore result" where
  "DeleteOrganization ctx s =
    rbind (RequireScope ctx) (\<lambda>scope.
      let tenantID = sc_TenantID scope; m = px_accounts s
      in if \<not> has_key (ma_organizations m) tenantID then Inl (Sentinel ErrNotFound)
         else
           let m = m\<lparr>ma_organizations := map_del tenantID (ma_organizations m),
                 ma_workspaces := delete_where (\<lambda>_ w. ws_TenantID w = tenantID) (ma_workspaces m)\<rparr>;
               s = delete_tenancy_rows (\<lambda>t _. t = tenantID) (s\<lparr>px_accounts := m\<rparr>)
           in Inr (s\<lparr>px_awsBaselines := deleteAWSPlatformBaselineResultsLocked tenantID '''' '''' (px_awsBaselines s)\<rparr>))"

definition delete_workspace_rows :: "string \<Rightarrow> string \<Rightarrow> string \<Rightarrow> PurgeStore \<Rightarrow> PurgeStore" where
  "delete_workspace_rows key tenantID workspaceID s =
    (let m = px_accounts s;
         s = s\<lparr>px_accounts := m\<lparr>ma_workspaces := map_del key (ma_workspaces m)\<rparr>\<rparr>;
         s = delete_tenancy_rows (\<lambda>t w. t = tenantID \<and> w = workspaceID) s
     in s\<lparr>px_awsBaselines := deleteAWSPlatformBaselineResultsLocked tenantID workspaceID '''' (px_awsBaselines s)\<rparr>)"

definition DeleteWorkspace :: "Context \<Rightarrow> string \<Rightarrow> PurgeStore \<Rightarrow> PurgeStore result" where
  "DeleteWorkspace ctx workspaceID s =
    rbind (scoped_workspace ctx workspaceID) (\<lambda>(scope, resolved).
      let key = tenancyWorkspaceKey (sc_TenantID scope) resolved
      in if \<not> has_key (ma_workspaces (px_accounts s)) key then Inl (Sentinel ErrNotFound)
         else Inr (delete_workspace_rows key (sc_TenantID scope) resolved s))"

subsection \<open>The hard delete of a workspace\<close>

text \<open>Scans and repository scans of the workspace with everything stored under their identifiers.\<close>

definition under_scan :: "string list \<Rightarrow> string \<Rightarrow> bool" where
  "under_scan scanIDs key = list_ex (\<lambda>scanID. has_prefix key (scanID @ ''|'')) scanIDs"

definition delete_scans :: "string \<Rightarrow> string \<Rightarrow> PurgeStore \<Rightarrow> PurgeStore" where
  "delete_scans tenant workspaceID s =
    (let st = px_scans s;
         scanIDs = map fst (filter (\<lambda>(_, r). scn_TenantID r = tenant \<and> scn_WorkspaceID r = workspaceID) (qs_scans st));
         findings = concat (map (\<lambda>scanID. case map_of (px_scanFindings s) scanID of None \<Rightarrow> [] | Some keys \<Rightarrow> keys) scanIDs)
     in s\<lparr>px_scans := st\<lparr>qs_scans := delete_where (\<lambda>_ r. scn_TenantID r = tenant \<and> scn_WorkspaceID r = workspaceID) (qs_scans st),
            qs_events := delete_where (\<lambda>scanID _. scanID \<in> set scanIDs) (qs_events st)\<rparr>,
          px_rawAssets := filter (\<lambda>key. \<not> under_scan scanIDs key) (px_rawAssets s),
          px_identities := filter (\<lambda>key. \<not> under_scan scanIDs key) (px_identities s),
          px_policies := filter (\<lambda>key. \<not> under_scan scanIDs key) (px_policies s),
          px_relationships := filter (\<lambda>key. \<not> under_scan scanIDs key) (px_relationships s),
          px_permissions := filter (\<lambda>key. \<not> under_scan scanIDs key) (px_permissions s),
          px_findings := filter (\<lambda>key. key \<notin> set findings) (px_findings s),
          px_scanFindings := delete_where (\<lambda>scanID _. scanID \<in> set scanIDs) (px_scanFindings s)\<rparr>)"

definition delete_repo_scans :: "string \<Rightarrow> string \<Rightarrow> PurgeStore \<Rightarrow> PurgeStore" where
  "delete_repo_scans tenant workspaceID s =
    (let P = (\<lambda>t w. t = tenant \<and> w = workspaceID);
         repoScanIDs = map fst (filter (\<lambda>(_, row). row_in P row) (px_repoScans s));
         findings = concat (map (\<lambda>scanID. case map_of (px_repoFindingIDs s) scanID of None \<Rightarrow> [] | Some keys \<Rightarrow> keys) repoScanIDs)
     in s\<lparr>px_repoScans := delete_where (\<lambda>_ row. row_in P row) (px_repoScans s),
          px_repoFindings := filter (\<lambda>key. key \<notin> set findings) (px_repoFindings s),
          px_repoFindingIDs := delete_where (\<lambda>scanID _. scanID \<in> set repoScanIDs) (px_repoFindingIDs s),
          px_repoCursors := delete_where (\<lambda>_ row. row_in P row) (px_repoCursors s)\<rparr>)"

text \<open>All events of one slot have the same scope: the first one decides.\<close>

definition slot_of_scope :: "string \<Rightarrow> string \<Rightarrow> AuthzPolicyEvent list \<Rightarrow> bool" where
  "slot_of_scope tenant workspaceID events =
    (case events of [] \<Rightarrow> False | event # _ \<Rightarrow> pe_TenantID event = tenant \<and> pe_WorkspaceID event = workspaceID)"

definition delete_authz :: "string \<Rightarrow> string \<Rightarrow> MemoryStore \<Rightarrow> MemoryStore" where
  "delete_authz tenant workspaceID a =
    (let gone = map pe_ID (concat (map snd (filter (\<lambda>(_, events). slot_of_scope tenant workspaceID events) (st_authzEvents a))))
     in a\<lparr>st_authzAttrs := delete_where (\<lambda>_ r. ea_TenantID r = tenant \<and> ea_WorkspaceID r = workspaceID) (st_authzAttrs a),
          st_authzRels := delete_where (\<lambda>_ r. rel_TenantID r = tenant \<and> rel_WorkspaceID r = workspaceID) (st_authzRels a),
          st_authzSets := delete_where (\<lambda>_ r. set_TenantID r = tenant \<and> set_WorkspaceID r = workspaceID) (st_authzSets a),
          st_authzVersions := delete_where (\<lambda>_ r. pv_TenantID r = tenant \<and> pv_WorkspaceID r = workspaceID) (st_authzVersions a),
          st_authzRollouts := delete_where (\<lambda>_ r. ro_TenantID r = tenant \<and> ro_WorkspaceID r = workspaceID) (st_authzRollouts a),
          st_authzEventIDs := filter (\<lambda>i. i \<notin> set gone) (st_authzEventIDs a),
          st_authzEvents := delete_where (\<lambda>_ events. slot_of_scope tenant workspaceID events) (st_authzEvents a)\<rparr>)"

definition clear_contexts :: "string \<Rightarrow> string \<Rightarrow> PurgeStore \<Rightarrow> PurgeStore" where
  "clear_contexts tenant workspaceID s =
    s\<lparr>px_accounts := (px_accounts s)\<lparr>ma_sessions :=
          update_where (\<lambda>t. ss_CurrentOrgID t = tenant \<and> ss_CurrentWorkspaceID t = workspaceID)
            (\<lambda>t. t\<lparr>ss_CurrentOrgID := '''', ss_CurrentWorkspaceID := '''', ss_CurrentProjectID := ''''\<rparr>)
            (ma_sessions (px_accounts s))\<rparr>,
       px_onboardingStates :=
          update_where (\<lambda>t. ob_OrgID t = tenant \<and> ob_WorkspaceID t = workspaceID)
            (\<lambda>t. t\<lparr>ob_OrgID := '''', ob_WorkspaceID := '''', ob_ProjectID := ''''\<rparr>) (px_onboardingStates s)\<rparr>"

text \<open>The text of a time in an error message is left to \<open>format_time\<close>.\<close>

definition HardDeleteWorkspace ::
  "(time \<Rightarrow> string) \<Rightarrow> string \<Rightarrow> string \<Rightarrow> time \<Rightarrow> time \<Rightarrow> PurgeStore \<Rightarrow> (TenancyWorkspace \<times> PurgeStore) result" where
  "HardDeleteWorkspace format_time tenantID workspaceID expected now s =
    (let tenant = trim_space tenantID;
         workspaceID = trim_space workspaceID;
         key = tenancyWorkspaceKey tenant workspaceID
     in case map_of (ma_workspaces (px_accounts s)) key of
          None \<Rightarrow> Inl (Sentinel ErrNotFound)
        | Some workspace \<Rightarrow>
           (case ws_DeletedAt workspace of
              None \<Rightarrow> Inl (ErrorText (''hard delete: workspace '' @ tenant @ ''/'' @ workspaceID
                @ '' is not pending deletion (status='' @ quote_string (ws_Status workspace) @ '')''))
            | Some deletedAt \<Rightarrow>
               (if ws_Status workspace \<noteq> WorkspaceStatusDeleted then
                  Inl (ErrorText (''hard delete: workspace '' @ tenant @ ''/'' @ workspaceID
                    @ '' is not pending deletion (status='' @ quote_string (ws_Status workspace) @ '')''))
                else if deletedAt \<noteq> expected then
                  Inl (ErrorText (''hard delete: workspace '' @ tenant @ ''/'' @ workspaceID @ '' deleted_at drifted (worker saw ''
                    @ format_time expected @ '', row now '' @ format_time deletedAt
                    @ ''); the row was likely re-deleted within grace''))
                else
                  let s = delete_workspace_rows key tenant workspaceID s;
                      s = delete_scans tenant workspaceID s;
                      s = delete_repo_scans tenant workspaceID s;
                      s = s\<lparr>px_authz := delete_authz tenant workspaceID (px_authz s)\<rparr>;
                      s = clear_contexts tenant workspaceID s;
                      triagePrefix = tenant @ ''|'' @ workspaceID @ ''|''
                  in Inr (workspace\<lparr>ws_UpdatedAt := now\<rparr>,
                       s\<lparr>px_triageStates := filter (\<lambda>key. \<not> has_prefix key triagePrefix) (px_triageStates s),
                         px_triageEvents := filter (\<lambda>key. \<not> has_prefix key triagePrefix) (px_triageEvents s)\<rparr>))))"

subsection \<open>The purge workers\<close>

record PurgeResult =
  pu_Examined :: int
  pu_Purged :: int
  pu_Errors :: int

record PurgeRunner =
  pr_HasStore :: bool
  pr_Now :: time
  pr_BatchSize :: int
  pr_GracePeriod :: time

definition grace_of :: "time \<Rightarrow> PurgeRunner \<Rightarrow> time" where
  "grace_of standard r = (if pr_GracePeriod r \<le> 0 then standard else pr_GracePeriod r)"

definition batch_of :: "PurgeRunner \<Rightarrow> int" where
  "batch_of r = (if pr_BatchSize r \<le> 0 then 100 else pr_BatchSize r)"

text \<open>
  The loops of the two workers. \<open>ctxErr i\<close> is the \<open>i\<close>-th answer of \<^verbatim>\<open>ctx.Err()\<close>: it is asked before every
  row and again after a failed purge.
\<close>

fun purge_users ::
  "(nat \<Rightarrow> go_error option) \<Rightarrow> nat \<Rightarrow> time \<Rightarrow> User list \<Rightarrow> PurgeResult \<Rightarrow> AccountTables \<Rightarrow> (PurgeResult \<times> go_error option) \<times> AccountTables" where
  "purge_users ctxErr i now [] res m = ((res, None), m)"
| "purge_users ctxErr i now (user # users) res m =
    (case ctxErr i of
       Some err \<Rightarrow> ((res, Some err), m)
     | None \<Rightarrow>
        (case HardDeleteUser (us_ID user) now m of
           Inr (_, m') \<Rightarrow> purge_users ctxErr (Suc i) now users (res\<lparr>pu_Purged := pu_Purged res + 1\<rparr>) m'
         | Inl _ \<Rightarrow>
            (case ctxErr (Suc i) of
               Some err \<Rightarrow> ((res, Some err), m)
             | None \<Rightarrow> purge_users ctxErr (Suc (Suc i)) now users (res\<lparr>pu_Errors := pu_Errors res + 1\<rparr>) m)))"

definition userpurge_RunOnce ::
  "PurgeRunner \<Rightarrow> (nat \<Rightarrow> go_error option) \<Rightarrow> AccountTables \<Rightarrow> (PurgeResult \<times> go_error option) \<times> AccountTables" where
  "userpurge_RunOnce r ctxErr m =
    (if \<not> pr_HasStore r then
       ((\<lparr>pu_Examined = 0, pu_Purged = 0, pu_Errors = 0\<rparr>, Some (ErrorText ''userpurge: store is required'')), m)
     else
       let now = pr_Now r;
           pending = ListUsersPendingHardDelete (now - grace_of UserDeletionGracePeriod r) (batch_of r) m
       in purge_users ctxErr 0 now pending \<lparr>pu_Examined = int (length pending), pu_Purged = 0, pu_Errors = 0\<rparr> m)"

fun purge_workspaces ::
  "(time \<Rightarrow> string) \<Rightarrow> (nat \<Rightarrow> go_error option) \<Rightarrow> nat \<Rightarrow> time \<Rightarrow> TenancyWorkspace list \<Rightarrow> PurgeResult \<Rightarrow> PurgeStore \<Rightarrow>
    (PurgeResult \<times> go_error option) \<times> PurgeStore" where
  "purge_workspaces fmt ctxErr i now [] res s = ((res, None), s)"
| "purge_workspaces fmt ctxErr i now (w # ws) res s =
    (case ctxErr i of
       Some err \<Rightarrow> ((res, Some err), s)
     | None \<Rightarrow>
        (case ws_DeletedAt w of
           None \<Rightarrow> purge_workspaces fmt ctxErr (Suc i) now ws (res\<lparr>pu_Errors := pu_Errors res + 1\<rparr>) s
         | Some deletedAt \<Rightarrow>
            (case HardDeleteWorkspace fmt (ws_TenantID w) (ws_WorkspaceID w) deletedAt now s of
               Inr (_, s') \<Rightarrow> purge_workspaces fmt ctxErr (Suc i) now ws (res\<lparr>pu_Purged := pu_Purged res + 1\<rparr>) s'
             | Inl _ \<Rightarrow>
                (case ctxErr (Suc i) of
                   Some err \<Rightarrow> ((res, Some err), s)
                 | None \<Rightarrow> purge_workspaces fmt ctxErr (Suc (Suc i)) now ws (res\<lparr>pu_Errors := pu_Errors res + 1\<rparr>) s))))"

definition workspacepurge_RunOnce ::
  "PurgeRunner \<Rightarrow> (time \<Rightarrow> string) \<Rightarrow> (nat \<Rightarrow> go_error option) \<Rightarrow> PurgeStore \<Rightarrow> (PurgeResult \<times> go_error option) \<times> PurgeStore" where
  "workspacepurge_RunOnce r fmt ctxErr s =
    (if \<not> pr_HasStore r then
       ((\<lparr>pu_Examined = 0, pu_Purged = 0, pu_Errors = 0\<rparr>, Some (ErrorText ''workspacepurge: store is required'')), s)
     else
       let now = pr_Now r;
           pending = ListWorkspacesPendingHardDelete (now - grace_of WorkspaceDeletionGracePeriod r) (batch_of r) (px_accounts s)
       in purge_workspaces fmt ctxErr 0 now pending \<lparr>pu_Examined = int (length pending), pu_Purged = 0, pu_Errors = 0\<rparr> s)"


subsection \<open>The rows of a store\<close>

definition tagged :: "string \<Rightarrow> ('v \<Rightarrow> string \<times> string) \<Rightarrow> (string, 'v) gomap \<Rightarrow> (string \<times> string \<times> string \<times> string) list" where
  "tagged table place m = map (\<lambda>(k, v). (table, k, place v)) m"

definition slot_place :: "AuthzPolicyEvent list \<Rightarrow> string \<times> string" where
  "slot_place events = (case events of [] \<Rightarrow> ('''', '''') | event # _ \<Rightarrow> (pe_TenantID event, pe_WorkspaceID event))"

text \<open>Table, key, tenant and workspace of every stored row that belongs to a workspace.\<close>

definition scoped_rows :: "PurgeStore \<Rightarrow> (string \<times> string \<times> string \<times> string) list" where
  "scoped_rows s =
    (let place = (\<lambda>row. (sw_TenantID row, sw_WorkspaceID row)); m = px_accounts s; a = px_authz s
     in tagged ''workspaces'' (\<lambda>w. (ws_TenantID w, ws_WorkspaceID w)) (ma_workspaces m)
      @ tagged ''members'' (\<lambda>b. (mb_TenantID b, mb_WorkspaceID b)) (ma_members m)
      @ tagged ''projects'' place (px_projects s) @ tagged ''scan policies'' place (px_scanPolicies s)
      @ tagged ''connectors'' place (px_connectors s) @ tagged ''connector secrets'' place (px_connSecrets s)
      @ tagged ''coverages'' place (px_awsCoverages s)
      @ tagged ''baselines'' (\<lambda>row. (sw_TenantID row, sw_WorkspaceID row)) (px_awsBaselines s)
      @ tagged ''scans'' (\<lambda>r. (scn_TenantID r, scn_WorkspaceID r)) (qs_scans (px_scans s))
      @ tagged ''repository scans'' place (px_repoScans s) @ tagged ''cursors'' place (px_repoCursors s)
      @ tagged ''attributes'' (\<lambda>r. (ea_TenantID r, ea_WorkspaceID r)) (st_authzAttrs a)
      @ tagged ''relationships'' (\<lambda>r. (rel_TenantID r, rel_WorkspaceID r)) (st_authzRels a)
      @ tagged ''policy sets'' (\<lambda>r. (set_TenantID r, set_WorkspaceID r)) (st_authzSets a)
      @ tagged ''policy versions'' (\<lambda>r. (pv_TenantID r, pv_WorkspaceID r)) (st_authzVersions a)
      @ tagged ''rollouts'' (\<lambda>r. (ro_TenantID r, ro_WorkspaceID r)) (st_authzRollouts a)
      @ tagged ''policy events'' slot_place (st_authzEvents a))"

definition outside :: "string \<Rightarrow> string \<Rightarrow> string \<times> string \<times> string \<times> string \<Rightarrow> bool" where
  "outside tenant workspaceID row = (snd (snd row) \<noteq> (tenant, workspaceID))"

lemma filter_tagged_cong:
  assumes "\<And>k v. (k, v) \<in> set m \<Longrightarrow> P k v \<longleftrightarrow> place v = (t, w)"
  shows "tagged table place (delete_where P m) = filter (outside t w) (tagged table place m)"
  unfolding tagged_def delete_where_def filter_map
  by (intro arg_cong [where f = "map _"] filter_cong refl) (use assms in \<open>auto simp: outside_def comp_def\<close>)

lemma filter_tagged:
  assumes "\<And>v. P v \<longleftrightarrow> place v = (t, w)"
  shows "tagged table place (delete_where (\<lambda>_ v. P v) m) = filter (outside t w) (tagged table place m)"
  by (rule filter_tagged_cong) (rule assms)

lemma map_del_where: "map_del key m = delete_where (\<lambda>k _. k = key) m"
  by (induction m) (auto simp: map_del_def delete_where_def)

lemma filter_tagged_id:
  assumes "\<And>k v. map_of m k = Some v \<Longrightarrow> place v = (t, w) \<longleftrightarrow> k = key" "distinct (map fst m)"
  shows "tagged table place (map_del key m) = filter (outside t w) (tagged table place m)"
  unfolding map_del_where by (rule filter_tagged_cong) (use assms in \<open>metis map_of_is_SomeI\<close>)

lemma baselines_of:
  assumes "t \<noteq> ''''" "w \<noteq> ''''"
  shows "deleteAWSPlatformBaselineResultsLocked t w '''' m = delete_where (\<lambda>_ v. sw_TenantID v = t \<and> sw_WorkspaceID v = w) m"
  using assms by (simp add: deleteAWSPlatformBaselineResultsLocked_def)

lemma delete_tenancy_rows_frame [simp]:
  shows "px_awsOnboardingAttempts (delete_tenancy_rows P s) = px_awsOnboardingAttempts s"
    "px_awsOrgRollouts (delete_tenancy_rows P s) = px_awsOrgRollouts s"
    "px_awsOrgRolloutTargets (delete_tenancy_rows P s) = px_awsOrgRolloutTargets s"
    "px_awsBaselines (delete_tenancy_rows P s) = px_awsBaselines s" "px_scans (delete_tenancy_rows P s) = px_scans s"
    "px_rawAssets (delete_tenancy_rows P s) = px_rawAssets s" "px_identities (delete_tenancy_rows P s) = px_identities s"
    "px_policies (delete_tenancy_rows P s) = px_policies s" "px_relationships (delete_tenancy_rows P s) = px_relationships s"
    "px_permissions (delete_tenancy_rows P s) = px_permissions s" "px_repoScans (delete_tenancy_rows P s) = px_repoScans s"
    "px_repoCursors (delete_tenancy_rows P s) = px_repoCursors s" "px_authz (delete_tenancy_rows P s) = px_authz s"
    "px_triageStates (delete_tenancy_rows P s) = px_triageStates s" "px_triageEvents (delete_tenancy_rows P s) = px_triageEvents s"
  by (simp_all add: delete_tenancy_rows_def Let_def)

lemma delete_tenancy_rows_sel [simp]:
  shows "px_accounts (delete_tenancy_rows P s) =
      (px_accounts s)\<lparr>ma_members := delete_where (\<lambda>_ b. P (mb_TenantID b) (mb_WorkspaceID b)) (ma_members (px_accounts s))\<rparr>"
    "px_projects (delete_tenancy_rows P s) = delete_where (\<lambda>_ row. row_in P row) (px_projects s)"
    "px_scanPolicies (delete_tenancy_rows P s) = delete_where (\<lambda>_ row. row_in P row) (px_scanPolicies s)"
    "px_connectors (delete_tenancy_rows P s) = delete_where (\<lambda>_ row. row_in P row) (px_connectors s)"
    "px_connSecrets (delete_tenancy_rows P s) = delete_where (\<lambda>_ row. row_in P row) (px_connSecrets s)"
    "px_awsCoverages (delete_tenancy_rows P s) = delete_where (\<lambda>_ row. row_in P row) (px_awsCoverages s)"
  by (simp_all add: delete_tenancy_rows_def Let_def)

lemma delete_scans_frame [simp]:
  shows "px_accounts (delete_scans t w s) = px_accounts s" "px_projects (delete_scans t w s) = px_projects s"
    "px_scanPolicies (delete_scans t w s) = px_scanPolicies s" "px_connectors (delete_scans t w s) = px_connectors s"
    "px_connSecrets (delete_scans t w s) = px_connSecrets s"
    "px_awsOnboardingAttempts (delete_scans t w s) = px_awsOnboardingAttempts s"
    "px_awsOrgRollouts (delete_scans t w s) = px_awsOrgRollouts s"
    "px_awsOrgRolloutTargets (delete_scans t w s) = px_awsOrgRolloutTargets s"
    "px_awsCoverages (delete_scans t w s) = px_awsCoverages s" "px_awsBaselines (delete_scans t w s) = px_awsBaselines s"
    "px_repoScans (delete_scans t w s) = px_repoScans s" "px_repoCursors (delete_scans t w s) = px_repoCursors s"
    "px_authz (delete_scans t w s) = px_authz s" "px_triageStates (delete_scans t w s) = px_triageStates s"
    "px_triageEvents (delete_scans t w s) = px_triageEvents s"
  by (simp_all add: delete_scans_def Let_def)

definition scans_of :: "string \<Rightarrow> string \<Rightarrow> ScanStore \<Rightarrow> string list" where
  "scans_of t w st = map fst (filter (\<lambda>(_, r). scn_TenantID r = t \<and> scn_WorkspaceID r = w) (qs_scans st))"

lemma delete_scans_sel [simp]:
  shows "qs_scans (px_scans (delete_scans t w s)) = delete_where (\<lambda>_ r. scn_TenantID r = t \<and> scn_WorkspaceID r = w) (qs_scans (px_scans s))"
    "px_rawAssets (delete_scans t w s) = filter (\<lambda>key. \<not> under_scan (scans_of t w (px_scans s)) key) (px_rawAssets s)"
    "px_identities (delete_scans t w s) = filter (\<lambda>key. \<not> under_scan (scans_of t w (px_scans s)) key) (px_identities s)"
    "px_policies (delete_scans t w s) = filter (\<lambda>key. \<not> under_scan (scans_of t w (px_scans s)) key) (px_policies s)"
    "px_relationships (delete_scans t w s) = filter (\<lambda>key. \<not> under_scan (scans_of t w (px_scans s)) key) (px_relationships s)"
    "px_permissions (delete_scans t w s) = filter (\<lambda>key. \<not> under_scan (scans_of t w (px_scans s)) key) (px_permissions s)"
  by (simp_all add: delete_scans_def scans_of_def Let_def)

lemma delete_repo_scans_frame [simp]:
  shows "px_accounts (delete_repo_scans t w s) = px_accounts s" "px_projects (delete_repo_scans t w s) = px_projects s"
    "px_scanPolicies (delete_repo_scans t w s) = px_scanPolicies s" "px_connectors (delete_repo_scans t w s) = px_connectors s"
    "px_connSecrets (delete_repo_scans t w s) = px_connSecrets s"
    "px_awsOnboardingAttempts (delete_repo_scans t w s) = px_awsOnboardingAttempts s"
    "px_awsOrgRollouts (delete_repo_scans t w s) = px_awsOrgRollouts s"
    "px_awsOrgRolloutTargets (delete_repo_scans t w s) = px_awsOrgRolloutTargets s"
    "px_awsCoverages (delete_repo_scans t w s) = px_awsCoverages s" "px_awsBaselines (delete_repo_scans t w s) = px_awsBaselines s"
    "px_scans (delete_repo_scans t w s) = px_scans s" "px_rawAssets (delete_repo_scans t w s) = px_rawAssets s"
    "px_identities (delete_repo_scans t w s) = px_identities s" "px_policies (delete_repo_scans t w s) = px_policies s"
    "px_relationships (delete_repo_scans t w s) = px_relationships s" "px_permissions (delete_repo_scans t w s) = px_permissions s"
    "px_authz (delete_repo_scans t w s) = px_authz s" "px_triageStates (delete_repo_scans t w s) = px_triageStates s"
    "px_triageEvents (delete_repo_scans t w s) = px_triageEvents s"
  by (simp_all add: delete_repo_scans_def Let_def)

lemma delete_repo_scans_sel [simp]:
  shows "px_repoScans (delete_repo_scans t w s) = delete_where (\<lambda>_ row. row_in (\<lambda>a b. a = t \<and> b = w) row) (px_repoScans s)"
    "px_repoCursors (delete_repo_scans t w s) = delete_where (\<lambda>_ row. row_in (\<lambda>a b. a = t \<and> b = w) row) (px_repoCursors s)"
  by (simp_all add: delete_repo_scans_def Let_def)

lemma clear_contexts_frame [simp]:
  shows "px_projects (clear_contexts t w s) = px_projects s" "px_scanPolicies (clear_contexts t w s) = px_scanPolicies s"
    "px_connectors (clear_contexts t w s) = px_connectors s" "px_connSecrets (clear_contexts t w s) = px_connSecrets s"
    "px_awsOnboardingAttempts (clear_contexts t w s) = px_awsOnboardingAttempts s"
    "px_awsOrgRollouts (clear_contexts t w s) = px_awsOrgRollouts s"
    "px_awsOrgRolloutTargets (clear_contexts t w s) = px_awsOrgRolloutTargets s"
    "px_awsCoverages (clear_contexts t w s) = px_awsCoverages s" "px_awsBaselines (clear_contexts t w s) = px_awsBaselines s"
    "px_scans (clear_contexts t w s) = px_scans s" "px_rawAssets (clear_contexts t w s) = px_rawAssets s"
    "px_identities (clear_contexts t w s) = px_identities s" "px_policies (clear_contexts t w s) = px_policies s"
    "px_relationships (clear_contexts t w s) = px_relationships s" "px_permissions (clear_contexts t w s) = px_permissions s"
    "px_repoScans (clear_contexts t w s) = px_repoScans s" "px_repoCursors (clear_contexts t w s) = px_repoCursors s"
    "px_authz (clear_contexts t w s) = px_authz s" "px_triageStates (clear_contexts t w s) = px_triageStates s"
    "px_triageEvents (clear_contexts t w s) = px_triageEvents s"
  by (simp_all add: clear_contexts_def Let_def)

text \<open>What a successful hard delete did, in one place.\<close>

lemma HardDelete_Inr:
  assumes "HardDeleteWorkspace fmt t0 w0 expected now s = Inr (x, s')" "t = trim_space t0" "w = trim_space w0"
    "P = (\<lambda>row :: ScopedRow. sw_TenantID row = t \<and> sw_WorkspaceID row = w)"
    "scanIDs = scans_of t w (px_scans s)"
  shows "\<exists>r. map_of (ma_workspaces (px_accounts s)) (tenancyWorkspaceKey t w) = Some r \<and> ws_Status r = ''deleted'' \<and> ws_DeletedAt r = Some expected"
    "ma_workspaces (px_accounts s') = map_del (tenancyWorkspaceKey t w) (ma_workspaces (px_accounts s))"
    "ma_members (px_accounts s') = delete_where (\<lambda>_ b. mb_TenantID b = t \<and> mb_WorkspaceID b = w) (ma_members (px_accounts s))"
    "ma_organizations (px_accounts s') = ma_organizations (px_accounts s)" "ma_users (px_accounts s') = ma_users (px_accounts s)"
    "ma_userIdentityByID (px_accounts s') = ma_userIdentityByID (px_accounts s)"
    "ma_userIdentityByProviderSubject (px_accounts s') = ma_userIdentityByProviderSubject (px_accounts s)"
    "ma_sessions (px_accounts s') = update_where (\<lambda>t'. ss_CurrentOrgID t' = t \<and> ss_CurrentWorkspaceID t' = w)
      (\<lambda>t'. t'\<lparr>ss_CurrentOrgID := '''', ss_CurrentWorkspaceID := '''', ss_CurrentProjectID := ''''\<rparr>) (ma_sessions (px_accounts s))"
    "px_projects s' = delete_where (\<lambda>_ v. P v) (px_projects s)" "px_scanPolicies s' = delete_where (\<lambda>_ v. P v) (px_scanPolicies s)"
    "px_connectors s' = delete_where (\<lambda>_ v. P v) (px_connectors s)" "px_connSecrets s' = delete_where (\<lambda>_ v. P v) (px_connSecrets s)"
    "px_awsCoverages s' = delete_where (\<lambda>_ v. P v) (px_awsCoverages s)"
    "px_awsBaselines s' = deleteAWSPlatformBaselineResultsLocked t w '''' (px_awsBaselines s)"
    "qs_scans (px_scans s') = delete_where (\<lambda>_ r. scn_TenantID r = t \<and> scn_WorkspaceID r = w) (qs_scans (px_scans s))"
    "px_repoScans s' = delete_where (\<lambda>_ v. P v) (px_repoScans s)" "px_repoCursors s' = delete_where (\<lambda>_ v. P v) (px_repoCursors s)"
    "px_authz s' = delete_authz t w (px_authz s)"
    "px_awsOnboardingAttempts s' = px_awsOnboardingAttempts s" "px_awsOrgRollouts s' = px_awsOrgRollouts s"
    "px_awsOrgRolloutTargets s' = px_awsOrgRolloutTargets s"
    "px_rawAssets s' = filter (\<lambda>key. \<not> under_scan scanIDs key) (px_rawAssets s)"
    "px_identities s' = filter (\<lambda>key. \<not> under_scan scanIDs key) (px_identities s)"
    "px_policies s' = filter (\<lambda>key. \<not> under_scan scanIDs key) (px_policies s)"
    "px_relationships s' = filter (\<lambda>key. \<not> under_scan scanIDs key) (px_relationships s)"
    "px_permissions s' = filter (\<lambda>key. \<not> under_scan scanIDs key) (px_permissions s)"
proof -
  let ?k = "tenancyWorkspaceKey t w"
  let ?s1 = "delete_workspace_rows ?k t w s"
  let ?s2 = "delete_scans t w ?s1"
  let ?s3 = "delete_repo_scans t w ?s2"
  let ?s4 = "clear_contexts t w (?s3\<lparr>px_authz := delete_authz t w (px_authz ?s3)\<rparr>)"
  from assms(1-3) obtain r where r: "map_of (ma_workspaces (px_accounts s)) ?k = Some r" "ws_Status r = ''deleted''" "ws_DeletedAt r = Some expected"
    and s': "s' = ?s4\<lparr>px_triageStates := filter (\<lambda>key. \<not> has_prefix key (t @ ''|'' @ w @ ''|'')) (px_triageStates ?s4),
        px_triageEvents := filter (\<lambda>key. \<not> has_prefix key (t @ ''|'' @ w @ ''|'')) (px_triageEvents ?s4)\<rparr>"
    by (auto simp: HardDeleteWorkspace_def Let_def split: option.split_asm if_splits)
  show "\<exists>r. map_of (ma_workspaces (px_accounts s)) ?k = Some r \<and> ws_Status r = ''deleted'' \<and> ws_DeletedAt r = Some expected"
    using r by blast
  have accounts: "px_accounts ?s1 = (px_accounts s)\<lparr>ma_workspaces := map_del ?k (ma_workspaces (px_accounts s)),
      ma_members := delete_where (\<lambda>_ b. mb_TenantID b = t \<and> mb_WorkspaceID b = w) (ma_members (px_accounts s))\<rparr>"
    by (simp add: delete_workspace_rows_def Let_def)
  show "ma_workspaces (px_accounts s') = map_del (tenancyWorkspaceKey t w) (ma_workspaces (px_accounts s))"
    by (simp add: s' accounts clear_contexts_def)
  show "ma_members (px_accounts s') = delete_where (\<lambda>_ b. mb_TenantID b = t \<and> mb_WorkspaceID b = w) (ma_members (px_accounts s))"
    by (simp add: s' accounts clear_contexts_def)
  show "ma_organizations (px_accounts s') = ma_organizations (px_accounts s)"
    by (simp add: s' accounts clear_contexts_def)
  show "ma_users (px_accounts s') = ma_users (px_accounts s)"
    by (simp add: s' accounts clear_contexts_def)
  show "ma_userIdentityByID (px_accounts s') = ma_userIdentityByID (px_accounts s)"
    by (simp add: s' accounts clear_contexts_def)
  show "ma_userIdentityByProviderSubject (px_accounts s') = ma_userIdentityByProviderSubject (px_accounts s)"
    by (simp add: s' accounts clear_contexts_def)
  show "ma_sessions (px_accounts s') = update_where (\<lambda>t'. ss_CurrentOrgID t' = t \<and> ss_CurrentWorkspaceID t' = w)
      (\<lambda>t'. t'\<lparr>ss_CurrentOrgID := '''', ss_CurrentWorkspaceID := '''', ss_CurrentProjectID := ''''\<rparr>) (ma_sessions (px_accounts s))"
    by (simp add: s' accounts clear_contexts_def)
  show "px_projects s' = delete_where (\<lambda>_ v. P v) (px_projects s)"
    by (simp add: s' assms(4) row_in_def delete_workspace_rows_def Let_def)
  show "px_scanPolicies s' = delete_where (\<lambda>_ v. P v) (px_scanPolicies s)"
    by (simp add: s' assms(4) row_in_def delete_workspace_rows_def Let_def)
  show "px_connectors s' = delete_where (\<lambda>_ v. P v) (px_connectors s)"
    by (simp add: s' assms(4) row_in_def delete_workspace_rows_def Let_def)
  show "px_connSecrets s' = delete_where (\<lambda>_ v. P v) (px_connSecrets s)"
    by (simp add: s' assms(4) row_in_def delete_workspace_rows_def Let_def)
  show "px_awsCoverages s' = delete_where (\<lambda>_ v. P v) (px_awsCoverages s)"
    by (simp add: s' assms(4) row_in_def delete_workspace_rows_def Let_def)
  show "px_awsBaselines s' = deleteAWSPlatformBaselineResultsLocked t w '''' (px_awsBaselines s)"
    by (simp add: s' assms(4) row_in_def delete_workspace_rows_def Let_def)
  show "qs_scans (px_scans s') = delete_where (\<lambda>_ r. scn_TenantID r = t \<and> scn_WorkspaceID r = w) (qs_scans (px_scans s))"
    by (simp add: s' delete_workspace_rows_def Let_def)
  show "px_repoScans s' = delete_where (\<lambda>_ v. P v) (px_repoScans s)"
    by (simp add: s' assms(4) row_in_def delete_workspace_rows_def Let_def)
  show "px_repoCursors s' = delete_where (\<lambda>_ v. P v) (px_repoCursors s)"
    by (simp add: s' assms(4) row_in_def delete_workspace_rows_def Let_def)
  show "px_authz s' = delete_authz t w (px_authz s)"
    by (simp add: s' assms(4) row_in_def delete_workspace_rows_def Let_def)
  show "px_awsOnboardingAttempts s' = px_awsOnboardingAttempts s"
    by (simp add: s' assms(4) row_in_def delete_workspace_rows_def Let_def)
  show "px_awsOrgRollouts s' = px_awsOrgRollouts s"
    by (simp add: s' assms(4) row_in_def delete_workspace_rows_def Let_def)
  show "px_awsOrgRolloutTargets s' = px_awsOrgRolloutTargets s"
    by (simp add: s' assms(4) row_in_def delete_workspace_rows_def Let_def)
  show "px_rawAssets s' = filter (\<lambda>key. \<not> under_scan scanIDs key) (px_rawAssets s)"
    by (simp add: s' assms(5) delete_workspace_rows_def Let_def)
  show "px_identities s' = filter (\<lambda>key. \<not> under_scan scanIDs key) (px_identities s)"
    by (simp add: s' assms(5) delete_workspace_rows_def Let_def)
  show "px_policies s' = filter (\<lambda>key. \<not> under_scan scanIDs key) (px_policies s)"
    by (simp add: s' assms(5) delete_workspace_rows_def Let_def)
  show "px_relationships s' = filter (\<lambda>key. \<not> under_scan scanIDs key) (px_relationships s)"
    by (simp add: s' assms(5) delete_workspace_rows_def Let_def)
  show "px_permissions s' = filter (\<lambda>key. \<not> under_scan scanIDs key) (px_permissions s)"
    by (simp add: s' assms(5) delete_workspace_rows_def Let_def)
qed


lemma filter_outside_tagged:
  assumes "tenancy_ok (px_accounts s)" "trim_space t = t" "trim_space w = w"
  shows "tagged table (\<lambda>r. (ws_TenantID r, ws_WorkspaceID r)) (map_del (tenancyWorkspaceKey t w) (ma_workspaces (px_accounts s)))
    = filter (outside t w) (tagged table (\<lambda>r. (ws_TenantID r, ws_WorkspaceID r)) (ma_workspaces (px_accounts s)))"
proof (rule filter_tagged_id)
  fix k r
  assume "map_of (ma_workspaces (px_accounts s)) k = Some r"
  with assms(1) have "k = tenancyWorkspaceKey (ws_TenantID r) (ws_WorkspaceID r)" "wf_workspace r"
    by (simp_all add: tenancy_ok_def del: map_of_eq_Some_iff)
  then show "(ws_TenantID r, ws_WorkspaceID r) = (t, w) \<longleftrightarrow> k = tenancyWorkspaceKey t w"
    using assms(2,3) by (auto simp: wf_workspace_def)
next
  show "distinct (map fst (ma_workspaces (px_accounts s)))" using assms(1) by (simp add: tenancy_ok_def)
qed

lemma events_of_slot: "t \<noteq> '''' \<Longrightarrow> slot_of_scope t w events \<longleftrightarrow> slot_place events = (t, w)"
  by (auto simp: slot_of_scope_def slot_place_def split: list.split)

text \<open>The key of an artifact starts with the identifier of its scan and a bar.\<close>

lemma has_prefix_bar:
  assumes "CHR ''|'' \<notin> set a" "CHR ''|'' \<notin> set b"
  shows "has_prefix (a @ ''|'' @ rest) (b @ ''|'') \<longleftrightarrow> a = b"
  using assms
proof (induction b arbitrary: a)
  case Nil
  then show ?case by (cases a) auto
next
  case (Cons c b)
  then show ?case by (cases a) auto
qed

lemma under_scan_key:
  assumes "CHR ''|'' \<notin> set scanID" "\<And>i. i \<in> set scanIDs \<Longrightarrow> CHR ''|'' \<notin> set i"
  shows "under_scan scanIDs (scanID @ ''|'' @ rest) \<longleftrightarrow> scanID \<in> set scanIDs"
proof -
  have "has_prefix (scanID @ ''|'' @ rest) (i @ ''|'') \<longleftrightarrow> scanID = i" if "i \<in> set scanIDs" for i
    by (rule has_prefix_bar) (use assms that in auto)
  then show ?thesis unfolding under_scan_def list_ex_iff by auto
qed

lemma hard_delete_rows:
  assumes "tenancy_ok (px_accounts s)" "HardDeleteWorkspace fmt t0 w0 expected now s = Inr (x, s')"
    and "t = trim_space t0" "w = trim_space w0"
  shows "t \<noteq> ''''" "w \<noteq> ''''" "scoped_rows s' = filter (outside t w) (scoped_rows s)"
proof -
  note f = HardDelete_Inr [OF assms(2-4) refl refl]
  from f(1) obtain r where r: "map_of (ma_workspaces (px_accounts s)) (tenancyWorkspaceKey t w) = Some r" by blast
  with assms(1) have "tenancyWorkspaceKey t w = tenancyWorkspaceKey (ws_TenantID r) (ws_WorkspaceID r)" "wf_workspace r"
    by (simp_all add: tenancy_ok_def del: map_of_eq_Some_iff)
  then show ne: "t \<noteq> ''''" "w \<noteq> ''''" using assms(3,4) by (auto simp: wf_workspace_def)
  have tw: "trim_space t = t" "trim_space w = w" using assms(3,4) by simp_all
  show "scoped_rows s' = filter (outside t w) (scoped_rows s)"
    using ne by (simp add: scoped_rows_def Let_def f(2-18) delete_authz_def baselines_of events_of_slot
        filter_outside_tagged [OF assms(1) tw] filter_tagged)
qed



subsection \<open>A purge pass\<close>

fun purge_rows :: "('r \<Rightarrow> 's \<Rightarrow> 's option) \<Rightarrow> 'r list \<Rightarrow> 's \<Rightarrow> 's option" where
  "purge_rows purge [] s = Some s"
| "purge_rows purge (r # rs) s = (case purge r s of None \<Rightarrow> None | Some s' \<Rightarrow> purge_rows purge rs s')"

text \<open>
  What a worker relies on: a row the store lists can be purged, and the purge takes exactly that row off
  the list and keeps of the view what does not belong to it.
\<close>

locale purge_pass =
  fixes listed :: "'s \<Rightarrow> 'r list"
    and purge :: "'r \<Rightarrow> 's \<Rightarrow> 's option"
    and ok :: "'s \<Rightarrow> bool"
    and view :: "'s \<Rightarrow> 'v list"
    and keep :: "'r \<Rightarrow> 'v \<Rightarrow> bool"
  assumes distinct_listed: "ok s \<Longrightarrow> distinct (listed s)"
    and purge_listed: "ok s \<Longrightarrow> r \<in> set (listed s) \<Longrightarrow>
      \<exists>s'. purge r s = Some s' \<and> ok s' \<and> listed s' = filter (\<lambda>q. q \<noteq> r) (listed s) \<and> view s' = filter (keep r) (view s)"
begin

lemma purge_all:
  assumes "ok s" "distinct rs" "set rs \<subseteq> set (listed s)"
  shows "\<exists>s'. purge_rows purge rs s = Some s' \<and> ok s' \<and> listed s' = filter (\<lambda>q. q \<notin> set rs) (listed s)
    \<and> view s' = filter (\<lambda>v. \<forall>r \<in> set rs. keep r v) (view s)"
  using assms
proof (induction rs arbitrary: s)
  case Nil
  then show ?case by simp
next
  case (Cons r rs)
  then obtain t where t: "purge r s = Some t" "ok t" "listed t = filter (\<lambda>q. q \<noteq> r) (listed s)" "view t = filter (keep r) (view s)"
    using purge_listed [of s r] by auto
  moreover have "distinct rs" "set rs \<subseteq> set (listed t)" using Cons.prems by (auto simp: t(3))
  ultimately obtain s' where "purge_rows purge rs t = Some s'" "ok s'" "listed s' = filter (\<lambda>q. q \<notin> set rs) (listed t)"
    "view s' = filter (\<lambda>v. \<forall>r \<in> set rs. keep r v) (view t)" using Cons.IH by blast
  with t show ?case by (auto intro!: filter_cong)
qed

lemma one_pass:
  assumes "ok s" "rs = take n (sort_key f (listed s))"
  shows "\<exists>s'. purge_rows purge rs s = Some s' \<and> ok s' \<and> listed s' = filter (\<lambda>q. q \<notin> set rs) (listed s)
    \<and> view s' = filter (\<lambda>v. \<forall>r \<in> set rs. keep r v) (view s) \<and> length (listed s') = length (listed s) - n"
proof -
  have d: "distinct (listed s)" by (rule distinct_listed) (rule assms)
  have s: "set rs \<subseteq> set (listed s)" using set_take_subset [of n "sort_key f (listed s)"] assms(2) by simp
  have "length (filter (\<lambda>q. q \<notin> set rs) (listed s)) = card (set (listed s) - set rs)"
    using d by (simp add: distinct_card [symmetric] set_diff_eq Collect_conj_eq)
  also have "\<dots> = length (listed s) - n"
    using s d assms(2) by (simp add: card_Diff_subset distinct_card)
  finally show ?thesis using purge_all [OF assms(1) _ s] d assms(2) by auto
qed

end

text \<open>Passes that each take a batch off a backlog drain it.\<close>

lemma passes_drain:
  assumes "\<And>s. ok s \<Longrightarrow> ok (f s) \<and> (backlog (f s) :: nat) = backlog s - batch" "ok s"
  shows "ok ((f ^^ k) s) \<and> backlog ((f ^^ k) s) = backlog s - k * batch"
  by (induction k) (use assms in \<open>auto simp: diff_diff_left add.commute\<close>)

lemma filter_map_put:
  assumes "distinct (map fst m)" "map_of m k = Some r" "\<not> P x" "\<forall>(j, v) \<in> set m. v = r \<longrightarrow> j = k"
  shows "filter P (map snd (map_put k x m)) = filter (\<lambda>q. q \<noteq> r) (filter P (map snd m))"
  using assms
proof (induction m)
  case (Cons kv m)
  obtain j v where kv: "kv = (j, v)" by (cases kv)
  show ?case
  proof (cases "j = k")
    case True
    have "r \<notin> snd ` set m" using Cons.prems(1,4) True kv by force
    then have "filter (\<lambda>q. q \<noteq> r) (filter P (map snd m)) = filter P (map snd m)" unfolding filter_id_conv by auto
    with True kv Cons.prems(2,3) show ?thesis by (simp add: map_put_def)
  next
    case False
    with Cons kv show ?thesis by (auto simp: map_put_def simp del: map_of_eq_Some_iff)
  qed
qed simp

lemma filter_map_del:
  assumes "map_of m k = Some r" "distinct (map fst m)" "\<forall>(j, v) \<in> set m. v = r \<longrightarrow> j = k"
  shows "filter P (map snd (map_del k m)) = filter (\<lambda>q. q \<noteq> r) (filter P (map snd m))"
proof -
  have "(\<lambda>(j, v). j \<noteq> k) jv \<longleftrightarrow> ((\<lambda>q. q \<noteq> r) \<circ> snd) jv" if "jv \<in> set m" for jv
  proof -
    obtain j v where jv: "jv = (j, v)" by (cases jv)
    from that assms(2) have "map_of m j = Some v" by (simp add: jv)
    with assms(1) have "j = k \<Longrightarrow> v = r" by (simp del: map_of_eq_Some_iff)
    moreover from that assms(3) have "v = r \<longrightarrow> j = k" by (auto simp: jv)
    ultimately show ?thesis by (auto simp: jv)
  qed
  then have "filter (\<lambda>(j, v). j \<noteq> k) m = filter ((\<lambda>q. q \<noteq> r) \<circ> snd) m" by (rule filter_cong [OF refl])
  then have "map snd (map_del k m) = filter (\<lambda>q. q \<noteq> r) (map snd m)"
    by (simp add: map_del_where delete_where_def filter_map)
  then show ?thesis by (simp add: conj_commute)
qed


subsection \<open>Accounts and workspaces as rows to purge\<close>

definition pending_users :: "time \<Rightarrow> AccountTables \<Rightarrow> User list" where
  "pending_users cutoff m = filter (pending_user cutoff) (map snd (ma_users m))"

definition purge_user :: "time \<Rightarrow> User \<Rightarrow> AccountTables \<Rightarrow> AccountTables option" where
  "purge_user now user m = (case HardDeleteUser (us_ID user) now m of Inl _ \<Rightarrow> None | Inr (_, m') \<Rightarrow> Some m')"

definition accounts_ready :: "AccountTables \<Rightarrow> bool" where
  "accounts_ready m \<longleftrightarrow> accounts_ok m \<and> (\<forall>i u. map_of (ma_users m) i = Some u \<longrightarrow> trim_space i = i)"

definition tenancy_ready :: "PurgeStore \<Rightarrow> bool" where
  "tenancy_ready s \<longleftrightarrow> tenancy_ok (px_accounts s)"

definition pending_workspaces :: "time \<Rightarrow> PurgeStore \<Rightarrow> TenancyWorkspace list" where
  "pending_workspaces cutoff s = filter (pending_workspace cutoff) (map snd (ma_workspaces (px_accounts s)))"

definition purge_workspace :: "(time \<Rightarrow> string) \<Rightarrow> time \<Rightarrow> TenancyWorkspace \<Rightarrow> PurgeStore \<Rightarrow> PurgeStore option" where
  "purge_workspace fmt now w s =
    (case ws_DeletedAt w of
       None \<Rightarrow> None
     | Some d \<Rightarrow> (case HardDeleteWorkspace fmt (ws_TenantID w) (ws_WorkspaceID w) d now s of Inl _ \<Rightarrow> None | Inr (_, s') \<Rightarrow> Some s'))"

lemma distinct_rows:
  assumes "distinct (map fst m)" "\<forall>(j, v) \<in> set m. j = key v"
  shows "distinct (map snd m)"
proof -
  have "map fst m = map key (map snd m)" using assms(2) by (auto split: prod.splits)
  with assms(1) show ?thesis by (metis distinct_map)
qed

lemma tombstone_not_pending:
  "us_ID x = i \<Longrightarrow> us_PrimaryEmail x = HardDeletedTombstoneEmail i \<Longrightarrow> \<not> pending_user cutoff x"
  by (auto simp: pending_user_def IsHardDeletedTombstoneEmailForUser_def equal_fold_def tombstone_trimmed split: option.split)

lemma purge_user_listed:
  assumes "accounts_ready m" "u \<in> set (pending_users cutoff m)"
  shows "\<exists>m'. purge_user now u m = Some m' \<and> accounts_ready m' \<and> pending_users cutoff m' = filter (\<lambda>q. q \<noteq> u) (pending_users cutoff m)
    \<and> ma_sessions m' = filter (\<lambda>(_, y). ss_UserID y \<noteq> us_ID u) (ma_sessions m)"
proof -
  have ok: "accounts_ok m" and trimmed: "\<And>i u. map_of (ma_users m) i = Some u \<Longrightarrow> trim_space i = i"
    using assms(1) by (simp_all add: accounts_ready_def)
  have d: "distinct (map fst (ma_users m))" and ids: "\<forall>(j, v) \<in> set (ma_users m). us_ID v = j"
    using ok by (auto simp: accounts_ok_def users_ok_def)
  from assms(2) obtain i where "(i, u) \<in> set (ma_users m)" "pending_user cutoff u" by (auto simp: pending_users_def)
  with ids d have u1: "map_of (ma_users m) (us_ID u) = Some u" by auto
  note u = u1 trimmed [OF u1]
  have p: "us_Status u = ''deleted''" "us_DeletedAt u \<noteq> None"
    using \<open>pending_user cutoff u\<close> by (auto simp: pending_user_def split: option.splits)
  then obtain x m' where h: "HardDeleteUser (us_ID u) now m = Inr (x, m')"
    using u by (simp add: HardDeleteUser_def Let_def del: map_of_eq_Some_iff)
  from h u obtain f: "x = u\<lparr>us_PrimaryEmail := HardDeletedTombstoneEmail (us_ID u), us_DisplayName := '''', us_AvatarURL := '''', us_UpdatedAt := now\<rparr>"
    "ma_users m' = map_put (us_ID u) x (ma_users m)" "ma_sessions m' = delete_where (\<lambda>_ s. ss_UserID s = us_ID u) (ma_sessions m)"
    by (elim HardDeleteUser_Inr) (auto simp del: map_of_eq_Some_iff)
  have "accounts_ready m'"
    using HardDeleteUser_ok [OF ok h] trimmed u(2) by (auto simp: accounts_ready_def f(2) simp del: map_of_eq_Some_iff)
  moreover have "pending_users cutoff m' = filter (\<lambda>q. q \<noteq> u) (pending_users cutoff m)"
    unfolding pending_users_def f(2)
    by (rule filter_map_put [OF d u(1)]) (use ids tombstone_not_pending [of x "us_ID u"] f(1) in auto)
  ultimately show ?thesis using h by (auto simp: purge_user_def f(3) delete_where_def)
qed

interpretation accounts: purge_pass "pending_users cutoff" "purge_user now" accounts_ready ma_sessions "\<lambda>u (_, y). ss_UserID y \<noteq> us_ID u"
  for cutoff now
proof (unfold_locales)
  fix m
  assume "accounts_ready m"
  then have "distinct (map snd (ma_users m))"
    by (intro distinct_rows [where key = us_ID]) (auto simp: accounts_ready_def accounts_ok_def users_ok_def)
  then show "distinct (pending_users cutoff m)" by (simp add: pending_users_def)
qed (rule purge_user_listed)

lemma HardDeleteWorkspace_ok:
  assumes "tenancy_ok (px_accounts s)" "HardDeleteWorkspace fmt t0 w0 expected now s = Inr (x, s')"
  shows "tenancy_ok (px_accounts s')"
proof -
  note f = HardDelete_Inr [OF assms(2) refl refl refl refl]
  have d: "distinct (map fst (ma_workspaces (px_accounts s)))" "distinct (map fst (ma_members (px_accounts s)))"
    using assms(1) by (simp_all add: tenancy_ok_def)
  have "wf_member b \<and> k = tenancyMemberKey (mb_TenantID b) (mb_WorkspaceID b) (mb_MemberID b)
      \<and> has_key (ma_workspaces (px_accounts s')) (member_workspace_key b)"
    if "map_of (ma_members (px_accounts s')) k = Some b" for k b
  proof -
    from that have b: "map_of (ma_members (px_accounts s)) k = Some b" "\<not> (mb_TenantID b = trim_space t0 \<and> mb_WorkspaceID b = trim_space w0)"
      by (simp_all add: f(3) map_of_delete_where [OF d(2)] del: map_of_eq_Some_iff split: option.split_asm if_split_asm)
    from assms(1) b(1) have w: "wf_member b" "k = tenancyMemberKey (mb_TenantID b) (mb_WorkspaceID b) (mb_MemberID b)"
      "has_key (ma_workspaces (px_accounts s)) (member_workspace_key b)"
      by (simp_all add: tenancy_ok_def del: map_of_eq_Some_iff)
    with b(2) have "member_workspace_key b \<noteq> tenancyWorkspaceKey (trim_space t0) (trim_space w0)"
      by (simp add: member_workspace_key_def wf_member_def)
    with w show ?thesis by (simp add: f(2) has_key_iff del: map_of_eq_Some_iff)
  qed
  moreover have "wf_workspace r \<and> lifecycle_ok r \<and> k = tenancyWorkspaceKey (ws_TenantID r) (ws_WorkspaceID r)
      \<and> has_key (ma_organizations (px_accounts s')) (ws_TenantID r)"
    if "map_of (ma_workspaces (px_accounts s')) k = Some r" for k r
  proof -
    from that have "map_of (ma_workspaces (px_accounts s)) k = Some r"
      by (simp add: f(2) del: map_of_eq_Some_iff split: if_split_asm)
    with assms(1) show ?thesis by (simp add: tenancy_ok_def f(4) del: map_of_eq_Some_iff)
  qed
  moreover have "distinct (map fst (ma_workspaces (px_accounts s')))" "distinct (map fst (ma_members (px_accounts s')))"
    unfolding f(2,3) using d by (simp_all add: distinct_del distinct_delete_where)
  ultimately show ?thesis unfolding tenancy_ok_def by blast
qed

lemma purge_workspace_listed:
  assumes "tenancy_ready s" "w \<in> set (pending_workspaces cutoff s)"
  shows "\<exists>s'. purge_workspace fmt now w s = Some s' \<and> tenancy_ready s'
    \<and> pending_workspaces cutoff s' = filter (\<lambda>q. q \<noteq> w) (pending_workspaces cutoff s)
    \<and> scoped_rows s' = filter (outside (ws_TenantID w) (ws_WorkspaceID w)) (scoped_rows s)"
proof -
  let ?m = "px_accounts s" and ?k = "tenancyWorkspaceKey (ws_TenantID w) (ws_WorkspaceID w)"
  have ok: "tenancy_ok ?m" using assms(1) by (simp add: tenancy_ready_def)
  have d: "distinct (map fst (ma_workspaces ?m))" and keys: "\<forall>(j, v) \<in> set (ma_workspaces ?m).
      j = tenancyWorkspaceKey (ws_TenantID v) (ws_WorkspaceID v) \<and> wf_workspace v"
    using ok by (auto simp: tenancy_ok_def)
  from assms(2) obtain j where "(j, w) \<in> set (ma_workspaces ?m)" and pend: "pending_workspace cutoff w"
    by (auto simp: pending_workspaces_def)
  with keys d have w: "map_of (ma_workspaces ?m) ?k = Some w" "wf_workspace w" by auto
  have tr: "ws_TenantID w = trim_space (ws_TenantID w)" "ws_WorkspaceID w = trim_space (ws_WorkspaceID w)"
    using w(2) by (simp_all add: wf_workspace_def)
  from pend obtain t where t: "ws_DeletedAt w = Some t" "ws_Status w = ''deleted''"
    by (auto simp: pending_workspace_def split: option.splits)
  then obtain x s' where h: "HardDeleteWorkspace fmt (ws_TenantID w) (ws_WorkspaceID w) t now s = Inr (x, s')"
    using w(1) tr [symmetric] by (simp add: HardDeleteWorkspace_def Let_def del: map_of_eq_Some_iff)
  have "pending_workspaces cutoff s' = filter (\<lambda>q. q \<noteq> w) (pending_workspaces cutoff s)"
    unfolding pending_workspaces_def HardDelete_Inr(2) [OF h tr refl refl] by (rule filter_map_del [OF w(1) d]) (use keys in auto)
  moreover have "scoped_rows s' = filter (outside (ws_TenantID w) (ws_WorkspaceID w)) (scoped_rows s)"
    by (rule hard_delete_rows(3) [OF ok h tr])
  ultimately show ?thesis using h t HardDeleteWorkspace_ok [OF ok h] by (simp add: purge_workspace_def tenancy_ready_def)
qed

interpretation workspaces: purge_pass "pending_workspaces cutoff" "purge_workspace fmt now" tenancy_ready
  scoped_rows "\<lambda>w. outside (ws_TenantID w) (ws_WorkspaceID w)" for cutoff fmt now
proof (unfold_locales)
  fix s
  assume "tenancy_ready s"
  then have "distinct (map snd (ma_workspaces (px_accounts s)))"
    by (intro distinct_rows [where key = "\<lambda>w. tenancyWorkspaceKey (ws_TenantID w) (ws_WorkspaceID w)"]) (auto simp: tenancy_ready_def tenancy_ok_def)
  then show "distinct (pending_workspaces cutoff s)" by (simp add: pending_workspaces_def)
qed (rule purge_workspace_listed)


subsection \<open>The workers on their stores\<close>

lemma purge_users_rows:
  assumes "purge_rows (purge_user now) rows m = Some m'"
  shows "purge_users (\<lambda>_. None) i now rows res m = ((res\<lparr>pu_Purged := pu_Purged res + int (length rows)\<rparr>, None), m')"
  using assms
proof (induction rows arbitrary: i res m)
  case (Cons u rows)
  from Cons.prems obtain n where n: "purge_user now u m = Some n" "purge_rows (purge_user now) rows n = Some m'"
    by (auto split: option.splits)
  from n(1) obtain x where h: "HardDeleteUser (us_ID u) now m = Inr (x, n)" by (auto simp: purge_user_def split: sum.splits)
  show ?case by (simp add: h Cons.IH [OF n(2), of "Suc i"])
qed simp

lemma purge_workspaces_rows:
  assumes "purge_rows (purge_workspace fmt now) rows s = Some s'"
  shows "purge_workspaces fmt (\<lambda>_. None) i now rows res s = ((res\<lparr>pu_Purged := pu_Purged res + int (length rows)\<rparr>, None), s')"
  using assms
proof (induction rows arbitrary: i res s)
  case (Cons w rows)
  from Cons.prems obtain n where n: "purge_workspace fmt now w s = Some n" "purge_rows (purge_workspace fmt now) rows n = Some s'"
    by (auto split: option.splits)
  from n(1) obtain x d where h: "ws_DeletedAt w = Some d" "HardDeleteWorkspace fmt (ws_TenantID w) (ws_WorkspaceID w) d now s = Inr (x, n)"
    by (auto simp: purge_workspace_def split: sum.splits option.splits)
  show ?case by (simp add: h Cons.IH [OF n(2), of "Suc i"])
qed simp

lemma batch_rows: "limit_list (page_limit 100 (batch_of r)) xs = take (nat (batch_of r)) xs"
  by (simp add: limit_list_def page_limit_def batch_of_def)

definition purge_report :: "nat \<Rightarrow> PurgeResult" where
  "purge_report n = \<lparr>pu_Examined = int n, pu_Purged = int n, pu_Errors = 0\<rparr>"

lemma userpurge_pass:
  assumes "accounts_ready m" "pr_HasStore r" "cutoff = pr_Now r - grace_of UserDeletionGracePeriod r"
    and "rows = ListUsersPendingHardDelete cutoff (batch_of r) m"
  shows "\<exists>m'. userpurge_RunOnce r (\<lambda>_. None) m = ((purge_report (length rows), None), m') \<and> accounts_ready m'
    \<and> pending_users cutoff m' = filter (\<lambda>u. u \<notin> set rows) (pending_users cutoff m)
    \<and> ma_sessions m' = filter (\<lambda>(_, y). ss_UserID y \<notin> us_ID ` set rows) (ma_sessions m)
    \<and> length (pending_users cutoff m') = length (pending_users cutoff m) - nat (batch_of r)"
proof -
  have rows: "rows = take (nat (batch_of r)) (sort_key (\<lambda>u. (deleted_at (us_DeletedAt u), us_ID u)) (pending_users cutoff m))"
    by (simp add: assms(4) ListUsersPendingHardDelete_def batch_rows pending_users_def)
  obtain m' where m': "purge_rows (purge_user (pr_Now r)) rows m = Some m'" "accounts_ready m'"
    "pending_users cutoff m' = filter (\<lambda>q. q \<notin> set rows) (pending_users cutoff m)"
    "ma_sessions m' = filter (\<lambda>v. \<forall>u \<in> set rows. case v of (_, y) \<Rightarrow> ss_UserID y \<noteq> us_ID u) (ma_sessions m)"
    "length (pending_users cutoff m') = length (pending_users cutoff m) - nat (batch_of r)"
    using accounts.one_pass [OF assms(1) rows] by blast
  have "userpurge_RunOnce r (\<lambda>_. None) m = ((purge_report (length rows), None), m')"
    using assms(2) by (simp add: userpurge_RunOnce_def Let_def assms(3,4) [symmetric] purge_users_rows [OF m'(1)] purge_report_def)
  moreover have "ma_sessions m' = filter (\<lambda>(_, y). ss_UserID y \<notin> us_ID ` set rows) (ma_sessions m)"
    unfolding m'(4) by (rule filter_cong) auto
  ultimately show ?thesis using m' by blast
qed

lemma workspacepurge_pass:
  assumes "tenancy_ready s" "pr_HasStore r" "cutoff = pr_Now r - grace_of WorkspaceDeletionGracePeriod r"
    and "rows = ListWorkspacesPendingHardDelete cutoff (batch_of r) (px_accounts s)"
  shows "\<exists>s'. workspacepurge_RunOnce r fmt (\<lambda>_. None) s = ((purge_report (length rows), None), s') \<and> tenancy_ready s'
    \<and> pending_workspaces cutoff s' = filter (\<lambda>w. w \<notin> set rows) (pending_workspaces cutoff s)
    \<and> scoped_rows s' = filter (\<lambda>row. \<forall>w \<in> set rows. outside (ws_TenantID w) (ws_WorkspaceID w) row) (scoped_rows s)
    \<and> length (pending_workspaces cutoff s') = length (pending_workspaces cutoff s) - nat (batch_of r)"
proof -
  have rows: "rows = take (nat (batch_of r)) (sort_key (\<lambda>w. (deleted_at (ws_DeletedAt w), ws_WorkspaceID w)) (pending_workspaces cutoff s))"
    by (simp add: assms(4) ListWorkspacesPendingHardDelete_def batch_rows pending_workspaces_def)
  obtain s' where s': "purge_rows (purge_workspace fmt (pr_Now r)) rows s = Some s'" "tenancy_ready s'"
    "pending_workspaces cutoff s' = filter (\<lambda>q. q \<notin> set rows) (pending_workspaces cutoff s)"
    "scoped_rows s' = filter (\<lambda>row. \<forall>w \<in> set rows. outside (ws_TenantID w) (ws_WorkspaceID w) row) (scoped_rows s)"
    "length (pending_workspaces cutoff s') = length (pending_workspaces cutoff s) - nat (batch_of r)"
    using workspaces.one_pass [OF assms(1) rows] by blast
  have "workspacepurge_RunOnce r fmt (\<lambda>_. None) s = ((purge_report (length rows), None), s')"
    using assms(2) by (simp add: workspacepurge_RunOnce_def Let_def assms(3,4) [symmetric] purge_workspaces_rows [OF s'(1)] purge_report_def)
  with s' show ?thesis by blast
qed

lemma listed_row_pending:
  "w \<in> set (ListWorkspacesPendingHardDelete cutoff limit m) \<Longrightarrow> w \<in> set (map snd (ma_workspaces m)) \<and> pending_workspace cutoff w"
  using set_limit_list by (fastforce simp: ListWorkspacesPendingHardDelete_def)

lemma listed_user_pending:
  "u \<in> set (ListUsersPendingHardDelete cutoff limit m) \<Longrightarrow> u \<in> set (map snd (ma_users m)) \<and> pending_user cutoff u"
  using set_limit_list by (fastforce simp: ListUsersPendingHardDelete_def)

text \<open>
  The account purge never gets stuck and drains its backlog. With a context that is not cancelled, a
  pass reports no error and purges every row it examined; each of these was deleted for longer than the
  grace period; exactly the sessions of their accounts go. Every pass takes a full batch off the backlog,
  so after \<open>k\<close> passes \<open>k\<close> batches are gone, none is left once \<open>k\<close> batches cover the backlog, and
  a further pass changes nothing.
\<close>

theorem user_purge_drains:
  assumes "accounts_ready m" "pr_HasStore r" "cutoff = pr_Now r - grace_of UserDeletionGracePeriod r"
    and "rows = ListUsersPendingHardDelete cutoff (batch_of r) m"
    and "pass = snd \<circ> userpurge_RunOnce r (\<lambda>_. None)"
  shows "fst (userpurge_RunOnce r (\<lambda>_. None) m) = (\<lparr>pu_Examined = int (length rows), pu_Purged = int (length rows), pu_Errors = 0\<rparr>, None)
    \<and> (\<forall>u \<in> set rows. \<exists>d. us_DeletedAt u = Some d \<and> grace_of UserDeletionGracePeriod r < pr_Now r - d)
    \<and> ma_sessions (pass m) = filter (\<lambda>(_, y). ss_UserID y \<notin> us_ID ` set rows) (ma_sessions m)
    \<and> length (pending_users cutoff ((pass ^^ k) m)) = length (pending_users cutoff m) - k * nat (batch_of r)
    \<and> (pending_users cutoff m = [] \<longrightarrow> pass m = m)"
proof -
  let ?run = "userpurge_RunOnce r (\<lambda>_. None)"
  note p = userpurge_pass [OF _ assms(2,3) refl]
  have "accounts_ready n \<Longrightarrow> accounts_ready (pass n)
      \<and> length (pending_users cutoff (pass n)) = length (pending_users cutoff n) - nat (batch_of r)" for n
    using p [of n] by (auto simp: assms(5))
  from passes_drain [where f = pass, OF this assms(1)]
  have 1: "length (pending_users cutoff ((pass ^^ k) m)) = length (pending_users cutoff m) - k * nat (batch_of r)" by blast
  have 2: "fst (?run m) = (\<lparr>pu_Examined = int (length rows), pu_Purged = int (length rows), pu_Errors = 0\<rparr>, None)"
    "ma_sessions (pass m) = filter (\<lambda>(_, y). ss_UserID y \<notin> us_ID ` set rows) (ma_sessions m)"
    using p [OF assms(1)] by (auto simp: assms(4,5) purge_report_def)
  have 3: "\<exists>d. us_DeletedAt u = Some d \<and> grace_of UserDeletionGracePeriod r < pr_Now r - d" if "u \<in> set rows" for u
    using listed_user_pending [of u cutoff "batch_of r" m] that assms(3,4) by (auto simp: pending_user_def split: option.splits)
  have 4: "pass m = m" if "pending_users cutoff m = []"
    using that assms(2) by (simp add: assms(3,5) userpurge_RunOnce_def Let_def ListUsersPendingHardDelete_def pending_users_def limit_list_def)
  show ?thesis using 1 2 3 4 by blast
qed



subsection \<open>Samples\<close>

definition demo_scan :: "string \<Rightarrow> string \<Rightarrow> ScanRecord" where
  "demo_scan i w = \<lparr>scn_ID = i, scn_TenantID = ''acme'', scn_WorkspaceID = w, scn_ProjectID = '''', scn_ConnectorID = '''',
     scn_Provider = ''aws'', scn_Status = ''completed'', scn_StartedAt = 0, scn_FinishedAt = None, scn_AssetCount = 0,
     scn_FindingCount = 0, scn_ErrorMessage = '''', scn_RetryCount = 0, scn_MaxRetryCount = 0, scn_FailureCategory = '''',
     scn_NextRetryAt = None, scn_DeadLettered = False, scn_DeadLetteredAt = None, scn_TraceParent = '''', scn_TraceState = ''''\<rparr>"

definition demo_row :: "string \<Rightarrow> ScopedRow" where
  "demo_row w = \<lparr>sw_TenantID = ''acme'', sw_WorkspaceID = w\<rparr>"

definition demo_purge :: PurgeStore where
  "demo_purge = \<lparr>px_accounts = demo_removed, px_projects = [(''p1'', demo_row ''prod''), (''p2'', demo_row ''dev'')],
     px_scanPolicies = [], px_connectors = [(''c1'', demo_row ''prod'')], px_connStates = [''c1''], px_connSecrets = [],
     px_awsOnboardingAttempts = [(''a1'', demo_row ''prod'')], px_awsOrgRollouts = [], px_awsOrgRolloutTargets = [],
     px_awsCoverages = [], px_awsBaselines = [],
     px_scans = empty_scans\<lparr>qs_scans := [(''s1'', demo_scan ''s1'' ''prod''), (''s2'', demo_scan ''s2'' ''dev'')]\<rparr>,
     px_repoScans = [], px_rawAssets = [''s1|x'', ''s2|x''], px_identities = [], px_policies = [], px_relationships = [],
     px_permissions = [], px_scanFindings = [], px_findings = [], px_repoFindingIDs = [], px_repoFindings = [], px_repoCursors = [],
     px_authz = NewMemoryStore, px_onboardingStates = [], px_triageStates = [], px_triageEvents = []\<rparr>"

lemma demo_purge_ok: "tenancy_ok (px_accounts demo_purge)"
  using demo_removed_ok by (simp add: demo_purge_def)


definition demo_runner :: PurgeRunner where
  "demo_runner = \<lparr>pr_HasStore = True, pr_Now = 501 + WorkspaceDeletionGracePeriod, pr_BatchSize = 0, pr_GracePeriod = 0\<rparr>"


theorem user_purge_drains_witness:
  "fst (userpurge_RunOnce demo_runner (\<lambda>_. None) demo_deleted) = (\<lparr>pu_Examined = 1, pu_Purged = 1, pu_Errors = 0\<rparr>, None)
    \<and> pending_users 501 ((snd \<circ> userpurge_RunOnce demo_runner (\<lambda>_. None)) demo_deleted) = []"
proof -
  let ?rows = "ListUsersPendingHardDelete 501 (batch_of demo_runner) demo_deleted"
  have r: "pr_HasStore demo_runner" "501 = pr_Now demo_runner - grace_of UserDeletionGracePeriod demo_runner"
    by (simp_all add: demo_runner_def grace_of_def UserDeletionGracePeriod_def WorkspaceDeletionGracePeriod_def)
  have n: "length ?rows = 1" "length (pending_users 501 demo_deleted) = 1" "batch_of demo_runner = 100" by code_simp+
  have "list_all (\<lambda>(i, _). trim_space i = i) (ma_users demo_deleted)" by code_simp
  then have "accounts_ready demo_deleted"
    using demo_deleted_ok by (auto simp: accounts_ready_def list_all_iff simp del: map_of_eq_Some_iff dest: map_of_SomeD)
  from user_purge_drains [OF this r refl refl, where k = 1] n show ?thesis by simp
qed

end
