(* ===== verification/Spec2Isabelle.thy ===== *)
theory Spec2Isabelle
  imports Authz_Middleware Policy_Admin Cron Scan_Worker Workspace_Lifecycle Workspace_Purge
begin

text \<open>
  Verification of the core of Identrail, a multi-tenant identity-risk scanner written in Go.

  The program. Every record of the service belongs to a scope, a tenant and a workspace. A request passes
  a chain of middlewares of \<^verbatim>\<open>internal/api\<close>: the rate limiter, authentication (API key, bearer token or
  session), the request scope, and the central policy, which resolves the scope's rollout to compiled
  policy bundles, decides by a staged engine (tenant isolation, role grants, attributes, relations,
  default) and may evaluate a candidate bundle in shadow mode or for a canary. Behind it, handlers call
  the service (\<^verbatim>\<open>internal/api/service.go\<close>) and the store (\<^verbatim>\<open>internal/db\<close>, of which the in-memory adapter is
  Go code throughout). Scans are queued in the store, claimed by a worker under a keyed lock, run by a
  scanner, retried with a backoff, and dead-lettered. Accounts and workspaces are suspended or deleted
  with a grace period; two workers purge what has been deleted for longer.

  Theories and sources, in the order of imports.
  \<^item> \<open>Go_Base\<close>: strings (bytes), \<^verbatim>\<open>strings.TrimSpace\<close> and case mapping, errors and sentinels, maps as association
    lists, and the collections of simplification rules (\<open>norm_simps\<close>, \<open>map_simps\<close>, \<open>result_simps\<close>). It is
    the prelude.
  \<^item> \<open>Scope\<close> (\<^verbatim>\<open>internal/db/scope.go\<close>): scopes, the request context that carries them.
  \<^item> \<open>Policy_Engine\<close> (\<^verbatim>\<open>internal/api/authz_policy.go\<close>) and \<open>Policy_Evaluators\<close> (\<^verbatim>\<open>authz_evaluators.go\<close>): the stages;
    the engine refines "the first opinion decides".
  \<^item> \<open>Authz_Records\<close> (\<^verbatim>\<open>internal/db/store.go\<close>) and \<open>Authz_Store\<close> (\<^verbatim>\<open>internal/db/memory.go\<close>): the authorization
    tables with their normalizers, invariant and step relation; the evaluators are sound on the store.
  \<^item> \<open>Policy_Bundle\<close>, \<open>Policy_Builtin\<close>, \<open>Policy_Runtime\<close> (\<^verbatim>\<open>authz_policy_bundle_runtime.go\<close>, \<^verbatim>\<open>authz_middleware.go\<close>):
    compilation of bundles, the shipped policy, the resolver with its compile cache.
  \<^item> \<open>Request_Context\<close>, \<open>Authentication\<close>, \<open>Rate_Limit\<close> (\<^verbatim>\<open>router.go\<close>): the gin context, authentication and request
    scope, the limiter table.
  \<^item> \<open>Tenancy_Records\<close> (\<^verbatim>\<open>internal/db/store.go\<close>): organizations, workspaces, members, accounts, identities,
    sessions, their normalizers, the keys of the tables and the tombstones.
  \<^item> \<open>Authz_Roles\<close>, \<open>Authz_Rollout\<close>, \<open>Authz_Middleware\<close> (\<^verbatim>\<open>authz_middleware.go\<close>): roles from memberships, rollout
    targeting and shadow evaluation, the central middleware and the check of bulk deletes.
  \<^item> \<open>Policy_Admin\<close> (\<^verbatim>\<open>authz_policy_rollback.go\<close>, \<^verbatim>\<open>authz_simulation.go\<close>): the two administration handlers.
  \<^item> \<open>Cron\<close>, \<open>Scheduler\<close> (\<^verbatim>\<open>internal/scheduler\<close>): cron expressions, the keyed lock, one run with retries, the tick loop.
  \<^item> \<open>Scan_Queue\<close> (\<^verbatim>\<open>internal/db/memory.go\<close>), \<open>Scan_Source\<close>, \<open>Scan_Worker\<close> (\<^verbatim>\<open>internal/api/service.go\<close>,
    \<^verbatim>\<open>internal/worker/worker.go\<close>): the queue, the binding of a scan to its source, the worker and its batches.
  \<^item> \<open>Account_Store\<close> (\<^verbatim>\<open>internal/db/memory_auth.go\<close>), \<open>Tenancy_Store\<close> (\<^verbatim>\<open>internal/db/memory_tenancy.go\<close>): accounts,
    identities and sessions; organizations, workspaces with their lifecycle, members, ownership. Together
    they give the account operations that \<open>Authz_Roles\<close> takes as a record: \<open>account_store\<close>.
  \<^item> \<open>Workspace_Lifecycle\<close> (\<^verbatim>\<open>internal/api/service.go\<close>): the owner's operations on a workspace; they refine the state
    machine \<open>phase_step\<close>.
  \<^item> \<open>Workspace_Purge\<close> (\<^verbatim>\<open>internal/db/memory_tenancy.go\<close>, \<^verbatim>\<open>internal/userpurge\<close>, \<^verbatim>\<open>internal/workspacepurge\<close>): removal of
    organizations and workspaces, and the two purge workers.

  How code is represented. A Go function is a HOL function of the same name; a method that changes the
  store takes the tables and returns them new, or an error, in which case they stay as they were (each
  method holds the store's mutex, so it is one step). A Go \<^verbatim>\<open>error\<close> is \<open>go_error\<close>, a fallible result
  \<open>go_error + 'a\<close>. A Go map is an association list that stands for any order of iteration. Where the code
  reads a clock, draws a UUID, hashes, verifies a token or calls a package outside the repository, that is an argument
  (\<open>Env\<close>, \<open>AccountEnv\<close>, \<open>Outside\<close>, the parameters of the authentication and of the limiter); a property
  that relies on it names what it relies on. Times are integers of nanoseconds; 64-bit wrap-around is
  written out (\<open>wrap64\<close>) where the source computes with values from outside: policy version numbers and cron steps.

  What the lemmas show. Each store has a well-formedness predicate (\<open>wf_store\<close>, \<open>queue_ok\<close>, \<open>accounts_ok\<close>,
  \<open>tenancy_ok\<close>), a step relation of its operations, preservation by every operation and so the predicate
  of every reachable state; the properties of a component are proved from it. Interfaces are locales:
  what a client relies on is the \<open>assumes\<close>, the client's laws are proved inside, and the locale is
  interpreted on the model's own operations (the relation store of the evaluators, the lock, the tables a
  resolver reads, the rows a purge pass takes). Properties that span components: a request that passes the
  middlewares was allowed on an input inside the caller's tenant (\<open>Authz_Middleware\<close>), a rollback decides the
  requests that follow it (\<open>Policy_Admin\<close>), the roles the policy sees come from stored rows
  (\<open>Tenancy_Store\<close>), a workspace in grace can be cancelled exactly while no purge takes it
  (\<open>Workspace_Lifecycle\<close>), and a purge removes it from every table it drains (\<open>Workspace_Purge\<close>).

  Bounds. Loops over data are structural recursions. The cron search walks back at most 366 days of
  minutes, as the source does; parsing is total although a step may overflow. The worker's batch is bounded by its
  size: with more slots than the queue has runs left it drains the queue. A purge pass takes at most
  one batch; \<open>k\<close> passes take \<open>k\<close> batches, so a backlog of \<open>n\<close> rows is gone after \<open>n / batch\<close> passes, rounded up.

  Not modelled. The PostgreSQL adapters (their behaviour is that of SQL and row-level security); the collectors
  and normalizers for AWS, Kubernetes and GitHub objects and the repository scanner (parameters of the
  worker, driven by external APIs and regular expressions); JSON decoding, HTTP responses beyond status
  and error, routing; findings, reports, remediation and their queries; the in-memory tables of projects, scan
  policies, connectors and onboarding beyond what a purge removes of them; enterprise sign-on, e-mail and
  exports; audit records beyond the fields a property reads; metrics, tracing, configuration and the
  command line; the interleaving of goroutines inside one store method, which the mutex rules out.
\<close>

end
